(* ===== verification/Prelude.thy ===== *)
theory Prelude
  imports Complex_Main
begin

text \<open>
  The vocabulary every theory of this library shares.

  \<^item> Tables. A PostgreSQL table is the list of its rows, in insertion order. The four
    statement shapes the repositories use (select, update, delete, and the test a unique
    index makes before an insert) are \<open>rows\<close>, \<open>update_where\<close>, \<open>delete_where\<close> and
    \<open>taken\<close>; \<open>unique_on\<close> says that a unique index holds.
  \<^item> Transactions. \<open>'a txn\<close>-shaped functions return \<open>Inl\<close> an error or \<open>Inr\<close> a result with
    the next state. A failure carries no state, which is what a rolled-back transaction
    leaves behind. \<open>bindT\<close> runs two of them one after the other.
  \<^item> Collections of rules: \<open>txn_simps\<close> evaluates a transaction, \<open>frame_simps\<close> holds what an
    operation leaves unchanged.
\<close>

named_theorems txn_simps \<open>evaluation of transactions\<close>
named_theorems frame_simps \<open>what an operation leaves unchanged\<close>

section \<open>Tables\<close>

definition rows :: "('r \<Rightarrow> bool) \<Rightarrow> 'r list \<Rightarrow> 'r list" where
  "rows P t = filter P t"

definition first_row :: "('r \<Rightarrow> bool) \<Rightarrow> 'r list \<Rightarrow> 'r option" where
  "first_row P t = List.find P t"

definition update_where :: "('r \<Rightarrow> bool) \<Rightarrow> ('r \<Rightarrow> 'r) \<Rightarrow> 'r list \<Rightarrow> 'r list" where
  "update_where P f t = map (\<lambda>r. if P r then f r else r) t"

definition delete_where :: "('r \<Rightarrow> bool) \<Rightarrow> 'r list \<Rightarrow> 'r list" where
  "delete_where P t = filter (\<lambda>r. \<not> P r) t"

definition taken :: "('r \<Rightarrow> 'k) \<Rightarrow> 'r \<Rightarrow> 'r list \<Rightarrow> bool" where
  "taken key r t \<longleftrightarrow> key r \<in> set (map key t)"

definition unique_on :: "('r \<Rightarrow> 'k) \<Rightarrow> 'r list \<Rightarrow> bool" where
  "unique_on key t \<longleftrightarrow> distinct (map key t)"

lemma first_row_Some_iff_unique:
  assumes "unique_on key t" and "\<And>r. P r \<longleftrightarrow> key r = k"
  shows "first_row P t = Some r \<longleftrightarrow> r \<in> set t \<and> key r = k"
  using assms
proof (induction t)
  case Nil
  then show ?case by (simp add: first_row_def)
next
  case (Cons a t)
  then show ?case
    by (auto simp: first_row_def unique_on_def image_iff)
qed

lemma first_row_SomeD:
  "first_row P t = Some r \<Longrightarrow> r \<in> set t \<and> P r"
  by (auto simp: first_row_def find_Some_iff)

lemma first_row_None_iff:
  "first_row P t = None \<longleftrightarrow> (\<forall>r \<in> set t. \<not> P r)"
  by (auto simp: first_row_def find_None_iff)

lemma first_row_append:
  "first_row P (t @ u) = (case first_row P t of None \<Rightarrow> first_row P u | Some r \<Rightarrow> Some r)"
  by (induction t) (auto simp: first_row_def)

lemma first_row_Cons [simp]:
  "first_row P (r # t) = (if P r then Some r else first_row P t)"
  "first_row P [] = None"
  by (auto simp: first_row_def)

lemma unique_on_Cons [simp]:
  "unique_on key (r # t) \<longleftrightarrow> \<not> taken key r t \<and> unique_on key t"
  by (auto simp: unique_on_def taken_def)

lemma not_takenD: "\<not> taken key r t \<Longrightarrow> s \<in> set t \<Longrightarrow> key s \<noteq> key r"
  by (auto simp: taken_def image_iff)

lemma first_row_unique:
  assumes "unique_on key t" "r \<in> set t" "P r" "\<And>s. P s \<Longrightarrow> key s = key r"
  shows "first_row P t = Some r"
  using assms
proof (induction t)
  case Nil
  then show ?case by simp
next
  case (Cons a t)
  show ?case
  proof (cases "P a")
    case True
    with Cons.prems(4) have eq: "key a = key r" by blast
    have "\<not> taken key a t" using Cons.prems(1) by simp
    then have "r \<notin> set t" using eq not_takenD by metis
    with Cons.prems(2) have "a = r" by simp
    with True show ?thesis by simp
  next
    case False
    with Cons.prems(2,3) have "r \<in> set t" by auto
    moreover have "unique_on key t" using Cons.prems(1) by simp
    ultimately have "first_row P t = Some r"
      using Cons.prems(3,4) by (intro Cons.IH)
    with False show ?thesis by simp
  qed
qed

lemma set_rows [simp]: "set (rows P t) = {r \<in> set t. P r}"
  by (auto simp: rows_def)

lemma set_update_where:
  "set (update_where P f t) = f ` {r \<in> set t. P r} \<union> {r \<in> set t. \<not> P r}"
  by (auto simp: update_where_def)

lemma in_update_where: "r \<in> set t \<Longrightarrow> P r \<Longrightarrow> f r \<in> set (update_where P f t)"
  by (simp add: set_update_where)

lemma in_update_where_other: "r \<in> set t \<Longrightarrow> \<not> P r \<Longrightarrow> r \<in> set (update_where P f t)"
  by (simp add: set_update_where)

lemma set_delete_where [simp]: "set (delete_where P t) = {r \<in> set t. \<not> P r}"
  by (auto simp: delete_where_def)

lemma length_update_where [simp]: "length (update_where P f t) = length t"
  by (simp add: update_where_def)

lemma update_where_id: "(\<And>r. r \<in> set t \<Longrightarrow> \<not> P r) \<Longrightarrow> update_where P f t = t"
  by (auto simp: update_where_def intro: map_idI)

lemma map_update_where:
  "(\<And>r. g (f r) = g r) \<Longrightarrow> map g (update_where P f t) = map g t"
  by (auto simp: update_where_def)

lemma rows_update_where:
  "(\<And>r. Q (f r) = Q r) \<Longrightarrow> rows Q (update_where P f t) = update_where P f (rows Q t)"
  by (induction t) (auto simp: rows_def update_where_def)

lemma rows_append [simp]: "rows P (t @ u) = rows P t @ rows P u"
  by (simp add: rows_def)

lemma rows_Cons: "rows P (r # t) = (if P r then r # rows P t else rows P t)"
  "rows P [] = []"
  by (simp_all add: rows_def)

lemma unique_on_update_where:
  "(\<And>r. key (f r) = key r) \<Longrightarrow> unique_on key (update_where P f t) = unique_on key t"
  by (simp add: unique_on_def map_update_where)

lemma unique_on_delete_where:
  "unique_on key t \<Longrightarrow> unique_on key (delete_where P t)"
  by (simp add: unique_on_def delete_where_def distinct_map_filter)

lemma unique_on_snoc [simp]:
  "unique_on key (t @ [r]) \<longleftrightarrow> unique_on key t \<and> \<not> taken key r t"
  by (auto simp: unique_on_def taken_def)

lemma unique_on_Nil [simp]: "unique_on key []"
  by (simp add: unique_on_def)

lemma unique_onD:
  "unique_on key t \<Longrightarrow> r \<in> set t \<Longrightarrow> s \<in> set t \<Longrightarrow> key r = key s \<Longrightarrow> r = s"
  by (simp add: unique_on_def distinct_map inj_on_def)

lemma update_where_single:
  assumes "unique_on key t" "r \<in> set t" "P r" "\<And>s. s \<in> set t \<Longrightarrow> P s \<Longrightarrow> s = r"
  shows "update_where P f t = update_where (\<lambda>s. key s = key r) (\<lambda>_. f r) t"
  unfolding update_where_def
proof (rule map_cong)
  fix s assume s: "s \<in> set t"
  have "P s \<longleftrightarrow> s = r" using assms(3) assms(4)[OF s] by blast
  moreover have "key s = key r \<longleftrightarrow> s = r" using unique_onD[OF assms(1) s assms(2)] by blast
  ultimately show "(if P s then f s else s) = (if key s = key r then f r else s)" by simp
qed simp

lemma distinct_other:
  assumes "distinct xs" "x \<in> set xs" "length xs \<noteq> 1"
  obtains y where "y \<in> set xs" "y \<noteq> x"
proof -
  have "set xs \<noteq> {x}" using distinct_card[OF assms(1)] assms(3) by auto
  with assms(2) that show ?thesis by blast
qed

lemma rows_single:
  assumes "unique_on key t" "r \<in> set t" "P r" "\<And>s. s \<in> set t \<Longrightarrow> P s \<Longrightarrow> s = r"
  shows "rows P t = [r]"
  using assms
proof (induction t)
  case Nil
  then show ?case by simp
next
  case (Cons a t)
  show ?case
  proof (cases "P a")
    case True
    then have a: "a = r" using Cons.prems(4) by simp
    then have "r \<notin> set t" using Cons.prems(1) by (auto simp: taken_def)
    then have "rows P t = []" using Cons.prems(4) by (auto simp: rows_def filter_empty_conv)
    with True a show ?thesis by (simp add: rows_def)
  next
    case False
    then have "r \<in> set t" using Cons.prems(2,3) by auto
    moreover have "unique_on key t" using Cons.prems(1) by simp
    ultimately have "rows P t = [r]" using Cons.prems(3,4) by (intro Cons.IH) auto
    with False show ?thesis by (simp add: rows_def)
  qed
qed

lemma unique_on_replace:
  assumes "unique_on key t" "r \<in> set t" "k r' = k r" "unique_on k t"
  shows "unique_on k (update_where (\<lambda>s. key s = key r) (\<lambda>_. r') t)"
proof -
  have "map k (update_where (\<lambda>s. key s = key r) (\<lambda>_. r') t) = map k t"
    unfolding update_where_def map_map comp_def
    by (rule map_cong) (use assms unique_onD in \<open>fastforce+\<close>)
  then show ?thesis using assms(4) by (simp add: unique_on_def)
qed

lemma in_set_replace:
  assumes "unique_on key t" "r \<in> set t" "key r' = key r"
  shows "s \<in> set (update_where (\<lambda>s. key s = key r) (\<lambda>_. r') t) \<longleftrightarrow>
    s = r' \<or> s \<in> set t \<and> key s \<noteq> key r"
  using assms by (auto simp: set_update_where)

section \<open>Transactions\<close>

definition returnT :: "'a \<Rightarrow> 's \<Rightarrow> 'e + 'a \<times> 's" where
  "returnT x = (\<lambda>s. Inr (x, s))"

definition throwT :: "'e \<Rightarrow> 's \<Rightarrow> 'e + 'a \<times> 's" where
  "throwT e = (\<lambda>s. Inl e)"

definition bindT ::
    "('s \<Rightarrow> 'e + 'a \<times> 's) \<Rightarrow> ('a \<Rightarrow> 's \<Rightarrow> 'e + 'b \<times> 's) \<Rightarrow> 's \<Rightarrow> 'e + 'b \<times> 's" where
  "bindT m f = (\<lambda>s. case m s of Inl e \<Rightarrow> Inl e | Inr (x, s') \<Rightarrow> f x s')"

definition selectT :: "('s \<Rightarrow> 'a) \<Rightarrow> 's \<Rightarrow> 'e + 'a \<times> 's" where
  "selectT g = (\<lambda>s. Inr (g s, s))"

lemma returnT_apply [simp, txn_simps]: "returnT x s = Inr (x, s)"
  by (simp add: returnT_def)

lemma throwT_apply [simp, txn_simps]: "throwT e s = Inl e"
  by (simp add: throwT_def)

lemma selectT_apply [simp, txn_simps]: "selectT g s = Inr (g s, s)"
  by (simp add: selectT_def)

lemma bindT_returnT [simp, txn_simps]: "bindT (returnT x) f = f x"
  by (simp add: bindT_def fun_eq_iff)

lemma bindT_throwT [simp, txn_simps]: "bindT (throwT e) f = throwT e"
  by (simp add: bindT_def throwT_def fun_eq_iff)

lemma bindT_selectT [simp, txn_simps]: "bindT (selectT g) f s = f (g s) s"
  by (simp add: bindT_def)

lemma bindT_Inr_iff:
  "bindT m f s = Inr r \<longleftrightarrow> (\<exists>x s'. m s = Inr (x, s') \<and> f x s' = Inr r)"
  by (auto simp: bindT_def split: sum.splits)

lemma bindT_Inl_iff:
  "bindT m f s = Inl e \<longleftrightarrow> m s = Inl e \<or> (\<exists>x s'. m s = Inr (x, s') \<and> f x s' = Inl e)"
  by (auto simp: bindT_def split: sum.splits)

lemma bindT_assoc: "bindT (bindT m f) g = bindT m (\<lambda>x. bindT (f x) g)"
  by (auto simp: bindT_def fun_eq_iff split: sum.splits)

text \<open>
  \<open>keeps I m\<close>: whenever the transaction \<open>m\<close> commits from a state that satisfies \<open>I\<close>, the
  state it commits satisfies \<open>I\<close> too. The rules below follow the structure of a transaction,
  so an invariant is proved for its statements and then follows for the whole.
\<close>

definition keeps :: "('s \<Rightarrow> bool) \<Rightarrow> ('s \<Rightarrow> 'e + 'a \<times> 's) \<Rightarrow> bool" where
  "keeps I m \<longleftrightarrow> (\<forall>s x s'. I s \<longrightarrow> m s = Inr (x, s') \<longrightarrow> I s')"

named_theorems keeps_rules \<open>invariants of transactions, by their structure\<close>

lemma keepsI: "(\<And>s x s'. I s \<Longrightarrow> m s = Inr (x, s') \<Longrightarrow> I s') \<Longrightarrow> keeps I m"
  by (auto simp: keeps_def)

lemma keepsD: "keeps I m \<Longrightarrow> I s \<Longrightarrow> m s = Inr (x, s') \<Longrightarrow> I s'"
  by (auto simp: keeps_def)

lemma keeps_returnT [keeps_rules]: "keeps I (returnT x)"
  by (auto simp: keeps_def)

lemma keeps_throwT [keeps_rules]: "keeps I (throwT e)"
  by (auto simp: keeps_def)

lemma keeps_selectT [keeps_rules]: "keeps I (selectT g)"
  by (auto simp: keeps_def)

lemma keeps_bindT [keeps_rules]:
  "keeps I m \<Longrightarrow> (\<And>x. keeps I (f x)) \<Longrightarrow> keeps I (bindT m f)"
  unfolding keeps_def bindT_Inr_iff by blast

lemma keeps_if [keeps_rules]:
  "keeps I m \<Longrightarrow> keeps I n \<Longrightarrow> keeps I (if b then m else n)"
  by simp

section \<open>Checks that may fail\<close>

text \<open>\<open>bindR\<close> goes on with a result or keeps the error; \<open>checkR\<close> is a guard that throws.\<close>

fun bindR :: "'e + 'a \<Rightarrow> ('a \<Rightarrow> 'e + 'b) \<Rightarrow> 'e + 'b" where
  "bindR (Inl e) f = Inl e"
| "bindR (Inr x) f = f x"

lemma bindR_Inr_iff [simp]: "bindR m f = Inr y \<longleftrightarrow> (\<exists>x. m = Inr x \<and> f x = Inr y)"
  by (cases m) auto

definition checkR :: "bool \<Rightarrow> 'e \<Rightarrow> 'e + unit" where
  "checkR ok e = (if ok then Inr () else Inl e)"

lemma checkR_Inr_iff [simp]: "checkR ok e = Inr u \<longleftrightarrow> ok"
  by (simp add: checkR_def)

section \<open>Transition systems\<close>

text \<open>
  The contract of every state machine of the library: a set of starting states, a step
  relation, and an invariant that holds at the start and is kept by each step. What follows
  once for all is that the invariant holds after any number of steps.
\<close>

locale transition_system =
  fixes start :: "'s \<Rightarrow> bool"
    and step :: "'s \<Rightarrow> 's \<Rightarrow> bool"
    and invar :: "'s \<Rightarrow> bool"
  assumes invar_start: "start s \<Longrightarrow> invar s"
    and invar_step: "invar s \<Longrightarrow> step s s' \<Longrightarrow> invar s'"
begin

lemma invar_steps:
  assumes "step\<^sup>*\<^sup>* s s'" and "invar s"
  shows "invar s'"
  using assms by (induction rule: rtranclp_induct) (auto intro: invar_step)

lemma invar_reachable:
  assumes "start s" and "step\<^sup>*\<^sup>* s s'"
  shows "invar s'"
  using assms invar_start invar_steps by blast

end

end
