(* ===== verification/JsString.thy ===== *)
theory JsString
  imports Prelude
begin

text \<open>
  The JavaScript (and Lua) string operations the program uses, over \<open>string\<close> = \<open>char list\<close>.
  A \<open>char\<close> stands for one UTF-16 code unit below 256, so \<open>length\<close>, \<open>slice\<close> and comparison
  count what JavaScript counts, and the white space that \<open>trim\<close> removes is the part of
  ECMAScript's WhiteSpace and LineTerminator below 256. Numbers are printed in decimal, as
  \<open>String(n)\<close> prints a safe integer.
\<close>

section \<open>White space and slices\<close>

definition js_space :: "char \<Rightarrow> bool" where
  "js_space c \<longleftrightarrow> (of_char c :: nat) \<in> {9, 10, 11, 12, 13, 32, 160}"

definition trim :: "string \<Rightarrow> string" where
  "trim s = rev (dropWhile js_space (rev (dropWhile js_space s)))"

definition slice_prefix :: "nat \<Rightarrow> string \<Rightarrow> string" where
  "slice_prefix n s = take n s"

lemma dropWhile_rev_dropWhile:
  "(xs = [] \<or> \<not> p (hd xs)) \<Longrightarrow>
    (let ys = rev (dropWhile p (rev xs)) in ys = [] \<or> \<not> p (hd ys))"
proof (induction xs)
  case Nil
  then show ?case by simp
next
  case (Cons x xs)
  then have x: "\<not> p x" by simp
  then have "rev (dropWhile p (rev (x # xs))) = x # rev (dropWhile p (rev xs))"
    by (cases "\<forall>y \<in> set xs. p y")
      (auto simp: dropWhile_append dropWhile_eq_Nil_conv)
  with x show ?case by simp
qed

lemma trim_no_leading: "trim s = [] \<or> \<not> js_space (hd (trim s))"
proof -
  have "dropWhile js_space s = [] \<or> \<not> js_space (hd (dropWhile js_space s))"
    using hd_dropWhile[of js_space s] by auto
  from dropWhile_rev_dropWhile[of _ js_space, OF this] show ?thesis
    by (simp add: trim_def Let_def)
qed

lemma trim_no_trailing: "trim s = [] \<or> \<not> js_space (last (trim s))"
  unfolding trim_def
  using hd_dropWhile[of js_space "rev (dropWhile js_space s)"]
  by (auto simp: last_rev)

lemma dropWhile_hd_id: "xs = [] \<or> \<not> p (hd xs) \<Longrightarrow> dropWhile p xs = xs"
  by (cases xs) auto

lemma trim_trim [simp]: "trim (trim s) = trim s"
proof -
  have "dropWhile js_space (trim s) = trim s"
    by (rule dropWhile_hd_id) (rule trim_no_leading)
  moreover have "dropWhile js_space (rev (trim s)) = rev (trim s)"
    by (rule dropWhile_hd_id) (use trim_no_trailing[of s] in \<open>auto simp: hd_rev\<close>)
  ultimately show ?thesis by (metis trim_def rev_rev_ident)
qed

lemma length_trim: "length (trim s) \<le> length s"
proof -
  have "length (dropWhile js_space (rev (dropWhile js_space s))) \<le> length (dropWhile js_space s)"
    by (metis length_dropWhile_le length_rev)
  also have "\<dots> \<le> length s" by (rule length_dropWhile_le)
  finally show ?thesis by (simp add: trim_def)
qed

section \<open>Lower case\<close>

text \<open>\<open>toLowerCase\<close> on the code units below 256.\<close>

definition latin_lower :: "char \<Rightarrow> char" where
  "latin_lower c =
    (let n = (of_char c :: nat) in
     if 65 \<le> n \<and> n \<le> 90 \<or> 192 \<le> n \<and> n \<le> 222 \<and> n \<noteq> 215 then char_of (n + 32) else c)"

definition toLowerCase :: "string \<Rightarrow> string" where
  "toLowerCase s = map latin_lower s"

lemma of_char_latin_lower:
  "(of_char (latin_lower c) :: nat) =
    (let n = (of_char c :: nat) in
     if 65 \<le> n \<and> n \<le> 90 \<or> 192 \<le> n \<and> n \<le> 222 \<and> n \<noteq> 215 then n + 32 else n)"
  by (simp add: latin_lower_def Let_def)

lemma latin_lower_idem [simp]: "latin_lower (latin_lower c) = latin_lower c"
  using of_char_latin_lower[of c] by (subst latin_lower_def) (auto simp: Let_def)

lemma latin_lower_space [simp]: "js_space (latin_lower c) = js_space c"
  by (simp add: js_space_def of_char_latin_lower Let_def)

lemma toLowerCase_idem [simp]: "toLowerCase (toLowerCase s) = toLowerCase s"
  by (simp add: toLowerCase_def)

section \<open>Decimal integers\<close>

definition digit :: "nat \<Rightarrow> char" where
  "digit n = char_of (48 + n)"

definition is_digit :: "char \<Rightarrow> bool" where
  "is_digit c \<longleftrightarrow> 48 \<le> (of_char c :: nat) \<and> (of_char c :: nat) \<le> 57"

definition digit_val :: "char \<Rightarrow> nat" where
  "digit_val c = of_char c - 48"

fun show_nat :: "nat \<Rightarrow> string" where
  "show_nat n = (if n < 10 then [digit n] else show_nat (n div 10) @ [digit (n mod 10)])"

declare show_nat.simps [simp del]

definition show_int :: "int \<Rightarrow> string" where
  "show_int i = (if i < 0 then CHR ''-'' # show_nat (nat (- i)) else show_nat (nat i))"

definition digits_val :: "string \<Rightarrow> nat" where
  "digits_val s = foldl (\<lambda>a c. 10 * a + digit_val c) 0 s"

definition read_nat :: "string \<Rightarrow> nat option" where
  "read_nat s = (if s \<noteq> [] \<and> list_all is_digit s then Some (digits_val s) else None)"

lemma is_digit_digit [simp]: "n < 10 \<Longrightarrow> is_digit (digit n)"
  by (simp add: is_digit_def digit_def)

lemma digit_val_digit [simp]: "n < 10 \<Longrightarrow> digit_val (digit n) = n"
  by (simp add: digit_val_def digit_def)

lemma show_nat_digits: "list_all is_digit (show_nat n)"
  by (induction n rule: show_nat.induct) (subst show_nat.simps, simp)

lemma show_nat_nonempty [simp]: "show_nat n \<noteq> []"
  by (subst show_nat.simps) simp

lemma digits_val_snoc: "digits_val (s @ [c]) = 10 * digits_val s + digit_val c"
  by (simp add: digits_val_def)

lemma digits_val_show_nat: "digits_val (show_nat n) = n"
proof (induction n rule: show_nat.induct)
  case (1 n)
  show ?case
  proof (cases "n < 10")
    case True
    then show ?thesis by (subst show_nat.simps) (simp add: digits_val_def)
  next
    case False
    with 1 have "digits_val (show_nat (n div 10)) = n div 10" by simp
    with False show ?thesis by (subst show_nat.simps) (simp add: digits_val_snoc)
  qed
qed

lemma read_show_nat [simp]: "read_nat (show_nat n) = Some n"
  by (simp add: read_nat_def show_nat_digits digits_val_show_nat)

lemma show_nat_inj [simp]: "show_nat m = show_nat n \<longleftrightarrow> m = n"
  by (metis digits_val_show_nat)

lemma show_nat_set: "c \<in> set (show_nat n) \<Longrightarrow> is_digit c"
  using show_nat_digits[of n] by (auto simp: list_all_iff)

lemma show_int_inj [simp]: "show_int m = show_int n \<longleftrightarrow> m = n"
proof -
  have "CHR ''-'' \<notin> set (show_nat k)" for k
    using show_nat_set[of "CHR ''-''" k] by (auto simp: is_digit_def)
  then have "CHR ''-'' # xs \<noteq> show_nat k" for xs k
    by (metis list.set_intros(1))
  then show ?thesis by (auto simp: show_int_def) (metis)
qed

section \<open>Splitting at a separator\<close>

text \<open>
  \<open>split_first c s\<close> is \<open>s\<close> cut at the first \<open>c\<close> (Lua's \<open>string.find\<close> with a plain pattern,
  followed by \<open>string.sub\<close> on both sides), and \<open>split_last c s\<close> at the last one
  (\<open>lastIndexOf\<close> and \<open>slice\<close>). \<open>split_on\<close> is JavaScript's \<open>split\<close> with a one-character
  separator.
\<close>

definition split_first :: "char \<Rightarrow> string \<Rightarrow> (string \<times> string) option" where
  "split_first c s =
    (if c \<in> set s then Some (takeWhile (\<lambda>x. x \<noteq> c) s, tl (dropWhile (\<lambda>x. x \<noteq> c) s)) else None)"

definition split_last :: "char \<Rightarrow> string \<Rightarrow> (string \<times> string) option" where
  "split_last c s =
    (case split_first c (rev s) of None \<Rightarrow> None | Some (a, b) \<Rightarrow> Some (rev b, rev a))"

fun split_on :: "char \<Rightarrow> string \<Rightarrow> string list" where
  "split_on c [] = [[]]"
| "split_on c (x # xs) =
    (if x = c then [] # split_on c xs
     else (case split_on c xs of [] \<Rightarrow> [[x]] | y # ys \<Rightarrow> (x # y) # ys))"

lemma split_first_append [simp]:
  "c \<notin> set a \<Longrightarrow> split_first c (a @ c # b) = Some (a, b)"
  by (simp add: split_first_def takeWhile_append dropWhile_append)

lemma split_first_None [simp]: "c \<notin> set s \<Longrightarrow> split_first c s = None"
  by (simp add: split_first_def)

lemma split_first_Some_iff:
  "split_first c s = Some (a, b) \<longleftrightarrow> s = a @ c # b \<and> c \<notin> set a"
proof
  assume "split_first c s = Some (a, b)"
  then have c: "c \<in> set s" and a: "a = takeWhile (\<lambda>x. x \<noteq> c) s"
    and b: "b = tl (dropWhile (\<lambda>x. x \<noteq> c) s)"
    by (auto simp: split_first_def split: if_splits)
  have ne: "dropWhile (\<lambda>x. x \<noteq> c) s \<noteq> []" using c by (auto simp: dropWhile_eq_Nil_conv)
  then have "hd (dropWhile (\<lambda>x. x \<noteq> c) s) = c"
    using hd_dropWhile[OF ne] by simp
  with ne b have "dropWhile (\<lambda>x. x \<noteq> c) s = c # b" by (metis list.collapse)
  then have "s = a @ c # b" using a by (metis takeWhile_dropWhile_id)
  moreover have "c \<notin> set a" using a by (auto dest: set_takeWhileD)
  ultimately show "s = a @ c # b \<and> c \<notin> set a" by blast
qed auto

lemma split_last_append [simp]:
  "c \<notin> set b \<Longrightarrow> split_last c (a @ c # b) = Some (a, b)"
  by (simp add: split_last_def)

lemma split_last_None [simp]: "c \<notin> set s \<Longrightarrow> split_last c s = None"
  by (simp add: split_last_def)

lemma split_on_nonempty [simp]: "split_on c s \<noteq> []"
  by (cases s) (auto split: list.splits)

end
