(* ===== verification/Entities.thy ===== *)
theory Entities
  imports JsString
begin

text \<open>
  The domain data of \<open>apps/server/src/domain\<close>: \<open>entities.ts\<close>, \<open>errors.ts\<close>,
  \<open>licenseLimits.ts\<close>, \<open>usageEvent.ts\<close> and the result types of the repository interfaces.

  \<^item> A \<open>Date\<close> is its time value, milliseconds since the epoch, as an \<open>int\<close>; \<open>null\<close> and
    \<open>undefined\<close> are \<open>None\<close>, and a field that may be absent as well as null is an option of an
    option.
  \<^item> A JavaScript \<open>number\<close> that comes from outside is a \<open>jsnum\<close>, so that \<open>Number.isInteger\<close>
    is a test the model can fail; a number the code has checked is an \<open>int\<close>.
  \<^item> \<open>License\<close> and the stored row share their fields: \<open>license_base\<close> is extended by
    \<open>keyHash\<close> in the table and by \<open>billingRevokedAt\<close> in the domain, and
    \<open>LicenseWithAllowlists\<close> extends the domain licence again, as in the source.
  \<^item> An exception is a value of \<open>failure\<close>: a \<open>DomainError\<close> with its message, status and
    code, a \<open>StripeIntegrationError\<close>, a \<open>StripeWebhookSignatureError\<close>, an error of the Stripe
    client with its status and code, a rejected database statement, a plain \<open>Error\<close>, or a lost
    connection.
\<close>

section \<open>Numbers and JSON\<close>

datatype jsnum = Integral int | Fractional rat | NonFinite

fun isInteger :: "jsnum \<Rightarrow> bool" where
  "isInteger (Integral i) = True"
| "isInteger _ = False"

datatype json =
    JNull
  | JBool bool
  | JNum jsnum
  | JStr string
  | JArr "json list"
  | JObj "(string \<times> json) list"

type_synonym json_object = "(string \<times> json) list"

section \<open>Entities\<close>

datatype license_type = Lifetime | Subscription | Metered | Trial

fun license_type_name :: "license_type \<Rightarrow> string" where
  "license_type_name Lifetime = ''lifetime''"
| "license_type_name Subscription = ''subscription''"
| "license_type_name Metered = ''metered''"
| "license_type_name Trial = ''trial''"

definition LICENSE_TYPES :: "string list" where
  "LICENSE_TYPES = map license_type_name [Lifetime, Subscription, Metered, Trial]"

record customer =
  c_id :: string
  c_email :: string
  c_name :: string
  c_metadata :: json_object
  c_createdAt :: int
  c_updatedAt :: int

record type_drafts =
  d_lifetime :: "json_object option"
  d_subscription :: "string option option"
  d_metered :: "string list option"
  d_trial :: "int option"

record license_base =
  l_id :: string
  l_keyPrefix :: string
  l_customerId :: string
  l_type :: license_type
  l_maxIps :: int
  l_maxDevices :: int
  l_maxSessions :: int
  l_sessionRevision :: int
  l_trialDurationMinutes :: int
  l_trialStartedAt :: "int option"
  l_metadata :: json_object
  l_expiresAt :: "int option"
  l_typeDrafts :: type_drafts
  l_manualRevokedAt :: "int option"
  l_manualRevocationReason :: "string option"
  l_createdAt :: int
  l_updatedAt :: int

record stored_license = license_base +
  l_keyHash :: string

record license = license_base +
  l_billingRevokedAt :: "int option"

record ip_allow =
  ia_id :: string
  ia_licenseId :: string
  ia_ip :: string
  ia_createdAt :: int

record device_allow =
  da_id :: string
  da_licenseId :: string
  da_deviceId :: string
  da_createdAt :: int

record registered_device =
  rd_id :: string
  rd_licenseId :: string
  rd_ip :: string
  rd_deviceId :: string
  rd_createdAt :: int
  rd_lastSeenAt :: int

record license_with_allowlists = license +
  l_allowedIps :: "ip_allow list"
  l_allowedDevices :: "device_allow list"

record revealed_license = license +
  l_licenseKey :: string

record new_license_meter =
  nm_name :: string
  nm_balance :: int
  nm_reason :: string

record new_license =
  nl_licenseKey :: string
  nl_customerId :: string
  nl_type :: license_type
  nl_maxIps :: int
  nl_maxDevices :: int
  nl_maxSessions :: int
  nl_trialDurationMinutes :: int
  nl_trialStartedAt :: "int option"
  nl_metadata :: json_object
  nl_expiresAt :: "int option"
  nl_typeDrafts :: type_drafts
  nl_meters :: "new_license_meter list"

datatype license_status = Active | Expired | Revoked

datatype license_status_reason =
    Manual_revocation
  | Billing_revocation
  | Subscription_expired
  | Trial_expired

record effective_license_status =
  es_status :: license_status
  es_reason :: "license_status_reason option"

datatype meter_ledger_kind = Create | Consume | Top_up | Adjustment | Archive

record license_meter =
  m_id :: string
  m_licenseId :: string
  m_name :: string
  m_balance :: int
  m_archivedAt :: "int option"
  m_createdAt :: int
  m_updatedAt :: int

record usage_ledger_entry =
  e_id :: string
  e_licenseId :: string
  e_meterId :: string
  e_eventId :: string
  e_kind :: meter_ledger_kind
  e_delta :: int
  e_balanceBefore :: int
  e_balanceAfter :: int
  e_reason :: "string option"
  e_createdAt :: int

datatype activity_event_type =
    Customer_created | Customer_updated | Customer_deleted
  | License_created | License_updated | License_type_changed | License_deleted
  | License_revoked | License_restored | License_key_rotated
  | License_activation_attempted | License_activation_succeeded | License_activation_rejected
  | License_heartbeat | License_deactivated
  | Meter_created | Meter_archived | Meter_adjusted
  | Usage_consumed | Usage_rejected
  | Stripe_linked | Stripe_unlinked | Stripe_synchronized | Stripe_webhook_failed

datatype activity_source = Operator | Client | Stripe | System

datatype activity_outcome = Success | Rejected | Error

record activity_event =
  a_id :: string
  a_type :: activity_event_type
  a_source :: activity_source
  a_outcome :: activity_outcome
  a_reason :: "string option"
  a_licenseId :: "string option"
  a_customerId :: "string option"
  a_keyPrefix :: "string option"
  a_ip :: "string option"
  a_deviceId :: "string option"
  a_details :: json_object
  a_createdAt :: int

record new_activity_event =
  na_type :: activity_event_type
  na_source :: activity_source
  na_outcome :: "activity_outcome option"
  na_reason :: "string option"
  na_licenseId :: "string option"
  na_customerId :: "string option"
  na_keyPrefix :: "string option"
  na_ip :: "string option"
  na_deviceId :: "string option"
  na_details :: "json_object option"
  na_createdAt :: "int option"

datatype activity_scope = Global | Customer_scope | License_scope

record activity_total =
  at_scope :: activity_scope
  at_scopeId :: string
  at_type :: activity_event_type
  at_count :: int

record activity_minute_bucket = activity_total +
  at_minute :: int

record stripe_link =
  s_id :: string
  s_licenseId :: string
  s_subscriptionId :: string
  s_stripeCustomerId :: string
  s_status :: string
  s_paidThrough :: "int option"
  s_cancelAtPeriodEnd :: bool
  s_priceId :: "string option"
  s_billingRevokedAt :: "int option"
  s_lastSyncedAt :: "int option"
  s_lastError :: "string option"
  s_createdAt :: int
  s_updatedAt :: int

datatype webhook_status = Pending | Processing | Processed | Failed

record webhook_event =
  w_eventId :: string
  w_type :: string
  w_objectId :: "string option"
  w_status :: webhook_status
  w_attempts :: int
  w_nextAttemptAt :: int
  w_payload :: json
  w_lastError :: "string option"
  w_receivedAt :: int
  w_processedAt :: "int option"

section \<open>Errors\<close>

datatype api_error_code =
    INVALID_REQUEST | RATE_LIMITED | LICENSE_INVALID | LICENSE_REVOKED | LICENSE_EXPIRED
  | IP_NOT_ALLOWED | DEVICE_NOT_ALLOWED | SESSION_INVALID_OR_EXPIRED
  | CONCURRENT_SESSION_LIMIT | METER_NOT_FOUND | METER_ARCHIVED | METER_EXHAUSTED
  | USAGE_EVENT_CONFLICT | IP_REGISTRATION_LIMIT | DEVICE_REGISTRATION_LIMIT | INTERNAL_ERROR

record domain_error =
  de_message :: string
  de_statusCode :: int
  de_code :: api_error_code

datatype db_error =
    Unique_violation string
  | Foreign_key_violation string
  | Check_violation string
  | Numeric_out_of_range

datatype stripe_error_code =
    LICENSE_NOT_FOUND | LICENSE_TYPE_INVALID | LICENSE_ALREADY_LINKED
  | SUBSCRIPTION_ALREADY_LINKED | SUBSCRIPTION_PERIOD_MISSING

record stripe_error =
  se_message :: string
  se_code :: stripe_error_code
  se_statusCode :: int

datatype failure =
    Domain_error domain_error
  | Stripe_error stripe_error
  | Signature_error
  | Db_error db_error
  | Plain_error string
  | Stripe_api_error string int "string option"
  | Unavailable

type_synonym 'a result = "failure + 'a"

definition DomainError :: "string \<Rightarrow> int \<Rightarrow> api_error_code \<Rightarrow> failure" where
  "DomainError message statusCode code =
    Domain_error \<lparr>de_message = message, de_statusCode = statusCode, de_code = code\<rparr>"

definition InvalidRequest :: "string \<Rightarrow> failure" where
  "InvalidRequest message = DomainError message 400 INVALID_REQUEST"

definition NotFoundError :: "string \<Rightarrow> api_error_code \<Rightarrow> failure" where
  "NotFoundError resource code = DomainError (resource @ '' not found'') 404 code"

definition ConflictError :: "string \<Rightarrow> api_error_code \<Rightarrow> failure" where
  "ConflictError message code = DomainError message 409 code"

lemma DomainError_inject [simp]:
  "DomainError m s c = DomainError m' s' c' \<longleftrightarrow> m = m' \<and> s = s' \<and> c = c'"
  by (auto simp: DomainError_def)

lemma DomainError_distinct [simp]:
  "DomainError m s c \<noteq> Db_error e" "Db_error e \<noteq> DomainError m s c"
  "DomainError m s c \<noteq> Stripe_error se" "Stripe_error se \<noteq> DomainError m s c"
  "DomainError m s c \<noteq> Signature_error" "Signature_error \<noteq> DomainError m s c"
  "DomainError m s c \<noteq> Plain_error t" "Plain_error t \<noteq> DomainError m s c"
  "DomainError m s c \<noteq> Stripe_api_error t n k" "Stripe_api_error t n k \<noteq> DomainError m s c"
  "DomainError m s c \<noteq> Unavailable" "Unavailable \<noteq> DomainError m s c"
  by (auto simp: DomainError_def)

section \<open>Limits and digests\<close>

definition MAX_LICENSE_LIMIT :: int where
  "MAX_LICENSE_LIMIT = 2147483647"

text \<open>SHA-256 is a parameter: the model never looks inside a digest.\<close>

definition hashUsageEventId :: "(string \<Rightarrow> string) \<Rightarrow> string \<Rightarrow> string" where
  "hashUsageEventId sha256 eventId = sha256 eventId"

text \<open>PostgreSQL's four-byte \<open>integer\<close>.\<close>

definition int4 :: "int \<Rightarrow> bool" where
  "int4 i \<longleftrightarrow> - 2147483648 \<le> i \<and> i \<le> 2147483647"

lemma MAX_LICENSE_LIMIT_int4: "0 \<le> i \<Longrightarrow> i \<le> MAX_LICENSE_LIMIT \<longleftrightarrow> int4 i"
  by (auto simp: int4_def MAX_LICENSE_LIMIT_def)

section \<open>Results of the repository interfaces\<close>

datatype usage_consumption_result =
    Consumed license_meter usage_ledger_entry
  | Replayed license_meter usage_ledger_entry
  | Conflict
  | Not_found
  | Archived
  | Exhausted

datatype meter_adjustment_result =
    Adjusted license_meter usage_ledger_entry
  | Adj_not_found
  | Adj_archived
  | Adj_out_of_range

record session_binding =
  sb_ip :: string
  sb_deviceId :: string

record resolved_session =
  rs_licenseId :: string
  rs_sessionRevision :: int
  rs_token :: string

datatype session_registration_result = Registered string | Limit_reached

record license_device_usage =
  du_uniqueIps :: int
  du_uniqueDevices :: int
  du_ipRegistered :: bool
  du_deviceRegistered :: bool

record access_attempt =
  aa_value :: string
  aa_attemptCount :: int
  aa_firstAttemptedAt :: int
  aa_lastAttemptedAt :: int

record access_records =
  ar_allowedIps :: "ip_allow list"
  ar_allowedDevices :: "device_allow list"
  ar_registeredDevices :: "registered_device list"
  ar_attemptedIps :: "access_attempt list"
  ar_attemptedDevices :: "access_attempt list"

end
