(* ===== verification/LicenseStatus.thy ===== *)
theory LicenseStatus
  imports Entities
begin

text \<open>
  \<open>domain/licenseStatus.ts\<close>: the one function that decides whether a licence may be used.
  The lemmas give its precedence (a manual revocation wins over a billing revocation, which
  wins over any expiry), characterise each outcome, and show that time alone never turns an
  expired or revoked licence active again.
\<close>

definition deriveLicenseStatus :: "'a license_scheme \<Rightarrow> int \<Rightarrow> effective_license_status" where
  "deriveLicenseStatus license now =
    (if l_manualRevokedAt license \<noteq> None then
       \<lparr>es_status = Revoked, es_reason = Some Manual_revocation\<rparr>
     else if l_billingRevokedAt license \<noteq> None then
       \<lparr>es_status = Revoked, es_reason = Some Billing_revocation\<rparr>
     else if l_type license = Subscription \<and>
       (case l_expiresAt license of None \<Rightarrow> True | Some expiresAt \<Rightarrow> expiresAt \<le> now) then
       \<lparr>es_status = Expired, es_reason = Some Subscription_expired\<rparr>
     else if l_type license = Trial \<and>
       (case l_trialStartedAt license of None \<Rightarrow> False
        | Some startedAt \<Rightarrow> now \<ge> startedAt + l_trialDurationMinutes license * 60000) then
       \<lparr>es_status = Expired, es_reason = Some Trial_expired\<rparr>
     else \<lparr>es_status = Active, es_reason = None\<rparr>)"

abbreviation license_active :: "'a license_scheme \<Rightarrow> int \<Rightarrow> bool" where
  "license_active license now \<equiv> es_status (deriveLicenseStatus license now) = Active"

lemma status_revoked_iff:
  "es_status (deriveLicenseStatus l now) = Revoked \<longleftrightarrow>
    l_manualRevokedAt l \<noteq> None \<or> l_billingRevokedAt l \<noteq> None"
  by (simp add: deriveLicenseStatus_def split: option.splits)

lemma status_active_iff:
  "license_active l now \<longleftrightarrow>
    l_manualRevokedAt l = None \<and> l_billingRevokedAt l = None \<and>
    (l_type l = Subscription \<longrightarrow> (\<exists>t. l_expiresAt l = Some t \<and> now < t)) \<and>
    (l_type l = Trial \<longrightarrow>
      (\<forall>t. l_trialStartedAt l = Some t \<longrightarrow> now < t + l_trialDurationMinutes l * 60000))"
  by (auto simp: deriveLicenseStatus_def split: option.splits)

lemma status_active_antimono:
  "license_active l later \<Longrightarrow> now \<le> later \<Longrightarrow> license_active l now"
  by (fastforce simp: status_active_iff)

lemma status_reason_iff_inactive:
  "es_reason (deriveLicenseStatus l now) = None \<longleftrightarrow> license_active l now"
  by (simp add: deriveLicenseStatus_def)

end
