(* ===== verification/Database.thy ===== *)
theory Database
  imports LicenseStatus
begin

text \<open>
  The PostgreSQL schema of \<open>apps/server/src/db/schema.ts\<close>: one list of rows per table, and
  the constraints the schema declares (primary keys, unique indexes, foreign keys, checks).
  An insert that breaks a constraint is refused by the database, so each insert statement here
  tests the constraints of its table and fails with the error PostgreSQL raises; an update
  tests the checks of the rows it rewrites. \<open>db_wf\<close> says that the constraints hold; the
  statements keep it. A delete cascades to the referencing tables as \<open>onDelete("cascade")\<close>
  says.
\<close>

record db =
  customers :: "customer list"
  licenses :: "stored_license list"
  ipAllowlist :: "ip_allow list"
  deviceAllowlist :: "device_allow list"
  devices :: "registered_device list"
  meters :: "license_meter list"
  ledger :: "usage_ledger_entry list"
  activityEvents :: "activity_event list"
  activityTotals :: "activity_total list"
  activityBuckets :: "activity_minute_bucket list"
  stripeLinks :: "stripe_link list"
  webhookEvents :: "webhook_event list"

type_synonym 'a txn = "db \<Rightarrow> failure + 'a \<times> db"

definition empty_db :: db where
  "empty_db = \<lparr>customers = [], licenses = [], ipAllowlist = [], deviceAllowlist = [],
    devices = [], meters = [], ledger = [], activityEvents = [], activityTotals = [],
    activityBuckets = [], stripeLinks = [], webhookEvents = []\<rparr>"

section \<open>Row checks\<close>

definition license_row_ok :: "'a license_base_scheme \<Rightarrow> bool" where
  "license_row_ok l \<longleftrightarrow>
    0 \<le> l_maxIps l \<and> 0 \<le> l_maxDevices l \<and> 0 \<le> l_maxSessions l \<and>
    0 \<le> l_sessionRevision l \<and> 0 \<le> l_trialDurationMinutes l \<and>
    (l_type l \<noteq> Subscription \<or> l_expiresAt l \<noteq> None) \<and>
    (l_type l \<noteq> Trial \<or> l_trialDurationMinutes l > 0)"

definition license_row_int4 :: "'a license_base_scheme \<Rightarrow> bool" where
  "license_row_int4 l \<longleftrightarrow>
    int4 (l_maxIps l) \<and> int4 (l_maxDevices l) \<and> int4 (l_maxSessions l) \<and>
    int4 (l_sessionRevision l) \<and> int4 (l_trialDurationMinutes l)"

definition meter_row_ok :: "license_meter \<Rightarrow> bool" where
  "meter_row_ok m \<longleftrightarrow> 0 \<le> m_balance m"

definition ledger_row_int4 :: "usage_ledger_entry \<Rightarrow> bool" where
  "ledger_row_int4 e \<longleftrightarrow> int4 (e_delta e) \<and> int4 (e_balanceBefore e) \<and> int4 (e_balanceAfter e)"

section \<open>Foreign keys and unique indexes\<close>

definition license_exists :: "string \<Rightarrow> db \<Rightarrow> bool" where
  "license_exists i d \<longleftrightarrow> i \<in> set (map l_id (licenses d))"

definition customer_exists :: "string \<Rightarrow> db \<Rightarrow> bool" where
  "customer_exists i d \<longleftrightarrow> i \<in> set (map c_id (customers d))"

definition customers_wf :: "db \<Rightarrow> bool" where
  "customers_wf d \<longleftrightarrow> unique_on c_id (customers d) \<and> unique_on c_email (customers d)"

definition licenses_wf :: "db \<Rightarrow> bool" where
  "licenses_wf d \<longleftrightarrow>
    unique_on l_id (licenses d) \<and> unique_on l_keyHash (licenses d) \<and>
    (\<forall>l \<in> set (licenses d). license_row_ok l \<and> license_row_int4 l \<and>
      customer_exists (l_customerId l) d)"

definition ipAllowlist_wf :: "db \<Rightarrow> bool" where
  "ipAllowlist_wf d \<longleftrightarrow>
    unique_on ia_id (ipAllowlist d) \<and> unique_on (\<lambda>r. (ia_licenseId r, ia_ip r)) (ipAllowlist d) \<and>
    (\<forall>r \<in> set (ipAllowlist d). license_exists (ia_licenseId r) d)"

definition deviceAllowlist_wf :: "db \<Rightarrow> bool" where
  "deviceAllowlist_wf d \<longleftrightarrow>
    unique_on da_id (deviceAllowlist d) \<and>
    unique_on (\<lambda>r. (da_licenseId r, da_deviceId r)) (deviceAllowlist d) \<and>
    (\<forall>r \<in> set (deviceAllowlist d). license_exists (da_licenseId r) d)"

definition devices_wf :: "db \<Rightarrow> bool" where
  "devices_wf d \<longleftrightarrow>
    unique_on rd_id (devices d) \<and>
    unique_on (\<lambda>r. (rd_licenseId r, rd_ip r, rd_deviceId r)) (devices d) \<and>
    (\<forall>r \<in> set (devices d). license_exists (rd_licenseId r) d)"

definition meters_wf :: "db \<Rightarrow> bool" where
  "meters_wf d \<longleftrightarrow>
    unique_on m_id (meters d) \<and> unique_on (\<lambda>m. (m_licenseId m, m_name m)) (meters d) \<and>
    (\<forall>m \<in> set (meters d). meter_row_ok m \<and> int4 (m_balance m) \<and>
      license_exists (m_licenseId m) d)"

definition ledger_wf :: "db \<Rightarrow> bool" where
  "ledger_wf d \<longleftrightarrow>
    unique_on e_id (ledger d) \<and> unique_on (\<lambda>e. (e_licenseId e, e_eventId e)) (ledger d) \<and>
    (\<forall>e \<in> set (ledger d). ledger_row_int4 e \<and> license_exists (e_licenseId e) d \<and>
      e_meterId e \<in> set (map m_id (meters d)))"

definition activity_wf :: "db \<Rightarrow> bool" where
  "activity_wf d \<longleftrightarrow>
    unique_on a_id (activityEvents d) \<and>
    unique_on (\<lambda>r. (at_scope r, at_scopeId r, at_type r)) (activityTotals d) \<and>
    unique_on (\<lambda>r. (at_minute r, at_scope r, at_scopeId r, at_type r)) (activityBuckets d)"

definition stripeLinks_wf :: "db \<Rightarrow> bool" where
  "stripeLinks_wf d \<longleftrightarrow>
    unique_on s_id (stripeLinks d) \<and> unique_on s_licenseId (stripeLinks d) \<and>
    unique_on s_subscriptionId (stripeLinks d) \<and>
    (\<forall>s \<in> set (stripeLinks d). license_exists (s_licenseId s) d)"

definition webhookEvents_wf :: "db \<Rightarrow> bool" where
  "webhookEvents_wf d \<longleftrightarrow> unique_on w_eventId (webhookEvents d)"

definition db_wf :: "db \<Rightarrow> bool" where
  "db_wf d \<longleftrightarrow>
    customers_wf d \<and> licenses_wf d \<and> ipAllowlist_wf d \<and> deviceAllowlist_wf d \<and> devices_wf d \<and>
    meters_wf d \<and> ledger_wf d \<and> activity_wf d \<and> stripeLinks_wf d \<and> webhookEvents_wf d"

lemmas wf_defs = customers_wf_def licenses_wf_def ipAllowlist_wf_def deviceAllowlist_wf_def
  devices_wf_def meters_wf_def ledger_wf_def activity_wf_def stripeLinks_wf_def
  webhookEvents_wf_def

lemma empty_db_wf: "db_wf empty_db"
  by (simp add: db_wf_def wf_defs empty_db_def)

section \<open>Insert statements\<close>

definition insert_meter :: "license_meter \<Rightarrow> license_meter txn" where
  "insert_meter m d =
    (if \<not> int4 (m_balance m) then Inl (Db_error Numeric_out_of_range)
     else if \<not> meter_row_ok m then
       Inl (Db_error (Check_violation ''license_meters_balance_nonnegative''))
     else if taken m_id m (meters d) then Inl (Db_error (Unique_violation ''license_meters_pkey''))
     else if taken (\<lambda>m. (m_licenseId m, m_name m)) m (meters d) then
       Inl (Db_error (Unique_violation ''license_meters_license_name_unique''))
     else if \<not> license_exists (m_licenseId m) d then
       Inl (Db_error (Foreign_key_violation ''license_meters_license_id_fkey''))
     else Inr (m, d\<lparr>meters := meters d @ [m]\<rparr>))"

definition insert_ledger :: "usage_ledger_entry \<Rightarrow> usage_ledger_entry txn" where
  "insert_ledger e d =
    (if \<not> ledger_row_int4 e then Inl (Db_error Numeric_out_of_range)
     else if taken e_id e (ledger d) then
       Inl (Db_error (Unique_violation ''usage_ledger_entries_pkey''))
     else if taken (\<lambda>e. (e_licenseId e, e_eventId e)) e (ledger d) then
       Inl (Db_error (Unique_violation ''usage_ledger_license_event_unique''))
     else if \<not> license_exists (e_licenseId e) d then
       Inl (Db_error (Foreign_key_violation ''usage_ledger_license_id_fkey''))
     else if e_meterId e \<notin> set (map m_id (meters d)) then
       Inl (Db_error (Foreign_key_violation ''usage_ledger_meter_id_fkey''))
     else Inr (e, d\<lparr>ledger := ledger d @ [e]\<rparr>))"

definition insert_license :: "stored_license \<Rightarrow> stored_license txn" where
  "insert_license l d =
    (if \<not> license_row_int4 l then Inl (Db_error Numeric_out_of_range)
     else if \<not> license_row_ok l then Inl (Db_error (Check_violation ''licenses''))
     else if taken l_id l (licenses d) then Inl (Db_error (Unique_violation ''licenses_pkey''))
     else if taken l_keyHash l (licenses d) then
       Inl (Db_error (Unique_violation ''licenses_key_hash_unique''))
     else if \<not> customer_exists (l_customerId l) d then
       Inl (Db_error (Foreign_key_violation ''licenses_customer_id_fkey''))
     else Inr (l, d\<lparr>licenses := licenses d @ [l]\<rparr>))"

definition insert_customer :: "customer \<Rightarrow> customer txn" where
  "insert_customer c d =
    (if taken c_id c (customers d) then Inl (Db_error (Unique_violation ''customers_pkey''))
     else if taken c_email c (customers d) then
       Inl (Db_error (Unique_violation ''customers_email_unique''))
     else Inr (c, d\<lparr>customers := customers d @ [c]\<rparr>))"

definition insert_link :: "stripe_link \<Rightarrow> stripe_link txn" where
  "insert_link s d =
    (if taken s_id s (stripeLinks d) then
       Inl (Db_error (Unique_violation ''stripe_subscription_links_pkey''))
     else if taken s_licenseId s (stripeLinks d) then
       Inl (Db_error (Unique_violation ''stripe_subscription_links_license_unique''))
     else if taken s_subscriptionId s (stripeLinks d) then
       Inl (Db_error (Unique_violation ''stripe_subscription_links_subscription_unique''))
     else if \<not> license_exists (s_licenseId s) d then
       Inl (Db_error (Foreign_key_violation ''stripe_subscription_links_license_id_fkey''))
     else Inr (s, d\<lparr>stripeLinks := stripeLinks d @ [s]\<rparr>))"

section \<open>Update statements\<close>

text \<open>
  An update returns the rewritten rows. It fails as a whole when a rewritten row breaks a
  check or leaves the integer range.
\<close>

definition update_meters ::
    "(license_meter \<Rightarrow> bool) \<Rightarrow> (license_meter \<Rightarrow> license_meter) \<Rightarrow> license_meter list txn" where
  "update_meters P f d =
    (let updated = map f (rows P (meters d)) in
     if \<not> list_all (\<lambda>m. int4 (m_balance m)) updated then Inl (Db_error Numeric_out_of_range)
     else if \<not> list_all meter_row_ok updated then
       Inl (Db_error (Check_violation ''license_meters_balance_nonnegative''))
     else Inr (updated, d\<lparr>meters := update_where P f (meters d)\<rparr>))"

definition update_licenses ::
    "(stored_license \<Rightarrow> bool) \<Rightarrow> (stored_license \<Rightarrow> stored_license) \<Rightarrow> stored_license list txn" where
  "update_licenses P f d =
    (let updated = map f (rows P (licenses d));
         licenses' = update_where P f (licenses d) in
     if \<not> list_all license_row_int4 updated then Inl (Db_error Numeric_out_of_range)
     else if \<not> list_all license_row_ok updated then Inl (Db_error (Check_violation ''licenses''))
     else if \<not> unique_on l_keyHash licenses' then
       Inl (Db_error (Unique_violation ''licenses_key_hash_unique''))
     else if \<not> list_all (\<lambda>l. customer_exists (l_customerId l) d) updated then
       Inl (Db_error (Foreign_key_violation ''licenses_customer_id_fkey''))
     else Inr (updated, d\<lparr>licenses := licenses'\<rparr>))"

definition update_links ::
    "(stripe_link \<Rightarrow> bool) \<Rightarrow> (stripe_link \<Rightarrow> stripe_link) \<Rightarrow> stripe_link list txn" where
  "update_links P f d =
    Inr (map f (rows P (stripeLinks d)), d\<lparr>stripeLinks := update_where P f (stripeLinks d)\<rparr>)"

section \<open>Cascading deletes\<close>

definition delete_licenses :: "(stored_license \<Rightarrow> bool) \<Rightarrow> db \<Rightarrow> db" where
  "delete_licenses P d =
    (let gone = map l_id (rows P (licenses d));
         orphan = (\<lambda>i. i \<in> set gone);
         meterGone = (\<lambda>i. \<exists>m \<in> set (meters d). m_id m = i \<and> orphan (m_licenseId m)) in
     d\<lparr>licenses := delete_where P (licenses d),
       ipAllowlist := delete_where (\<lambda>r. orphan (ia_licenseId r)) (ipAllowlist d),
       deviceAllowlist := delete_where (\<lambda>r. orphan (da_licenseId r)) (deviceAllowlist d),
       devices := delete_where (\<lambda>r. orphan (rd_licenseId r)) (devices d),
       meters := delete_where (\<lambda>m. orphan (m_licenseId m)) (meters d),
       ledger := delete_where (\<lambda>e. orphan (e_licenseId e) \<or> meterGone (e_meterId e)) (ledger d),
       stripeLinks := delete_where (\<lambda>s. orphan (s_licenseId s)) (stripeLinks d)\<rparr>)"

definition delete_customers :: "(customer \<Rightarrow> bool) \<Rightarrow> db \<Rightarrow> db" where
  "delete_customers P d =
    (let gone = map c_id (rows P (customers d)) in
     (delete_licenses (\<lambda>l. l_customerId l \<in> set gone) d)
       \<lparr>customers := delete_where P (customers d)\<rparr>)"

section \<open>A small database\<close>

text \<open>
  One customer with one metered licence: the instance at which the statements of this library
  are evaluated.
\<close>

definition no_drafts :: type_drafts where
  "no_drafts = \<lparr>d_lifetime = None, d_subscription = None, d_metered = None, d_trial = None\<rparr>"

definition sample_customer :: customer where
  "sample_customer = \<lparr>c_id = ''C'', c_email = ''a@b.c'', c_name = ''Ada'', c_metadata = [],
    c_createdAt = 0, c_updatedAt = 0\<rparr>"

definition sample_license :: "license_type \<Rightarrow> stored_license" where
  "sample_license t = \<lparr>l_id = ''L'', l_keyPrefix = ''KZR-1'', l_customerId = ''C'', l_type = t,
    l_maxIps = 1, l_maxDevices = 1, l_maxSessions = 1, l_sessionRevision = 0,
    l_trialDurationMinutes = 10, l_trialStartedAt = None, l_metadata = [],
    l_expiresAt = Some 5000, l_typeDrafts = no_drafts, l_manualRevokedAt = None,
    l_manualRevocationReason = None, l_createdAt = 0, l_updatedAt = 0, l_keyHash = ''H''\<rparr>"

definition sample_db :: "license_type \<Rightarrow> db" where
  "sample_db t = empty_db\<lparr>customers := [sample_customer], licenses := [sample_license t]\<rparr>"

lemmas sample_defs = no_drafts_def sample_customer_def sample_license_def sample_db_def
  empty_db_def

lemma sample_db_wf: "db_wf (sample_db t)"
  by (simp add: db_wf_def wf_defs sample_defs license_row_ok_def license_row_int4_def int4_def
      customer_exists_def taken_def)

end
