(* ===== verification/Redis.thy ===== *)
theory Redis
  imports JsString
begin

text \<open>
  The Redis commands the repositories and the rate limiter use, as functions of the store and
  of the server's clock in milliseconds. The program keeps strings, sets and sorted sets under
  disjoint key prefixes, so the store has one map per type; a key whose expiry has passed
  counts as absent for every command. A set or sorted set that becomes empty is deleted, and
  \<open>EXPIRE\<close> with a time that is not positive deletes its key, as Redis does.
\<close>

record redis =
  r_strings :: "string \<Rightarrow> (string \<times> int) option"
  r_sets :: "string \<Rightarrow> (string list \<times> int option) option"
  r_zsets :: "string \<Rightarrow> ((int \<times> string) list \<times> int option) option"

definition empty_redis :: redis where
  "empty_redis = \<lparr>r_strings = (\<lambda>_. None), r_sets = (\<lambda>_. None), r_zsets = (\<lambda>_. None)\<rparr>"

definition unexpired :: "int \<Rightarrow> int option \<Rightarrow> bool" where
  "unexpired t e = (case e of None \<Rightarrow> True | Some w \<Rightarrow> t \<le> w)"

lemma unexpired_simps [simp]: "unexpired t None" "unexpired t (Some w) \<longleftrightarrow> t \<le> w"
  by (simp_all add: unexpired_def)

section \<open>Strings\<close>

definition redis_get :: "string \<Rightarrow> int \<Rightarrow> redis \<Rightarrow> string option" where
  "redis_get k t r =
    (case r_strings r k of Some (v, e) \<Rightarrow> if t \<le> e then Some v else None | None \<Rightarrow> None)"

definition redis_set_ex :: "string \<Rightarrow> string \<Rightarrow> int \<Rightarrow> int \<Rightarrow> redis \<Rightarrow> redis" where
  "redis_set_ex k v ttl t r = r\<lparr>r_strings := (r_strings r)(k := Some (v, t + 1000 * ttl))\<rparr>"

definition redis_del :: "string \<Rightarrow> redis \<Rightarrow> redis" where
  "redis_del k r = r\<lparr>r_strings := (r_strings r)(k := None)\<rparr>"

definition redis_expire :: "string \<Rightarrow> int \<Rightarrow> int \<Rightarrow> redis \<Rightarrow> redis" where
  "redis_expire k ttl t r =
    (case redis_get k t r of
      None \<Rightarrow> r
    | Some v \<Rightarrow> if ttl \<le> 0 then redis_del k r else redis_set_ex k v ttl t r)"

section \<open>Sets\<close>

definition smembers :: "string \<Rightarrow> int \<Rightarrow> redis \<Rightarrow> string list" where
  "smembers k t r =
    (case r_sets r k of Some (ms, e) \<Rightarrow> if unexpired t e then ms else [] | None \<Rightarrow> [])"

definition set_expiry :: "string \<Rightarrow> int \<Rightarrow> redis \<Rightarrow> int option" where
  "set_expiry k t r =
    (case r_sets r k of Some (ms, e) \<Rightarrow> if unexpired t e then e else None | None \<Rightarrow> None)"

definition sdel :: "string \<Rightarrow> redis \<Rightarrow> redis" where
  "sdel k r = r\<lparr>r_sets := (r_sets r)(k := None)\<rparr>"

definition sstore :: "string \<Rightarrow> string list \<Rightarrow> int option \<Rightarrow> redis \<Rightarrow> redis" where
  "sstore k ms e r =
    (if ms = [] then sdel k r else r\<lparr>r_sets := (r_sets r)(k := Some (ms, e))\<rparr>)"

definition sadd :: "string \<Rightarrow> string \<Rightarrow> int \<Rightarrow> redis \<Rightarrow> redis" where
  "sadd k m t r = sstore k (List.insert m (smembers k t r)) (set_expiry k t r) r"

definition srem :: "string \<Rightarrow> string \<Rightarrow> int \<Rightarrow> redis \<Rightarrow> redis" where
  "srem k m t r = sstore k (removeAll m (smembers k t r)) (set_expiry k t r) r"

definition scard :: "string \<Rightarrow> int \<Rightarrow> redis \<Rightarrow> nat" where
  "scard k t r = length (smembers k t r)"

definition sexpire :: "string \<Rightarrow> int \<Rightarrow> int \<Rightarrow> redis \<Rightarrow> redis" where
  "sexpire k ttl t r =
    (if ttl \<le> 0 then sdel k r else sstore k (smembers k t r) (Some (t + 1000 * ttl)) r)"

section \<open>What each command changes\<close>

named_theorems redis_simps \<open>reading a key after a command\<close>

lemma redis_get_set_ex [redis_simps]:
  "redis_get k' t' (redis_set_ex k v ttl t r) =
    (if k' = k then (if t' \<le> t + 1000 * ttl then Some v else None) else redis_get k' t' r)"
  by (simp add: redis_get_def redis_set_ex_def)

lemma redis_get_del [redis_simps]:
  "redis_get k' t (redis_del k r) = (if k' = k then None else redis_get k' t r)"
  by (simp add: redis_get_def redis_del_def)

lemma redis_get_sets [redis_simps]:
  "redis_get k' t' (sstore k ms e r) = redis_get k' t' r"
  "redis_get k' t' (sdel k r) = redis_get k' t' r"
  "redis_get k' t' (sadd k m t r) = redis_get k' t' r"
  "redis_get k' t' (srem k m t r) = redis_get k' t' r"
  "redis_get k' t' (sexpire k ttl t r) = redis_get k' t' r"
  by (simp_all add: redis_get_def sstore_def sdel_def sadd_def srem_def sexpire_def)

lemma r_sets_strings [redis_simps]:
  "r_sets (redis_set_ex k v ttl t r) = r_sets r" "r_sets (redis_del k r) = r_sets r"
  "r_sets (redis_expire k ttl t r) = r_sets r"
  by (simp_all add: redis_set_ex_def redis_del_def redis_expire_def split: option.splits)

lemma r_strings_sets [redis_simps]:
  "r_strings (sstore k ms e r) = r_strings r" "r_strings (sdel k r) = r_strings r"
  "r_strings (sadd k m t r) = r_strings r" "r_strings (srem k m t r) = r_strings r"
  "r_strings (sexpire k ttl t r) = r_strings r"
  by (simp_all add: sstore_def sdel_def sadd_def srem_def sexpire_def)

lemma smembers_strings [redis_simps]:
  "smembers k' t' (redis_set_ex k v ttl t r) = smembers k' t' r"
  "smembers k' t' (redis_del k r) = smembers k' t' r"
  "smembers k' t' (redis_expire k ttl t r) = smembers k' t' r"
  by (simp_all add: smembers_def redis_simps)

lemma smembers_sadd [redis_simps]:
  "smembers k' t (sadd k m t r) =
    (if k' = k then List.insert m (smembers k t r) else smembers k' t r)"
  by (auto simp: smembers_def sadd_def sstore_def set_expiry_def sdel_def split: option.splits)

lemma smembers_srem [redis_simps]:
  "smembers k' t (srem k m t r) =
    (if k' = k then removeAll m (smembers k t r) else smembers k' t r)"
  by (auto simp: smembers_def srem_def sstore_def set_expiry_def sdel_def split: option.splits)

lemma smembers_sexpire [redis_simps]:
  "0 < ttl \<Longrightarrow> smembers k' t (sexpire k ttl t r) = smembers k' t r"
  by (auto simp: smembers_def sexpire_def sstore_def sdel_def split: option.splits)

lemma smembers_sdel [redis_simps]:
  "smembers k' t (sdel k r) = (if k' = k then [] else smembers k' t r)"
  by (simp add: smembers_def sdel_def)

lemma redis_get_antimono:
  "redis_get k t' r = Some v \<Longrightarrow> t \<le> t' \<Longrightarrow> redis_get k t r = Some v"
  by (auto simp: redis_get_def split: option.splits if_splits)

text \<open>
  What a set holds at a later time \<open>t'\<close>, after a command at time \<open>t\<close>.
\<close>

lemma smembers_srem_later:
  "t \<le> t' \<Longrightarrow> smembers k' t' (srem k m t r) =
    (if k' = k then removeAll m (smembers k t' r) else smembers k' t' r)"
  by (auto simp: smembers_def srem_def sstore_def set_expiry_def sdel_def unexpired_def
      split: option.splits)

lemma smembers_touch:
  "0 < ttl \<Longrightarrow> smembers k' t' (sexpire k ttl t (sadd k m t r)) =
    (if k' = k then (if t' \<le> t + 1000 * ttl then List.insert m (smembers k t r) else [])
     else smembers k' t' r)"
  by (auto simp: smembers_def sadd_def sexpire_def sstore_def set_expiry_def sdel_def unexpired_def
      List.insert_def split: option.splits if_splits)

lemma smembers_sdel_later: "smembers k' t' (sdel k r) = (if k' = k then [] else smembers k' t' r)"
  by (simp add: smembers_def sdel_def)

lemma smembers_later: "t \<le> t' \<Longrightarrow> smembers k t' r = smembers k t r \<or> smembers k t' r = []"
  by (auto simp: smembers_def unexpired_def split: option.splits)

lemma smembers_later_subset: "t \<le> t' \<Longrightarrow> set (smembers k t' r) \<subseteq> set (smembers k t r)"
  using smembers_later[of t t' k r] by auto

lemma sdel_if_empty:
  "t \<le> t' \<Longrightarrow> smembers k' t' (if scard k t r = 0 then sdel k r else r) = smembers k' t' r"
  using smembers_later[of t t' k r] by (auto simp: smembers_sdel_later scard_def)

lemma redis_get_raw:
  "redis_get k t r = Some v \<longleftrightarrow> (\<exists>e. r_strings r k = Some (v, e) \<and> t \<le> e)"
  by (auto simp: redis_get_def split: option.splits)

lemma r_strings_set_ex [redis_simps]:
  "r_strings (redis_set_ex k v ttl t r) = (r_strings r)(k := Some (v, t + 1000 * ttl))"
  by (simp add: redis_set_ex_def)

lemma r_strings_del [redis_simps]: "r_strings (redis_del k r) = (r_strings r)(k := None)"
  by (simp add: redis_del_def)

lemma redis_expire_live [redis_simps]:
  "redis_get k t r = Some v \<Longrightarrow> 0 < ttl \<Longrightarrow> redis_expire k ttl t r = redis_set_ex k v ttl t r"
  by (simp add: redis_expire_def)

end
