(* ===== verification/Io.thy ===== *)
theory Io
  imports Database Redis
begin

text \<open>
  The world the services run in. A service operation is an \<open>async\<close> function; here it is a
  function of the environment and the world that returns a result or an exception, and the
  world it leaves. Every call to PostgreSQL or Redis takes one tick. At each tick, first any
  other request may change both stores (\<open>e_others\<close>), then the call runs; it may be lost before
  it reaches the store (\<open>Lost_request\<close>) or its reply may be lost after it ran (\<open>Lost_reply\<close>),
  and the caller cannot tell the two apart. Clocks, random identifiers and random key material are functions of
  the tick, and SHA-256 and the date conversions are parameters.

  A transaction is atomic and isolated on the database, and not on Redis: others may change
  Redis while it runs, and when it fails its Redis calls are not undone. Its commit may be lost
  in the same two ways.

  \<open>w_local\<close> is a local variable of the running operation that a closure assigns and the
  enclosing function reads after the closure has failed (\<open>let sessionToken\<close> in an activation).
\<close>

datatype outcome = Done | Lost_request | Lost_reply

record env =
  e_now :: "nat \<Rightarrow> int"
  e_dbNow :: "nat \<Rightarrow> int"
  e_redisNow :: "nat \<Rightarrow> int"
  e_uuid :: "nat \<Rightarrow> nat \<Rightarrow> string"
  e_dbOutcome :: "nat \<Rightarrow> outcome"
  e_redisOutcome :: "nat \<Rightarrow> outcome"
  e_others :: "nat \<Rightarrow> db \<times> redis \<Rightarrow> db \<times> redis"
  e_sha256 :: "string \<Rightarrow> string"
  e_toISO :: "int \<Rightarrow> string"
  e_parseDate :: "string \<Rightarrow> int option"
  e_random :: "nat \<Rightarrow> string"

record world =
  w_db :: db
  w_redis :: redis
  w_tick :: nat
  w_local :: "string option"

type_synonym 'a io = "env \<Rightarrow> world \<Rightarrow> (failure + 'a) \<times> world"

section \<open>Combinators\<close>

definition returnIO :: "'a \<Rightarrow> 'a io" where
  "returnIO x = (\<lambda>env w. (Inr x, w))"

definition throwIO :: "failure \<Rightarrow> 'a io" where
  "throwIO e = (\<lambda>env w. (Inl e, w))"

definition bindIO :: "'a io \<Rightarrow> ('a \<Rightarrow> 'b io) \<Rightarrow> 'b io" where
  "bindIO m f = (\<lambda>env w. case m env w of (Inl e, w') \<Rightarrow> (Inl e, w') | (Inr x, w') \<Rightarrow> f x env w')"

definition catchIO :: "'a io \<Rightarrow> (failure \<Rightarrow> 'a io) \<Rightarrow> 'a io" where
  "catchIO m h = (\<lambda>env w. case m env w of (Inl e, w') \<Rightarrow> h e env w' | (Inr x, w') \<Rightarrow> (Inr x, w'))"

definition liftIO :: "failure + 'a \<Rightarrow> 'a io" where
  "liftIO r = (\<lambda>env w. (r, w))"

definition nowIO :: "int io" where
  "nowIO = (\<lambda>env w. (Inr (e_now env (w_tick w)), w))"

definition uuidIO :: "string io" where
  "uuidIO = (\<lambda>env w. (Inr (e_uuid env (w_tick w) 0), w\<lparr>w_tick := Suc (w_tick w)\<rparr>))"

definition randomIO :: "string io" where
  "randomIO = (\<lambda>env w. (Inr (e_random env (w_tick w)), w\<lparr>w_tick := Suc (w_tick w)\<rparr>))"

fun mapIO :: "('a \<Rightarrow> 'b io) \<Rightarrow> 'a list \<Rightarrow> 'b list io" where
  "mapIO f [] = returnIO []"
| "mapIO f (x # xs) =
    bindIO (f x) (\<lambda>y. bindIO (mapIO f xs) (\<lambda>ys. returnIO (y # ys)))"

definition setLocal :: "string option \<Rightarrow> unit io" where
  "setLocal x = (\<lambda>env w. (Inr (), w\<lparr>w_local := x\<rparr>))"

definition getLocal :: "string option io" where
  "getLocal = (\<lambda>env w. (Inr (w_local w), w))"

definition askIO :: "(env \<Rightarrow> 'a) \<Rightarrow> 'a io" where
  "askIO f = (\<lambda>env w. (Inr (f env), w))"

section \<open>Calls\<close>

definition interfere :: "env \<Rightarrow> world \<Rightarrow> world" where
  "interfere env w =
    (let (d, r) = e_others env (w_tick w) (w_db w, w_redis w)
     in w\<lparr>w_db := d, w_redis := r, w_tick := Suc (w_tick w)\<rparr>)"

definition db_call :: "(env \<Rightarrow> nat \<Rightarrow> 'a txn) \<Rightarrow> 'a io" where
  "db_call f env w =
    (let k = w_tick w; w1 = interfere env w in
     case e_dbOutcome env k of
       Lost_request \<Rightarrow> (Inl Unavailable, w1)
     | oc \<Rightarrow>
         (case f env k (w_db w1) of
           Inl e \<Rightarrow> (if oc = Done then Inl e else Inl Unavailable, w1)
         | Inr (x, d) \<Rightarrow> (if oc = Done then Inr x else Inl Unavailable, w1\<lparr>w_db := d\<rparr>)))"

definition db_read :: "(env \<Rightarrow> db \<Rightarrow> 'a) \<Rightarrow> 'a io" where
  "db_read g = db_call (\<lambda>env k. selectT (g env))"

definition redis_call :: "(env \<Rightarrow> nat \<Rightarrow> redis \<Rightarrow> (failure + 'a) \<times> redis) \<Rightarrow> 'a io" where
  "redis_call f env w =
    (let k = w_tick w; w1 = interfere env w in
     case e_redisOutcome env k of
       Lost_request \<Rightarrow> (Inl Unavailable, w1)
     | oc \<Rightarrow>
         (let (res, r) = f env k (w_redis w1) in
          (if oc = Done then res else Inl Unavailable, w1\<lparr>w_redis := r\<rparr>)))"

definition isolated :: "env \<Rightarrow> env" where
  "isolated env = env\<lparr>e_others := \<lambda>k (d, r). (d, snd (e_others env k (d, r)))\<rparr>"

definition transaction :: "'a io \<Rightarrow> 'a io" where
  "transaction m env w =
    (let w1 = interfere env w in
     if e_dbOutcome env (w_tick w) = Lost_request then (Inl Unavailable, w1)
     else
       (case m (isolated env) w1 of
         (Inl e, w2) \<Rightarrow> (Inl e, w2\<lparr>w_db := w_db w1\<rparr>)
       | (Inr x, w2) \<Rightarrow>
           (let w3 = w2\<lparr>w_tick := Suc (w_tick w2)\<rparr> in
            case e_dbOutcome env (w_tick w2) of
              Done \<Rightarrow> (Inr x, w3)
            | Lost_request \<Rightarrow> (Inl Unavailable, w3\<lparr>w_db := w_db w1\<rparr>)
            | Lost_reply \<Rightarrow> (Inl Unavailable, w3))))"

section \<open>Evaluation\<close>

named_theorems io_simps \<open>evaluation of service operations\<close>

lemma returnIO_apply [simp, io_simps]: "returnIO x env w = (Inr x, w)"
  by (simp add: returnIO_def)

lemma throwIO_apply [simp, io_simps]: "throwIO e env w = (Inl e, w)"
  by (simp add: throwIO_def)

lemma liftIO_apply [simp, io_simps]: "liftIO r env w = (r, w)"
  by (simp add: liftIO_def)

lemma askIO_apply [simp, io_simps]: "askIO f env w = (Inr (f env), w)"
  by (simp add: askIO_def)

lemma nowIO_apply [simp, io_simps]: "nowIO env w = (Inr (e_now env (w_tick w)), w)"
  by (simp add: nowIO_def)

lemma local_apply [simp, io_simps]:
  "setLocal x env w = (Inr (), w\<lparr>w_local := x\<rparr>)" "getLocal env w = (Inr (w_local w), w)"
  by (simp_all add: setLocal_def getLocal_def)

lemma bindIO_returnIO [simp]: "bindIO (returnIO x) f = f x"
  by (simp add: bindIO_def fun_eq_iff)

lemma bindIO_throwIO [simp]: "bindIO (throwIO e) f = throwIO e"
  by (simp add: bindIO_def throwIO_def fun_eq_iff)

lemma bindIO_eq:
  "bindIO m f env w = (case m env w of (Inl e, w') \<Rightarrow> (Inl e, w') | (Inr x, w') \<Rightarrow> f x env w')"
  by (simp add: bindIO_def)

lemma bindIO_Inr_iff:
  "bindIO m f env w = (Inr y, w') \<longleftrightarrow>
    (\<exists>x w1. m env w = (Inr x, w1) \<and> f x env w1 = (Inr y, w'))"
  by (auto simp: bindIO_def split: prod.splits sum.splits)

lemma bindIO_Inl_iff:
  "bindIO m f env w = (Inl e, w') \<longleftrightarrow>
    m env w = (Inl e, w') \<or> (\<exists>x w1. m env w = (Inr x, w1) \<and> f x env w1 = (Inl e, w'))"
  by (auto simp: bindIO_def split: prod.splits sum.splits)

lemma bindIO_iff:
  "bindIO m f env w = (res, w') \<longleftrightarrow>
    (\<exists>e. m env w = (Inl e, w') \<and> res = Inl e) \<or>
    (\<exists>x w1. m env w = (Inr x, w1) \<and> f x env w1 = (res, w'))"
  by (auto simp: bindIO_def split: prod.splits sum.splits)

lemma catchIO_Inr_iff:
  "catchIO m h env w = (Inr y, w') \<longleftrightarrow>
    m env w = (Inr y, w') \<or> (\<exists>e w1. m env w = (Inl e, w1) \<and> h e env w1 = (Inr y, w'))"
  by (auto simp: catchIO_def split: prod.splits sum.splits)

lemma catchIO_iff:
  "catchIO m h env w = (res, w') \<longleftrightarrow>
    (\<exists>x. m env w = (Inr x, w') \<and> res = Inr x) \<or>
    (\<exists>e w1. m env w = (Inl e, w1) \<and> h e env w1 = (res, w'))"
  by (auto simp: catchIO_def split: prod.splits sum.splits)

lemma db_call_Inr:
  "db_call f env w = (Inr x, w') \<longleftrightarrow>
    e_dbOutcome env (w_tick w) = Done \<and>
    (\<exists>d. f env (w_tick w) (w_db (interfere env w)) = Inr (x, d) \<and>
      w' = (interfere env w)\<lparr>w_db := d\<rparr>)"
  by (auto simp: db_call_def Let_def split: outcome.splits sum.splits)

lemma db_read_Inr:
  "db_read g env w = (Inr x, w') \<longleftrightarrow>
    e_dbOutcome env (w_tick w) = Done \<and> x = g env (w_db (interfere env w)) \<and> w' = interfere env w"
  by (auto simp: db_read_def db_call_Inr)

lemma redis_call_Inr:
  "redis_call f env w = (Inr x, w') \<longleftrightarrow>
    e_redisOutcome env (w_tick w) = Done \<and>
    (\<exists>r. f env (w_tick w) (w_redis (interfere env w)) = (Inr x, r) \<and>
      w' = (interfere env w)\<lparr>w_redis := r\<rparr>)"
  by (auto simp: redis_call_def Let_def split: outcome.splits prod.splits)

lemma interfere_isolated:
  "w_db (interfere (isolated env) w) = w_db w"
  "w_tick (interfere env w) = Suc (w_tick w)"
  "w_local (interfere env w) = w_local w"
  by (simp_all add: interfere_def isolated_def split: prod.splits)

lemma isolated_fields [simp]:
  "e_now (isolated env) = e_now env" "e_dbNow (isolated env) = e_dbNow env"
  "e_redisNow (isolated env) = e_redisNow env" "e_uuid (isolated env) = e_uuid env"
  "e_dbOutcome (isolated env) = e_dbOutcome env" "e_redisOutcome (isolated env) = e_redisOutcome env"
  "e_sha256 (isolated env) = e_sha256 env"
  "e_toISO (isolated env) = e_toISO env" "e_parseDate (isolated env) = e_parseDate env"
  "e_random (isolated env) = e_random env"
  by (simp_all add: isolated_def)

lemma transaction_Inr:
  "transaction m env w = (Inr x, w') \<longleftrightarrow>
    e_dbOutcome env (w_tick w) \<noteq> Lost_request \<and>
    (\<exists>w2. m (isolated env) (interfere env w) = (Inr x, w2) \<and>
      e_dbOutcome env (w_tick w2) = Done \<and> w' = w2\<lparr>w_tick := Suc (w_tick w2)\<rparr>)"
  by (auto simp: transaction_def Let_def split: prod.splits sum.splits outcome.splits)

section \<open>Invariants of the database\<close>

text \<open>
  \<open>keeps_db I m\<close>: whatever the clocks, the faults and the result of \<open>m\<close>, if the other requests
  keep \<open>I\<close>, then \<open>m\<close> does. The rules follow the structure of an operation, so an operation keeps
  an invariant as soon as its database calls do.
\<close>

definition rely :: "(db \<Rightarrow> bool) \<Rightarrow> env \<Rightarrow> bool" where
  "rely I env \<longleftrightarrow> (\<forall>k d r. I d \<longrightarrow> I (fst (e_others env k (d, r))))"

definition keeps_db :: "(db \<Rightarrow> bool) \<Rightarrow> 'a io \<Rightarrow> bool" where
  "keeps_db I m \<longleftrightarrow> (\<forall>env w. rely I env \<longrightarrow> I (w_db w) \<longrightarrow> I (w_db (snd (m env w))))"

named_theorems keeps_db_rules \<open>database invariants of service operations, by their structure\<close>

lemma keeps_dbD:
  "keeps_db I m \<Longrightarrow> rely I env \<Longrightarrow> I (w_db w) \<Longrightarrow> m env w = (res, w') \<Longrightarrow> I (w_db w')"
  unfolding keeps_db_def by (metis snd_conv)

lemma rely_interfere: "rely I env \<Longrightarrow> I (w_db w) \<Longrightarrow> I (w_db (interfere env w))"
  unfolding rely_def interfere_def by (auto split: prod.splits) (metis fst_conv)

lemma rely_isolated: "rely I (isolated env)"
  by (simp add: rely_def isolated_def)

lemma keeps_db_returnIO [keeps_db_rules]: "keeps_db I (returnIO x)"
  by (simp add: keeps_db_def)

lemma keeps_db_throwIO [keeps_db_rules]: "keeps_db I (throwIO e)"
  by (simp add: keeps_db_def)

lemma keeps_db_liftIO [keeps_db_rules]: "keeps_db I (liftIO r)"
  by (simp add: keeps_db_def)

lemma keeps_db_askIO [keeps_db_rules]: "keeps_db I (askIO f)"
  by (simp add: keeps_db_def)

lemma keeps_db_nowIO [keeps_db_rules]: "keeps_db I nowIO"
  by (simp add: keeps_db_def)

lemma keeps_db_uuidIO [keeps_db_rules]: "keeps_db I uuidIO"
  by (simp add: keeps_db_def uuidIO_def)

lemma keeps_db_randomIO [keeps_db_rules]: "keeps_db I randomIO"
  by (simp add: keeps_db_def randomIO_def)

lemma keeps_db_local [keeps_db_rules]: "keeps_db I (setLocal x)" "keeps_db I getLocal"
  by (simp_all add: keeps_db_def)

lemma keeps_db_bindIO [keeps_db_rules]:
  assumes "keeps_db I m" "\<And>x. keeps_db I (f x)"
  shows "keeps_db I (bindIO m f)"
  unfolding keeps_db_def
proof (intro allI impI)
  fix env :: env and w :: world
  assume r: "rely I env" and i: "I (w_db w)"
  obtain res w1 where m: "m env w = (res, w1)" by fastforce
  have "I (w_db w1)" using keeps_dbD[OF assms(1) r i m] .
  then show "I (w_db (snd (bindIO m f env w)))"
    using assms(2) r by (cases res) (auto simp: bindIO_def m keeps_db_def)
qed

lemma keeps_db_catchIO [keeps_db_rules]:
  assumes "keeps_db I m" "\<And>e. keeps_db I (h e)"
  shows "keeps_db I (catchIO m h)"
  unfolding keeps_db_def
proof (intro allI impI)
  fix env :: env and w :: world
  assume r: "rely I env" and i: "I (w_db w)"
  obtain res w1 where m: "m env w = (res, w1)" by fastforce
  have "I (w_db w1)" using keeps_dbD[OF assms(1) r i m] .
  then show "I (w_db (snd (catchIO m h env w)))"
    using assms(2) r by (cases res) (auto simp: catchIO_def m keeps_db_def)
qed

lemma keeps_db_if [keeps_db_rules]:
  "keeps_db I m \<Longrightarrow> keeps_db I n \<Longrightarrow> keeps_db I (if b then m else n)"
  by simp

lemma keeps_db_mapIO [keeps_db_rules]:
  "(\<And>x. keeps_db I (f x)) \<Longrightarrow> keeps_db I (mapIO f xs)"
  by (induction xs) (auto intro!: keeps_db_rules)

lemma keeps_db_option [keeps_db_rules]:
  "keeps_db I m \<Longrightarrow> (\<And>x. keeps_db I (f x)) \<Longrightarrow> keeps_db I (case v of None \<Rightarrow> m | Some x \<Rightarrow> f x)"
  by (cases v) simp_all

lemma keeps_db_call:
  assumes "\<And>env k. keeps I (f env k)"
  shows "keeps_db I (db_call f)"
  unfolding keeps_db_def
proof (intro allI impI)
  fix env :: env and w :: world
  assume r: "rely I env" and i: "I (w_db w)"
  have "I (w_db (interfere env w))" using rely_interfere[OF r i] .
  then show "I (w_db (snd (db_call f env w)))"
    using assms by (auto simp: db_call_def Let_def keeps_def split: outcome.splits sum.splits)
qed

lemma keeps_db_read [keeps_db_rules]: "keeps_db I (db_read g)"
  unfolding db_read_def by (intro keeps_db_call keeps_selectT)

lemma keeps_db_redis [keeps_db_rules]: "keeps_db I (redis_call f)"
  using rely_interfere[of I]
  by (auto simp: keeps_db_def redis_call_def Let_def split: outcome.splits prod.splits)

lemma keeps_db_transaction [keeps_db_rules]:
  assumes "keeps_db I m"
  shows "keeps_db I (transaction m)"
  unfolding keeps_db_def
proof (intro allI impI)
  fix env :: env and w :: world
  assume r: "rely I env" and i: "I (w_db w)"
  have i1: "I (w_db (interfere env w))" using rely_interfere[OF r i] .
  obtain res w2 where m: "m (isolated env) (interfere env w) = (res, w2)" by fastforce
  have "I (w_db w2)" using keeps_dbD[OF assms rely_isolated i1 m] .
  with i1 show "I (w_db (snd (transaction m env w)))"
    by (cases res) (auto simp: transaction_def Let_def m split: outcome.splits)
qed

section \<open>What a run leaves alone\<close>

text \<open>
  \<open>quiet env\<close>: no other request touches the stores; calls may still be lost. \<open>steps Q R m\<close>: in an
  environment that satisfies \<open>Q\<close>, the world \<open>m\<close> leaves is related by \<open>R\<close> to the one it started
  from. The locale gives the structural rules for every preorder the other requests keep.
\<close>

definition quiet :: "env \<Rightarrow> bool" where
  "quiet env \<longleftrightarrow> (\<forall>k s. e_others env k s = s)"

definition steps :: "(env \<Rightarrow> bool) \<Rightarrow> (world \<Rightarrow> world \<Rightarrow> bool) \<Rightarrow> 'a io \<Rightarrow> bool" where
  "steps Q R m \<longleftrightarrow> (\<forall>env w. Q env \<longrightarrow> R w (snd (m env w)))"

lemma quiet_interfere [simp]:
  "quiet env \<Longrightarrow> interfere env w = w\<lparr>w_tick := Suc (w_tick w)\<rparr>"
  by (simp add: quiet_def interfere_def)

lemma quiet_isolated [simp]: "quiet env \<Longrightarrow> isolated env = env"
proof -
  assume "quiet env"
  then have "(\<lambda>k (d, r). (d, snd (e_others env k (d, r)))) = e_others env"
    by (auto simp: quiet_def fun_eq_iff)
  then show ?thesis unfolding isolated_def by simp
qed

lemma stepsD: "steps Q R m \<Longrightarrow> Q env \<Longrightarrow> m env w = (res, w') \<Longrightarrow> R w w'"
  unfolding steps_def by (metis snd_conv)

locale step_preorder =
  fixes Q :: "env \<Rightarrow> bool" and R :: "world \<Rightarrow> world \<Rightarrow> bool"
  assumes same: "R w w"
    and trans: "R u v \<Longrightarrow> R v w \<Longrightarrow> R u w"
    and disturb: "Q env \<Longrightarrow> R w (interfere env w)"
begin

lemma steps_pure:
  "steps Q R (returnIO x)" "steps Q R (throwIO e)" "steps Q R (liftIO r)" "steps Q R (askIO g)"
  "steps Q R nowIO" "steps Q R getLocal"
  by (simp_all add: steps_def same)

lemma steps_bindIO:
  assumes "steps Q R m" "\<And>x. steps Q R (f x)"
  shows "steps Q R (bindIO m f)"
  unfolding steps_def
proof (intro allI impI)
  fix env :: env and w :: world
  assume q: "Q env"
  obtain res w1 where m: "m env w = (res, w1)" by fastforce
  have "R w w1" using stepsD[OF assms(1) q m] .
  then show "R w (snd (bindIO m f env w))"
    using assms(2) q by (cases res) (auto simp: bindIO_def m steps_def intro: trans)
qed

lemma steps_catchIO:
  assumes "steps Q R m" "\<And>e. steps Q R (h e)"
  shows "steps Q R (catchIO m h)"
  unfolding steps_def
proof (intro allI impI)
  fix env :: env and w :: world
  assume q: "Q env"
  obtain res w1 where m: "m env w = (res, w1)" by fastforce
  have "R w w1" using stepsD[OF assms(1) q m] .
  then show "R w (snd (catchIO m h env w))"
    using assms(2) q by (cases res) (auto simp: catchIO_def m steps_def intro: trans)
qed

lemma steps_option:
  "steps Q R m \<Longrightarrow> (\<And>x. steps Q R (f x)) \<Longrightarrow> steps Q R (case v of None \<Rightarrow> m | Some x \<Rightarrow> f x)"
  by (cases v) simp_all

lemma steps_if: "steps Q R m \<Longrightarrow> steps Q R n \<Longrightarrow> steps Q R (if c then m else n)"
  by simp

lemma steps_mapIO: "(\<And>x. steps Q R (f x)) \<Longrightarrow> steps Q R (mapIO f xs)"
  by (induction xs) (auto intro!: steps_pure steps_bindIO)

lemma steps_db_call:
  assumes "\<And>env k w x d. f env k (w_db w) = Inr (x, d) \<Longrightarrow> R w (w\<lparr>w_db := d\<rparr>)"
  shows "steps Q R (db_call f)"
  unfolding steps_def
proof (intro allI impI)
  fix env :: env and w :: world
  assume q: "Q env"
  show "R w (snd (db_call f env w))"
    using disturb[OF q, of w] assms[of env "w_tick w" "interfere env w"]
    by (auto simp: db_call_def Let_def intro: trans split: outcome.splits sum.splits)
qed

lemma steps_db_read: "steps Q R (db_read g)"
  unfolding db_read_def
proof (rule steps_db_call)
  fix env :: env and k :: nat and w :: world and x and d :: db
  assume "selectT (g env) (w_db w) = Inr (x, d)"
  then show "R w (w\<lparr>w_db := d\<rparr>)" using same[of w] by (auto simp: selectT_def)
qed

lemma steps_redis_call:
  assumes "\<And>env k w x r. f env k (w_redis w) = (x, r) \<Longrightarrow> R w (w\<lparr>w_redis := r\<rparr>)"
  shows "steps Q R (redis_call f)"
  unfolding steps_def
proof (intro allI impI)
  fix env :: env and w :: world
  assume q: "Q env"
  show "R w (snd (redis_call f env w))"
    using disturb[OF q, of w] assms[of env "w_tick w" "interfere env w"]
    by (auto simp: redis_call_def Let_def intro: trans split: outcome.splits prod.splits)
qed

lemmas steps_rules = steps_pure steps_bindIO steps_catchIO steps_option steps_if steps_db_read
  steps_mapIO

end

text \<open>The stores an operation leaves alone.\<close>

definition same_redis :: "world \<Rightarrow> world \<Rightarrow> bool" where
  "same_redis w w' \<longleftrightarrow>
    w_redis w' = w_redis w \<and> w_local w' = w_local w \<and> w_tick w \<le> w_tick w'"

definition but_activity :: "db \<Rightarrow> db \<Rightarrow> bool" where
  "but_activity d d' \<longleftrightarrow>
    customers d' = customers d \<and> licenses d' = licenses d \<and> ipAllowlist d' = ipAllowlist d \<and>
    deviceAllowlist d' = deviceAllowlist d \<and> devices d' = devices d \<and> meters d' = meters d \<and>
    ledger d' = ledger d \<and> stripeLinks d' = stripeLinks d \<and> webhookEvents d' = webhookEvents d"

definition same_tables :: "world \<Rightarrow> world \<Rightarrow> bool" where
  "same_tables w w' \<longleftrightarrow> but_activity (w_db w) (w_db w')"

lemma but_activity_refl [simp]: "but_activity d d"
  by (simp add: but_activity_def)

lemma but_activity_trans: "but_activity a b \<Longrightarrow> but_activity b c \<Longrightarrow> but_activity a c"
  by (simp add: but_activity_def)

definition same_local :: "world \<Rightarrow> world \<Rightarrow> bool" where
  "same_local w w' \<longleftrightarrow> w_local w' = w_local w"

interpretation local_kept: step_preorder "\<lambda>_. True" same_local
  by unfold_locales (auto simp: same_local_def interfere_isolated)

definition same_db :: "world \<Rightarrow> world \<Rightarrow> bool" where
  "same_db w w' \<longleftrightarrow> w_db w' = w_db w"

interpretation db_kept: step_preorder quiet same_db
  by unfold_locales (auto simp: same_db_def)

lemma steps_same_db_redis [intro]: "steps quiet same_db (redis_call f)"
  by (rule db_kept.steps_redis_call) (simp add: same_db_def)

interpretation redis_kept: step_preorder quiet same_redis
  by unfold_locales (auto simp: same_redis_def)

interpretation tables_kept: step_preorder quiet same_tables
  by unfold_locales (auto simp: same_tables_def intro: but_activity_trans)

lemma steps_same_local_calls [intro]:
  "steps (\<lambda>_. True) same_local (db_call f)" "steps (\<lambda>_. True) same_local (redis_call g)"
  by (rule local_kept.steps_db_call local_kept.steps_redis_call; simp add: same_local_def)+

lemma steps_same_redis_db [intro]: "steps quiet same_redis (db_call f)"
  by (rule redis_kept.steps_db_call) (simp add: same_redis_def)

lemma steps_same_tables_redis [intro]: "steps quiet same_tables (redis_call f)"
  by (rule tables_kept.steps_redis_call) (simp add: same_tables_def)

text \<open>\<open>calm env\<close>: nothing interferes and no call is lost; then every call is a function.\<close>

definition calm :: "env \<Rightarrow> bool" where
  "calm env \<longleftrightarrow> quiet env \<and> (\<forall>k. e_dbOutcome env k = Done \<and> e_redisOutcome env k = Done)"

lemma calm_quiet: "calm env \<Longrightarrow> quiet env"
  by (simp add: calm_def)

lemma calm_db_read [simp]:
  "calm env \<Longrightarrow> db_read g env w = (Inr (g env (w_db w)), w\<lparr>w_tick := Suc (w_tick w)\<rparr>)"
  by (simp add: calm_def db_read_def db_call_def Let_def)

lemma calm_db_call:
  "calm env \<Longrightarrow> db_call f env w =
    (case f env (w_tick w) (w_db w) of
      Inl e \<Rightarrow> (Inl e, w\<lparr>w_tick := Suc (w_tick w)\<rparr>)
    | Inr (x, d) \<Rightarrow> (Inr x, w\<lparr>w_tick := Suc (w_tick w), w_db := d\<rparr>))"
  by (simp add: calm_def db_call_def Let_def split: sum.splits)

lemma calm_redis_call:
  "calm env \<Longrightarrow> redis_call f env w =
    (case f env (w_tick w) (w_redis w) of
      (res, r) \<Rightarrow> (res, w\<lparr>w_tick := Suc (w_tick w), w_redis := r\<rparr>))"
  by (simp add: calm_def redis_call_def Let_def)

lemma bindIO_run: "m env w = (Inr x, w1) \<Longrightarrow> bindIO m f env w = f x env w1"
  by (simp add: bindIO_def)

lemma bindIO_fail: "m env w = (Inl e, w1) \<Longrightarrow> bindIO m f env w = (Inl e, w1)"
  by (simp add: bindIO_def)

lemma catchIO_run: "m env w = (Inr x, w1) \<Longrightarrow> catchIO m h env w = (Inr x, w1)"
  by (simp add: catchIO_def)

lemma catchIO_fail: "m env w = (Inl e, w1) \<Longrightarrow> catchIO m h env w = h e env w1"
  by (simp add: catchIO_def)

end
