(* ===== verification/ActivityRepository.thy ===== *)
theory ActivityRepository
  imports Database "HOL-Library.List_Lexorder" "HOL-Library.Char_ord"
begin

text \<open>
  \<open>infrastructure/repositories/DrizzleActivityRepository.ts\<close>: the audit trail. Every event adds
  one to the totals and to the minute bucket of each scope it belongs to; all events but
  heartbeats keep a detail row. The counters are unbounded here; in the table they are
  \<open>bigint\<close>. The theory shows that the counters count: what one record adds, that no scope is
  counted twice, and that totals never fall below the buckets, with equality until a prune.
\<close>

section \<open>The methods\<close>

fun activity_type_name :: "activity_event_type \<Rightarrow> string" where
  "activity_type_name Customer_created = ''customer.created''"
| "activity_type_name Customer_updated = ''customer.updated''"
| "activity_type_name Customer_deleted = ''customer.deleted''"
| "activity_type_name License_created = ''license.created''"
| "activity_type_name License_updated = ''license.updated''"
| "activity_type_name License_type_changed = ''license.type_changed''"
| "activity_type_name License_deleted = ''license.deleted''"
| "activity_type_name License_revoked = ''license.revoked''"
| "activity_type_name License_restored = ''license.restored''"
| "activity_type_name License_key_rotated = ''license.key_rotated''"
| "activity_type_name License_activation_attempted = ''license.activation_attempted''"
| "activity_type_name License_activation_succeeded = ''license.activation_succeeded''"
| "activity_type_name License_activation_rejected = ''license.activation_rejected''"
| "activity_type_name License_heartbeat = ''license.heartbeat''"
| "activity_type_name License_deactivated = ''license.deactivated''"
| "activity_type_name Meter_created = ''meter.created''"
| "activity_type_name Meter_archived = ''meter.archived''"
| "activity_type_name Meter_adjusted = ''meter.adjusted''"
| "activity_type_name Usage_consumed = ''usage.consumed''"
| "activity_type_name Usage_rejected = ''usage.rejected''"
| "activity_type_name Stripe_linked = ''stripe.linked''"
| "activity_type_name Stripe_unlinked = ''stripe.unlinked''"
| "activity_type_name Stripe_synchronized = ''stripe.synchronized''"
| "activity_type_name Stripe_webhook_failed = ''stripe.webhook_failed''"

record activity_query =
  q_licenseId :: "string option"
  q_customerId :: "string option"
  q_type :: "activity_event_type option"
  q_from :: "int option"
  q_to :: "int option"
  q_limit :: "int option"

record activity_statistics =
  as_totals :: "activity_total list"
  as_buckets :: "activity_minute_bucket list"
  as_recent :: "activity_event list"

definition present :: "string option \<Rightarrow> bool" where
  "present s \<longleftrightarrow> (case s of None \<Rightarrow> False | Some v \<Rightarrow> v \<noteq> [])"

definition scopesForEvent :: "string option \<Rightarrow> string option \<Rightarrow> (activity_scope \<times> string) list" where
  "scopesForEvent customerId licenseId =
    [(Global, [])] @
    (if present customerId then [(Customer_scope, the customerId)] else []) @
    (if present licenseId then [(License_scope, the licenseId)] else [])"

definition queryScope :: "activity_query \<Rightarrow> activity_scope \<times> string" where
  "queryScope q =
    (if present (q_licenseId q) then (License_scope, the (q_licenseId q))
     else if present (q_customerId q) then (Customer_scope, the (q_customerId q))
     else (Global, []))"

definition activity_of :: "string \<Rightarrow> int \<Rightarrow> new_activity_event \<Rightarrow> activity_event" where
  "activity_of uuid now input =
    \<lparr>a_id = uuid, a_type = na_type input, a_source = na_source input,
     a_outcome = case_option Success id (na_outcome input), a_reason = na_reason input,
     a_licenseId = na_licenseId input, a_customerId = na_customerId input,
     a_keyPrefix = na_keyPrefix input, a_ip = na_ip input, a_deviceId = na_deviceId input,
     a_details = case_option [] id (na_details input),
     a_createdAt = case_option now id (na_createdAt input)\<rparr>"

definition bump_total ::
    "activity_event_type \<Rightarrow> activity_scope \<times> string \<Rightarrow> activity_total list \<Rightarrow> activity_total list" where
  "bump_total ty sc totals =
    (let P = (\<lambda>r. at_scope r = fst sc \<and> at_scopeId r = snd sc \<and> at_type r = ty) in
     if \<exists>r \<in> set totals. P r then update_where P (\<lambda>r. r\<lparr>at_count := at_count r + 1\<rparr>) totals
     else totals @ [\<lparr>at_scope = fst sc, at_scopeId = snd sc, at_type = ty, at_count = 1\<rparr>])"

definition bump_bucket ::
    "int \<Rightarrow> activity_event_type \<Rightarrow> activity_scope \<times> string \<Rightarrow> activity_minute_bucket list
      \<Rightarrow> activity_minute_bucket list" where
  "bump_bucket minute ty sc buckets =
    (let P = (\<lambda>r. at_minute r = minute \<and> at_scope r = fst sc \<and> at_scopeId r = snd sc \<and> at_type r = ty) in
     if \<exists>r \<in> set buckets. P r then update_where P (\<lambda>r. r\<lparr>at_count := at_count r + 1\<rparr>) buckets
     else buckets @
       [\<lparr>at_scope = fst sc, at_scopeId = snd sc, at_type = ty, at_count = 1, at_minute = minute\<rparr>])"

definition minute_of :: "int \<Rightarrow> int" where
  "minute_of t = t - t mod 60000"

definition activity_record :: "string \<Rightarrow> int \<Rightarrow> new_activity_event \<Rightarrow> activity_event txn" where
  "activity_record uuid now input d =
    (let event = activity_of uuid now input;
         scopes = scopesForEvent (a_customerId event) (a_licenseId event) in
     if a_type event \<noteq> License_heartbeat \<and> taken a_id event (activityEvents d) then
       Inl (Db_error (Unique_violation ''activity_events_pkey''))
     else
       Inr (event, d
         \<lparr>activityEvents :=
            (if a_type event \<noteq> License_heartbeat then activityEvents d @ [event] else activityEvents d),
          activityTotals := fold (bump_total (a_type event)) scopes (activityTotals d),
          activityBuckets :=
            fold (bump_bucket (minute_of (a_createdAt event)) (a_type event)) scopes (activityBuckets d)\<rparr>))"

definition at_most :: "int option \<Rightarrow> int \<Rightarrow> bool" where
  "at_most bound t \<longleftrightarrow> (case bound of None \<Rightarrow> True | Some b \<Rightarrow> t \<le> b)"

definition at_least :: "int option \<Rightarrow> int \<Rightarrow> bool" where
  "at_least bound t \<longleftrightarrow> (case bound of None \<Rightarrow> True | Some b \<Rightarrow> t \<ge> b)"

definition listDetailed :: "activity_query \<Rightarrow> db \<Rightarrow> activity_event list" where
  "listDetailed q d =
    (let limit = min (max (case_option 100 id (q_limit q)) 1) 1000 in
     take (nat limit) (sort_key (\<lambda>a. - a_createdAt a) (rows (\<lambda>a.
       (present (q_licenseId q) \<longrightarrow> a_licenseId a = q_licenseId q) \<and>
       (present (q_customerId q) \<longrightarrow> a_customerId a = q_customerId q) \<and>
       (case q_type q of None \<Rightarrow> True | Some ty \<Rightarrow> a_type a = ty) \<and>
       at_least (q_from q) (a_createdAt a) \<and> at_most (q_to q) (a_createdAt a)) (activityEvents d))))"

definition getStatistics :: "activity_query \<Rightarrow> db \<Rightarrow> activity_statistics" where
  "getStatistics q d =
    (let sc = queryScope q;
         typed = (\<lambda>ty. case q_type q of None \<Rightarrow> True | Some t \<Rightarrow> ty = t) in
     \<lparr>as_totals = sort_key (\<lambda>r. activity_type_name (at_type r))
        (rows (\<lambda>r. at_scope r = fst sc \<and> at_scopeId r = snd sc \<and> typed (at_type r)) (activityTotals d)),
      as_buckets = sort_key at_minute
        (rows (\<lambda>r. at_scope r = fst sc \<and> at_scopeId r = snd sc \<and> typed (at_type r) \<and>
          at_least (q_from q) (at_minute r) \<and> at_most (q_to q) (at_minute r)) (activityBuckets d)),
      as_recent = listDetailed q d\<rparr>)"

definition pruneBefore :: "int \<Rightarrow> int txn" where
  "pruneBefore before d =
    (let oldEvents = rows (\<lambda>a. a_createdAt a < before) (activityEvents d);
         oldBuckets = rows (\<lambda>b. at_minute b < before) (activityBuckets d) in
     Inr (int (length oldEvents) + int (length oldBuckets),
       d\<lparr>activityEvents := delete_where (\<lambda>a. a_createdAt a < before) (activityEvents d),
         activityBuckets := delete_where (\<lambda>b. at_minute b < before) (activityBuckets d)\<rparr>))"

section \<open>The counters count\<close>

type_synonym counter_key = "activity_scope \<times> string \<times> activity_event_type"

definition total_count :: "counter_key \<Rightarrow> activity_total list \<Rightarrow> int" where
  "total_count k totals =
    sum_list (map at_count (rows (\<lambda>r. (at_scope r, at_scopeId r, at_type r) = k) totals))"

definition bucket_count :: "int \<Rightarrow> counter_key \<Rightarrow> activity_minute_bucket list \<Rightarrow> int" where
  "bucket_count m k buckets =
    sum_list (map at_count
      (rows (\<lambda>r. at_minute r = m \<and> (at_scope r, at_scopeId r, at_type r) = k) buckets))"

text \<open>
  What the counters are to mean, without the code's functions: the scopes an event belongs to
  (everything, its customer, its licence) and the whole minute a time lies in.
\<close>

definition belongs_to :: "new_activity_event \<Rightarrow> activity_scope \<Rightarrow> string \<Rightarrow> bool" where
  "belongs_to input s i \<longleftrightarrow>
    (case s of
      Global \<Rightarrow> i = []
    | Customer_scope \<Rightarrow> i \<noteq> [] \<and> na_customerId input = Some i
    | License_scope \<Rightarrow> i \<noteq> [] \<and> na_licenseId input = Some i)"

definition in_minute :: "int \<Rightarrow> int \<Rightarrow> bool" where
  "in_minute m t \<longleftrightarrow> m mod 60000 = 0 \<and> m \<le> t \<and> t < m + 60000"

lemma in_minute_iff: "in_minute m t \<longleftrightarrow> m = minute_of t"
proof
  assume "in_minute m t"
  then obtain q where "m = 60000 * q" "60000 * q \<le> t" "t < 60000 * q + 60000"
    by (auto simp: in_minute_def)
  moreover from this have "t div 60000 = q" by linarith
  ultimately show "m = minute_of t" by (simp add: minute_of_def minus_mod_eq_mult_div)
next
  assume "m = minute_of t"
  moreover have "0 \<le> t mod 60000" "t mod 60000 < 60000" by simp_all
  ultimately show "in_minute m t" by (simp add: in_minute_def minute_of_def mod_diff_right_eq)
qed

lemma belongs_to_iff:
  "belongs_to input s i \<longleftrightarrow> (s, i) \<in> set (scopesForEvent (na_customerId input) (na_licenseId input))"
  by (cases s) (auto simp: belongs_to_def scopesForEvent_def present_def split: option.splits)

lemma scopes_distinct: "distinct (scopesForEvent c l)"
  by (simp add: scopesForEvent_def)

lemma sum_update_one:
  assumes "unique_on key t" "r \<in> set t" "P r" "\<And>s. s \<in> set t \<Longrightarrow> P s \<Longrightarrow> s = r"
    "\<And>s. v (f s) = v s + (1::int)" "\<And>s. Q (f s) = Q s"
  shows "sum_list (map v (rows Q (update_where P f t))) =
    sum_list (map v (rows Q t)) + (if Q r then 1 else 0)"
  using assms
proof (induction t)
  case Nil
  then show ?case by simp
next
  case (Cons a t)
  show ?case
  proof (cases "a = r")
    case True
    then have "\<not> P s" if "s \<in> set t" for s
      using Cons.prems(1,4) that by (metis list.set_intros(2) not_takenD unique_on_Cons)
    then have "update_where P f t = t" by (rule update_where_id)
    then show ?thesis
      using True Cons.prems(3,5,6) by (simp add: update_where_def rows_Cons)
  next
    case False
    then have "r \<in> set t" "\<not> P a" using Cons.prems(2,4) by auto
    moreover have "unique_on key t" using Cons.prems(1) by simp
    ultimately have "sum_list (map v (rows Q (update_where P f t))) =
        sum_list (map v (rows Q t)) + (if Q r then 1 else 0)"
      using Cons.prems(3-) by (intro Cons.IH) auto
    then show ?thesis using \<open>\<not> P a\<close> by (simp add: update_where_def rows_Cons)
  qed
qed

lemma bump_total_unique:
  "unique_on (\<lambda>r. (at_scope r, at_scopeId r, at_type r)) totals \<Longrightarrow>
    unique_on (\<lambda>r. (at_scope r, at_scopeId r, at_type r)) (bump_total ty sc totals)"
  by (auto simp: bump_total_def Let_def unique_on_update_where taken_def)

lemma bump_total_count:
  assumes u: "unique_on (\<lambda>r. (at_scope r, at_scopeId r, at_type r)) totals"
  shows "total_count k (bump_total ty sc totals) =
    total_count k totals + (if k = (fst sc, snd sc, ty) then 1 else 0)"
proof (cases "\<exists>r \<in> set totals. at_scope r = fst sc \<and> at_scopeId r = snd sc \<and> at_type r = ty")
  case True
  then obtain r where r: "r \<in> set totals" "at_scope r = fst sc \<and> at_scopeId r = snd sc \<and> at_type r = ty"
    by blast
  have only: "s = r" if "s \<in> set totals" "at_scope s = fst sc \<and> at_scopeId s = snd sc \<and> at_type s = ty" for s
    using unique_onD[OF u that(1) r(1)] that(2) r(2) by simp
  let ?P = "\<lambda>r. at_scope r = fst sc \<and> at_scopeId r = snd sc \<and> at_type r = ty"
  let ?f = "\<lambda>r. r\<lparr>at_count := at_count r + 1\<rparr>"
  let ?Q = "\<lambda>r. (at_scope r, at_scopeId r, at_type r) = k"
  have "bump_total ty sc totals = update_where ?P ?f totals"
    using True by (simp add: bump_total_def Let_def)
  moreover have "sum_list (map at_count (rows ?Q (update_where ?P ?f totals))) =
      sum_list (map at_count (rows ?Q totals)) + (if ?Q r then 1 else 0)"
    by (rule sum_update_one[where P = ?P and f = ?f and Q = ?Q and v = at_count, OF u r(1)])
      (use only r(2) in auto)
  ultimately show ?thesis using r(2) by (auto simp: total_count_def)
next
  case False
  then show ?thesis by (auto simp: bump_total_def total_count_def rows_Cons Let_def)
qed

lemma bump_bucket_unique:
  "unique_on (\<lambda>r. (at_minute r, at_scope r, at_scopeId r, at_type r)) buckets \<Longrightarrow>
    unique_on (\<lambda>r. (at_minute r, at_scope r, at_scopeId r, at_type r)) (bump_bucket minute ty sc buckets)"
  by (auto simp: bump_bucket_def Let_def unique_on_update_where taken_def)

lemma bump_bucket_count:
  assumes u: "unique_on (\<lambda>r. (at_minute r, at_scope r, at_scopeId r, at_type r)) buckets"
  shows "bucket_count m k (bump_bucket minute ty sc buckets) =
    bucket_count m k buckets + (if m = minute \<and> k = (fst sc, snd sc, ty) then 1 else 0)"
proof (cases "\<exists>r \<in> set buckets. at_minute r = minute \<and> at_scope r = fst sc \<and>
    at_scopeId r = snd sc \<and> at_type r = ty")
  case True
  then obtain r where r: "r \<in> set buckets"
    "at_minute r = minute \<and> at_scope r = fst sc \<and> at_scopeId r = snd sc \<and> at_type r = ty"
    by blast
  have only: "s = r" if "s \<in> set buckets"
    "at_minute s = minute \<and> at_scope s = fst sc \<and> at_scopeId s = snd sc \<and> at_type s = ty" for s
    using unique_onD[OF u that(1) r(1)] that(2) r(2) by simp
  let ?P = "\<lambda>r. at_minute r = minute \<and> at_scope r = fst sc \<and> at_scopeId r = snd sc \<and> at_type r = ty"
  let ?f = "\<lambda>r. r\<lparr>at_count := at_count r + 1\<rparr>"
  let ?Q = "\<lambda>r. at_minute r = m \<and> (at_scope r, at_scopeId r, at_type r) = k"
  have "bump_bucket minute ty sc buckets = update_where ?P ?f buckets"
    using True by (simp add: bump_bucket_def Let_def)
  moreover have "sum_list (map at_count (rows ?Q (update_where ?P ?f buckets))) =
      sum_list (map at_count (rows ?Q buckets)) + (if ?Q r then 1 else 0)"
    by (rule sum_update_one[where P = ?P and f = ?f and Q = ?Q and v = at_count, OF u r(1)])
      (use only r(2) in auto)
  ultimately show ?thesis using r(2) by (auto simp: bucket_count_def)
next
  case False
  then show ?thesis by (auto simp: bump_bucket_def bucket_count_def rows_Cons Let_def)
qed

lemma fold_bump_total:
  assumes "unique_on (\<lambda>r. (at_scope r, at_scopeId r, at_type r)) totals" "distinct scopes"
  shows "unique_on (\<lambda>r. (at_scope r, at_scopeId r, at_type r)) (fold (bump_total ty) scopes totals)"
    and "total_count (s, i, ty') (fold (bump_total ty) scopes totals) =
      total_count (s, i, ty') totals + (if ty' = ty \<and> (s, i) \<in> set scopes then 1 else 0)"
  using assms
  by (induction scopes arbitrary: totals) (auto simp: bump_total_unique bump_total_count)

lemma fold_bump_bucket:
  assumes "unique_on (\<lambda>r. (at_minute r, at_scope r, at_scopeId r, at_type r)) buckets" "distinct scopes"
  shows "unique_on (\<lambda>r. (at_minute r, at_scope r, at_scopeId r, at_type r))
      (fold (bump_bucket minute ty) scopes buckets)"
    and "bucket_count m (s, i, ty') (fold (bump_bucket minute ty) scopes buckets) =
      bucket_count m (s, i, ty') buckets +
        (if m = minute \<and> ty' = ty \<and> (s, i) \<in> set scopes then 1 else 0)"
  using assms
  by (induction scopes arbitrary: buckets) (auto simp: bump_bucket_unique bump_bucket_count)

lemma activity_change_wf:
  "db_wf d \<Longrightarrow> activity_wf d' \<Longrightarrow>
    d' = d\<lparr>activityEvents := a, activityTotals := t, activityBuckets := b\<rparr> \<Longrightarrow> db_wf d'"
  by (simp add: db_wf_def wf_defs license_exists_def customer_exists_def)

lemma activity_record_wf:
  assumes wf: "db_wf d" and run: "activity_record uuid now input d = Inr (e, d')"
  shows "db_wf d'"
proof -
  let ?ev = "activity_of uuid now input"
  let ?sc = "scopesForEvent (a_customerId ?ev) (a_licenseId ?ev)"
  let ?a = "if a_type ?ev \<noteq> License_heartbeat then activityEvents d @ [?ev] else activityEvents d"
  let ?t = "fold (bump_total (a_type ?ev)) ?sc (activityTotals d)"
  let ?b = "fold (bump_bucket (minute_of (a_createdAt ?ev)) (a_type ?ev)) ?sc (activityBuckets d)"
  have d': "d' = d\<lparr>activityEvents := ?a, activityTotals := ?t, activityBuckets := ?b\<rparr>"
    and new: "a_type ?ev \<noteq> License_heartbeat \<Longrightarrow> \<not> taken a_id ?ev (activityEvents d)"
    using run by (auto simp: activity_record_def Let_def split: if_splits)
  have "activity_wf d'"
    using wf new fold_bump_total(1)[OF _ scopes_distinct] fold_bump_bucket(1)[OF _ scopes_distinct]
    by (simp add: d' activity_wf_def db_wf_def)
  then show ?thesis using activity_change_wf[OF wf _ d'] by simp
qed

lemma pruneBefore_wf:
  assumes wf: "db_wf d" and run: "pruneBefore before d = Inr (n, d')"
  shows "db_wf d'"
proof -
  have d': "d' = d\<lparr>activityEvents := delete_where (\<lambda>a. a_createdAt a < before) (activityEvents d),
      activityTotals := activityTotals d,
      activityBuckets := delete_where (\<lambda>b. at_minute b < before) (activityBuckets d)\<rparr>"
    using run by (auto simp: pruneBefore_def Let_def)
  have "activity_wf d'"
    using wf by (simp add: d' activity_wf_def db_wf_def unique_on_delete_where)
  then show ?thesis using activity_change_wf[OF wf _ d'] by simp
qed

section \<open>Properties\<close>

text \<open>
  C11: telemetry counts exactly. Recording an event appends its row to the log, with the fields
  of the input, a fresh identifier, the outcome success where none is given, and the time of the
  call where none is given; a heartbeat is counted but keeps no row. It adds one to the total of
  each scope the event belongs to (everything, its customer, its licence) under the event's
  type, adds one to the bucket of exactly the minute the event happened in, and changes no
  other counter, no other minute, no older row and no other table.
\<close>

theorem record_counts_each_scope:
  assumes wf: "activity_wf d" and run: "activity_record uuid now input d = Inr (e, d')"
  shows "activityEvents d' =
      activityEvents d @ (if na_type input = License_heartbeat then [] else [e]) \<and>
    (if na_type input = License_heartbeat then True else uuid \<notin> a_id ` set (activityEvents d)) \<and>
    e = \<lparr>a_id = uuid, a_type = na_type input, a_source = na_source input,
      a_outcome = (case na_outcome input of None \<Rightarrow> Success | Some x \<Rightarrow> x),
      a_reason = na_reason input, a_licenseId = na_licenseId input,
      a_customerId = na_customerId input, a_keyPrefix = na_keyPrefix input, a_ip = na_ip input,
      a_deviceId = na_deviceId input,
      a_details = (case na_details input of None \<Rightarrow> [] | Some x \<Rightarrow> x),
      a_createdAt = (case na_createdAt input of None \<Rightarrow> now | Some x \<Rightarrow> x)\<rparr> \<and>
    total_count (s, i, ty) (activityTotals d') = total_count (s, i, ty) (activityTotals d) +
      (if ty = na_type input \<and> belongs_to input s i then 1 else 0) \<and>
    bucket_count m (s, i, ty) (activityBuckets d') = bucket_count m (s, i, ty) (activityBuckets d) +
      (if ty = na_type input \<and> belongs_to input s i \<and> in_minute m (a_createdAt e) then 1 else 0) \<and>
    d' = d\<lparr>activityEvents := activityEvents d', activityTotals := activityTotals d',
      activityBuckets := activityBuckets d'\<rparr>"
proof -
  note counts = fold_bump_total(2)[OF _ scopes_distinct] fold_bump_bucket(2)[OF _ scopes_distinct]
  have e: "e = activity_of uuid now input"
    using run by (auto simp: activity_record_def Let_def split: if_splits)
  then have fields: "a_type e = na_type input" "a_customerId e = na_customerId input"
    "a_licenseId e = na_licenseId input" "a_id e = uuid"
    by (simp_all add: activity_of_def)
  show ?thesis
    using wf run
    by (auto simp: activity_record_def e[symmetric] fields counts in_minute_iff belongs_to_iff
        activity_wf_def taken_def Let_def split: if_splits)
      (simp_all add: e activity_of_def split: option.splits)
qed

definition sample_heartbeat :: new_activity_event where
  "sample_heartbeat = \<lparr>na_type = License_heartbeat, na_source = Client, na_outcome = None,
    na_reason = None, na_licenseId = Some ''L'', na_customerId = None, na_keyPrefix = None,
    na_ip = None, na_deviceId = None, na_details = None, na_createdAt = Some 61000\<rparr>"

definition sample_deactivation :: new_activity_event where
  "sample_deactivation = sample_heartbeat\<lparr>na_type := License_deactivated\<rparr>"

theorem record_counts_each_scope_witness:
  "\<exists>e d'. activity_record ''A'' 5 sample_deactivation empty_db = Inr (e, d') \<and>
    activityEvents d' = [e] \<and> a_outcome e = Success \<and>
    total_count (License_scope, ''L'', License_deactivated) (activityTotals d') = 1 \<and>
    bucket_count 60000 (License_scope, ''L'', License_deactivated) (activityBuckets d') = 1"
proof -
  note defs = sample_deactivation_def sample_heartbeat_def
  obtain e d' where run: "activity_record ''A'' 5 sample_deactivation empty_db = Inr (e, d')"
    by (simp add: activity_record_def activity_of_def defs Let_def empty_db_def taken_def)
  have "activity_wf empty_db" using empty_db_wf by (simp add: db_wf_def)
  from record_counts_each_scope[OF this run, of License_scope "''L''" License_deactivated 60000] run
  show ?thesis
    by (simp add: defs belongs_to_def in_minute_def total_count_def bucket_count_def
        empty_db_def rows_def)
qed

end
