(* ===== verification/ActivityService.thy ===== *)
theory ActivityService
  imports Io ActivityRepository
begin

text \<open>
  \<open>application/services/ActivityService.ts\<close>: what may be written to the audit trail, and the
  recorder that never lets telemetry fail an operation. The three regular expressions are the
  matchers below, over code units; the \<open>i\<close> flag folds ASCII letters, the only letters the
  patterns name.

  The theory shows that what is stored contains no sensitive key or value at any depth, that
  sanitising is idempotent and leaves clean values alone, and that \<open>capture\<close> cannot raise.
\<close>

section \<open>The patterns\<close>

definition lower :: "char \<Rightarrow> char" where
  "lower c = (let n = (of_char c :: nat) in if 65 \<le> n \<and> n \<le> 90 then char_of (n + 32) else c)"

definition alnum :: "char \<Rightarrow> bool" where
  "alnum c \<longleftrightarrow> (let n = (of_char c :: nat) in
    48 \<le> n \<and> n \<le> 57 \<or> 65 \<le> n \<and> n \<le> 90 \<or> 97 \<le> n \<and> n \<le> 122)"

definition hex_digit :: "char \<Rightarrow> bool" where
  "hex_digit c \<longleftrightarrow> (let n = (of_char c :: nat) in
    48 \<le> n \<and> n \<le> 57 \<or> 65 \<le> n \<and> n \<le> 70 \<or> 97 \<le> n \<and> n \<le> 102)"

fun starts_with :: "string \<Rightarrow> string \<Rightarrow> bool" where
  "starts_with [] s = True"
| "starts_with (p # ps) [] = False"
| "starts_with (p # ps) (c # cs) \<longleftrightarrow> p = lower c \<and> starts_with ps cs"

fun suffixes_of :: "string \<Rightarrow> string list" where
  "suffixes_of [] = [[]]"
| "suffixes_of (c # cs) = (c # cs) # suffixes_of cs"

definition contains :: "string \<Rightarrow> string \<Rightarrow> bool" where
  "contains p s \<longleftrightarrow> list_ex (starts_with p) (suffixes_of s)"

definition line_end :: "char \<Rightarrow> bool" where
  "line_end c \<longleftrightarrow> (of_char c :: nat) \<in> {10, 13}"

definition optional_gap :: "string \<Rightarrow> string \<Rightarrow> bool" where
  "optional_gap p s \<longleftrightarrow>
    starts_with p s \<or> (case s of [] \<Rightarrow> False | c # cs \<Rightarrow> \<not> line_end c \<and> starts_with p cs)"

definition contains_gap :: "string \<Rightarrow> string \<Rightarrow> string \<Rightarrow> bool" where
  "contains_gap a b s \<longleftrightarrow>
    list_ex (\<lambda>t. starts_with a t \<and> optional_gap b (drop (length a) t)) (suffixes_of s)"

definition SENSITIVE_DETAIL_KEY :: "string \<Rightarrow> bool" where
  "SENSITIVE_DETAIL_KEY key \<longleftrightarrow>
    contains_gap ''license'' ''key'' key \<or> contains_gap ''api'' ''key'' key \<or>
    contains ''secret'' key \<or> contains ''token'' key \<or> contains ''authorization'' key \<or>
    contains ''password'' key"

definition secret_start :: "string \<Rightarrow> bool" where
  "secret_start s \<longleftrightarrow>
    starts_with ''lic_'' s \<or> starts_with ''sk_'' s \<or> starts_with ''whsec_'' s \<or>
    starts_with ''bearer'' s \<and> (case drop 6 s of [] \<Rightarrow> False | c # _ \<Rightarrow> js_space c)"

fun secret_after :: "string \<Rightarrow> bool" where
  "secret_after [] = False"
| "secret_after (c # cs) \<longleftrightarrow> \<not> alnum c \<and> secret_start cs \<or> secret_after cs"

definition SENSITIVE_DETAIL_VALUE :: "string \<Rightarrow> bool" where
  "SENSITIVE_DETAIL_VALUE s \<longleftrightarrow> secret_start s \<or> secret_after s"

definition UUID_DETAIL_VALUE :: "string \<Rightarrow> bool" where
  "UUID_DETAIL_VALUE s \<longleftrightarrow>
    length s = 36 \<and>
    list_all (\<lambda>i. s ! i = CHR ''-'') [8, 13, 18, 23] \<and>
    list_all (\<lambda>i. i \<in> {8, 13, 18, 23} \<or> hex_digit (s ! i)) [0..<36] \<and>
    s ! 14 \<in> set ''12345678'' \<and> lower (s ! 19) \<in> set ''89ab''"

definition sensitive_text :: "string \<Rightarrow> bool" where
  "sensitive_text s \<longleftrightarrow> SENSITIVE_DETAIL_VALUE s \<or> UUID_DETAIL_VALUE s"

definition REDACTED :: string where
  "REDACTED = ''[REDACTED]''"

section \<open>Sanitising\<close>

lemma json_field_size: "kv \<in> set kvs \<Longrightarrow> size (snd kv) < size (JObj kvs)"
proof (induction kvs)
  case (Cons a kvs)
  then show ?case by (cases a) auto
qed simp

function (sequential) sanitizeValue :: "json \<Rightarrow> json" where
  "sanitizeValue (JArr vs) = JArr (map sanitizeValue vs)"
| "sanitizeValue (JObj kvs) =
    JObj (map (\<lambda>kv. (fst kv, sanitizeValue (snd kv)))
      (filter (\<lambda>kv. \<not> SENSITIVE_DETAIL_KEY (fst kv)) kvs))"
| "sanitizeValue (JStr s) = JStr (if sensitive_text s then REDACTED else s)"
| "sanitizeValue v = v"
  by pat_completeness auto
termination
proof (relation "measure size", goal_cases)
  case 1
  then show ?case by simp
next
  case (2 vs v)
  then show ?case by (induction vs) auto
next
  case (3 kvs kv)
  then show ?case using json_field_size[of kv kvs] by simp
qed

definition sanitizeDetails :: "json_object \<Rightarrow> json_object" where
  "sanitizeDetails details =
    map (\<lambda>kv. (fst kv, sanitizeValue (snd kv)))
      (filter (\<lambda>kv. \<not> SENSITIVE_DETAIL_KEY (fst kv)) details)"

definition sanitizeReason :: "string option \<Rightarrow> string option" where
  "sanitizeReason reason =
    (case reason of
      None \<Rightarrow> None
    | Some r \<Rightarrow> if r = [] then Some r else if sensitive_text r then Some REDACTED else Some r)"

section \<open>The recorder\<close>

definition sanitized :: "new_activity_event \<Rightarrow> new_activity_event" where
  "sanitized input = input
    \<lparr>na_reason := sanitizeReason (na_reason input),
     na_keyPrefix := map_option (slice_prefix 16) (na_keyPrefix input),
     na_details := Some (sanitizeDetails (case_option [] id (na_details input)))\<rparr>"

definition record_activity :: "new_activity_event \<Rightarrow> activity_event io" where
  "record_activity input =
    db_call (\<lambda>env k. activity_record (e_uuid env k 0) (e_now env k) input)"

definition capture :: "new_activity_event \<Rightarrow> activity_event option io" where
  "capture input =
    catchIO (bindIO (record_activity (sanitized input)) (\<lambda>event. returnIO (Some event)))
      (\<lambda>_. returnIO None)"

definition noop_capture :: "new_activity_event \<Rightarrow> activity_event option io" where
  "noop_capture input = returnIO None"

definition activity_listDetailed :: "activity_query \<Rightarrow> activity_event list io" where
  "activity_listDetailed q = db_read (\<lambda>_. listDetailed q)"

definition activity_getStatistics :: "activity_query \<Rightarrow> activity_statistics io" where
  "activity_getStatistics q = db_read (\<lambda>_. getStatistics q)"

definition pruneExpiredActivity :: "jsnum \<Rightarrow> int \<Rightarrow> int io" where
  "pruneExpiredActivity retentionDays now =
    (case retentionDays of
      Integral n \<Rightarrow>
        if n < 1 then throwIO (Plain_error ''Activity retention days must be a positive integer.'')
        else db_call (\<lambda>_ _. pruneBefore (now - n * 24 * 60 * 60 * 1000))
    | _ \<Rightarrow> throwIO (Plain_error ''Activity retention days must be a positive integer.''))"

section \<open>What is stored is clean\<close>

function (sequential) clean :: "json \<Rightarrow> bool" where
  "clean (JArr vs) \<longleftrightarrow> list_all clean vs"
| "clean (JObj kvs) \<longleftrightarrow> list_all (\<lambda>kv. \<not> SENSITIVE_DETAIL_KEY (fst kv) \<and> clean (snd kv)) kvs"
| "clean (JStr s) \<longleftrightarrow> \<not> sensitive_text s"
| "clean _ = True"
  by pat_completeness auto
termination
proof (relation "measure size", goal_cases)
  case 1
  then show ?case by simp
next
  case (2 vs v)
  then show ?case by (induction vs) auto
next
  case (3 kvs kv)
  then show ?case using json_field_size[of kv kvs] by simp
qed

lemma redacted_clean: "\<not> sensitive_text REDACTED"
  by code_simp

lemma sanitizeValue_clean: "clean (sanitizeValue v)"
  by (induction v rule: sanitizeValue.induct) (auto simp: redacted_clean list_all_iff)

lemma sanitizeValue_id: "clean v \<Longrightarrow> sanitizeValue v = v"
proof (induction v rule: sanitizeValue.induct)
  case (1 vs)
  then show ?case by (auto simp: list_all_iff intro: map_idI)
next
  case (2 kvs)
  then have "filter (\<lambda>kv. \<not> SENSITIVE_DETAIL_KEY (fst kv)) kvs = kvs"
    by (auto simp: list_all_iff)
  with 2 show ?case by (auto simp: list_all_iff intro!: map_idI)
qed auto

definition clean_event :: "new_activity_event \<Rightarrow> bool" where
  "clean_event e \<longleftrightarrow>
    (\<forall>r. na_reason e = Some r \<and> r \<noteq> [] \<longrightarrow> \<not> sensitive_text r) \<and>
    (\<forall>p. na_keyPrefix e = Some p \<longrightarrow> length p \<le> 16) \<and>
    (\<forall>d. na_details e = Some d \<longrightarrow> clean (JObj d))"

lemma sanitizeDetails_eq: "sanitizeValue (JObj d) = JObj (sanitizeDetails d)"
  by (simp add: sanitizeDetails_def)

lemma sanitized_clean: "clean_event (sanitized e)"
  using sanitizeValue_clean[of "JObj (case_option [] id (na_details e))"] redacted_clean
  unfolding sanitizeDetails_eq
  by (auto simp: clean_event_def sanitized_def sanitizeReason_def slice_prefix_def
      simp del: clean.simps split: option.splits if_splits)

lemma capture_total: "\<exists>r w'. capture e env w = (Inr r, w')"
  by (cases "record_activity (sanitized e) env w")
    (auto simp: capture_def catchIO_def bindIO_def split: sum.splits prod.splits)

lemma activity_record_rest:
  "activity_record uuid now input d = Inr (e, d') \<Longrightarrow> but_activity d d'"
  by (auto simp: activity_record_def Let_def but_activity_def split: if_splits)

lemma keeps_capture:
  assumes stable: "\<And>d d'. I d \<Longrightarrow> db_wf d' \<Longrightarrow> but_activity d d' \<Longrightarrow> I d'"
    and wf: "\<And>d. I d \<Longrightarrow> db_wf d"
  shows "keeps_db I (capture e)"
proof -
  have "keeps I (activity_record uuid now input)" for uuid now input
    using stable activity_record_wf[OF wf] activity_record_rest by (blast intro: keepsI)
  then have "keeps_db I (record_activity (sanitized e))"
    unfolding record_activity_def by (intro keeps_db_call)
  then show ?thesis unfolding capture_def by (intro keeps_db_rules)
qed

lemma capture_steps: "steps quiet same_redis (capture e)" "steps quiet same_tables (capture e)"
proof -
  have "steps quiet same_tables (record_activity (sanitized e))"
    unfolding record_activity_def
    by (rule tables_kept.steps_db_call) (auto simp: same_tables_def dest: activity_record_rest)
  then show "steps quiet same_tables (capture e)"
    unfolding capture_def by (intro tables_kept.steps_rules)
  show "steps quiet same_redis (capture e)"
    unfolding capture_def record_activity_def by (intro redis_kept.steps_rules steps_same_redis_db)
qed

text \<open>
  The stored side: what every row of the audit trail is to satisfy.
\<close>

definition stored_clean :: "activity_event \<Rightarrow> bool" where
  "stored_clean a \<longleftrightarrow>
    (case a_reason a of None \<Rightarrow> True | Some r \<Rightarrow> r = [] \<or> \<not> sensitive_text r) \<and>
    (case a_keyPrefix a of None \<Rightarrow> True | Some p \<Rightarrow> length p \<le> 16) \<and>
    clean (JObj (a_details a))"

definition audit_clean :: "db \<Rightarrow> bool" where
  "audit_clean d \<longleftrightarrow> list_all stored_clean (activityEvents d)"

lemma activity_of_sanitized: "stored_clean (activity_of uuid now (sanitized input))"
  using sanitized_clean[of input]
  by (auto simp: stored_clean_def clean_event_def activity_of_def sanitized_def
      simp del: clean.simps split: option.splits)

lemma activity_record_Inr:
  "activity_record uuid now input d = Inr (e, d') \<Longrightarrow>
    e = activity_of uuid now input \<and>
    activityEvents d' = activityEvents d @ (if na_type input = License_heartbeat then [] else [e])"
  by (auto simp: activity_record_def activity_of_def Let_def split: if_splits)

lemma record_keeps_audit: "keeps audit_clean (activity_record uuid now (sanitized input))"
  by (rule keepsI) (auto simp: audit_clean_def activity_of_sanitized dest!: activity_record_Inr)

lemma capture_keeps_audit: "keeps_db audit_clean (capture input)"
  unfolding capture_def record_activity_def
  by (intro keeps_db_rules keeps_db_call record_keeps_audit)

lemma prune_keeps_audit: "keeps_db audit_clean (pruneExpiredActivity days now)"
proof -
  have "keeps audit_clean (pruneBefore before)" for before
    by (rule keepsI) (auto simp: pruneBefore_def Let_def audit_clean_def delete_where_def list_all_iff)
  then show ?thesis
    unfolding pruneExpiredActivity_def
    by (cases days) (auto intro!: keeps_db_rules keeps_db_call)
qed

lemma capture_cases:
  assumes "capture input env w = (res, w')"
  obtains e d where "res = Inr (Some e)" "w_db w' = d"
      "activity_record (e_uuid env (w_tick w) 0) (e_now env (w_tick w)) (sanitized input)
        (w_db (interfere env w)) = Inr (e, d)"
  | "res = Inr None" "e_dbOutcome env (w_tick w) \<noteq> Done"
  | "res = Inr None" "e_uuid env (w_tick w) 0 \<in> a_id ` set (activityEvents (w_db (interfere env w)))"
  using assms
  by (auto simp: capture_def record_activity_def catchIO_def bindIO_def db_call_def Let_def
      activity_record_def taken_def activity_of_def split: outcome.splits sum.splits if_splits)

lemma stored_event_fields:
  assumes e: "e = activity_of uuid now (sanitized input)"
  shows "a_type e = na_type input" "a_source e = na_source input"
    "a_licenseId e = na_licenseId input" "a_customerId e = na_customerId input"
    "a_ip e = na_ip input" "a_deviceId e = na_deviceId input"
    "a_keyPrefix e = map_option (take 16) (na_keyPrefix input)"
    "a_reason e = map_option (\<lambda>r. if r \<noteq> [] \<and> sensitive_text r then REDACTED else r) (na_reason input)"
  by (simp_all add: e activity_of_def sanitized_def slice_prefix_def[abs_def] sanitizeReason_def
      split: option.split)

lemma stored_event_details:
  assumes e: "e = activity_of uuid now (sanitized input)"
  shows "case na_details input of None \<Rightarrow> a_details e = []
    | Some d \<Rightarrow> (if clean (JObj d) then a_details e = d else True) \<and>
        map fst (a_details e) = filter (\<lambda>k. \<not> SENSITIVE_DETAIL_KEY k) (map fst d)"
proof (cases "na_details input")
  case None
  then show ?thesis by (simp add: e activity_of_def sanitized_def sanitizeDetails_def)
next
  case (Some d)
  then have d: "a_details e = sanitizeDetails d" by (simp add: e activity_of_def sanitized_def)
  have "sanitizeDetails d = d" if "clean (JObj d)"
    using sanitizeValue_id[OF that] unfolding sanitizeDetails_eq by simp
  moreover have "map fst (sanitizeDetails d) = filter (\<lambda>k. \<not> SENSITIVE_DETAIL_KEY k) (map fst d)"
    by (simp add: sanitizeDetails_def filter_map comp_def)
  ultimately show ?thesis unfolding Some d option.case by presburger
qed

section \<open>Properties\<close>

text \<open>
  C12: no secret reaches the audit trail, and nothing else is lost on the way. Capturing an
  event never raises. If the rows stored before are clean, and other requests store clean rows
  only, then every row stored afterwards is clean, and so it stays when the retention job runs:
  no details with a sensitive key or a sensitive string at any depth, no secret as the reason,
  no key prefix of more than 16 code units. The event that was stored is the one handed in: its
  type, source, licence, customer, address and device are kept, details that were clean are kept
  as they were, and a reason is kept unless it is a secret. An event is dropped only if the
  database did not answer or the new identifier was taken.
\<close>

theorem audit_trail_is_clean:
  assumes others: "rely audit_clean env" and before: "audit_clean (w_db w)"
    and run: "capture input env w = (res, w')"
  shows "audit_clean (w_db w') \<and>
    audit_clean (w_db (snd (pruneExpiredActivity days now env w'))) \<and>
    (case res of
      Inl _ \<Rightarrow> False
    | Inr None \<Rightarrow> e_dbOutcome env (w_tick w) \<noteq> Done \<or>
        e_uuid env (w_tick w) 0 \<in> a_id ` set (activityEvents (w_db (interfere env w)))
    | Inr (Some e) \<Rightarrow> stored_clean e \<and>
        (if na_type input = License_heartbeat then True else e \<in> set (activityEvents (w_db w'))) \<and>
        a_type e = na_type input \<and> a_source e = na_source input \<and>
        a_licenseId e = na_licenseId input \<and> a_customerId e = na_customerId input \<and>
        a_ip e = na_ip input \<and> a_deviceId e = na_deviceId input \<and>
        a_keyPrefix e = map_option (take 16) (na_keyPrefix input) \<and>
        a_reason e = map_option (\<lambda>r. if r \<noteq> [] \<and> sensitive_text r then REDACTED else r)
          (na_reason input) \<and>
        (case na_details input of
          None \<Rightarrow> a_details e = []
        | Some d \<Rightarrow> (if clean (JObj d) then a_details e = d else True) \<and>
            map fst (a_details e) = filter (\<lambda>k. \<not> SENSITIVE_DETAIL_KEY k) (map fst d)))"
proof -
  have kept: "audit_clean (w_db w')"
    using keeps_dbD[OF capture_keeps_audit others before run] .
  then have pruned: "audit_clean (w_db (snd (pruneExpiredActivity days now env w')))"
    using prune_keeps_audit others by (simp add: keeps_db_def)
  show ?thesis
    using run
  proof (cases rule: capture_cases)
    case (1 e d)
    have e: "e = activity_of (e_uuid env (w_tick w) 0) (e_now env (w_tick w)) (sanitized input)"
      and row: "na_type input = License_heartbeat \<or> e \<in> set (activityEvents (w_db w'))"
      using activity_record_Inr[OF 1(3)] 1(2) by (auto simp: sanitized_def)
    have "stored_clean e" unfolding e by (rule activity_of_sanitized)
    then show ?thesis
      unfolding 1(1) sum.case option.case stored_event_fields[OF e]
      using kept pruned row stored_event_details[OF e] by presburger
  qed (use kept pruned in simp_all)
qed

definition leaking_event :: new_activity_event where
  "leaking_event = \<lparr>na_type = License_activation_rejected, na_source = Client, na_outcome = None,
    na_reason = Some ''sk_live'', na_licenseId = None, na_customerId = None,
    na_keyPrefix = Some ''lic_0123456789ABCDEF'', na_ip = None, na_deviceId = None,
    na_details = Some [(''token'', JStr ''t''), (''note'', JStr ''ok'')], na_createdAt = None\<rparr>"

definition audit_env :: env where
  "audit_env = \<lparr>e_now = int, e_dbNow = int, e_redisNow = int, e_uuid = (\<lambda>_ _. ''u''),
    e_dbOutcome = (\<lambda>_. Done), e_redisOutcome = (\<lambda>_. Done), e_others = (\<lambda>_ s. s),
    e_sha256 = id, e_toISO = (\<lambda>_. []), e_parseDate = (\<lambda>_. None), e_random = (\<lambda>_. [])\<rparr>"

theorem audit_trail_is_clean_witness:
  "\<exists>e w'. capture leaking_event audit_env
      \<lparr>w_db = empty_db, w_redis = empty_redis, w_tick = 0, w_local = None\<rparr> = (Inr (Some e), w') \<and>
    e \<in> set (activityEvents (w_db w')) \<and> stored_clean e \<and> map fst (a_details e) = [''note''] \<and>
    a_reason e = Some REDACTED"
proof -
  let ?w = "\<lparr>w_db = empty_db, w_redis = empty_redis, w_tick = 0, w_local = None\<rparr>"
  obtain res w' where run: "capture leaking_event audit_env ?w = (res, w')" by fastforce
  have keys: "filter (\<lambda>k. \<not> SENSITIVE_DETAIL_KEY k) [''token'', ''note''] = [''note'']"
    and secret: "sensitive_text ''sk_live''"
    by code_simp+
  have "rely audit_clean audit_env" "audit_clean empty_db"
    by (simp_all add: rely_def audit_env_def audit_clean_def empty_db_def)
  with audit_trail_is_clean[OF _ _ run, of "Integral 1" 0] run show ?thesis
    using keys secret
    by (auto simp: leaking_event_def audit_env_def interfere_def empty_db_def
        simp del: filter.simps clean.simps split: sum.splits option.splits)
qed

end
