(* ===== verification/SessionRepository.thy ===== *)
theory SessionRepository
  imports Redis Entities
begin

text \<open>
  \<open>infrastructure/repositories/RedisSessionRepository.ts\<close>: login sessions in Redis. Each
  method runs one Lua script, which Redis executes atomically, so each is a function of the
  store; the time of the script, the new token and SHA-256 are arguments. A script whose
  command is refused (\<open>SET\<close> with an expiry that is not positive) fails after the writes it
  has already made, so the result is paired with the store in every case.

  A session is the string \<open>licenseId|revision|hash\<close> under its token's key, and the token is
  a member of its licence's set. Lua's \<open>tonumber\<close> and JavaScript's \<open>Number\<close> are modelled on
  decimal integers, the only numerals \<open>registerSession\<close> writes.

  The theory shows the round trip of the stored value, the invariant that ties the sets to
  the sessions, that a licence never has more live sessions than the limit allows, what each
  method does to each session, and that the repository meets the \<open>session_store\<close> contract.
\<close>

section \<open>The stored value\<close>

definition SESSION_PREFIX :: string where
  "SESSION_PREFIX = ''license_session:''"

definition SESSION_SET_PREFIX :: string where
  "SESSION_SET_PREFIX = ''license_sessions:''"

definition session_key :: "string \<Rightarrow> string" where
  "session_key token = SESSION_PREFIX @ token"

definition session_set_key :: "string \<Rightarrow> string" where
  "session_set_key licenseId = SESSION_SET_PREFIX @ licenseId"

definition hashBinding :: "(string \<Rightarrow> string) \<Rightarrow> session_binding \<Rightarrow> string" where
  "hashBinding sha256 binding = sha256 (sb_ip binding @ CHR 0x00 # sb_deviceId binding)"

definition session_value :: "string \<Rightarrow> int \<Rightarrow> string \<Rightarrow> string" where
  "session_value licenseId revision hash =
    licenseId @ CHR ''|'' # show_int revision @ CHR ''|'' # hash"

definition parse_value :: "string \<Rightarrow> (string \<times> string \<times> string) option" where
  "parse_value v =
    (case split_first (CHR ''|'') v of
      None \<Rightarrow> None
    | Some (licenseId, rest) \<Rightarrow>
        (case split_first (CHR ''|'') rest of
          None \<Rightarrow> None
        | Some (revision, hash) \<Rightarrow> Some (licenseId, revision, hash)))"

definition decimal :: "string \<Rightarrow> int option" where
  "decimal s =
    (case s of
      [] \<Rightarrow> None
    | c # cs \<Rightarrow> if c = CHR ''-'' then map_option (\<lambda>n. - int n) (read_nat cs)
        else map_option int (read_nat s))"

definition MAX_SAFE_INTEGER :: int where
  "MAX_SAFE_INTEGER = 9007199254740991"

definition resolvedSession :: "string \<Rightarrow> string \<Rightarrow> failure + resolved_session" where
  "resolvedSession value token =
    (case split_last (CHR ''|'') value of
      None \<Rightarrow> Inl (Plain_error ''Redis returned an invalid resolved session.'')
    | Some (licenseId, revision) \<Rightarrow>
        (case (if revision = [] then Some 0 else decimal revision) of
          None \<Rightarrow> Inl (Plain_error ''Redis returned an invalid resolved session.'')
        | Some sessionRevision \<Rightarrow>
            if licenseId = [] \<or> \<bar>sessionRevision\<bar> > MAX_SAFE_INTEGER \<or> sessionRevision < 0
            then Inl (Plain_error ''Redis returned an invalid resolved session.'')
            else Inr \<lparr>rs_licenseId = licenseId, rs_sessionRevision = sessionRevision,
              rs_token = token\<rparr>))"

section \<open>The scripts\<close>

definition stale_member :: "string \<Rightarrow> int \<Rightarrow> redis \<Rightarrow> string \<Rightarrow> bool" where
  "stale_member revision t r member =
    (case redis_get (session_key member) t r of
      None \<Rightarrow> True
    | Some v \<Rightarrow>
        (case parse_value v of None \<Rightarrow> True | Some (_, rv, _) \<Rightarrow> rv \<noteq> revision))"

definition prune_member :: "string \<Rightarrow> string \<Rightarrow> int \<Rightarrow> string \<Rightarrow> redis \<Rightarrow> redis" where
  "prune_member setKey revision t member r =
    (if stale_member revision t r member
     then srem setKey member t (redis_del (session_key member) r)
     else r)"

definition prune_members :: "string \<Rightarrow> string \<Rightarrow> int \<Rightarrow> redis \<Rightarrow> redis" where
  "prune_members setKey revision t r =
    fold (prune_member setKey revision t) (smembers setKey t r) r"

definition registerSession ::
    "(string \<Rightarrow> string) \<Rightarrow> string \<Rightarrow> int \<Rightarrow> string \<Rightarrow> int \<Rightarrow> session_binding \<Rightarrow> int \<Rightarrow> int \<Rightarrow> redis
      \<Rightarrow> (failure + session_registration_result) \<times> redis" where
  "registerSession sha256 token t licenseId sessionRevision binding ttlSeconds maxSessions r =
    (let setKey = session_set_key licenseId;
         r1 = prune_members setKey (show_int sessionRevision) t r in
     if maxSessions > 0 \<and> int (scard setKey t r1) \<ge> maxSessions then (Inr Limit_reached, r1)
     else if ttlSeconds \<le> 0 then (Inl (Plain_error ''ERR invalid expire time''), r1)
     else
       (let r2 = redis_set_ex (session_key token)
              (session_value licenseId sessionRevision (hashBinding sha256 binding)) ttlSeconds t r1;
            r3 = sadd setKey token t r2 in
        (Inr (Registered token), sexpire setKey ttlSeconds t r3)))"

definition refreshSession ::
    "(string \<Rightarrow> string) \<Rightarrow> int \<Rightarrow> string \<Rightarrow> session_binding \<Rightarrow> int \<Rightarrow> redis
      \<Rightarrow> (failure + resolved_session option) \<times> redis" where
  "refreshSession sha256 t sessionToken binding ttlSeconds r =
    (case redis_get (session_key sessionToken) t r of
      None \<Rightarrow> (Inr None, r)
    | Some v \<Rightarrow>
        (case parse_value v of
          None \<Rightarrow> (Inr None, r)
        | Some (licenseId, revision, hash) \<Rightarrow>
            if hash \<noteq> hashBinding sha256 binding then (Inr None, r)
            else
              (let r1 = redis_expire (session_key sessionToken) ttlSeconds t r;
                   r2 = sadd (session_set_key licenseId) sessionToken t r1;
                   r3 = sexpire (session_set_key licenseId) ttlSeconds t r2 in
               (map_sum id Some
                 (resolvedSession (licenseId @ CHR ''|'' # revision) sessionToken), r3))))"

definition removeSession ::
    "(string \<Rightarrow> string) \<Rightarrow> int \<Rightarrow> string \<Rightarrow> session_binding \<Rightarrow> redis
      \<Rightarrow> (failure + resolved_session option) \<times> redis" where
  "removeSession sha256 t sessionToken binding r =
    (case redis_get (session_key sessionToken) t r of
      None \<Rightarrow> (Inr None, r)
    | Some v \<Rightarrow>
        (case parse_value v of
          None \<Rightarrow> (Inr None, r)
        | Some (licenseId, revision, hash) \<Rightarrow>
            if hash \<noteq> hashBinding sha256 binding then (Inr None, r)
            else
              (let setKey = session_set_key licenseId;
                   r1 = srem setKey sessionToken t r;
                   r2 = (if scard setKey t r1 = 0 then sdel setKey r1 else r1);
                   r3 = redis_del (session_key sessionToken) r2 in
               (map_sum id Some
                 (resolvedSession (licenseId @ CHR ''|'' # revision) sessionToken), r3))))"

definition remove_member ::
    "string \<Rightarrow> int option \<Rightarrow> int \<Rightarrow> string \<Rightarrow> int \<times> redis \<Rightarrow> int \<times> redis" where
  "remove_member setKey minimumRevision t member st =
    (case st of (removed, r) \<Rightarrow>
     let value = redis_get (session_key member) t r;
         shouldRemove = (case (minimumRevision, value) of
             (None, _) \<Rightarrow> True
           | (Some _, None) \<Rightarrow> False
           | (Some minimum, Some v) \<Rightarrow>
               (case parse_value v of
                 None \<Rightarrow> True
               | Some (_, revision, _) \<Rightarrow>
                   (case decimal revision of None \<Rightarrow> True | Some rv \<Rightarrow> rv < minimum)));
         r1 = (if value = None then srem setKey member t r else r) in
     if shouldRemove \<and> value \<noteq> None
     then (removed + 1, srem setKey member t (redis_del (session_key member) r1))
     else (removed, r1))"

definition removeAllSessions :: "int \<Rightarrow> string \<Rightarrow> int option \<Rightarrow> redis \<Rightarrow> int \<times> redis" where
  "removeAllSessions t licenseId preserveFromRevision r =
    (let setKey = session_set_key licenseId;
         (removed, r1) = fold (remove_member setKey preserveFromRevision t)
            (smembers setKey t r) (0, r);
         r2 = (if scard setKey t r1 = 0 then sdel setKey r1 else r1) in
     (removed, r2))"

section \<open>Encoding\<close>

lemma session_key_inject [simp]: "session_key a = session_key b \<longleftrightarrow> a = b"
  by (simp add: session_key_def)

lemma session_set_key_inject [simp]: "session_set_key a = session_set_key b \<longleftrightarrow> a = b"
  by (simp add: session_set_key_def)

lemma session_keys_disjoint: "session_key a \<noteq> session_set_key b"
  by (simp add: session_key_def session_set_key_def SESSION_PREFIX_def SESSION_SET_PREFIX_def)

lemma bar_not_in_show_int [simp]: "CHR ''|'' \<notin> set (show_int i)"
  using show_nat_set[of "CHR ''|''"] by (auto simp: show_int_def is_digit_def)

lemma parse_session_value [simp]:
  "CHR ''|'' \<notin> set licenseId \<Longrightarrow>
    parse_value (session_value licenseId revision hash) = Some (licenseId, show_int revision, hash)"
  by (simp add: parse_value_def session_value_def)

lemma parse_value_no_bar:
  "parse_value v = Some (l, rv, h) \<Longrightarrow> CHR ''|'' \<notin> set l \<and> CHR ''|'' \<notin> set rv"
  by (auto simp: parse_value_def split_first_Some_iff split: option.splits)

lemma read_nat_minus [simp]: "read_nat (CHR ''-'' # s) = None"
  by (simp add: read_nat_def is_digit_def)

lemma decimal_show_int [simp]: "decimal (show_int i) = Some i"
proof (cases "i < 0")
  case True
  then show ?thesis by (simp add: decimal_def show_int_def)
next
  case False
  obtain c cs where c: "show_nat (nat i) = c # cs"
    using show_nat_nonempty by (cases "show_nat (nat i)") auto
  then have "c \<noteq> CHR ''-''"
    using show_nat_set[of c "nat i"] by (auto simp: is_digit_def)
  moreover have "read_nat (c # cs) = Some (nat i)" using read_show_nat[of "nat i"] c by simp
  ultimately show ?thesis using False c by (simp add: decimal_def show_int_def)
qed

lemma show_int_nonempty [simp]: "show_int i \<noteq> []"
  by (simp add: show_int_def)

lemma resolvedSession_show:
  assumes "licenseId \<noteq> []" "0 \<le> revision" "revision \<le> MAX_SAFE_INTEGER"
  shows "resolvedSession (licenseId @ CHR ''|'' # show_int revision) token =
    Inr \<lparr>rs_licenseId = licenseId, rs_sessionRevision = revision, rs_token = token\<rparr>"
  using assms by (simp add: resolvedSession_def)

section \<open>Pruning\<close>

lemma stale_member_prune:
  "m \<noteq> m' \<Longrightarrow> stale_member revision t (prune_member setKey revision t m r) m' =
    stale_member revision t r m'"
  by (simp add: stale_member_def prune_member_def redis_simps)

lemma prune_member_strings:
  "r_strings (prune_member setKey revision t m r) k =
    (if k = session_key m \<and> stale_member revision t r m then None else r_strings r k)"
  by (simp add: prune_member_def redis_simps)

lemma prune_member_members:
  "t \<le> t' \<Longrightarrow> smembers k' t' (prune_member setKey revision t m r) =
    (if k' = setKey \<and> stale_member revision t r m then removeAll m (smembers k' t' r)
     else smembers k' t' r)"
  by (simp add: prune_member_def smembers_srem_later redis_simps)

lemma stale_member_pruned:
  "stale_member revision t (prune_member setKey revision t m r) m' = stale_member revision t r m'"
proof (cases "m = m'")
  case True
  then show ?thesis by (auto simp: stale_member_def prune_member_def redis_simps)
qed (simp add: stale_member_prune)

lemma fold_prune_stale:
  "stale_member revision t (fold (prune_member setKey revision t) ms r) m =
    stale_member revision t r m"
  by (induction ms arbitrary: r) (simp_all add: stale_member_pruned)

lemma fold_prune_strings:
  "r_strings (fold (prune_member setKey revision t) ms r) k =
    (if \<exists>m \<in> set ms. k = session_key m \<and> stale_member revision t r m then None
     else r_strings r k)"
  by (induction ms arbitrary: r) (auto simp: prune_member_strings stale_member_pruned)

lemma fold_prune_members:
  "t \<le> t' \<Longrightarrow> smembers k' t' (fold (prune_member setKey revision t) ms r) =
    (if k' = setKey
     then filter (\<lambda>m. \<not> (m \<in> set ms \<and> stale_member revision t r m)) (smembers k' t' r)
     else smembers k' t' r)"
proof (induction ms arbitrary: r)
  case Nil
  then show ?case by simp
next
  case (Cons m ms)
  then show ?case
    by (auto simp: prune_member_members stale_member_pruned removeAll_filter_not_eq
        intro!: filter_cong)
qed

lemma prune_members_strings:
  "r_strings (prune_members setKey revision t r) k =
    (if \<exists>m \<in> set (smembers setKey t r). k = session_key m \<and> stale_member revision t r m then None
     else r_strings r k)"
  by (simp add: prune_members_def fold_prune_strings)

lemma prune_members_members:
  "t \<le> t' \<Longrightarrow> smembers k' t' (prune_members setKey revision t r) =
    (if k' = setKey then filter (\<lambda>m. \<not> stale_member revision t r m) (smembers k' t' r)
     else smembers k' t' r)"
  using smembers_later_subset[of t t' setKey r]
  by (auto simp: prune_members_def fold_prune_members intro!: filter_cong)

section \<open>The invariant\<close>

definition session_of :: "string \<Rightarrow> int \<Rightarrow> redis \<Rightarrow> (string \<times> int \<times> string) option" where
  "session_of token t r =
    (case redis_get (session_key token) t r of
      None \<Rightarrow> None
    | Some v \<Rightarrow>
        (case parse_value v of
          None \<Rightarrow> None
        | Some (licenseId, revision, hash) \<Rightarrow>
            map_option (\<lambda>rv. (licenseId, rv, hash)) (decimal revision)))"

definition valid_session :: "string \<Rightarrow> int \<Rightarrow> bool" where
  "valid_session licenseId revision \<longleftrightarrow>
    licenseId \<noteq> [] \<and> CHR ''|'' \<notin> set licenseId \<and> 0 \<le> revision \<and> revision \<le> MAX_SAFE_INTEGER"

definition stored_session :: "int \<Rightarrow> int \<Rightarrow> redis \<Rightarrow> string \<Rightarrow> string \<Rightarrow> int \<Rightarrow> bool" where
  "stored_session ttl t r token v e \<longleftrightarrow>
    e \<le> t + 1000 * ttl \<and>
    (\<exists>l rv h. v = session_value l rv h \<and> valid_session l rv \<and>
      (t \<le> e \<longrightarrow> token \<in> set (smembers (session_set_key l) e r)))"

definition session_inv :: "int \<Rightarrow> int \<Rightarrow> redis \<Rightarrow> bool" where
  "session_inv ttl t r \<longleftrightarrow>
    (\<forall>token v e. r_strings r (session_key token) = Some (v, e) \<longrightarrow> stored_session ttl t r token v e) \<and>
    (\<forall>token l l' rv h. session_of token t r = Some (l', rv, h) \<longrightarrow>
      token \<in> set (smembers (session_set_key l) t r) \<longrightarrow> l = l') \<and>
    (\<forall>k. distinct (smembers k t r))"

lemma session_of_value:
  "valid_session l rv \<Longrightarrow>
    redis_get (session_key token) t r = Some (session_value l rv h) \<Longrightarrow>
    session_of token t r = Some (l, rv, h)"
  by (simp add: session_of_def valid_session_def)

lemma session_inv_stored:
  assumes "session_inv ttl t r" "r_strings r (session_key token) = Some (v, e)"
  obtains l rv h where "v = session_value l rv h" "valid_session l rv" "e \<le> t + 1000 * ttl"
    "t \<le> e \<longrightarrow> token \<in> set (smembers (session_set_key l) e r)"
  using assms unfolding session_inv_def stored_session_def by blast

lemma session_inv_owner:
  "session_inv ttl t r \<Longrightarrow> session_of token t r = Some (l', rv, h) \<Longrightarrow>
    token \<in> set (smembers (session_set_key l) t r) \<Longrightarrow> l = l'"
  unfolding session_inv_def by blast

lemma session_inv_distinct: "session_inv ttl t r \<Longrightarrow> t \<le> t' \<Longrightarrow> distinct (smembers k t' r)"
  using smembers_later[of t t' k r] unfolding session_inv_def by auto

lemma session_value_inject:
  "valid_session l rv \<Longrightarrow> valid_session l' rv' \<Longrightarrow>
    session_value l rv h = session_value l' rv' h' \<longleftrightarrow> l = l' \<and> rv = rv' \<and> h = h'"
  using parse_session_value[of l rv h] parse_session_value[of l' rv' h']
  by (metis option.inject prod.inject show_int_inj valid_session_def)

lemma session_of_iff:
  assumes "session_inv ttl t r"
  shows "session_of token t r = Some (l, rv, h) \<longleftrightarrow>
    valid_session l rv \<and> redis_get (session_key token) t r = Some (session_value l rv h)"
proof
  assume s: "session_of token t r = Some (l, rv, h)"
  then obtain v e where v: "r_strings r (session_key token) = Some (v, e)" "t \<le> e"
    by (auto simp: session_of_def redis_get_def split: option.splits if_splits)
  obtain l' rv' h' where *: "v = session_value l' rv' h'" "valid_session l' rv'"
    using session_inv_stored[OF assms v(1)] .
  then have "session_of token t r = Some (l', rv', h')"
    using v by (intro session_of_value) (auto simp: redis_get_raw)
  with s * v show "valid_session l rv \<and>
      redis_get (session_key token) t r = Some (session_value l rv h)"
    by (auto simp: redis_get_raw)
qed (auto intro: session_of_value)

lemma session_member:
  assumes inv: "session_inv ttl t r" and s: "session_of token t r = Some (l, rv, h)"
  shows "token \<in> set (smembers (session_set_key l') t r) \<longleftrightarrow> l' = l"
proof
  assume "token \<in> set (smembers (session_set_key l') t r)"
  with inv s show "l' = l" by (rule session_inv_owner)
next
  assume "l' = l"
  from s obtain e where e: "r_strings r (session_key token) = Some (session_value l rv h, e)"
    "t \<le> e" "valid_session l rv"
    using session_of_iff[OF inv] by (auto simp: redis_get_raw)
  obtain l2 rv2 h2 where "session_value l rv h = session_value l2 rv2 h2" "valid_session l2 rv2"
    "token \<in> set (smembers (session_set_key l2) e r)"
    using session_inv_stored[OF inv e(1)] e(2) by metis
  with e(3) have "token \<in> set (smembers (session_set_key l) e r)"
    by (simp add: session_value_inject)
  then show "token \<in> set (smembers (session_set_key l') t r)"
    using smembers_later_subset[OF e(2)] \<open>l' = l\<close> by blast
qed

lemma session_inv_later:
  assumes inv: "session_inv ttl t r" and le: "t \<le> t'"
  shows "session_inv ttl t' r"
proof -
  have "session_of token t r = Some x" if "session_of token t' r = Some x" for token x
    using that le redis_get_antimono[of "session_key token" t' r _ t]
    by (auto simp: session_of_def split: option.splits)
  moreover have "stored_session ttl t' r token v e"
    if row: "r_strings r (session_key token) = Some (v, e)" for token v e
  proof -
    obtain l rv h where "v = session_value l rv h" "valid_session l rv" "e \<le> t + 1000 * ttl"
      "t \<le> e \<longrightarrow> token \<in> set (smembers (session_set_key l) e r)"
      using session_inv_stored[OF inv row] .
    with le show ?thesis unfolding stored_session_def by force
  qed
  moreover have "l = l'"
    if "session_of token t' r = Some (l', rv, h)"
      "token \<in> set (smembers (session_set_key l) t' r)" for token l l' rv h
    using session_inv_owner[OF inv, of token l' rv h l] smembers_later_subset[OF le] that calculation(1)
    by blast
  ultimately show ?thesis
    using session_inv_distinct[OF inv le] unfolding session_inv_def by blast
qed

lemma session_of_later:
  "t \<le> t' \<Longrightarrow> session_of token t' r = Some x \<Longrightarrow> session_of token t r = Some x"
  using redis_get_antimono[of "session_key token" t' r _ t]
  by (auto simp: session_of_def split: option.splits)

lemma stale_member_iff:
  assumes "session_inv ttl t r"
  shows "stale_member (show_int rv) t r token \<longleftrightarrow>
    (\<forall>l h. session_of token t r \<noteq> Some (l, rv, h))"
proof (cases "redis_get (session_key token) t r")
  case None
  then show ?thesis by (simp add: stale_member_def session_of_def)
next
  case (Some v)
  then obtain e where "r_strings r (session_key token) = Some (v, e)" by (auto simp: redis_get_raw)
  then obtain l rv' h where "v = session_value l rv' h" "valid_session l rv'"
    using session_inv_stored[OF assms] by metis
  with Some show ?thesis
    by (auto simp: stale_member_def session_of_value valid_session_def)
qed

lemma valid_session_parts:
  "valid_session l rv \<Longrightarrow> l \<noteq> [] \<and> CHR ''|'' \<notin> set l \<and> 0 \<le> rv \<and> rv \<le> MAX_SAFE_INTEGER"
  by (simp add: valid_session_def)

lemma session_of_strings:
  "r_strings r' (session_key token) = r_strings r (session_key token) \<Longrightarrow>
    session_of token t r' = session_of token t r"
  by (simp add: session_of_def redis_get_def)

lemma session_of_gone:
  "r_strings r' (session_key token) = None \<Longrightarrow> session_of token t r' = None"
  by (simp add: session_of_def redis_get_def)

lemma session_of_if:
  "r_strings r' (session_key token) = (if c then None else r_strings r (session_key token)) \<Longrightarrow>
    session_of token t r' = (if c then None else session_of token t r)"
  by (cases c) (simp_all add: session_of_def redis_get_def)

section \<open>Fewer sessions\<close>

text \<open>
  An operation that only deletes sessions and set members keeps the invariant, as long as it
  leaves every remaining session in its set.
\<close>

lemma session_inv_shrink:
  assumes inv: "session_inv ttl t r"
    and str: "\<And>token. r_strings r' (session_key token) = None \<or>
      r_strings r' (session_key token) = r_strings r (session_key token)"
    and sub: "\<And>k t'. t \<le> t' \<Longrightarrow> \<exists>P. smembers k t' r' = filter P (smembers k t' r)"
    and keep: "\<And>token v e l rv h. r_strings r' (session_key token) = Some (v, e) \<Longrightarrow> t \<le> e \<Longrightarrow>
      session_of token t r = Some (l, rv, h) \<Longrightarrow>
      token \<in> set (smembers (session_set_key l) e r) \<Longrightarrow>
      token \<in> set (smembers (session_set_key l) e r')"
  shows "session_inv ttl t r'"
proof -
  have "stored_session ttl t r' token v e"
    if row: "r_strings r' (session_key token) = Some (v, e)" for token v e
  proof -
    have row': "r_strings r (session_key token) = Some (v, e)" using row str[of token] by auto
    obtain l rv h where *: "v = session_value l rv h" "valid_session l rv" "e \<le> t + 1000 * ttl"
      "t \<le> e \<longrightarrow> token \<in> set (smembers (session_set_key l) e r)"
      using session_inv_stored[OF inv row'] .
    have "token \<in> set (smembers (session_set_key l) e r')" if "t \<le> e"
    proof (rule keep[OF row that])
      show "session_of token t r = Some (l, rv, h)"
        using row' * that by (intro session_of_value) (auto simp: redis_get_raw)
      show "token \<in> set (smembers (session_set_key l) e r)" using * that by blast
    qed
    with * show ?thesis unfolding stored_session_def by blast
  qed
  moreover have "l = l'"
    if "session_of token t r' = Some (l', rv, h)" "token \<in> set (smembers (session_set_key l) t r')"
    for token l l' rv h
  proof -
    have "session_of token t r = Some (l', rv, h)"
      using that(1) str[of token] session_of_strings session_of_gone by (metis option.distinct(1))
    moreover have "token \<in> set (smembers (session_set_key l) t r)"
      using that(2) sub[of t "session_set_key l"] by auto
    ultimately show ?thesis using session_inv_owner[OF inv] by blast
  qed
  moreover have "distinct (smembers k t r')" for k
    using sub[of t k] session_inv_distinct[OF inv, of t k] by fastforce
  ultimately show ?thesis unfolding session_inv_def by blast
qed

section \<open>What each method does to the sessions\<close>

lemma prune_session_of:
  assumes inv: "session_inv ttl t r" and le: "t \<le> t'"
  shows "session_of token t' (prune_members (session_set_key l) (show_int rv) t r) =
    (case session_of token t r of
      Some (l', rv', h) \<Rightarrow> if l' = l \<and> rv' \<noteq> rv then None else session_of token t' r
    | None \<Rightarrow> None)"
proof (cases "session_of token t r")
  case None
  then have gone: "session_of token t' r = None"
    using session_of_later[OF le] by (metis option.exhaust)
  from session_of_if[OF prune_members_strings] gone None show ?thesis by simp
next
  case (Some x)
  obtain l' rv' h where x: "x = (l', rv', h)" by (cases x)
  have mem: "token \<in> set (smembers (session_set_key l) t r) \<longleftrightarrow> l = l'"
    using session_member[OF inv] Some x by blast
  have stale: "stale_member (show_int rv) t r token \<longleftrightarrow> rv' \<noteq> rv"
    using stale_member_iff[OF inv] Some x by auto
  have "r_strings (prune_members (session_set_key l) (show_int rv) t r) (session_key token) =
      (if l' = l \<and> rv' \<noteq> rv then None else r_strings r (session_key token))"
    using mem stale by (auto simp: prune_members_strings)
  from session_of_if[OF this] show ?thesis using Some x by simp
qed

lemma prune_inv:
  assumes inv: "session_inv ttl t r"
  shows "session_inv ttl t (prune_members setKey revision t r)"
proof (rule session_inv_shrink[OF inv])
  show "r_strings (prune_members setKey revision t r) (session_key token) = None \<or>
    r_strings (prune_members setKey revision t r) (session_key token) = r_strings r (session_key token)"
    for token by (simp add: prune_members_strings)
  show "\<exists>P. smembers k t' (prune_members setKey revision t r) = filter P (smembers k t' r)"
    if "t \<le> t'" for k t'
    by (cases "k = setKey") (auto simp: prune_members_members[OF that] intro: exI[of _ "\<lambda>_. True"])
  show "token \<in> set (smembers (session_set_key l) e (prune_members setKey revision t r))"
    if row: "r_strings (prune_members setKey revision t r) (session_key token) = Some (v, e)"
      and le: "t \<le> e" and "session_of token t r = Some (l, rv, h)"
      and mem: "token \<in> set (smembers (session_set_key l) e r)" for token v e l rv h
  proof -
    have "token \<in> set (smembers (session_set_key l) t r)"
      using mem smembers_later_subset[OF le] by blast
    then have "session_set_key l = setKey \<longrightarrow> \<not> stale_member revision t r token"
      using row by (auto simp: prune_members_strings split: if_splits)
    with mem show ?thesis by (auto simp: prune_members_members[OF le])
  qed
qed

definition store_session ::
    "string \<Rightarrow> string \<Rightarrow> int \<Rightarrow> string \<Rightarrow> int \<Rightarrow> int \<Rightarrow> redis \<Rightarrow> redis" where
  "store_session token l rv h ttl t r =
    sexpire (session_set_key l) ttl t (sadd (session_set_key l) token t
      (redis_set_ex (session_key token) (session_value l rv h) ttl t r))"

lemma store_session_of:
  assumes "valid_session l rv" "t \<le> t'"
  shows "session_of token' t' (store_session token l rv h ttl t r) =
    (if token' = token then (if t' \<le> t + 1000 * ttl then Some (l, rv, h) else None)
     else session_of token' t' r)"
proof (cases "token' = token")
  case True
  have "redis_get (session_key token) t' (store_session token l rv h ttl t r) =
      (if t' \<le> t + 1000 * ttl then Some (session_value l rv h) else None)"
    unfolding store_session_def redis_get_sets by (simp add: redis_get_set_ex)
  with True show ?thesis
    using assms(1) by (simp add: session_of_def valid_session_def)
next
  case False
  then have "r_strings (store_session token l rv h ttl t r) (session_key token') =
      r_strings r (session_key token')"
    by (simp add: store_session_def redis_simps)
  from session_of_strings[OF this] False show ?thesis by simp
qed

lemma store_session_members:
  "0 < ttl \<Longrightarrow> smembers k t' (store_session token l rv h ttl t r) =
    (if k = session_set_key l
     then (if t' \<le> t + 1000 * ttl then List.insert token (smembers k t r) else [])
     else smembers k t' r)"
  by (simp add: store_session_def smembers_touch redis_simps)

lemma store_session_inv:
  assumes inv: "session_inv ttl t r" and valid: "valid_session l rv" and ttl: "0 < ttl"
    and own: "\<And>l'. token \<in> set (smembers (session_set_key l') t r) \<Longrightarrow> l' = l"
  shows "session_inv ttl t (store_session token l rv h ttl t r)"
    (is "session_inv ttl t ?r'")
proof -
  have "stored_session ttl t ?r' token' v e"
    if row: "r_strings ?r' (session_key token') = Some (v, e)" for token' v e
  proof (cases "token' = token")
    case True
    then have "v = session_value l rv h" "e = t + 1000 * ttl"
      using row by (simp_all add: store_session_def redis_simps)
    then show ?thesis
      unfolding stored_session_def using True valid ttl
      by (intro conjI exI[of _ l] exI[of _ rv] exI[of _ h]) (auto simp: store_session_members)
  next
    case False
    then have row': "r_strings r (session_key token') = Some (v, e)"
      using row by (simp add: store_session_def redis_simps)
    obtain l2 rv2 h2 where *: "v = session_value l2 rv2 h2" "valid_session l2 rv2"
      "e \<le> t + 1000 * ttl" "t \<le> e \<longrightarrow> token' \<in> set (smembers (session_set_key l2) e r)"
      using session_inv_stored[OF inv row'] .
    have "token' \<in> set (smembers (session_set_key l2) e ?r')" if "t \<le> e"
      using * that smembers_later_subset[OF that] by (auto simp: store_session_members[OF ttl])
    with * show ?thesis unfolding stored_session_def by blast
  qed
  moreover have "l1 = l'"
    if "session_of token' t ?r' = Some (l', rv', h')"
      "token' \<in> set (smembers (session_set_key l1) t ?r')" for token' l1 l' rv' h'
  proof (cases "token' = token")
    case True
    then show ?thesis
      using that own ttl
      by (auto simp: store_session_of[OF valid] store_session_members split: if_splits)
  next
    case False
    then have "session_of token' t r = Some (l', rv', h')"
      using that(1) by (simp add: store_session_of[OF valid])
    moreover have "token' \<in> set (smembers (session_set_key l1) t r)"
      using that(2) False ttl by (auto simp: store_session_members split: if_splits)
    ultimately show ?thesis using session_inv_owner[OF inv] by blast
  qed
  moreover have "distinct (smembers k t ?r')" for k
    using session_inv_distinct[OF inv, of t] ttl by (simp add: store_session_members)
  ultimately show ?thesis unfolding session_inv_def by blast
qed

lemma registerSession_cases:
  assumes "registerSession sha256 token t l rv binding ttl mx r = (res, r')"
  defines "r1 \<equiv> prune_members (session_set_key l) (show_int rv) t r"
  shows "mx > 0 \<and> int (scard (session_set_key l) t r1) \<ge> mx \<and> res = Inr Limit_reached \<and> r' = r1
    \<or> (mx \<le> 0 \<or> int (scard (session_set_key l) t r1) < mx) \<and> ttl \<le> 0 \<and>
      res = Inl (Plain_error ''ERR invalid expire time'') \<and> r' = r1
    \<or> (mx \<le> 0 \<or> int (scard (session_set_key l) t r1) < mx) \<and> 0 < ttl \<and>
      res = Inr (Registered token) \<and>
      r' = store_session token l rv (hashBinding sha256 binding) ttl t r1"
  using assms(1) unfolding registerSession_def r1_def[symmetric] store_session_def Let_def
  by (auto split: if_splits)

definition fresh_token :: "string \<Rightarrow> int \<Rightarrow> redis \<Rightarrow> bool" where
  "fresh_token token t r \<longleftrightarrow> (\<forall>l. token \<notin> set (smembers (session_set_key l) t r))"

lemma prune_fresh:
  "fresh_token token t r \<Longrightarrow> fresh_token token t (prune_members setKey revision t r)"
  by (auto simp: fresh_token_def prune_members_members)

lemma registerSession_inv:
  assumes inv: "session_inv ttl t r" and "valid_session l rv" and "0 < ttl"
    and fresh: "fresh_token token t r"
    and run: "registerSession sha256 token t l rv binding ttl mx r = (res, r')"
  shows "session_inv ttl t r'"
proof -
  let ?r1 = "prune_members (session_set_key l) (show_int rv) t r"
  have inv1: "session_inv ttl t ?r1" using prune_inv[OF inv] .
  have "session_inv ttl t (store_session token l rv h ttl t ?r1)" for h
    using store_session_inv[OF inv1 assms(2,3)] prune_fresh[OF fresh]
    unfolding fresh_token_def by blast
  with inv1 registerSession_cases[OF run] show ?thesis by auto
qed

lemma registered_session_of:
  assumes inv: "session_inv ttl t r" and valid: "valid_session l rv" and le: "t \<le> t'"
    and run: "registerSession sha256 token t l rv binding ttl mx r = (Inr (Registered tk), r')"
  shows "tk = token" and "0 < ttl"
    and "session_of token' t' r' =
      (if token' = token
       then (if t' \<le> t + 1000 * ttl then Some (l, rv, hashBinding sha256 binding) else None)
       else (case session_of token' t r of
          Some (l', rv', h) \<Rightarrow> if l' = l \<and> rv' \<noteq> rv then None else session_of token' t' r
        | None \<Rightarrow> None))"
  using registerSession_cases[OF run] prune_session_of[OF inv le]
  by (auto simp: store_session_of[OF valid le])

lemma refreshSession_cases:
  assumes inv: "session_inv ttl t r" and ttl: "0 < ttl"
    and run: "refreshSession sha256 t token binding ttl r = (res, r')"
  shows "(case session_of token t r of
      Some (l, rv, h) \<Rightarrow>
        if h = hashBinding sha256 binding
        then res = Inr (Some \<lparr>rs_licenseId = l, rs_sessionRevision = rv, rs_token = token\<rparr>) \<and>
          r' = store_session token l rv h ttl t r
        else res = Inr None \<and> r' = r
    | None \<Rightarrow> res = Inr None \<and> r' = r)"
proof (cases "session_of token t r")
  case None
  then have "redis_get (session_key token) t r = None"
    using inv session_inv_stored[OF inv]
    by (metis option.exhaust option.distinct(1) redis_get_raw session_of_value)
  with None run show ?thesis by (simp add: refreshSession_def)
next
  case (Some x)
  obtain l rv h where x: "x = (l, rv, h)" by (cases x)
  have v: "valid_session l rv" "redis_get (session_key token) t r = Some (session_value l rv h)"
    using session_of_iff[OF inv] Some x by blast+
  note parts = valid_session_parts[OF v(1)]
  show ?thesis
  proof (cases "h = hashBinding sha256 binding")
    case True
    have "res = Inr (Some \<lparr>rs_licenseId = l, rs_sessionRevision = rv, rs_token = token\<rparr>) \<and>
        r' = store_session token l rv h ttl t r"
      using run parts True ttl
      by (simp add: refreshSession_def v(2) Let_def resolvedSession_show store_session_def
          redis_expire_live[OF v(2)])
    with Some x True show ?thesis by simp
  next
    case False
    then show ?thesis using run parts Some x by (simp add: refreshSession_def v(2))
  qed
qed

lemma refreshSession_inv:
  assumes inv: "session_inv ttl t r" and ttl: "0 < ttl"
    and run: "refreshSession sha256 t token binding ttl r = (res, r')"
  shows "session_inv ttl t r'"
proof (cases "session_of token t r")
  case None
  then show ?thesis using refreshSession_cases[OF inv ttl run] inv by simp
next
  case (Some x)
  obtain l rv h where x: "x = (l, rv, h)" by (cases x)
  have "session_inv ttl t (store_session token l rv h ttl t r)"
    using Some x session_of_iff[OF inv] session_member[OF inv]
    by (intro store_session_inv[OF inv _ ttl]) auto
  then show ?thesis
    using refreshSession_cases[OF inv ttl run] inv Some x by (auto split: if_splits)
qed

section \<open>Removal\<close>

definition drop_session :: "string \<Rightarrow> string \<Rightarrow> int \<Rightarrow> redis \<Rightarrow> redis" where
  "drop_session token l t r =
    (let r1 = srem (session_set_key l) token t r in
     redis_del (session_key token)
       (if scard (session_set_key l) t r1 = 0 then sdel (session_set_key l) r1 else r1))"

lemma drop_session_strings:
  "r_strings (drop_session token l t r) k =
    (if k = session_key token then None else r_strings r k)"
  by (simp add: drop_session_def Let_def redis_simps)

lemma drop_session_members:
  "t \<le> t' \<Longrightarrow> smembers k t' (drop_session token l t r) =
    (if k = session_set_key l then removeAll token (smembers k t' r) else smembers k t' r)"
  by (simp add: drop_session_def Let_def smembers_strings sdel_if_empty smembers_srem_later)

lemma drop_session_of:
  "session_of token' t' (drop_session token l t r) =
    (if token' = token then None else session_of token' t' r)"
  by (rule session_of_if) (simp add: drop_session_strings)

lemma drop_session_inv:
  assumes inv: "session_inv ttl t r"
  shows "session_inv ttl t (drop_session token l t r)"
proof (rule session_inv_shrink[OF inv])
  show "r_strings (drop_session token l t r) (session_key token') = None \<or>
    r_strings (drop_session token l t r) (session_key token') = r_strings r (session_key token')"
    for token' by (simp add: drop_session_strings)
  show "\<exists>P. smembers k t' (drop_session token l t r) = filter P (smembers k t' r)"
    if "t \<le> t'" for k t'
    by (cases "k = session_set_key l")
      (auto simp: drop_session_members[OF that] removeAll_filter_not_eq intro: exI[of _ "\<lambda>_. True"])
  show "token' \<in> set (smembers (session_set_key l') e (drop_session token l t r))"
    if "r_strings (drop_session token l t r) (session_key token') = Some (v, e)" "t \<le> e"
      "token' \<in> set (smembers (session_set_key l') e r)" for token' v e l'
    using that by (auto simp: drop_session_strings drop_session_members split: if_splits)
qed

lemma removeSession_cases:
  assumes inv: "session_inv ttl t r"
    and run: "removeSession sha256 t token binding r = (res, r')"
  shows "(case session_of token t r of
      Some (l, rv, h) \<Rightarrow>
        if h = hashBinding sha256 binding
        then res = Inr (Some \<lparr>rs_licenseId = l, rs_sessionRevision = rv, rs_token = token\<rparr>) \<and>
          r' = drop_session token l t r
        else res = Inr None \<and> r' = r
    | None \<Rightarrow> res = Inr None \<and> r' = r)"
proof (cases "session_of token t r")
  case None
  then have "redis_get (session_key token) t r = None"
    using inv session_inv_stored[OF inv]
    by (metis option.exhaust option.distinct(1) redis_get_raw session_of_value)
  with None run show ?thesis by (simp add: removeSession_def)
next
  case (Some x)
  obtain l rv h where x: "x = (l, rv, h)" by (cases x)
  have v: "valid_session l rv" "redis_get (session_key token) t r = Some (session_value l rv h)"
    using session_of_iff[OF inv] Some x by blast+
  note parts = valid_session_parts[OF v(1)]
  show ?thesis
    using run parts Some x
    by (auto simp: removeSession_def v(2) Let_def resolvedSession_show drop_session_def)
qed

lemma removeSession_inv:
  assumes inv: "session_inv ttl t r"
    and run: "removeSession sha256 t token binding r = (res, r')"
  shows "session_inv ttl t r'"
  using removeSession_cases[OF inv run] inv drop_session_inv[OF inv]
  by (auto split: option.splits if_splits)

text \<open>
  The loop of the termination script: which members it deletes and how many it counts.
\<close>

definition ends_session :: "int option \<Rightarrow> string \<Rightarrow> bool" where
  "ends_session preserveFrom v =
    (case preserveFrom of
      None \<Rightarrow> True
    | Some minimum \<Rightarrow>
        (case parse_value v of
          None \<Rightarrow> True
        | Some (_, revision, _) \<Rightarrow>
            (case decimal revision of None \<Rightarrow> True | Some rv \<Rightarrow> rv < minimum)))"

lemma remove_member_eq:
  "remove_member setKey preserveFrom t m (n, r) =
    (case redis_get (session_key m) t r of
      None \<Rightarrow> (n, srem setKey m t r)
    | Some v \<Rightarrow>
        if ends_session preserveFrom v then (n + 1, srem setKey m t (redis_del (session_key m) r))
        else (n, r))"
  by (cases preserveFrom; cases "redis_get (session_key m) t r")
    (simp_all add: remove_member_def ends_session_def)

definition doomed :: "int option \<Rightarrow> int \<Rightarrow> redis \<Rightarrow> string \<Rightarrow> bool" where
  "doomed preserveFrom t r m =
    (case redis_get (session_key m) t r of None \<Rightarrow> False | Some v \<Rightarrow> ends_session preserveFrom v)"

lemma remove_member_get:
  "m' \<noteq> m \<Longrightarrow> redis_get (session_key m') t' (snd (remove_member setKey pf t m (n, r))) =
    redis_get (session_key m') t' r"
  by (simp add: remove_member_eq redis_simps split: option.splits)

lemma remove_member_strings:
  "r_strings (snd (remove_member setKey pf t m (n, r))) k =
    (if k = session_key m \<and> doomed pf t r m then None else r_strings r k)"
  by (simp add: remove_member_eq doomed_def redis_simps split: option.splits)

lemma remove_member_members:
  "t \<le> t' \<Longrightarrow> smembers k t' (snd (remove_member setKey pf t m (n, r))) =
    (if k = setKey \<and> (doomed pf t r m \<or> redis_get (session_key m) t r = None)
     then removeAll m (smembers k t' r) else smembers k t' r)"
  by (simp add: remove_member_eq doomed_def smembers_srem_later smembers_strings split: option.splits)

lemma remove_member_count:
  "fst (remove_member setKey pf t m (n, r)) = (if doomed pf t r m then n + 1 else n)"
  by (simp add: remove_member_eq doomed_def split: option.splits)

definition gone :: "int option \<Rightarrow> int \<Rightarrow> redis \<Rightarrow> string \<Rightarrow> bool" where
  "gone pf t r m =
    (case redis_get (session_key m) t r of None \<Rightarrow> True | Some v \<Rightarrow> ends_session pf v)"

lemma gone_doomed: "gone pf t r m \<longleftrightarrow> doomed pf t r m \<or> redis_get (session_key m) t r = None"
  by (simp add: gone_def doomed_def split: option.splits)

lemma remove_member_doomed:
  "m' \<noteq> m \<Longrightarrow> doomed pf t (snd (remove_member setKey pf t m st)) m' = doomed pf t (snd st) m'"
  by (cases st) (simp add: doomed_def remove_member_get)

lemma remove_member_gone:
  "gone pf t (snd (remove_member setKey pf t m st)) m' = gone pf t (snd st) m'"
proof (cases "m' = m")
  case True
  then show ?thesis
    by (cases st) (simp add: gone_def remove_member_eq redis_simps split: option.splits)
next
  case False
  then show ?thesis by (cases st) (simp add: gone_def remove_member_get)
qed

lemma fold_remove_count:
  "distinct ms \<Longrightarrow> fst (fold (remove_member setKey pf t) ms st) =
    fst st + int (length (filter (doomed pf t (snd st)) ms))"
proof (induction ms arbitrary: st)
  case Nil
  then show ?case by simp
next
  case (Cons m ms)
  have "filter (doomed pf t (snd (remove_member setKey pf t m st))) ms =
      filter (doomed pf t (snd st)) ms"
    by (rule filter_cong[OF refl], rule remove_member_doomed) (use Cons.prems in auto)
  then show ?case
    using Cons remove_member_count[of setKey pf t m "fst st" "snd st"] by simp
qed

lemma fold_remove_strings:
  "distinct ms \<Longrightarrow> r_strings (snd (fold (remove_member setKey pf t) ms st)) k =
    (if \<exists>m \<in> set ms. k = session_key m \<and> doomed pf t (snd st) m then None
     else r_strings (snd st) k)"
proof (induction ms arbitrary: st)
  case Nil
  then show ?case by simp
next
  case (Cons m ms)
  have "m' \<in> set ms \<Longrightarrow> doomed pf t (snd (remove_member setKey pf t m st)) m' =
      doomed pf t (snd st) m'" for m'
    using Cons.prems by (intro remove_member_doomed) auto
  then show ?case
    using Cons remove_member_strings[of setKey pf t m "fst st" "snd st"] by auto
qed

lemma fold_remove_members:
  "t \<le> t' \<Longrightarrow> smembers k' t' (snd (fold (remove_member setKey pf t) ms st)) =
    (if k' = setKey
     then filter (\<lambda>m. \<not> (m \<in> set ms \<and> gone pf t (snd st) m)) (smembers k' t' (snd st))
     else smembers k' t' (snd st))"
proof (induction ms arbitrary: st)
  case Nil
  then show ?case by simp
next
  case (Cons m ms)
  have "smembers k' t' (snd (remove_member setKey pf t m st)) =
      (if k' = setKey \<and> gone pf t (snd st) m then removeAll m (smembers k' t' (snd st))
       else smembers k' t' (snd st))"
    using remove_member_members[OF Cons.prems, of k' setKey pf m "fst st" "snd st"]
    by (simp add: gone_doomed)
  with Cons.IH[OF Cons.prems, of "remove_member setKey pf t m st"] show ?case
    by (cases "k' = setKey"; cases "gone pf t (snd st) m")
      (auto simp: remove_member_gone removeAll_filter_not_eq intro!: filter_cong)
qed

definition below :: "int option \<Rightarrow> int \<Rightarrow> bool" where
  "below preserveFrom rv = (case preserveFrom of None \<Rightarrow> True | Some minimum \<Rightarrow> rv < minimum)"

lemma doomed_iff:
  assumes inv: "session_inv ttl t r"
  shows "doomed pf t r m \<longleftrightarrow> (\<exists>l rv h. session_of m t r = Some (l, rv, h) \<and> below pf rv)"
proof (cases "redis_get (session_key m) t r")
  case None
  then show ?thesis by (simp add: doomed_def session_of_def)
next
  case (Some v)
  then obtain e where "r_strings r (session_key m) = Some (v, e)" by (auto simp: redis_get_raw)
  then obtain l rv h where v: "v = session_value l rv h" "valid_session l rv"
    using session_inv_stored[OF inv] by metis
  then have "session_of m t r = Some (l, rv, h)" using Some session_of_value by simp
  with Some v show ?thesis
    by (auto simp: doomed_def ends_session_def below_def valid_session_def split: option.splits)
qed

lemma removeAll_eq:
  assumes "removeAllSessions t l pf r = (n, r')"
  defines "st \<equiv> fold (remove_member (session_set_key l) pf t) (smembers (session_set_key l) t r) (0, r)"
  shows "n = fst st" and "r_strings r' = r_strings (snd st)"
    and "t \<le> t' \<Longrightarrow> smembers k t' r' = smembers k t' (snd st)"
  using assms(1) sdel_if_empty[of t t' k "session_set_key l" "snd st"]
  unfolding removeAllSessions_def st_def[symmetric] Let_def
  by (auto simp: redis_simps split: prod.splits if_splits)

lemma removeAll_strings:
  assumes inv: "session_inv ttl t r" and run: "removeAllSessions t l pf r = (n, r')"
  shows "r_strings r' k =
    (if \<exists>m \<in> set (smembers (session_set_key l) t r). k = session_key m \<and> doomed pf t r m then None
     else r_strings r k)"
proof -
  have "distinct (smembers (session_set_key l) t r)" using session_inv_distinct[OF inv] by simp
  from fold_remove_strings[OF this, of "session_set_key l" pf t "(0, r)" k] show ?thesis
    unfolding removeAll_eq(2)[OF run] snd_conv .
qed

lemma removeAll_members:
  assumes run: "removeAllSessions t l pf r = (n, r')" and le: "t \<le> t'"
  shows "smembers k t' r' =
    (if k = session_set_key l then filter (\<lambda>m. \<not> gone pf t r m) (smembers k t' r)
     else smembers k t' r)"
  using fold_remove_members[OF le, of k "session_set_key l" pf "smembers (session_set_key l) t r" "(0, r)"]
    removeAll_eq(3)[OF run le, of k] smembers_later_subset[OF le, of "session_set_key l" r]
  by (auto intro!: filter_cong)

lemma removeAll_session_of:
  assumes inv: "session_inv ttl t r" and run: "removeAllSessions t l pf r = (n, r')"
    and le: "t \<le> t'"
  shows "session_of token t' r' =
    (case session_of token t r of
      Some (l', rv, h) \<Rightarrow> if l' = l \<and> below pf rv then None else session_of token t' r
    | None \<Rightarrow> None)"
proof (cases "session_of token t r")
  case None
  then have "session_of token t' r = None"
    using session_of_later[OF le] by (metis option.exhaust)
  with session_of_if[OF removeAll_strings[OF inv run]] None show ?thesis by simp
next
  case (Some x)
  obtain l' rv h where x: "x = (l', rv, h)" by (cases x)
  have "token \<in> set (smembers (session_set_key l) t r) \<longleftrightarrow> l = l'"
    using session_member[OF inv] Some x by blast
  moreover have "doomed pf t r token \<longleftrightarrow> below pf rv"
    using doomed_iff[OF inv] Some x by auto
  ultimately have "r_strings r' (session_key token) =
      (if l' = l \<and> below pf rv then None else r_strings r (session_key token))"
    using removeAll_strings[OF inv run, of "session_key token"] by auto
  from session_of_if[OF this] show ?thesis using Some x by simp
qed

lemma removeAll_count:
  assumes inv: "session_inv ttl t r" and run: "removeAllSessions t l pf r = (n, r')"
  shows "n = int (card {token. \<exists>rv h. session_of token t r = Some (l, rv, h) \<and> below pf rv})"
proof -
  let ?ms = "smembers (session_set_key l) t r"
  have dist: "distinct ?ms" using session_inv_distinct[OF inv] by simp
  have "n = int (length (filter (doomed pf t r) ?ms))"
    using fold_remove_count[OF dist, of "session_set_key l" pf t "(0, r)"] removeAll_eq(1)[OF run]
    by simp
  also have "\<dots> = int (card (set (filter (doomed pf t r) ?ms)))"
    using distinct_card[OF distinct_filter[OF dist, of "doomed pf t r"]] by simp
  also have "set (filter (doomed pf t r) ?ms) =
      {token. \<exists>rv h. session_of token t r = Some (l, rv, h) \<and> below pf rv}"
    using session_member[OF inv] doomed_iff[OF inv] by (auto simp: set_eq_iff)
  finally show ?thesis .
qed

lemma removeAll_inv:
  assumes inv: "session_inv ttl t r" and run: "removeAllSessions t l pf r = (n, r')"
  shows "session_inv ttl t r'"
proof (rule session_inv_shrink[OF inv])
  show "r_strings r' (session_key token) = None \<or>
    r_strings r' (session_key token) = r_strings r (session_key token)" for token
    using removeAll_strings[OF inv run, of "session_key token"] by presburger
  show "\<exists>P. smembers k t' r' = filter P (smembers k t' r)" if "t \<le> t'" for k t'
    using removeAll_members[OF run that] by (cases "k = session_set_key l")
      (auto intro: exI[of _ "\<lambda>_. True"])
  show "token \<in> set (smembers (session_set_key l') e r')"
    if row: "r_strings r' (session_key token) = Some (v, e)" and le: "t \<le> e"
      and s: "session_of token t r = Some (l', rv, h)"
      and mem: "token \<in> set (smembers (session_set_key l') e r)" for token v e l' rv h
  proof (cases "l' = l")
    case True
    have "token \<in> set (smembers (session_set_key l) t r)"
      using mem smembers_later_subset[OF le] True by blast
    then have "\<not> doomed pf t r token"
      using row removeAll_strings[OF inv run, of "session_key token"] by (auto split: if_splits)
    moreover have "redis_get (session_key token) t r \<noteq> None"
      using s by (auto simp: session_of_def split: option.splits)
    ultimately show ?thesis
      using mem True by (simp add: removeAll_members[OF run le] gone_doomed)
  next
    case False
    then show ?thesis using mem by (simp add: removeAll_members[OF run le])
  qed
qed

section \<open>The session machine\<close>

text \<open>
  The store under any interleaving of the four methods and the passing of time. The state
  records the clock of the Redis server, the tokens \<open>crypto.randomUUID()\<close> has returned so far
  (it never returns one twice), and the store. The time to live is the same for every call,
  as \<open>SESSION_TTL_SECONDS\<close> is a constant of the service.
\<close>

type_synonym session_world = "int \<times> string set \<times> redis"

inductive session_step ::
    "(string \<Rightarrow> string) \<Rightarrow> int \<Rightarrow> session_world \<Rightarrow> session_world \<Rightarrow> bool" for sha256 ttl where
  step_time: "t \<le> t' \<Longrightarrow> session_step sha256 ttl (t, used, r) (t', used, r)"
| step_register: "token \<notin> used \<Longrightarrow> valid_session l rv \<Longrightarrow>
    registerSession sha256 token t l rv binding ttl mx r = (res, r') \<Longrightarrow>
    session_step sha256 ttl (t, used, r) (t, insert token used, r')"
| step_refresh: "refreshSession sha256 t token binding ttl r = (res2, r') \<Longrightarrow>
    session_step sha256 ttl (t, used, r) (t, used, r')"
| step_remove: "removeSession sha256 t token binding r = (res2, r') \<Longrightarrow>
    session_step sha256 ttl (t, used, r) (t, used, r')"
| step_remove_all: "removeAllSessions t l pf r = (n, r') \<Longrightarrow>
    session_step sha256 ttl (t, used, r) (t, used, r')"

fun world_inv :: "int \<Rightarrow> session_world \<Rightarrow> bool" where
  "world_inv ttl (t, used, r) \<longleftrightarrow> 0 < ttl \<and> session_inv ttl t r \<and>
    (\<forall>token. session_of token t r \<noteq> None \<longrightarrow> token \<in> used) \<and>
    (\<forall>l. set (smembers (session_set_key l) t r) \<subseteq> used)"

fun world_session :: "string \<Rightarrow> session_world \<Rightarrow> (string \<times> int \<times> string) option" where
  "world_session token (t, used, r) = session_of token t r"

fun world_issued :: "string \<Rightarrow> session_world \<Rightarrow> bool" where
  "world_issued token (t, used, r) \<longleftrightarrow> token \<in> used"

lemma world_inv_inv: "world_inv ttl (t, used, r) \<Longrightarrow> session_inv ttl t r \<and> 0 < ttl"
  by simp

lemma used_shrink:
  assumes "\<And>token. session_of token t r' \<noteq> None \<Longrightarrow> session_of token t r \<noteq> None \<or> token \<in> used'"
    and "\<And>l. set (smembers (session_set_key l) t r') \<subseteq> set (smembers (session_set_key l) t r) \<union> used'"
    and "world_inv ttl (t, used, r)" "used \<subseteq> used'" "session_inv ttl t r'"
  shows "world_inv ttl (t, used', r')"
  using assms by (simp add: subset_iff) blast

lemma session_step_inv:
  assumes "session_step sha256 ttl w w'" "world_inv ttl w"
  shows "world_inv ttl w'"
  using assms
proof (induction rule: session_step.induct)
  case (step_time t t' used r)
  then have "session_inv ttl t' r" using session_inv_later by auto
  moreover have "session_of token t r \<noteq> None" if "session_of token t' r \<noteq> None" for token
    using that session_of_later[OF step_time(1)] by fastforce
  moreover have "set (smembers k t' r) \<subseteq> set (smembers k t r)" for k
    using smembers_later_subset[OF step_time(1)] .
  ultimately show ?case using step_time(2) by (simp add: subset_iff) blast
next
  case (step_register token used l rv t binding mx r res r')
  then have inv: "session_inv ttl t r" "0 < ttl" by simp_all
  have fresh: "fresh_token token t r"
    using step_register(1,4) by (auto simp: fresh_token_def)
  have inv': "session_inv ttl t r'"
    using registerSession_inv[OF inv(1) step_register(2) inv(2) fresh step_register(3)] .
  let ?r1 = "prune_members (session_set_key l) (show_int rv) t r"
  have r': "r' = ?r1 \<or> r' = store_session token l rv (hashBinding sha256 binding) ttl t ?r1"
    using registerSession_cases[OF step_register(3)] by blast
  show ?case
  proof (rule used_shrink[OF _ _ step_register(4) _ inv'])
    show "session_of token' t r \<noteq> None \<or> token' \<in> insert token used"
      if "session_of token' t r' \<noteq> None" for token'
      using that r' prune_session_of[OF inv(1) order_refl, of token' l rv]
      by (auto simp: store_session_of[OF step_register(2)] split: option.splits if_splits)
    show "set (smembers (session_set_key l') t r') \<subseteq>
        set (smembers (session_set_key l') t r) \<union> insert token used" for l'
      using r' inv(2) by (auto simp: store_session_members prune_members_members split: if_splits)
  qed auto
next
  case (step_refresh t token binding r res2 r' used)
  then have inv: "session_inv ttl t r" "0 < ttl" by simp_all
  have inv': "session_inv ttl t r'" using refreshSession_inv[OF inv step_refresh(1)] .
  have "r' = r \<or> (\<exists>l rv h. session_of token t r = Some (l, rv, h) \<and>
      r' = store_session token l rv h ttl t r)"
    using refreshSession_cases[OF inv step_refresh(1)] by (auto split: option.splits if_splits)
  then have c: "r' = r \<or> (\<exists>l rv h. session_of token t r = Some (l, rv, h) \<and>
      valid_session l rv \<and> r' = store_session token l rv h ttl t r)"
    using session_of_iff[OF inv(1)] by blast
  show ?case
  proof (rule used_shrink[OF _ _ step_refresh(2) order_refl inv'])
    show "session_of token' t r \<noteq> None \<or> token' \<in> used"
      if "session_of token' t r' \<noteq> None" for token'
      using that c by (auto simp: store_session_of split: if_splits)
    show "set (smembers (session_set_key l') t r') \<subseteq>
        set (smembers (session_set_key l') t r) \<union> used" for l'
      using c inv(2) step_refresh(2) by (auto simp: store_session_members split: if_splits)
  qed
next
  case (step_remove t token binding r res2 r' used)
  then have inv: "session_inv ttl t r" "0 < ttl" by simp_all
  have inv': "session_inv ttl t r'" using removeSession_inv[OF inv(1) step_remove(1)] .
  have c: "r' = r \<or> (\<exists>l. r' = drop_session token l t r)"
    using removeSession_cases[OF inv(1) step_remove(1)] by (auto split: option.splits if_splits)
  show ?case
    by (rule used_shrink[OF _ _ step_remove(2) order_refl inv'])
      (use c in \<open>auto simp: drop_session_of drop_session_members split: if_splits\<close>)
next
  case (step_remove_all t l pf r n r' used)
  then have inv: "session_inv ttl t r" "0 < ttl" by simp_all
  have inv': "session_inv ttl t r'" using removeAll_inv[OF inv(1) step_remove_all(1)] .
  show ?case
    by (rule used_shrink[OF _ _ step_remove_all(2) order_refl inv'])
      (use removeAll_session_of[OF inv(1) step_remove_all(1) order_refl]
          removeAll_members[OF step_remove_all(1) order_refl] in
        \<open>auto split: option.splits if_splits\<close>)
qed

lemma session_step_sessions:
  assumes "session_step sha256 ttl w w'" "world_inv ttl w" "world_issued token w"
  shows "world_issued token w' \<and>
    (world_session token w' = None \<or> world_session token w' = world_session token w)"
  using assms
proof (induction rule: session_step.induct)
  case (step_time t t' used r)
  then show ?case
    using session_of_later[OF step_time(1), of token r] by (cases "session_of token t' r") auto
next
  case (step_register token' used l rv t binding mx r res r')
  then have inv: "session_inv ttl t r" and ne: "token \<noteq> token'" by auto
  let ?r1 = "prune_members (session_set_key l) (show_int rv) t r"
  have r': "r' = ?r1 \<or> r' = store_session token' l rv (hashBinding sha256 binding) ttl t ?r1"
    using registerSession_cases[OF step_register(3)] by blast
  then have "session_of token t r' = session_of token t ?r1"
    using ne by (auto simp: store_session_of[OF step_register(2)])
  then show ?case
    using step_register(5) prune_session_of[OF inv order_refl, of token l rv]
    by (auto split: option.splits if_splits)
next
  case (step_refresh t token' binding r res2 r' used)
  then have inv: "session_inv ttl t r" "0 < ttl" by simp_all
  have "r' = r \<or> (\<exists>l rv h. session_of token' t r = Some (l, rv, h) \<and>
      r' = store_session token' l rv h ttl t r)"
    using refreshSession_cases[OF inv step_refresh(1)] by (auto split: option.splits if_splits)
  then consider "r' = r" | l rv h where "session_of token' t r = Some (l, rv, h)"
      "valid_session l rv" "r' = store_session token' l rv h ttl t r"
    using session_of_iff[OF inv(1)] by blast
  then show ?case
    by cases (use step_refresh(3) inv(2) in \<open>auto simp: store_session_of\<close>)
next
  case (step_remove t token' binding r res2 r' used)
  then have inv: "session_inv ttl t r" "0 < ttl" by simp_all
  have c: "r' = r \<or> (\<exists>l. r' = drop_session token' l t r)"
    using removeSession_cases[OF inv(1) step_remove(1)] by (auto split: option.splits if_splits)
  then show ?case using step_remove(3) by (auto simp: drop_session_of)
next
  case (step_remove_all t l pf r n r' used)
  then have inv: "session_inv ttl t r" by simp
  show ?case
    using step_remove_all(3) removeAll_session_of[OF inv step_remove_all(1) order_refl, of token]
    by (auto split: option.splits if_splits)
qed

section \<open>The contract of a session store\<close>

text \<open>
  What the licence service relies on: a token resolves to the licence and revision it was
  issued for, with the binding it was issued for, or not at all; what it resolves to never
  changes, and a token that has stopped resolving never resolves again.
\<close>

locale session_store = transition_system start step invar
  for start :: "'s \<Rightarrow> bool" and step :: "'s \<Rightarrow> 's \<Rightarrow> bool" and invar :: "'s \<Rightarrow> bool" +
  fixes session :: "'t \<Rightarrow> 's \<Rightarrow> ('l \<times> int \<times> 'h) option"
    and issued :: "'t \<Rightarrow> 's \<Rightarrow> bool"
    and resolve :: "'t \<Rightarrow> 'h \<Rightarrow> 's \<Rightarrow> ('l \<times> int) option"
  assumes session_issued: "invar s \<Longrightarrow> session token s \<noteq> None \<Longrightarrow> issued token s"
    and session_step: "invar s \<Longrightarrow> step s s' \<Longrightarrow> issued token s \<Longrightarrow>
      issued token s' \<and> (session token s' = None \<or> session token s' = session token s)"
    and resolve_session: "invar s \<Longrightarrow> resolve token hash s =
      (case session token s of
        Some (l, rv, h) \<Rightarrow> if h = hash then Some (l, rv) else None
      | None \<Rightarrow> None)"
begin

lemma session_steps:
  assumes "step\<^sup>*\<^sup>* s s'" "invar s" "issued token s"
  shows "issued token s' \<and> (session token s' = None \<or> session token s' = session token s)"
proof -
  from assms have "invar s' \<and> issued token s' \<and>
      (session token s' = None \<or> session token s' = session token s)"
  proof (induction rule: rtranclp_induct)
    case base
    then show ?case by simp
  next
    case (step y z)
    then show ?case using session_step[of y z token] invar_step[of y z] by auto
  qed
  then show ?thesis by blast
qed

lemma gone_forever:
  assumes "step\<^sup>*\<^sup>* s s'" "invar s" "issued token s" "session token s = None"
  shows "resolve token hash s' = None"
  using session_steps[OF assms(1-3)] assms(4) invar_steps[OF assms(1,2)] resolve_session[of s']
  by auto

lemma resolves_to_issue:
  assumes "step\<^sup>*\<^sup>* s s'" "invar s" "session token s = Some (l, rv, h)"
    and "resolve token hash s' = Some (l', rv')"
  shows "l' = l \<and> rv' = rv \<and> hash = h"
proof -
  have "issued token s" using session_issued assms(2,3) by blast
  then show ?thesis
    using session_steps[OF assms(1,2), of token] assms(3,4) invar_steps[OF assms(1,2)] resolve_session[of s' token hash]
    by (auto split: if_splits option.splits)
qed

end

fun world_resolve ::
    "(string \<Rightarrow> string) \<Rightarrow> int \<Rightarrow> string \<Rightarrow> session_binding \<Rightarrow> session_world
      \<Rightarrow> (string \<times> int) option" where
  "world_resolve sha256 ttl token binding (t, used, r) =
    (case fst (refreshSession sha256 t token binding ttl r) of
      Inr (Some s) \<Rightarrow> Some (rs_licenseId s, rs_sessionRevision s)
    | _ \<Rightarrow> None)"

definition hash_resolve :: "int \<Rightarrow> string \<Rightarrow> string \<Rightarrow> session_world \<Rightarrow> (string \<times> int) option" where
  "hash_resolve ttl token hash w =
    world_resolve (\<lambda>_. hash) ttl token \<lparr>sb_ip = [], sb_deviceId = []\<rparr> w"

lemma refresh_hash:
  "hashBinding sha256 b = hashBinding sha256' b' \<Longrightarrow>
    refreshSession sha256 t token b ttl r = refreshSession sha256' t token b' ttl r"
  unfolding refreshSession_def by (simp only:)

lemma world_resolve_hash:
  "world_resolve sha256 ttl token b w = hash_resolve ttl token (hashBinding sha256 b) w"
  using refresh_hash[of sha256 b "\<lambda>_. hashBinding sha256 b" "\<lparr>sb_ip = [], sb_deviceId = []\<rparr>"]
  by (cases w) (simp add: hash_resolve_def hashBinding_def[of "\<lambda>_. hashBinding sha256 b"])

interpretation session_machine: transition_system
    "world_inv ttl" "session_step sha256 ttl" "world_inv ttl" for sha256 ttl
proof
  show "world_inv ttl w \<Longrightarrow> world_inv ttl w" for w .
  show "world_inv ttl w \<Longrightarrow> session_step sha256 ttl w w' \<Longrightarrow> world_inv ttl w'" for w w'
    using session_step_inv .
qed

interpretation redis_sessions: session_store
    "world_inv ttl" "session_step sha256 ttl" "world_inv ttl"
    world_session world_issued "hash_resolve ttl" for sha256 ttl
proof
  show "world_issued token w" if "world_inv ttl w" "world_session token w \<noteq> None" for w token
    using that by (cases w) simp
  show "world_issued token w' \<and> (world_session token w' = None \<or> world_session token w' = world_session token w)"
    if "world_inv ttl w" "session_step sha256 ttl w w'" "world_issued token w" for w w' token
    using session_step_sessions[OF that(2,1,3)] .
  show "hash_resolve ttl token hash w =
      (case world_session token w of
        Some (l, rv, h) \<Rightarrow> if h = hash then Some (l, rv) else None
      | None \<Rightarrow> None)" if inv: "world_inv ttl w" for w token hash
  proof -
    obtain t used r where w: "w = (t, used, r)" by (cases w)
    obtain res r' where run: "refreshSession (\<lambda>_. hash) t token \<lparr>sb_ip = [], sb_deviceId = []\<rparr> ttl r = (res, r')"
      by fastforce
    have "session_inv ttl t r" "0 < ttl" using inv w by simp_all
    from refreshSession_cases[OF this run] run show ?thesis
      by (auto simp: w hash_resolve_def hashBinding_def split: option.splits)
  qed
qed

section \<open>Properties\<close>

lemma empty_world_inv: "0 < ttl \<Longrightarrow> world_inv ttl (t, {}, empty_redis)"
  by (simp add: session_inv_def empty_redis_def smembers_def session_of_def redis_get_def)

lemma sample_register:
  "registerSession id ''b'' 0 ''L'' 0 \<lparr>sb_ip = ''i'', sb_deviceId = ''d''\<rparr> 30 0 empty_redis =
    (Inr (Registered ''b''),
      store_session ''b'' ''L'' 0 (hashBinding id \<lparr>sb_ip = ''i'', sb_deviceId = ''d''\<rparr>) 30 0 empty_redis)"
  by (simp add: registerSession_def store_session_def prune_members_def smembers_def empty_redis_def
      Let_def)

definition live_sessions :: "string \<Rightarrow> int \<Rightarrow> redis \<Rightarrow> string set" where
  "live_sessions l t r = {token. \<exists>rv h. session_of token t r = Some (l, rv, h)}"

definition revision_sessions :: "string \<Rightarrow> int \<Rightarrow> int \<Rightarrow> redis \<Rightarrow> string set" where
  "revision_sessions l rv t r = {token. \<exists>h. session_of token t r = Some (l, rv, h)}"

lemma pruned_members:
  assumes inv: "session_inv ttl t r"
  shows "set (smembers (session_set_key l) t (prune_members (session_set_key l) (show_int rv) t r)) =
    revision_sessions l rv t r"
  using session_member[OF inv] stale_member_iff[OF inv] session_inv_owner[OF inv]
  by (auto simp: prune_members_members revision_sessions_def)

lemma pruned_scard:
  assumes inv: "session_inv ttl t r"
  shows "scard (session_set_key l) t (prune_members (session_set_key l) (show_int rv) t r) =
    card (revision_sessions l rv t r)"
proof -
  have "distinct (smembers (session_set_key l) t (prune_members (session_set_key l) (show_int rv) t r))"
    using session_inv_distinct[OF prune_inv[OF inv]] by simp
  then show ?thesis using pruned_members[OF inv] by (metis distinct_card scard_def)
qed

lemma finite_sessions:
  "session_inv ttl t r \<Longrightarrow> finite (revision_sessions l rv t r)"
  using pruned_members by (metis List.finite_set)

lemma pruned_live:
  assumes inv: "session_inv ttl t r"
  shows "live_sessions l t (prune_members (session_set_key l) (show_int rv) t r) =
    revision_sessions l rv t r"
proof -
  have "session_of token t (prune_members (session_set_key l) (show_int rv) t r) =
      Some (l, rv', h) \<longleftrightarrow> rv' = rv \<and> session_of token t r = Some (l, rv', h)" for token rv' h
    unfolding prune_session_of[OF inv order_refl] by (auto split: option.split)
  then show ?thesis by (simp add: live_sessions_def revision_sessions_def)
qed

text \<open>
  C6: the session limit. Whatever happened before, a registration is refused exactly when the
  licence already has as many live sessions of its current revision as a positive limit allows;
  otherwise the new session is registered, and afterwards the licence has at most as many live
  sessions as the limit, all of the current revision.
\<close>

theorem session_limit:
  assumes "(session_step sha256 ttl)\<^sup>*\<^sup>* (t0, {}, empty_redis) (t, used, r)" and "0 < ttl"
    and "token \<notin> used" and "valid_session l rv"
    and "registerSession sha256 token t l rv binding ttl mx r = (res, r')"
  shows "if 0 < mx \<and> mx \<le> int (card (revision_sessions l rv t r))
    then res = Inr Limit_reached
    else res = Inr (Registered token) \<and> live_sessions l t r' = insert token (revision_sessions l rv t r)
      \<and> (0 < mx \<longrightarrow> int (card (live_sessions l t r')) \<le> mx)"
proof -
  have "world_inv ttl (t0, {}, empty_redis)" using assms(2) by (rule empty_world_inv)
  then have inv: "session_inv ttl t r"
    using assms(1) session_machine.invar_steps by fastforce
  let ?r1 = "prune_members (session_set_key l) (show_int rv) t r"
  show ?thesis
  proof (cases "0 < mx \<and> mx \<le> int (card (revision_sessions l rv t r))")
    case True
    then show ?thesis
      using registerSession_cases[OF assms(5)] pruned_scard[OF inv, of l rv] by simp
  next
    case False
    then have res: "res = Inr (Registered token)"
      and r': "r' = store_session token l rv (hashBinding sha256 binding) ttl t ?r1"
      using registerSession_cases[OF assms(5)] assms(2) pruned_scard[OF inv, of l rv] by auto
    have live: "live_sessions l t r' = insert token (revision_sessions l rv t r)"
      using pruned_live[OF inv, of l rv] assms(2)
      by (auto simp: r' live_sessions_def store_session_of[OF assms(4)])
    have "card (live_sessions l t r') \<le> Suc (card (revision_sessions l rv t r))"
      unfolding live by (rule card_insert_le_m1) auto
    then show ?thesis using False res live by auto
  qed
qed

theorem session_limit_witness:
  "registerSession id ''b'' 0 ''L'' 0 \<lparr>sb_ip = ''i'', sb_deviceId = ''d''\<rparr> 30 0 empty_redis =
      (Inr (Registered ''b''),
        store_session ''b'' ''L'' 0 (hashBinding id \<lparr>sb_ip = ''i'', sb_deviceId = ''d''\<rparr>) 30 0 empty_redis)
    \<and> live_sessions ''L'' 0
        (store_session ''b'' ''L'' 0 (hashBinding id \<lparr>sb_ip = ''i'', sb_deviceId = ''d''\<rparr>) 30 0 empty_redis)
      = {''b''}"
proof -
  let ?b = "\<lparr>sb_ip = ''i'', sb_deviceId = ''d''\<rparr>"
  note run = sample_register
  have "revision_sessions ''L'' 0 0 empty_redis = {}"
    by (simp add: revision_sessions_def session_of_def redis_get_def empty_redis_def)
  with session_limit[OF rtranclp.rtrancl_refl _ _ _ run] run show ?thesis
    by (simp add: valid_session_def MAX_SAFE_INTEGER_def)
qed

text \<open>
  C7: a token means what it was issued for. Right after a registration the token resolves, with
  its binding, to the licence and revision it was registered for until its time to live has
  passed; and after any later interleaving of session operations and time, whenever the token
  resolves at all, it resolves to that licence and revision, and only with the same binding.
\<close>

theorem session_resolves_to_issue:
  assumes "world_inv ttl (t, used, r)" and "token \<notin> used" and "valid_session l rv"
    and "registerSession sha256 token t l rv binding ttl mx r = (Inr (Registered token), r')"
  shows "world_resolve sha256 ttl token binding (t, insert token used, r') = Some (l, rv) \<and>
    (\<forall>w binding' l' rv'. (session_step sha256 ttl)\<^sup>*\<^sup>* (t, insert token used, r') w \<and>
      world_resolve sha256 ttl token binding' w = Some (l', rv') \<longrightarrow>
      l' = l \<and> rv' = rv \<and> hashBinding sha256 binding' = hashBinding sha256 binding)"
proof -
  have inv: "session_inv ttl t r" "0 < ttl" using assms(1) by simp_all
  have inv': "world_inv ttl (t, insert token used, r')"
    using session_step_inv[OF step_register[OF assms(2-4)] assms(1)] .
  have s: "world_session token (t, insert token used, r') =
      Some (l, rv, hashBinding sha256 binding)"
    using registered_session_of(3)[OF inv(1) assms(3) order_refl assms(4), of token] inv(2) by simp
  have "world_resolve sha256 ttl token binding (t, insert token used, r') = Some (l, rv)"
    unfolding world_resolve_hash redis_sessions.resolve_session[OF inv'] s by simp
  moreover have "l' = l \<and> rv' = rv \<and> hashBinding sha256 binding' = hashBinding sha256 binding"
    if "(session_step sha256 ttl)\<^sup>*\<^sup>* (t, insert token used, r') w"
      "world_resolve sha256 ttl token binding' w = Some (l', rv')" for w binding' l' rv'
    using redis_sessions.resolves_to_issue[OF that(1) inv' s that(2)[unfolded world_resolve_hash]] .
  ultimately show ?thesis by blast
qed

theorem session_resolves_to_issue_witness:
  "world_resolve id 30 ''b'' \<lparr>sb_ip = ''i'', sb_deviceId = ''d''\<rparr> (0, {''b''},
    store_session ''b'' ''L'' 0 (hashBinding id \<lparr>sb_ip = ''i'', sb_deviceId = ''d''\<rparr>) 30 0 empty_redis)
   = Some (''L'', 0)"
proof -
  let ?b = "\<lparr>sb_ip = ''i'', sb_deviceId = ''d''\<rparr>"
  note run = sample_register
  have "world_inv 30 (0, {}, empty_redis)" by (rule empty_world_inv) simp
  from session_resolves_to_issue[OF this _ _ run] show ?thesis
    by (simp add: valid_session_def MAX_SAFE_INTEGER_def)
qed

text \<open>
  C8: termination is complete, exact and final. \<open>removeAllSessions\<close> ends every live session of
  the licence whose revision is below the preserved one, reports how many it ended, leaves every
  other session as it is, and no token it ended ever resolves again.
\<close>

theorem removeAll_ends_sessions:
  assumes "world_inv ttl (t, used, r)" and "removeAllSessions t l pf r = (n, r')"
  shows "n = int (card {token. \<exists>rv h. session_of token t r = Some (l, rv, h) \<and> below pf rv}) \<and>
    (\<forall>token. session_of token t r' =
      (case session_of token t r of
        Some (l', rv, h) \<Rightarrow> if l' = l \<and> below pf rv then None else Some (l', rv, h)
      | None \<Rightarrow> None)) \<and>
    (\<forall>token rv h w binding. session_of token t r = Some (l, rv, h) \<and> below pf rv \<and>
      (session_step sha256 ttl)\<^sup>*\<^sup>* (t, used, r') w \<longrightarrow>
      world_resolve sha256 ttl token binding w = None)"
proof -
  have inv: "session_inv ttl t r" using assms(1) by simp
  have inv': "world_inv ttl (t, used, r')"
    using session_step_inv[OF step_remove_all[OF assms(2)] assms(1)] .
  have ends: "session_of token t r' =
      (case session_of token t r of
        Some (l', rv, h) \<Rightarrow> if l' = l \<and> below pf rv then None else Some (l', rv, h)
      | None \<Rightarrow> None)" for token
    using removeAll_session_of[OF inv assms(2) order_refl, of token] by (auto split: option.splits)
  have "world_resolve sha256 ttl token binding w = None"
    if s: "session_of token t r = Some (l, rv, h)" "below pf rv"
      and steps: "(session_step sha256 ttl)\<^sup>*\<^sup>* (t, used, r') w" for token rv h w binding
  proof -
    have "world_issued token (t, used, r')" using assms(1) s(1) by auto
    moreover have "world_session token (t, used, r') = None" using ends[of token] s by simp
    ultimately show ?thesis
      unfolding world_resolve_hash using redis_sessions.gone_forever[OF steps inv'] by blast
  qed
  then show ?thesis using removeAll_count[OF inv assms(2)] ends by blast
qed

theorem removeAll_ends_sessions_witness:
  "fst (removeAllSessions 0 ''L'' (Some 1)
    (store_session ''b'' ''L'' 0 (hashBinding id \<lparr>sb_ip = ''i'', sb_deviceId = ''d''\<rparr>) 30 0 empty_redis)) = 1"
proof -
  let ?b = "\<lparr>sb_ip = ''i'', sb_deviceId = ''d''\<rparr>"
  let ?r = "store_session ''b'' ''L'' 0 (hashBinding id ?b) 30 0 empty_redis"
  note run = sample_register
  have inv: "world_inv 30 (0, {}, empty_redis)" by (rule empty_world_inv) simp
  have valid: "valid_session ''L'' 0" by (simp add: valid_session_def MAX_SAFE_INTEGER_def)
  have inv': "world_inv 30 (0, {''b''}, ?r)"
    using session_step_inv[OF step_register[OF _ valid run] inv] by simp
  obtain n r' where rm: "removeAllSessions 0 ''L'' (Some 1) ?r = (n, r')" by fastforce
  have "session_of token 0 ?r = (if token = ''b'' then Some (''L'', 0, hashBinding id ?b) else None)"
    for token
  proof -
    have "session_of token 0 empty_redis = None"
      by (simp add: session_of_def redis_get_def empty_redis_def)
    then show ?thesis by (simp add: store_session_of[OF valid])
  qed
  then have "{token. \<exists>rv h. session_of token 0 ?r = Some (''L'', rv, h) \<and> below (Some 1) rv} = {''b''}"
    by (auto simp: below_def)
  with removeAll_ends_sessions[OF inv' rm] rm show ?thesis by simp
qed

end
