(* ===== verification/DeviceRepository.thy ===== *)
theory DeviceRepository
  imports Database
begin

text \<open>
  \<open>infrastructure/repositories/DrizzleDeviceRepository.ts\<close>: the registrations of a licence
  (one row per address and device), the admission policy read under the registration lock, and
  the two licence columns an activation may change. \<open>withLicenseRegistrationLock\<close> is the
  transaction combinator of the service monad. A column default \<open>now()\<close> and
  \<open>clock_timestamp()\<close> read the database's clock, \<open>new Date()\<close> the server's; both are arguments.

  The theory shows how a registration changes the usage counts, that every statement keeps
  the constraints of the schema, and that a trial starts at most once.
\<close>

section \<open>Licences as the domain sees them\<close>

definition toDomainLicense :: "int option \<Rightarrow> stored_license \<Rightarrow> license" where
  "toDomainLicense billingRevokedAt row =
    license_base.extend (license_base.truncate row) (license.fields billingRevokedAt)"

definition with_allowlists ::
    "license \<Rightarrow> ip_allow list \<Rightarrow> device_allow list \<Rightarrow> license_with_allowlists" where
  "with_allowlists license ips devs =
    license.extend license (license_with_allowlists.fields ips devs)"

definition billing_of :: "string \<Rightarrow> db \<Rightarrow> int option" where
  "billing_of licenseId d =
    (case first_row (\<lambda>s. s_licenseId s = licenseId) (stripeLinks d) of
      None \<Rightarrow> None
    | Some link \<Rightarrow> s_billingRevokedAt link)"

definition next_updated_at :: "int \<Rightarrow> 'a license_base_scheme \<Rightarrow> int" where
  "next_updated_at dbNow l = max dbNow (l_updatedAt l + 1)"

lemma toDomainLicense_simps [simp]:
  "l_id (toDomainLicense b s) = l_id s" "l_type (toDomainLicense b s) = l_type s"
  "l_keyPrefix (toDomainLicense b s) = l_keyPrefix s"
  "l_customerId (toDomainLicense b s) = l_customerId s"
  "l_maxIps (toDomainLicense b s) = l_maxIps s"
  "l_maxDevices (toDomainLicense b s) = l_maxDevices s"
  "l_maxSessions (toDomainLicense b s) = l_maxSessions s"
  "l_sessionRevision (toDomainLicense b s) = l_sessionRevision s"
  "l_trialDurationMinutes (toDomainLicense b s) = l_trialDurationMinutes s"
  "l_trialStartedAt (toDomainLicense b s) = l_trialStartedAt s"
  "l_metadata (toDomainLicense b s) = l_metadata s"
  "l_expiresAt (toDomainLicense b s) = l_expiresAt s"
  "l_typeDrafts (toDomainLicense b s) = l_typeDrafts s"
  "l_manualRevokedAt (toDomainLicense b s) = l_manualRevokedAt s"
  "l_manualRevocationReason (toDomainLicense b s) = l_manualRevocationReason s"
  "l_createdAt (toDomainLicense b s) = l_createdAt s"
  "l_updatedAt (toDomainLicense b s) = l_updatedAt s"
  "l_billingRevokedAt (toDomainLicense b s) = b"
  by (simp_all add: toDomainLicense_def license_base.defs license.defs)

lemma with_allowlists_simps [simp]:
  "l_id (with_allowlists l i v) = l_id l" "l_type (with_allowlists l i v) = l_type l"
  "l_keyPrefix (with_allowlists l i v) = l_keyPrefix l"
  "l_customerId (with_allowlists l i v) = l_customerId l"
  "l_maxIps (with_allowlists l i v) = l_maxIps l"
  "l_maxDevices (with_allowlists l i v) = l_maxDevices l"
  "l_maxSessions (with_allowlists l i v) = l_maxSessions l"
  "l_sessionRevision (with_allowlists l i v) = l_sessionRevision l"
  "l_trialDurationMinutes (with_allowlists l i v) = l_trialDurationMinutes l"
  "l_trialStartedAt (with_allowlists l i v) = l_trialStartedAt l"
  "l_metadata (with_allowlists l i v) = l_metadata l"
  "l_expiresAt (with_allowlists l i v) = l_expiresAt l"
  "l_manualRevokedAt (with_allowlists l i v) = l_manualRevokedAt l"
  "l_updatedAt (with_allowlists l i v) = l_updatedAt l"
  "l_billingRevokedAt (with_allowlists l i v) = l_billingRevokedAt l"
  "l_allowedIps (with_allowlists l i v) = i" "l_allowedDevices (with_allowlists l i v) = v"
  by (simp_all add: with_allowlists_def license.defs license_with_allowlists.defs)

section \<open>The methods\<close>

definition findLicenseAdmissionPolicy :: "string \<Rightarrow> db \<Rightarrow> license_with_allowlists option" where
  "findLicenseAdmissionPolicy licenseId d =
    (case first_row (\<lambda>l. l_id l = licenseId) (licenses d) of
      None \<Rightarrow> None
    | Some stored \<Rightarrow>
        Some (with_allowlists (toDomainLicense (billing_of licenseId d) stored)
          (rows (\<lambda>r. ia_licenseId r = licenseId) (ipAllowlist d))
          (rows (\<lambda>r. da_licenseId r = licenseId) (deviceAllowlist d))))"

definition incrementLicenseSessionRevision :: "int \<Rightarrow> string \<Rightarrow> int option txn" where
  "incrementLicenseSessionRevision dbNow licenseId =
    bindT (update_licenses (\<lambda>l. l_id l = licenseId)
      (\<lambda>l. l\<lparr>l_sessionRevision := l_sessionRevision l + 1, l_updatedAt := next_updated_at dbNow l\<rparr>))
    (\<lambda>updated. returnT (case updated of [] \<Rightarrow> None | l # _ \<Rightarrow> Some (l_sessionRevision l)))"

definition device_startTrialIfUnset :: "int \<Rightarrow> string \<Rightarrow> int \<Rightarrow> int option txn" where
  "device_startTrialIfUnset dbNow licenseId startedAt =
    bindT (update_licenses
      (\<lambda>l. l_id l = licenseId \<and> l_type l = Trial \<and> l_trialStartedAt l = None)
      (\<lambda>l. l\<lparr>l_trialStartedAt := Some startedAt, l_updatedAt := next_updated_at dbNow l\<rparr>))
    (\<lambda>updated. returnT (case updated of [] \<Rightarrow> None | l # _ \<Rightarrow> l_trialStartedAt l))"

definition findRegisteredDevice ::
    "string \<Rightarrow> string \<Rightarrow> string \<Rightarrow> db \<Rightarrow> registered_device option" where
  "findRegisteredDevice licenseId ip deviceId d =
    first_row (\<lambda>r. rd_licenseId r = licenseId \<and> rd_ip r = ip \<and> rd_deviceId r = deviceId) (devices d)"

definition registerDevice ::
    "string \<Rightarrow> int \<Rightarrow> int \<Rightarrow> string \<Rightarrow> string \<Rightarrow> string \<Rightarrow> registered_device txn" where
  "registerDevice uuid now dbNow licenseId ip deviceId d =
    (case findRegisteredDevice licenseId ip deviceId d of
      Some r \<Rightarrow> Inr (r\<lparr>rd_lastSeenAt := now\<rparr>,
        d\<lparr>devices := update_where
            (\<lambda>x. rd_licenseId x = licenseId \<and> rd_ip x = ip \<and> rd_deviceId x = deviceId)
            (\<lambda>x. x\<lparr>rd_lastSeenAt := now\<rparr>) (devices d)\<rparr>)
    | None \<Rightarrow>
        (let r = \<lparr>rd_id = uuid, rd_licenseId = licenseId, rd_ip = ip, rd_deviceId = deviceId,
              rd_createdAt = dbNow, rd_lastSeenAt = now\<rparr> in
         if taken rd_id r (devices d) then
           Inl (Db_error (Unique_violation ''registered_devices_pkey''))
         else if \<not> license_exists licenseId d then
           Inl (Db_error (Foreign_key_violation ''registered_devices_license_id_fkey''))
         else Inr (r, d\<lparr>devices := devices d @ [r]\<rparr>)))"

definition touchDevice :: "string \<Rightarrow> int \<Rightarrow> unit txn" where
  "touchDevice i seenAt d =
    Inr ((), d\<lparr>devices := update_where (\<lambda>r. rd_id r = i) (\<lambda>r. r\<lparr>rd_lastSeenAt := seenAt\<rparr>) (devices d)\<rparr>)"

definition getLicenseDeviceUsage :: "string \<Rightarrow> string \<Rightarrow> string \<Rightarrow> db \<Rightarrow> license_device_usage" where
  "getLicenseDeviceUsage licenseId ip deviceId d =
    (let mine = rows (\<lambda>r. rd_licenseId r = licenseId) (devices d) in
     \<lparr>du_uniqueIps = int (length (remdups (map rd_ip mine))),
      du_uniqueDevices = int (length (remdups (map rd_deviceId mine))),
      du_ipRegistered = (rows (\<lambda>r. rd_licenseId r = licenseId \<and> rd_ip r = ip) (devices d) \<noteq> []),
      du_deviceRegistered =
        (rows (\<lambda>r. rd_licenseId r = licenseId \<and> rd_deviceId r = deviceId) (devices d) \<noteq> [])\<rparr>)"

definition delete_devices :: "(registered_device \<Rightarrow> bool) \<Rightarrow> db \<Rightarrow> int \<times> db" where
  "delete_devices P d =
    (int (length (rows P (devices d))), d\<lparr>devices := delete_where P (devices d)\<rparr>)"

definition removeRegisteredDevice :: "string \<Rightarrow> string \<Rightarrow> bool txn" where
  "removeRegisteredDevice licenseId registeredDeviceId d =
    (let (n, d') = delete_devices (\<lambda>r. rd_licenseId r = licenseId \<and> rd_id r = registeredDeviceId) d
     in Inr (n > 0, d'))"

definition resetRegisteredDevices :: "string \<Rightarrow> int txn" where
  "resetRegisteredDevices licenseId d = Inr (delete_devices (\<lambda>r. rd_licenseId r = licenseId) d)"

definition removeRegistrationsByIp :: "string \<Rightarrow> string \<Rightarrow> int txn" where
  "removeRegistrationsByIp licenseId ip d =
    Inr (delete_devices (\<lambda>r. rd_licenseId r = licenseId \<and> rd_ip r = ip) d)"

definition removeRegistrationsByDevice :: "string \<Rightarrow> string \<Rightarrow> int txn" where
  "removeRegistrationsByDevice licenseId deviceId d =
    Inr (delete_devices (\<lambda>r. rd_licenseId r = licenseId \<and> rd_deviceId r = deviceId) d)"

section \<open>Registrations and their counts\<close>

definition registered_ips :: "string \<Rightarrow> db \<Rightarrow> string set" where
  "registered_ips licenseId d = rd_ip ` {r \<in> set (devices d). rd_licenseId r = licenseId}"

definition registered_ids :: "string \<Rightarrow> db \<Rightarrow> string set" where
  "registered_ids licenseId d = rd_deviceId ` {r \<in> set (devices d). rd_licenseId r = licenseId}"

lemma usage_counts:
  "du_uniqueIps (getLicenseDeviceUsage l ip dev d) = int (card (registered_ips l d))"
  "du_uniqueDevices (getLicenseDeviceUsage l ip dev d) = int (card (registered_ids l d))"
  by (simp_all add: getLicenseDeviceUsage_def Let_def registered_ips_def registered_ids_def
      length_remdups_card_conv)

lemma usage_registered:
  "du_ipRegistered (getLicenseDeviceUsage l ip dev d) \<longleftrightarrow> ip \<in> registered_ips l d"
  "du_deviceRegistered (getLicenseDeviceUsage l ip dev d) \<longleftrightarrow> dev \<in> registered_ids l d"
  by (auto simp: getLicenseDeviceUsage_def Let_def registered_ips_def registered_ids_def
      rows_def filter_empty_conv)

lemma finite_registered [simp]: "finite (registered_ips l d)" "finite (registered_ids l d)"
  by (simp_all add: registered_ips_def registered_ids_def)

lemma findRegisteredDevice_mem:
  "findRegisteredDevice l ip dev d = Some r \<Longrightarrow>
    r \<in> set (devices d) \<and> rd_licenseId r = l \<and> rd_ip r = ip \<and> rd_deviceId r = dev"
  by (auto simp: findRegisteredDevice_def dest: first_row_SomeD)

lemma findRegisteredDevice_None:
  "findRegisteredDevice l ip dev d = None \<longleftrightarrow>
    (\<forall>r \<in> set (devices d). \<not> (rd_licenseId r = l \<and> rd_ip r = ip \<and> rd_deviceId r = dev))"
  by (simp add: findRegisteredDevice_def first_row_None_iff)

definition registration_keys :: "db \<Rightarrow> (string \<times> string \<times> string) list" where
  "registration_keys d = map (\<lambda>r. (rd_licenseId r, rd_ip r, rd_deviceId r)) (devices d)"

lemma registered_by_keys:
  "registered_ips l d = {ip. \<exists>dev. (l, ip, dev) \<in> set (registration_keys d)}"
  "registered_ids l d = {dev. \<exists>ip. (l, ip, dev) \<in> set (registration_keys d)}"
  by (auto simp: registered_ips_def registered_ids_def registration_keys_def)

lemma find_iff_key:
  "findRegisteredDevice l ip dev d \<noteq> None \<longleftrightarrow> (l, ip, dev) \<in> set (registration_keys d)"
  by (auto simp: findRegisteredDevice_None registration_keys_def image_iff)

lemma registerDevice_keys:
  assumes "registerDevice uuid now dbNow l ip dev d = Inr (r, d')"
  shows "set (registration_keys d') = insert (l, ip, dev) (set (registration_keys d))"
proof (cases "findRegisteredDevice l ip dev d")
  case None
  then show ?thesis
    using assms by (auto simp: registerDevice_def Let_def registration_keys_def split: if_splits)
next
  case (Some r0)
  then have "registration_keys d' = registration_keys d"
    using assms by (auto simp: registerDevice_def registration_keys_def update_where_def)
  then show ?thesis using Some find_iff_key[of l ip dev d] by auto
qed

lemma registerDevice_registered:
  assumes "registerDevice uuid now dbNow l ip dev d = Inr (r, d')"
  shows "registered_ips l' d' = (if l' = l then insert ip (registered_ips l d) else registered_ips l' d)"
    and "registered_ids l' d' = (if l' = l then insert dev (registered_ids l d) else registered_ids l' d)"
    and "findRegisteredDevice l ip dev d' \<noteq> None"
  unfolding registered_by_keys find_iff_key registerDevice_keys[OF assms] by auto

lemma touchDevice_keys:
  "touchDevice i now d = Inr (u, d') \<Longrightarrow> registration_keys d' = registration_keys d"
  by (auto simp: touchDevice_def registration_keys_def update_where_def)

lemma delete_devices_keys:
  "delete_devices P d = (n, d') \<Longrightarrow> set (registration_keys d') \<subseteq> set (registration_keys d)"
  by (auto simp: delete_devices_def registration_keys_def)

section \<open>Constraints are kept\<close>

lemma update_licenses_wf:
  assumes "db_wf d" "update_licenses P f d = Inr (us, d')"
    and "\<And>l. l_id (f l) = l_id l"
  shows "db_wf d'"
proof -
  have d': "d' = d\<lparr>licenses := update_where P f (licenses d)\<rparr>"
    and ok: "\<forall>l \<in> set (rows P (licenses d)). license_row_int4 (f l) \<and> license_row_ok (f l) \<and>
      customer_exists (l_customerId (f l)) d"
    and uh: "unique_on l_keyHash (update_where P f (licenses d))"
    using assms(2) by (auto simp: update_licenses_def Let_def list_all_iff split: if_splits)
  have ids: "map l_id (licenses d') = map l_id (licenses d)"
    using assms(3) by (simp add: d' map_update_where)
  have ex: "license_exists i d' = license_exists i d" for i
    unfolding license_exists_def ids ..
  have cex: "customer_exists i d' = customer_exists i d" for i
    by (simp add: customer_exists_def d')
  have "licenses_wf d'"
    using assms(1,3) ok uh cex
    by (auto simp: licenses_wf_def db_wf_def unique_on_update_where d' set_update_where)
  then show ?thesis
    using assms(1) ex by (simp add: db_wf_def wf_defs d')
qed

lemma update_licenses_rows:
  "update_licenses P f d = Inr (us, d') \<Longrightarrow>
    us = map f (rows P (licenses d)) \<and> d' = d\<lparr>licenses := update_where P f (licenses d)\<rparr>"
  by (auto simp: update_licenses_def Let_def split: if_splits)

lemma devices_change_wf:
  "db_wf d \<Longrightarrow> devices_wf (d\<lparr>devices := ds\<rparr>) \<Longrightarrow> db_wf (d\<lparr>devices := ds\<rparr>)"
  by (simp add: db_wf_def wf_defs license_exists_def customer_exists_def)

lemma devices_update_wf:
  assumes "db_wf d" "\<And>r. rd_id (f r) = rd_id r" "\<And>r. rd_licenseId (f r) = rd_licenseId r"
    "\<And>r. rd_ip (f r) = rd_ip r" "\<And>r. rd_deviceId (f r) = rd_deviceId r"
  shows "db_wf (d\<lparr>devices := update_where P f (devices d)\<rparr>)"
proof (rule devices_change_wf[OF assms(1)])
  show "devices_wf (d\<lparr>devices := update_where P f (devices d)\<rparr>)"
    using assms by (auto simp: devices_wf_def db_wf_def unique_on_update_where set_update_where
        license_exists_def)
qed

lemma registerDevice_wf:
  assumes "db_wf d" "registerDevice uuid now dbNow l ip dev d = Inr (r, d')"
  shows "db_wf d'"
proof (cases "findRegisteredDevice l ip dev d")
  case None
  let ?r = "\<lparr>rd_id = uuid, rd_licenseId = l, rd_ip = ip, rd_deviceId = dev,
              rd_createdAt = dbNow, rd_lastSeenAt = now\<rparr>"
  have d': "d' = d\<lparr>devices := devices d @ [?r]\<rparr>" "\<not> taken rd_id ?r (devices d)"
    "license_exists l d"
    using assms(2) None by (auto simp: registerDevice_def Let_def split: if_splits)
  have "\<not> taken (\<lambda>r. (rd_licenseId r, rd_ip r, rd_deviceId r)) ?r (devices d)"
    using None by (auto simp: taken_def findRegisteredDevice_None image_iff)
  then have "devices_wf (d\<lparr>devices := devices d @ [?r]\<rparr>)"
    using assms(1) d'(2,3) by (simp add: devices_wf_def db_wf_def license_exists_def)
  then show ?thesis unfolding d'(1) by (rule devices_change_wf[OF assms(1)])
next
  case (Some r0)
  then show ?thesis
    using assms devices_update_wf[OF assms(1), of "\<lambda>x. x\<lparr>rd_lastSeenAt := now\<rparr>"]
    by (auto simp: registerDevice_def)
qed

lemma touchDevice_wf: "db_wf d \<Longrightarrow> touchDevice i now d = Inr (u, d') \<Longrightarrow> db_wf d'"
  using devices_update_wf[of d "\<lambda>x. x\<lparr>rd_lastSeenAt := now\<rparr>"] by (auto simp: touchDevice_def)

lemma delete_devices_wf:
  assumes "db_wf d" "delete_devices P d = (n, d')"
  shows "db_wf d'"
proof -
  have d': "d' = d\<lparr>devices := delete_where P (devices d)\<rparr>"
    using assms(2) by (simp add: delete_devices_def)
  have "devices_wf (d\<lparr>devices := delete_where P (devices d)\<rparr>)"
    using assms(1) by (auto simp: devices_wf_def db_wf_def unique_on_delete_where license_exists_def)
  then show ?thesis unfolding d' by (rule devices_change_wf[OF assms(1)])
qed

section \<open>A trial starts once\<close>

lemma trial_start_once:
  assumes "device_startTrialIfUnset dbNow licenseId t d = Inr (res, d')" "unique_on l_id (licenses d)"
    and "l \<in> set (licenses d)" "l_id l = licenseId"
  shows "if l_type l = Trial \<and> l_trialStartedAt l = None
    then res = Some t \<and> (\<exists>l' \<in> set (licenses d'). l_id l' = licenseId \<and> l_trialStartedAt l' = Some t)
    else res = None \<and> d' = d"
proof -
  let ?P = "\<lambda>l. l_id l = licenseId \<and> l_type l = Trial \<and> l_trialStartedAt l = None"
  let ?f = "\<lambda>l. l\<lparr>l_trialStartedAt := Some t, l_updatedAt := next_updated_at dbNow l\<rparr>"
  obtain us where us: "update_licenses ?P ?f d = Inr (us, d')"
    "res = (case us of [] \<Rightarrow> None | l # _ \<Rightarrow> l_trialStartedAt l)"
    using assms(1) by (auto simp: device_startTrialIfUnset_def bindT_Inr_iff)
  note rows' = update_licenses_rows[OF us(1)]
  have only: "x = l" if "x \<in> set (licenses d)" "l_id x = licenseId" for x
    using unique_onD[OF assms(2) that(1) assms(3)] that(2) assms(4) by simp
  show ?thesis
  proof (cases "l_type l = Trial \<and> l_trialStartedAt l = None")
    case True
    have "rows ?P (licenses d) = [l]"
      by (rule rows_single[OF assms(2,3)]) (use True assms(4) only in \<open>simp_all\<close>)
    moreover have "?f l \<in> set (licenses d')"
      using rows' in_update_where[of l "licenses d" ?P ?f] assms(3,4) True by simp
    ultimately show ?thesis using True us(2) rows' assms(4) by (auto intro: bexI[of _ "?f l"])
  next
    case False
    then have none: "\<not> ?P x" if "x \<in> set (licenses d)" for x using only that by auto
    then have "rows ?P (licenses d) = []" by (auto simp: rows_def filter_empty_conv)
    moreover have "update_where ?P ?f (licenses d) = licenses d"
      using none by (rule update_where_id)
    ultimately show ?thesis using False us(2) rows' by simp
  qed
qed

end
