(* ===== verification/MeterRepository.thy ===== *)
theory MeterRepository
  imports Database "HOL-Library.List_Lexorder" "HOL-Library.Char_ord"
begin

text \<open>
  \<open>infrastructure/repositories/DrizzleMeterRepository.ts\<close>: named usage meters and their
  ledger. Every method is one transaction under the licence's advisory lock, so it is one
  atomic function of the database. The identifiers (\<open>crypto.randomUUID()\<close>) and the clock
  (\<open>new Date()\<close>) the method reads are arguments, and so is SHA-256.

  The theory shows the double-entry invariant (\<open>books_ok\<close>: the ledger entries of a meter, in
  order, lead from 0 to its balance), that a committed consumption is charged exactly once
  however often it is retried, that the methods implement an abstract account, and the bounds
  of every balance.
\<close>

section \<open>The methods\<close>

definition operator_event :: "string \<Rightarrow> string" where
  "operator_event uuid = ''operator:'' @ uuid"

definition ledger_meters :: "db \<Rightarrow> (usage_ledger_entry \<times> license_meter) list" where
  "ledger_meters d =
    concat (map (\<lambda>e. map (\<lambda>m. (e, m)) (rows (\<lambda>m. m_id m = e_meterId e) (meters d))) (ledger d))"

definition listMeters :: "string \<Rightarrow> bool \<Rightarrow> db \<Rightarrow> license_meter list" where
  "listMeters licenseId includeArchived d =
    sort_key m_name
      (rows (\<lambda>m. m_licenseId m = licenseId \<and> (includeArchived \<or> m_archivedAt m = None)) (meters d))"

definition createMeter ::
    "string \<Rightarrow> string \<Rightarrow> string \<Rightarrow> int \<Rightarrow> string \<Rightarrow> string \<Rightarrow> int \<Rightarrow> string \<Rightarrow> license_meter txn" where
  "createMeter meterId entryId eventUuid now licenseId name balance reason =
    bindT (insert_meter
      \<lparr>m_id = meterId, m_licenseId = licenseId, m_name = name, m_balance = balance,
       m_archivedAt = None, m_createdAt = now, m_updatedAt = now\<rparr>) (\<lambda>meter.
    bindT (insert_ledger
      \<lparr>e_id = entryId, e_licenseId = licenseId, e_meterId = m_id meter,
       e_eventId = operator_event eventUuid, e_kind = Create, e_delta = balance,
       e_balanceBefore = 0, e_balanceAfter = balance, e_reason = Some reason,
       e_createdAt = now\<rparr>) (\<lambda>_.
    returnT meter))"

definition archiveActive ::
    "string \<Rightarrow> string \<Rightarrow> int \<Rightarrow> string \<Rightarrow> string \<Rightarrow> string \<Rightarrow> license_meter option txn" where
  "archiveActive entryId eventUuid now licenseId name reason =
    bindT (update_meters
      (\<lambda>m. m_licenseId m = licenseId \<and> m_name m = name \<and> m_archivedAt m = None)
      (\<lambda>m. m\<lparr>m_archivedAt := Some now, m_updatedAt := now\<rparr>)) (\<lambda>updated.
    case updated of
      archived # _ \<Rightarrow>
        bindT (insert_ledger
          \<lparr>e_id = entryId, e_licenseId = licenseId, e_meterId = m_id archived,
           e_eventId = operator_event eventUuid, e_kind = Archive, e_delta = 0,
           e_balanceBefore = m_balance archived, e_balanceAfter = m_balance archived,
           e_reason = Some reason, e_createdAt = now\<rparr>) (\<lambda>_.
        returnT (Some archived))
    | [] \<Rightarrow>
        selectT (\<lambda>d. first_row (\<lambda>m. m_licenseId m = licenseId \<and> m_name m = name) (meters d)))"

definition archiveMeter ::
    "string \<Rightarrow> string \<Rightarrow> int \<Rightarrow> string \<Rightarrow> string \<Rightarrow> string \<Rightarrow> license_meter option txn" where
  "archiveMeter entryId eventUuid now licenseId name reason =
    bindT (selectT (\<lambda>d. first_row (\<lambda>l. l_id l = licenseId) (licenses d))) (\<lambda>licenseRow.
    case licenseRow of
      None \<Rightarrow> returnT None
    | Some license \<Rightarrow>
        if l_type license = Metered then
          bindT (selectT (\<lambda>d.
            rows (\<lambda>m. m_licenseId m = licenseId \<and> m_archivedAt m = None) (meters d)))
            (\<lambda>activeMeters.
          case first_row (\<lambda>m. m_name m = name) activeMeters of
            Some target \<Rightarrow>
              if length activeMeters = 1 then returnT (Some target)
              else archiveActive entryId eventUuid now licenseId name reason
          | None \<Rightarrow> archiveActive entryId eventUuid now licenseId name reason)
        else archiveActive entryId eventUuid now licenseId name reason)"

definition consume ::
    "(string \<Rightarrow> string) \<Rightarrow> string \<Rightarrow> int \<Rightarrow> string \<Rightarrow> string \<Rightarrow> int \<Rightarrow> string
      \<Rightarrow> usage_consumption_result txn" where
  "consume sha256 entryId now licenseId meterName units eventId =
    (let eventIdHash = hashUsageEventId sha256 eventId in
    bindT (selectT (\<lambda>d. first_row (\<lambda>(entry, meter).
      e_licenseId entry = licenseId \<and> e_eventId entry = eventIdHash) (ledger_meters d))) (\<lambda>existing.
    case existing of
      Some (entry, meter) \<Rightarrow>
        if e_kind entry \<noteq> Consume \<or> e_delta entry \<noteq> - units \<or> m_name meter \<noteq> meterName
        then returnT Conflict
        else returnT (Replayed (meter\<lparr>m_balance := e_balanceAfter entry\<rparr>) entry)
    | None \<Rightarrow>
        bindT (selectT (\<lambda>d.
          first_row (\<lambda>m. m_licenseId m = licenseId \<and> m_name m = meterName) (meters d))) (\<lambda>meterRow.
        case meterRow of
          None \<Rightarrow> returnT Not_found
        | Some meter \<Rightarrow>
            if m_archivedAt meter \<noteq> None then returnT Archived
            else
              bindT (update_meters
                (\<lambda>m. m_id m = m_id meter \<and> m_balance m \<ge> units)
                (\<lambda>m. m\<lparr>m_balance := m_balance m - units, m_updatedAt := now\<rparr>)) (\<lambda>updatedRows.
              case updatedRows of
                [] \<Rightarrow> returnT Exhausted
              | updated # _ \<Rightarrow>
                  bindT (insert_ledger
                    \<lparr>e_id = entryId, e_licenseId = licenseId, e_meterId = m_id meter,
                     e_eventId = eventIdHash, e_kind = Consume, e_delta = - units,
                     e_balanceBefore = m_balance updated + units,
                     e_balanceAfter = m_balance updated, e_reason = None,
                     e_createdAt = now\<rparr>) (\<lambda>entry.
                  returnT (Consumed updated entry))))))"

definition adjust ::
    "string \<Rightarrow> string \<Rightarrow> int \<Rightarrow> string \<Rightarrow> string \<Rightarrow> int \<Rightarrow> string \<Rightarrow> meter_ledger_kind
      \<Rightarrow> meter_adjustment_result txn" where
  "adjust entryId eventUuid now licenseId meterName delta reason kind =
    bindT (selectT (\<lambda>d.
      first_row (\<lambda>m. m_licenseId m = licenseId \<and> m_name m = meterName) (meters d))) (\<lambda>meterRow.
    case meterRow of
      None \<Rightarrow> returnT Adj_not_found
    | Some meter \<Rightarrow>
        if m_archivedAt meter \<noteq> None then returnT Adj_archived
        else
          bindT (update_meters
            (\<lambda>m. m_id m = m_id meter \<and>
              (if delta > 0 then m_balance m \<le> MAX_LICENSE_LIMIT - delta else m_balance m \<ge> - delta))
            (\<lambda>m. m\<lparr>m_balance := m_balance m + delta, m_updatedAt := now\<rparr>)) (\<lambda>updatedRows.
          case updatedRows of
            [] \<Rightarrow> returnT Adj_out_of_range
          | updated # _ \<Rightarrow>
              bindT (insert_ledger
                \<lparr>e_id = entryId, e_licenseId = licenseId, e_meterId = m_id meter,
                 e_eventId = operator_event eventUuid, e_kind = kind, e_delta = delta,
                 e_balanceBefore = m_balance updated - delta,
                 e_balanceAfter = m_balance updated, e_reason = Some reason,
                 e_createdAt = now\<rparr>) (\<lambda>entry.
              returnT (Adjusted updated entry))))"

definition listLedger :: "string \<Rightarrow> string option \<Rightarrow> db \<Rightarrow> usage_ledger_entry list" where
  "listLedger licenseId meterName d =
    sort_key (\<lambda>e. - e_createdAt e) (map fst
      (rows (\<lambda>(e, m). e_licenseId e = licenseId \<and>
        (case meterName of None \<Rightarrow> True | Some n \<Rightarrow> n = [] \<or> m_name m = n)) (ledger_meters d)))"

section \<open>Statements that touch one meter\<close>

lemma update_meters_none:
  "(\<And>m. m \<in> set (meters d) \<Longrightarrow> \<not> P m) \<Longrightarrow> update_meters P f d = Inr ([], d)"
  by (simp add: update_meters_def update_where_id rows_def Let_def)

lemma update_meters_one:
  assumes "unique_on m_id (meters d)" "m \<in> set (meters d)" "P m"
    and "\<And>x. x \<in> set (meters d) \<Longrightarrow> P x \<Longrightarrow> x = m"
  shows "update_meters P f d =
    (if \<not> int4 (m_balance (f m)) then Inl (Db_error Numeric_out_of_range)
     else if \<not> meter_row_ok (f m) then
       Inl (Db_error (Check_violation ''license_meters_balance_nonnegative''))
     else Inr ([f m], d\<lparr>meters := update_where (\<lambda>x. m_id x = m_id m) (\<lambda>_. f m) (meters d)\<rparr>))"
  using rows_single[where P = P, OF assms] update_where_single[where P = P and f = f, OF assms]
  by (simp add: update_meters_def Let_def)

lemma insert_ledger_Inr_iff:
  "insert_ledger e d = Inr (r, d') \<longleftrightarrow>
    r = e \<and> d' = d\<lparr>ledger := ledger d @ [e]\<rparr> \<and> ledger_row_int4 e \<and> \<not> taken e_id e (ledger d) \<and>
    \<not> taken (\<lambda>e. (e_licenseId e, e_eventId e)) e (ledger d) \<and> license_exists (e_licenseId e) d \<and>
    e_meterId e \<in> set (map m_id (meters d))"
  by (auto simp: insert_ledger_def)

lemma insert_meter_Inr_iff:
  "insert_meter m d = Inr (r, d') \<longleftrightarrow>
    r = m \<and> d' = d\<lparr>meters := meters d @ [m]\<rparr> \<and> int4 (m_balance m) \<and> meter_row_ok m \<and>
    \<not> taken m_id m (meters d) \<and> \<not> taken (\<lambda>m. (m_licenseId m, m_name m)) m (meters d) \<and>
    license_exists (m_licenseId m) d"
  by (auto simp: insert_meter_def)

section \<open>The books\<close>

text \<open>
  The invariant of the two tables: the constraints of the schema hold, and for every meter
  the entries booked on it, in the order they were booked, lead from 0 to its balance, each
  starting where the one before it ended.
\<close>

fun ledger_chain :: "int \<Rightarrow> usage_ledger_entry list \<Rightarrow> int \<Rightarrow> bool" where
  "ledger_chain b [] b' \<longleftrightarrow> b = b'"
| "ledger_chain b (e # es) b' \<longleftrightarrow>
    e_balanceBefore e = b \<and> e_balanceAfter e = b + e_delta e \<and> ledger_chain (e_balanceAfter e) es b'"

definition meter_entries :: "license_meter \<Rightarrow> db \<Rightarrow> usage_ledger_entry list" where
  "meter_entries m d = rows (\<lambda>e. e_meterId e = m_id m) (ledger d)"

definition books_ok :: "db \<Rightarrow> bool" where
  "books_ok d \<longleftrightarrow> (\<forall>m \<in> set (meters d).
    ledger_chain 0 (meter_entries m d) (m_balance m) \<and>
    (\<forall>e \<in> set (meter_entries m d). e_licenseId e = m_licenseId m))"

definition meter_inv :: "db \<Rightarrow> bool" where
  "meter_inv d \<longleftrightarrow> meters_wf d \<and> ledger_wf d \<and> books_ok d"

lemma ledger_chain_append:
  "ledger_chain b (xs @ ys) c \<longleftrightarrow> (\<exists>a. ledger_chain b xs a \<and> ledger_chain a ys c)"
  by (induction xs arbitrary: b) auto

lemma ledger_chain_sum: "ledger_chain b es c \<Longrightarrow> c = b + sum_list (map e_delta es)"
  by (induction es arbitrary: b) (auto, fastforce)

text \<open>
  \<open>posted m m' e d d'\<close>: the database \<open>d'\<close> is \<open>d\<close> with the meter \<open>m\<close> rewritten to \<open>m'\<close> and
  the entry \<open>e\<close>, which accounts for the difference, appended to the ledger. Consumption,
  adjustment and archiving all are such a posting; a new meter is an \<open>opened\<close> one.
\<close>

definition posted ::
    "license_meter \<Rightarrow> license_meter \<Rightarrow> usage_ledger_entry \<Rightarrow> db \<Rightarrow> db \<Rightarrow> bool" where
  "posted m m' e d d' \<longleftrightarrow>
    m \<in> set (meters d) \<and> m_id m' = m_id m \<and> m_licenseId m' = m_licenseId m \<and>
    m_name m' = m_name m \<and> int4 (m_balance m') \<and> meter_row_ok m' \<and>
    e_meterId e = m_id m \<and> e_licenseId e = m_licenseId m \<and>
    e_balanceBefore e = m_balance m \<and> e_balanceAfter e = m_balance m' \<and>
    m_balance m' = m_balance m + e_delta e \<and> ledger_row_int4 e \<and>
    \<not> taken e_id e (ledger d) \<and> \<not> taken (\<lambda>e. (e_licenseId e, e_eventId e)) e (ledger d) \<and>
    d' = d\<lparr>meters := update_where (\<lambda>x. m_id x = m_id m) (\<lambda>_. m') (meters d),
           ledger := ledger d @ [e]\<rparr>"

definition opened :: "license_meter \<Rightarrow> usage_ledger_entry \<Rightarrow> db \<Rightarrow> db \<Rightarrow> bool" where
  "opened m e d d' \<longleftrightarrow>
    int4 (m_balance m) \<and> meter_row_ok m \<and> \<not> taken m_id m (meters d) \<and>
    \<not> taken (\<lambda>m. (m_licenseId m, m_name m)) m (meters d) \<and> license_exists (m_licenseId m) d \<and>
    e_meterId e = m_id m \<and> e_licenseId e = m_licenseId m \<and> e_balanceBefore e = 0 \<and>
    e_balanceAfter e = m_balance m \<and> e_delta e = m_balance m \<and> ledger_row_int4 e \<and>
    \<not> taken e_id e (ledger d) \<and> \<not> taken (\<lambda>e. (e_licenseId e, e_eventId e)) e (ledger d) \<and>
    d' = d\<lparr>meters := meters d @ [m], ledger := ledger d @ [e]\<rparr>"

lemma posted_meters_wf:
  assumes "meters_wf d" "posted m m' e d d'"
  shows "meters_wf d'"
proof -
  have "unique_on m_id (meters d')" "unique_on (\<lambda>m. (m_licenseId m, m_name m)) (meters d')"
    using assms unique_on_replace[of m_id "meters d" m m_id m']
      unique_on_replace[of m_id "meters d" m "\<lambda>m. (m_licenseId m, m_name m)" m']
    by (simp_all add: posted_def meters_wf_def)
  then show ?thesis
    using assms by (auto simp: posted_def meters_wf_def set_update_where license_exists_def)
qed

lemma posted_ids:
  assumes "posted m m' e d d'"
  shows "map m_id (meters d') = map m_id (meters d)"
  using assms by (auto simp: posted_def update_where_def)

lemma posted_ledger_wf:
  assumes "meters_wf d" "ledger_wf d" "posted m m' e d d'"
  shows "ledger_wf d'"
proof -
  have "e_meterId x \<in> set (map m_id (meters d'))" if "x \<in> set (ledger d')" for x
    using assms that posted_ids[OF assms(3)] by (auto simp: posted_def ledger_wf_def)
  then show ?thesis
    using assms by (simp add: posted_def ledger_wf_def meters_wf_def license_exists_def)
qed

lemma posted_books:
  assumes "meters_wf d" "books_ok d" "posted m m' e d d'"
  shows "books_ok d'"
  unfolding books_ok_def
proof
  fix x assume x: "x \<in> set (meters d')"
  have u: "unique_on m_id (meters d)" using assms(1) by (simp add: meters_wf_def)
  from x assms(3) u consider "x = m'" | "x \<in> set (meters d)" "m_id x \<noteq> m_id m"
    by (auto simp: posted_def set_update_where)
  then show "ledger_chain 0 (meter_entries x d') (m_balance x) \<and>
      (\<forall>e \<in> set (meter_entries x d'). e_licenseId e = m_licenseId x)"
  proof cases
    case 1
    then have "meter_entries x d' = meter_entries m d @ [e]"
      using assms(3) by (simp add: posted_def meter_entries_def rows_Cons)
    then show ?thesis
      using 1 assms(2,3) by (auto simp: posted_def books_ok_def ledger_chain_append)
  next
    case 2
    then have "meter_entries x d' = meter_entries x d"
      using assms(3) by (simp add: posted_def meter_entries_def rows_Cons)
    then show ?thesis using 2 assms(2) by (simp add: books_ok_def)
  qed
qed

lemma posted_inv: "meter_inv d \<Longrightarrow> posted m m' e d d' \<Longrightarrow> meter_inv d'"
  by (auto simp: meter_inv_def intro: posted_meters_wf posted_ledger_wf posted_books)

lemma opened_inv:
  assumes "meter_inv d" "opened m e d d'"
  shows "meter_inv d'"
proof -
  have new: "m_id m \<notin> m_id ` set (meters d)"
    using assms(2) by (simp add: opened_def taken_def)
  have fresh: "e_meterId x \<noteq> m_id m" if "x \<in> set (ledger d)" for x
  proof -
    have "e_meterId x \<in> m_id ` set (meters d)"
      using assms(1) that by (simp add: meter_inv_def ledger_wf_def)
    with new show ?thesis by metis
  qed
  then have none: "rows (\<lambda>x. e_meterId x = m_id m) (ledger d) = []"
    by (auto simp: rows_def filter_empty_conv)
  have other: "m_id x \<noteq> m_id m" if "x \<in> set (meters d)" for x
    using new that by (metis imageI)
  have "books_ok d'"
    unfolding books_ok_def
  proof
    fix x assume "x \<in> set (meters d')"
    then consider "x = m" | "x \<in> set (meters d)" using assms(2) by (auto simp: opened_def)
    then show "ledger_chain 0 (meter_entries x d') (m_balance x) \<and>
        (\<forall>e \<in> set (meter_entries x d'). e_licenseId e = m_licenseId x)"
    proof cases
      case 1
      then show ?thesis
        using assms(2) none by (simp add: opened_def meter_entries_def rows_Cons)
    next
      case 2
      then have "meter_entries x d' = meter_entries x d"
        using assms(2) other[of x] by (simp add: opened_def meter_entries_def rows_Cons)
      then show ?thesis using 2 assms(1) by (simp add: meter_inv_def books_ok_def)
    qed
  qed
  moreover have "meters_wf d'"
    using assms by (simp add: meter_inv_def meters_wf_def opened_def license_exists_def)
  moreover have "ledger_wf d'"
    using assms by (simp add: meter_inv_def ledger_wf_def opened_def license_exists_def)
  ultimately show ?thesis by (simp add: meter_inv_def)
qed

section \<open>The ledger joined with its meters\<close>

definition entry_meter :: "db \<Rightarrow> usage_ledger_entry \<Rightarrow> license_meter" where
  "entry_meter d e = hd (rows (\<lambda>m. m_id m = e_meterId e) (meters d))"

lemma entry_meter_rows:
  assumes "meters_wf d" "ledger_wf d" "e \<in> set (ledger d)"
  shows "rows (\<lambda>m. m_id m = e_meterId e) (meters d) = [entry_meter d e]"
    and "entry_meter d e \<in> set (meters d)" and "m_id (entry_meter d e) = e_meterId e"
proof -
  have u: "unique_on m_id (meters d)" using assms(1) by (simp add: meters_wf_def)
  obtain m where m: "m \<in> set (meters d)" "m_id m = e_meterId e"
    using assms(2,3) by (fastforce simp: ledger_wf_def)
  have "rows (\<lambda>m. m_id m = e_meterId e) (meters d) = [m]"
    by (rule rows_single[OF u m(1)]) (use m u in \<open>auto dest: unique_onD\<close>)
  then show "rows (\<lambda>m. m_id m = e_meterId e) (meters d) = [entry_meter d e]"
    "entry_meter d e \<in> set (meters d)" "m_id (entry_meter d e) = e_meterId e"
    using m by (simp_all add: entry_meter_def)
qed

lemma entry_meter_unique:
  assumes "meters_wf d" "m \<in> set (meters d)" "m_id m = e_meterId e"
  shows "entry_meter d e = m"
proof -
  have u: "unique_on m_id (meters d)" using assms(1) by (simp add: meters_wf_def)
  have "rows (\<lambda>m. m_id m = e_meterId e) (meters d) = [m]"
    by (rule rows_single[OF u assms(2)]) (use assms u in \<open>auto dest: unique_onD\<close>)
  then show ?thesis by (simp add: entry_meter_def)
qed

lemma ledger_meters_eq:
  assumes "meters_wf d" "ledger_wf d"
  shows "ledger_meters d = map (\<lambda>e. (e, entry_meter d e)) (ledger d)"
proof -
  have "ledger_meters d = concat (map (\<lambda>e. [(e, entry_meter d e)]) (ledger d))"
    unfolding ledger_meters_def
    by (rule arg_cong[where f = concat], rule map_cong)
      (use entry_meter_rows(1)[OF assms] in auto)
  then show ?thesis by simp
qed

definition event_entry :: "string \<Rightarrow> string \<Rightarrow> db \<Rightarrow> usage_ledger_entry option" where
  "event_entry licenseId h d =
    first_row (\<lambda>e. e_licenseId e = licenseId \<and> e_eventId e = h) (ledger d)"

lemma first_row_map:
  "first_row P (map f t) = map_option f (first_row (\<lambda>x. P (f x)) t)"
  by (induction t) auto

lemma event_lookup:
  assumes "meters_wf d" "ledger_wf d"
  shows "first_row (\<lambda>(e, m). e_licenseId e = licenseId \<and> e_eventId e = h) (ledger_meters d) =
    map_option (\<lambda>e. (e, entry_meter d e)) (event_entry licenseId h d)"
  by (simp add: ledger_meters_eq[OF assms] first_row_map event_entry_def)

lemma event_entry_Some_iff:
  assumes "ledger_wf d"
  shows "event_entry licenseId h d = Some e \<longleftrightarrow>
    e \<in> set (ledger d) \<and> e_licenseId e = licenseId \<and> e_eventId e = h"
proof -
  have "unique_on (\<lambda>e. (e_licenseId e, e_eventId e)) (ledger d)"
    using assms by (simp add: ledger_wf_def)
  from first_row_Some_iff_unique[OF this,
      of "\<lambda>e. e_licenseId e = licenseId \<and> e_eventId e = h" "(licenseId, h)" e]
  show ?thesis by (auto simp: event_entry_def)
qed

lemma event_entry_None_iff:
  "event_entry licenseId h d = None \<longleftrightarrow>
    (\<forall>e \<in> set (ledger d). \<not> (e_licenseId e = licenseId \<and> e_eventId e = h))"
  by (simp add: event_entry_def first_row_None_iff)

definition named_meter :: "string \<Rightarrow> string \<Rightarrow> db \<Rightarrow> license_meter option" where
  "named_meter licenseId name d =
    first_row (\<lambda>m. m_licenseId m = licenseId \<and> m_name m = name) (meters d)"

lemma named_meter_Some_iff:
  assumes "meters_wf d"
  shows "named_meter licenseId name d = Some m \<longleftrightarrow>
    m \<in> set (meters d) \<and> m_licenseId m = licenseId \<and> m_name m = name"
proof -
  have "unique_on (\<lambda>m. (m_licenseId m, m_name m)) (meters d)"
    using assms by (simp add: meters_wf_def)
  from first_row_Some_iff_unique[OF this,
      of "\<lambda>m. m_licenseId m = licenseId \<and> m_name m = name" "(licenseId, name)" m]
  show ?thesis by (auto simp: named_meter_def)
qed

section \<open>What each method commits\<close>

text \<open>
  An update that may rewrite only the meter \<open>m\<close>, followed by the ledger entry that accounts
  for it: the shape of \<open>consume\<close>, \<open>adjust\<close> and \<open>archiveActive\<close>.
\<close>

lemma update_meters_guarded:
  assumes "meters_wf d" "m \<in> set (meters d)"
  shows "update_meters (\<lambda>x. m_id x = m_id m \<and> g x) f d =
    (if \<not> g m then Inr ([], d)
     else if \<not> int4 (m_balance (f m)) then Inl (Db_error Numeric_out_of_range)
     else if \<not> meter_row_ok (f m) then
       Inl (Db_error (Check_violation ''license_meters_balance_nonnegative''))
     else Inr ([f m], d\<lparr>meters := update_where (\<lambda>x. m_id x = m_id m) (\<lambda>_. f m) (meters d)\<rparr>))"
proof -
  have u: "unique_on m_id (meters d)" using assms(1) by (simp add: meters_wf_def)
  have eq: "x = m" if "x \<in> set (meters d)" "m_id x = m_id m" for x
    using unique_onD[OF u that(1) assms(2) that(2)] .
  show ?thesis
  proof (cases "g m")
    case True
    show ?thesis
      using update_meters_one[where P = "\<lambda>x. m_id x = m_id m \<and> g x" and f = f, OF u assms(2)]
        True eq by simp
  next
    case False
    have "\<not> (m_id x = m_id m \<and> g x)" if "x \<in> set (meters d)" for x
      using eq[OF that] False by auto
    from update_meters_none[OF this] False show ?thesis by simp
  qed
qed

lemma post_entry:
  assumes "meters_wf d" "m \<in> set (meters d)" "m_id m' = m_id m" "m_licenseId m' = m_licenseId m"
    "m_name m' = m_name m" "int4 (m_balance m')" "meter_row_ok m'"
    "e_meterId e = m_id m" "e_licenseId e = m_licenseId m" "e_balanceBefore e = m_balance m"
    "e_balanceAfter e = m_balance m'" "m_balance m' = m_balance m + e_delta e"
    and ins: "insert_ledger e
      (d\<lparr>meters := update_where (\<lambda>x. m_id x = m_id m) (\<lambda>_. m') (meters d)\<rparr>) = Inr (r, d')"
  shows "posted m m' e d d'"
  using assms unfolding posted_def insert_ledger_Inr_iff by auto

definition posting ::
    "license_meter \<Rightarrow> (license_meter \<Rightarrow> bool) \<Rightarrow> (license_meter \<Rightarrow> license_meter)
      \<Rightarrow> (license_meter \<Rightarrow> usage_ledger_entry) \<Rightarrow> 'r
      \<Rightarrow> (license_meter \<Rightarrow> usage_ledger_entry \<Rightarrow> 'r) \<Rightarrow> 'r txn" where
  "posting m g f mk refused booked =
    bindT (update_meters (\<lambda>x. m_id x = m_id m \<and> g x) f) (\<lambda>us.
    case us of
      [] \<Rightarrow> returnT refused
    | u # _ \<Rightarrow> bindT (insert_ledger (mk u)) (\<lambda>e. returnT (booked u e)))"

definition accounts_for ::
    "license_meter \<Rightarrow> license_meter \<Rightarrow> usage_ledger_entry \<Rightarrow> bool" where
  "accounts_for m m' e \<longleftrightarrow>
    m_id m' = m_id m \<and> m_licenseId m' = m_licenseId m \<and> m_name m' = m_name m \<and>
    e_meterId e = m_id m \<and> e_licenseId e = m_licenseId m \<and> e_balanceBefore e = m_balance m \<and>
    e_balanceAfter e = m_balance m' \<and> m_balance m' = m_balance m + e_delta e"

lemma posting_cases:
  assumes wf: "meters_wf d" and m: "m \<in> set (meters d)"
    and acc: "accounts_for m (f m) (mk (f m))"
    and run: "posting m g f mk refused booked d = Inr (r, d')"
  shows "\<not> g m \<and> r = refused \<and> d' = d \<or>
    g m \<and> r = booked (f m) (mk (f m)) \<and> posted m (f m) (mk (f m)) d d'"
proof (cases "g m")
  case False
  with run show ?thesis
    by (simp add: posting_def bindT_def update_meters_guarded[OF wf m])
next
  case True
  with run have ok: "int4 (m_balance (f m))" "meter_row_ok (f m)"
    and ins: "insert_ledger (mk (f m))
      (d\<lparr>meters := update_where (\<lambda>x. m_id x = m_id m) (\<lambda>_. f m) (meters d)\<rparr>) = Inr (mk (f m), d')"
    and r: "r = booked (f m) (mk (f m))"
    by (auto simp: posting_def bindT_Inr_iff update_meters_guarded[OF wf m] insert_ledger_Inr_iff
        split: if_splits)
  have "posted m (f m) (mk (f m)) d d'"
    by (rule post_entry[OF wf m _ _ _ ok _ _ _ _ _ ins]) (use acc in \<open>simp_all add: accounts_for_def\<close>)
  with True r show ?thesis by simp
qed

lemma posting_commits:
  assumes wf: "meters_wf d" and m: "m \<in> set (meters d)" and g: "g m"
    and acc: "accounts_for m (f m) (mk (f m))"
    and bal: "0 \<le> m_balance (f m)" "int4 (m_balance (f m))" "int4 (e_delta (mk (f m)))"
    and fresh: "\<not> taken e_id (mk (f m)) (ledger d)"
      "\<not> taken (\<lambda>e. (e_licenseId e, e_eventId e)) (mk (f m)) (ledger d)"
  shows "\<exists>d'. posting m g f mk refused booked d = Inr (booked (f m) (mk (f m)), d')"
proof -
  let ?d1 = "d\<lparr>meters := update_where (\<lambda>x. m_id x = m_id m) (\<lambda>_. f m) (meters d)\<rparr>"
  have ids: "map m_id (meters ?d1) = map m_id (meters d)"
    using acc by (auto simp: update_where_def accounts_for_def)
  have "m_id m \<in> set (map m_id (meters ?d1))" unfolding ids using m by simp
  moreover have "int4 (m_balance m)" "license_exists (m_licenseId m) d"
    using wf m by (simp_all add: meters_wf_def)
  ultimately have "insert_ledger (mk (f m)) ?d1 =
      Inr (mk (f m), ?d1\<lparr>ledger := ledger d @ [mk (f m)]\<rparr>)"
    using acc bal fresh
    by (simp add: insert_ledger_def accounts_for_def ledger_row_int4_def license_exists_def)
  then show ?thesis
    using g bal by (simp add: posting_def bindT_def update_meters_guarded[OF wf m] meter_row_ok_def)
qed

abbreviation charge_row :: "int \<Rightarrow> int \<Rightarrow> license_meter \<Rightarrow> license_meter" where
  "charge_row units now m \<equiv> m\<lparr>m_balance := m_balance m - units, m_updatedAt := now\<rparr>"

abbreviation charge_entry ::
    "string \<Rightarrow> int \<Rightarrow> string \<Rightarrow> string \<Rightarrow> string \<Rightarrow> int \<Rightarrow> license_meter \<Rightarrow> usage_ledger_entry" where
  "charge_entry entryId now licenseId meterId h units u \<equiv>
    \<lparr>e_id = entryId, e_licenseId = licenseId, e_meterId = meterId, e_eventId = h,
     e_kind = Consume, e_delta = - units, e_balanceBefore = m_balance u + units,
     e_balanceAfter = m_balance u, e_reason = None, e_createdAt = now\<rparr>"

lemma consume_eq:
  assumes "meter_inv d"
  shows "consume sha256 entryId now licenseId meterName units eventId d =
    (case event_entry licenseId (sha256 eventId) d of
      Some e \<Rightarrow>
        if e_kind e \<noteq> Consume \<or> e_delta e \<noteq> - units \<or> m_name (entry_meter d e) \<noteq> meterName
        then Inr (Conflict, d)
        else Inr (Replayed ((entry_meter d e)\<lparr>m_balance := e_balanceAfter e\<rparr>) e, d)
    | None \<Rightarrow>
        (case named_meter licenseId meterName d of
          None \<Rightarrow> Inr (Not_found, d)
        | Some m \<Rightarrow>
            if m_archivedAt m \<noteq> None then Inr (Archived, d)
            else posting m (\<lambda>x. units \<le> m_balance x) (charge_row units now)
              (charge_entry entryId now licenseId (m_id m) (sha256 eventId) units)
              Exhausted Consumed d))"
proof -
  from assms have wf: "meters_wf d" "ledger_wf d" by (simp_all add: meter_inv_def)
  show ?thesis
    unfolding consume_def hashUsageEventId_def Let_def bindT_selectT event_lookup[OF wf]
      named_meter_def[symmetric] posting_def
    by (cases "event_entry licenseId (sha256 eventId) d";
        cases "named_meter licenseId meterName d") simp_all
qed

lemma consume_new:
  assumes inv: "meter_inv d" and m: "named_meter licenseId name d = Some m"
    and e: "event_entry licenseId (sha256 eventId) d = None" and open_: "m_archivedAt m = None"
    and run: "consume sha256 entryId now licenseId name units eventId d = Inr (r, d')"
  defines "en \<equiv> charge_entry entryId now licenseId (m_id m) (sha256 eventId) units
    (charge_row units now m)"
  shows "m_balance m < units \<and> r = Exhausted \<and> d' = d \<or>
    units \<le> m_balance m \<and> r = Consumed (charge_row units now m) en \<and>
    posted m (charge_row units now m) en d d'"
proof -
  have wf: "meters_wf d" using inv by (simp add: meter_inv_def)
  then have m': "m \<in> set (meters d)" "m_licenseId m = licenseId"
    using named_meter_Some_iff m by auto
  have "posting m (\<lambda>x. units \<le> m_balance x) (charge_row units now)
      (charge_entry entryId now licenseId (m_id m) (sha256 eventId) units)
      Exhausted Consumed d = Inr (r, d')"
    using run by (simp add: consume_eq[OF inv] m e open_)
  from posting_cases[OF wf m'(1) _ this] m' show ?thesis
    by (auto simp: accounts_for_def en_def)
qed

lemma posted_row: "posted m m' e d d' \<Longrightarrow> m' \<in> set (meters d')"
  by (auto simp: posted_def set_update_where)

lemma posted_entry: "posted m m' e d d' \<Longrightarrow> e \<in> set (ledger d')"
  by (auto simp: posted_def)

lemma posted_named:
  "posted m m' e d d' \<Longrightarrow> \<exists>x \<in> set (meters d'). m_id x = m_id m \<and> m_name x = m_name m"
  using posted_row[of m m' e d d'] by (auto simp: posted_def)

lemma adjust_eq:
  "adjust entryId eventUuid now licenseId meterName delta reason kind d =
    (case named_meter licenseId meterName d of
      None \<Rightarrow> Inr (Adj_not_found, d)
    | Some m \<Rightarrow>
        if m_archivedAt m \<noteq> None then Inr (Adj_archived, d)
        else posting m
          (\<lambda>x. if delta > 0 then m_balance x \<le> MAX_LICENSE_LIMIT - delta else m_balance x \<ge> - delta)
          (\<lambda>x. x\<lparr>m_balance := m_balance x + delta, m_updatedAt := now\<rparr>)
          (\<lambda>u. \<lparr>e_id = entryId, e_licenseId = licenseId, e_meterId = m_id m,
            e_eventId = operator_event eventUuid, e_kind = kind, e_delta = delta,
            e_balanceBefore = m_balance u - delta, e_balanceAfter = m_balance u,
            e_reason = Some reason, e_createdAt = now\<rparr>)
          Adj_out_of_range Adjusted d)"
  unfolding adjust_def bindT_selectT named_meter_def[symmetric] posting_def
  by (cases "named_meter licenseId meterName d") simp_all

lemma update_meters_cong:
  assumes "\<And>x. x \<in> set (meters d) \<Longrightarrow> P x \<longleftrightarrow> Q x"
  shows "update_meters P f d = update_meters Q f d"
proof -
  have "rows P (meters d) = rows Q (meters d)"
    unfolding rows_def using assms by (rule filter_cong[OF refl])
  moreover have "update_where P f (meters d) = update_where Q f (meters d)"
    unfolding update_where_def using assms by auto
  ultimately show ?thesis by (simp only: update_meters_def)
qed

lemma archiveActive_eq:
  assumes wf: "meters_wf d"
  shows "archiveActive entryId eventUuid now licenseId name reason d =
    (case named_meter licenseId name d of
      None \<Rightarrow> Inr (None, d)
    | Some m \<Rightarrow>
        if m_archivedAt m \<noteq> None then Inr (Some m, d)
        else posting m (\<lambda>x. m_archivedAt x = None)
          (\<lambda>x. x\<lparr>m_archivedAt := Some now, m_updatedAt := now\<rparr>)
          (\<lambda>u. \<lparr>e_id = entryId, e_licenseId = licenseId, e_meterId = m_id u,
            e_eventId = operator_event eventUuid, e_kind = Archive, e_delta = 0,
            e_balanceBefore = m_balance u, e_balanceAfter = m_balance u,
            e_reason = Some reason, e_createdAt = now\<rparr>)
          None (\<lambda>u e. Some u) d)"
    (is "_ = ?rhs")
proof (cases "named_meter licenseId name d")
  case None
  then have "\<not> (m_licenseId x = licenseId \<and> m_name x = name \<and> m_archivedAt x = None)"
    if "x \<in> set (meters d)" for x
    using that by (auto simp: named_meter_def first_row_None_iff)
  from update_meters_none[OF this] None show ?thesis
    by (simp add: archiveActive_def bindT_def named_meter_def)
next
  case (Some m)
  then have m: "m \<in> set (meters d)" "m_licenseId m = licenseId" "m_name m = name"
    using named_meter_Some_iff[OF wf] by auto
  have key: "m_licenseId x = licenseId \<and> m_name x = name \<longleftrightarrow> m_id x = m_id m"
    if "x \<in> set (meters d)" for x
  proof -
    have "unique_on (\<lambda>m. (m_licenseId m, m_name m)) (meters d)" "unique_on m_id (meters d)"
      using wf by (simp_all add: meters_wf_def)
    from unique_onD[OF this(1) that m(1)] unique_onD[OF this(2) that m(1)]
    show ?thesis using m by auto
  qed
  have same: "update_meters
      (\<lambda>x. m_licenseId x = licenseId \<and> m_name x = name \<and> m_archivedAt x = None) f d =
      update_meters (\<lambda>x. m_id x = m_id m \<and> m_archivedAt x = None) f d" for f
    by (rule update_meters_cong) (use key in auto)
  show ?thesis
  proof (cases "m_archivedAt m")
    case None
    then show ?thesis
      using m by (simp add: archiveActive_def posting_def bindT_def same Some
          update_meters_guarded[OF wf m(1)])
  next
    case arch: (Some t)
    have "update_meters (\<lambda>x. m_id x = m_id m \<and> m_archivedAt x = None) f d = Inr ([], d)" for f
      using update_meters_guarded[OF wf m(1), of "\<lambda>x. m_archivedAt x = None" f] arch by simp
    then show ?thesis
      using Some arch by (simp add: archiveActive_def bindT_def same named_meter_def)
  qed
qed

section \<open>Every method keeps the books\<close>

definition meter_change :: "db \<Rightarrow> db \<Rightarrow> bool" where
  "meter_change d d' \<longleftrightarrow>
    d' = d \<or> (\<exists>m m' e. posted m m' e d d' \<and>
      (m_archivedAt m \<noteq> None \<longrightarrow> m_archivedAt m' \<noteq> None)) \<or> (\<exists>m e. opened m e d d')"

lemma meter_change_refl [intro, simp]: "meter_change d d"
  by (simp add: meter_change_def)

lemma meter_change_inv: "meter_inv d \<Longrightarrow> meter_change d d' \<Longrightarrow> meter_inv d'"
  by (auto simp: meter_change_def intro: posted_inv opened_inv)

lemma posting_change:
  assumes "meters_wf d" "m \<in> set (meters d)" "accounts_for m (f m) (mk (f m))"
    "m_archivedAt m = None" "posting m g f mk refused booked d = Inr (r, d')"
  shows "meter_change d d'"
  using posting_cases[OF assms(1-3,5)] assms(4) unfolding meter_change_def by blast

lemma createMeter_change:
  assumes "createMeter meterId entryId eventUuid now licenseId name balance reason d = Inr (r, d')"
  shows "opened \<lparr>m_id = meterId, m_licenseId = licenseId, m_name = name, m_balance = balance,
      m_archivedAt = None, m_createdAt = now, m_updatedAt = now\<rparr>
    \<lparr>e_id = entryId, e_licenseId = licenseId, e_meterId = meterId,
      e_eventId = operator_event eventUuid, e_kind = Create, e_delta = balance,
      e_balanceBefore = 0, e_balanceAfter = balance, e_reason = Some reason,
      e_createdAt = now\<rparr> d d'"
  using assms
  by (auto simp: createMeter_def bindT_Inr_iff insert_meter_Inr_iff insert_ledger_Inr_iff opened_def)

lemma consume_change:
  assumes "meter_inv d" "consume sha256 entryId now licenseId name units eventId d = Inr (r, d')"
  shows "meter_change d d'"
proof -
  have wf: "meters_wf d" using assms(1) by (simp add: meter_inv_def)
  show ?thesis
    using assms(2) named_meter_Some_iff[OF wf]
    by (auto simp: consume_eq[OF assms(1)] accounts_for_def split: option.splits if_splits
        intro: posting_change[OF wf, rotated -1])
qed

lemma adjust_change:
  assumes "meter_inv d"
    "adjust entryId eventUuid now licenseId name delta reason kind d = Inr (r, d')"
  shows "meter_change d d'"
proof -
  have wf: "meters_wf d" using assms(1) by (simp add: meter_inv_def)
  show ?thesis
    using assms(2) named_meter_Some_iff[OF wf]
    by (auto simp: adjust_eq accounts_for_def split: option.splits if_split_asm
        intro: posting_change[OF wf, rotated -1])
qed

lemma archiveActive_change:
  assumes "meter_inv d" "archiveActive entryId eventUuid now licenseId name reason d = Inr (r, d')"
  shows "meter_change d d'"
proof -
  have wf: "meters_wf d" using assms(1) by (simp add: meter_inv_def)
  show ?thesis
    using assms(2) named_meter_Some_iff[OF wf]
    by (auto simp: archiveActive_eq[OF wf] accounts_for_def split: option.splits if_splits
        intro: posting_change[OF wf, rotated -1])
qed

lemma archiveMeter_change:
  assumes "meter_inv d" "archiveMeter entryId eventUuid now licenseId name reason d = Inr (r, d')"
  shows "meter_change d d'"
  using assms
  by (auto simp: archiveMeter_def split: option.splits if_splits intro: archiveActive_change)

inductive meter_step :: "(string \<Rightarrow> string) \<Rightarrow> db \<Rightarrow> db \<Rightarrow> bool" for sha256 where
  step_create:
    "createMeter meterId entryId eventUuid now licenseId name balance reason d = Inr (m, d') \<Longrightarrow>
      meter_step sha256 d d'"
| step_archive:
    "archiveMeter entryId eventUuid now licenseId name reason d = Inr (am, d') \<Longrightarrow>
      meter_step sha256 d d'"
| step_consume:
    "consume sha256 entryId now licenseId name units eventId d = Inr (c, d') \<Longrightarrow>
      meter_step sha256 d d'"
| step_adjust:
    "adjust entryId eventUuid now licenseId name delta reason kind d = Inr (a, d') \<Longrightarrow>
      meter_step sha256 d d'"

lemma meter_step_change: "meter_step sha256 d d' \<Longrightarrow> meter_inv d \<Longrightarrow> meter_change d d'"
proof (induction rule: meter_step.induct)
  case step_create
  from createMeter_change[OF this(1)] show ?case unfolding meter_change_def by blast
qed (auto intro: archiveMeter_change consume_change adjust_change)

interpretation meter_machine: transition_system meter_inv "meter_step sha256" meter_inv
  for sha256 :: "string \<Rightarrow> string"
proof
  show "meter_inv d \<Longrightarrow> meter_inv d" for d .
  show "meter_inv d \<Longrightarrow> meter_step sha256 d d' \<Longrightarrow> meter_inv d'" for d d'
    using meter_step_change meter_change_inv by blast
qed

lemma books_balance:
  assumes "meter_inv d" "m \<in> set (meters d)"
  shows "m_balance m = sum_list (map e_delta (meter_entries m d))"
    and "0 \<le> m_balance m" and "m_balance m \<le> MAX_LICENSE_LIMIT"
  using assms ledger_chain_sum[of 0 "meter_entries m d" "m_balance m"]
  by (auto simp: meter_inv_def books_ok_def meters_wf_def meter_row_ok_def int4_def
      MAX_LICENSE_LIMIT_def)

section \<open>A charge that is safe to retry\<close>

text \<open>
  The contract of an operation that a client may send again when it never saw the reply: once
  a charge has been recorded, it stays recorded whatever the system does next, and the same
  charge, sent again, is answered from the record and changes nothing.
\<close>

locale idempotent_charge = transition_system start step invar
  for start :: "'s \<Rightarrow> bool" and step :: "'s \<Rightarrow> 's \<Rightarrow> bool" and invar :: "'s \<Rightarrow> bool" +
  fixes charge :: "'fresh \<Rightarrow> 'q \<Rightarrow> 's \<Rightarrow> 'e + 'r \<times> 's"
    and receipt :: "'r \<Rightarrow> 'k option"
    and recorded :: "'q \<Rightarrow> 'k \<Rightarrow> 's \<Rightarrow> bool"
  assumes charge_step: "charge f q s = Inr (r, s') \<Longrightarrow> step s s'"
    and charge_records: "invar s \<Longrightarrow> charge f q s = Inr (r, s') \<Longrightarrow> receipt r = Some k \<Longrightarrow>
      recorded q k s'"
    and record_stable: "invar s \<Longrightarrow> recorded q k s \<Longrightarrow> step s s' \<Longrightarrow> recorded q k s'"
    and charge_replays: "invar s \<Longrightarrow> recorded q k s \<Longrightarrow>
      \<exists>r. charge f q s = Inr (r, s) \<and> receipt r = Some k"
begin

lemma record_steps:
  assumes "step\<^sup>*\<^sup>* s s'" "invar s" "recorded q k s"
  shows "recorded q k s'"
proof -
  from assms have "invar s' \<and> recorded q k s'"
    by (induction rule: rtranclp_induct) (auto intro: invar_step record_stable)
  then show ?thesis by simp
qed

lemma retry:
  assumes "invar s" "charge f q s = Inr (r, s1)" "receipt r = Some k" "step\<^sup>*\<^sup>* s1 s2"
  shows "\<exists>r'. charge f' q s2 = Inr (r', s2) \<and> receipt r' = Some k"
proof -
  have "invar s1" using assms(1,2) charge_step invar_step by blast
  moreover have "recorded q k s1" using assms(1-3) by (rule charge_records)
  ultimately have "recorded q k s2" and "invar s2"
    using assms(4) record_steps invar_steps by blast+
  then show ?thesis by (rule charge_replays[rotated])
qed

end

definition consume_request ::
    "(string \<Rightarrow> string) \<Rightarrow> string \<times> int \<Rightarrow> string \<times> string \<times> int \<times> string
      \<Rightarrow> usage_consumption_result txn" where
  "consume_request sha256 fresh q = (case fresh of (entryId, now) \<Rightarrow>
    case q of (licenseId, meterName, units, eventId) \<Rightarrow>
      consume sha256 entryId now licenseId meterName units eventId)"

fun consume_receipt :: "usage_consumption_result \<Rightarrow> (string \<times> int \<times> usage_ledger_entry) option" where
  "consume_receipt (Consumed m e) = Some (m_id m, m_balance m, e)"
| "consume_receipt (Replayed m e) = Some (m_id m, m_balance m, e)"
| "consume_receipt _ = None"

definition charged ::
    "(string \<Rightarrow> string) \<Rightarrow> string \<times> string \<times> int \<times> string
      \<Rightarrow> string \<times> int \<times> usage_ledger_entry \<Rightarrow> db \<Rightarrow> bool" where
  "charged sha256 q k d \<longleftrightarrow> (case q of (licenseId, meterName, units, eventId) \<Rightarrow>
    case k of (meterId, balance, e) \<Rightarrow>
      e \<in> set (ledger d) \<and> e_licenseId e = licenseId \<and> e_eventId e = sha256 eventId \<and>
      e_kind e = Consume \<and> e_delta e = - units \<and> e_meterId e = meterId \<and>
      e_balanceAfter e = balance \<and>
      (\<exists>m \<in> set (meters d). m_id m = meterId \<and> m_name m = meterName))"

lemma meter_change_keeps_meter:
  assumes wf: "meters_wf d" and ch: "meter_change d d'" and m: "m \<in> set (meters d)"
  shows "\<exists>m' \<in> set (meters d'). m_id m' = m_id m \<and> m_name m' = m_name m \<and>
    m_licenseId m' = m_licenseId m"
proof -
  have u: "unique_on m_id (meters d)" using wf by (simp add: meters_wf_def)
  from ch consider "d' = d" | x x' e where "posted x x' e d d'" | x e where "opened x e d d'"
    unfolding meter_change_def by blast
  then show ?thesis
  proof cases
    case 2
    then have x: "x \<in> set (meters d)" by (simp add: posted_def)
    show ?thesis
    proof (cases "m = x")
      case True
      have "x' \<in> set (meters d')" using 2 by (auto simp: posted_def set_update_where)
      with True 2 show ?thesis by (auto simp: posted_def)
    next
      case False
      then have "m_id m \<noteq> m_id x" using unique_onD[OF u m x] by blast
      then have "m \<in> set (meters d')" using 2 m by (simp add: posted_def set_update_where)
      then show ?thesis by blast
    qed
  qed (use m in \<open>auto simp: opened_def\<close>)
qed

lemma meter_change_keeps_entry:
  "meter_change d d' \<Longrightarrow> e \<in> set (ledger d) \<Longrightarrow> e \<in> set (ledger d')"
  by (auto simp: meter_change_def posted_def opened_def)

lemma charged_stable:
  assumes "meters_wf d" "charged sha256 q k d" "meter_change d d'"
  shows "charged sha256 q k d'"
  using assms(2) meter_change_keeps_entry[OF assms(3)] meter_change_keeps_meter[OF assms(1,3)]
  by (fastforce simp: charged_def split: prod.splits)

lemma charged_replay:
  assumes inv: "meter_inv d" and "charged sha256 q (meterId, balance, e) d"
  shows "\<exists>m. consume_request sha256 f q d = Inr (Replayed m e, d) \<and> m_id m = meterId \<and>
    m_balance m = balance"
proof -
  have wf: "meters_wf d" "ledger_wf d" using inv by (simp_all add: meter_inv_def)
  obtain licenseId meterName units eventId where q: "q = (licenseId, meterName, units, eventId)"
    by (cases q)
  from assms(2) obtain m where e: "event_entry licenseId (sha256 eventId) d = Some e"
      "e_kind e = Consume" "e_delta e = - units" "e_balanceAfter e = balance" "e_meterId e = meterId"
    and m: "m \<in> set (meters d)" "m_id m = meterId" "m_name m = meterName"
    by (auto simp: charged_def q event_entry_Some_iff[OF wf(2)])
  have "entry_meter d e = m" using m e by (intro entry_meter_unique[OF wf(1)]) simp_all
  with e m show ?thesis
    by (simp add: consume_request_def q consume_eq[OF inv] split: prod.splits)
qed

lemma charged_after_consume:
  assumes inv: "meter_inv d" and run: "consume_request sha256 f q d = Inr (r, d')"
    and rec: "consume_receipt r = Some k"
  shows "charged sha256 q k d'"
proof -
  have wf: "meters_wf d" "ledger_wf d" using inv by (simp_all add: meter_inv_def)
  obtain licenseId name units eventId where q: "q = (licenseId, name, units, eventId)"
    by (cases q)
  obtain entryId now where f: "f = (entryId, now)" by (cases f)
  show ?thesis
  proof (cases "event_entry licenseId (sha256 eventId) d")
    case (Some e)
    then have e: "e \<in> set (ledger d)" "e_licenseId e = licenseId" "e_eventId e = sha256 eventId"
      using event_entry_Some_iff[OF wf(2)] by auto
    show ?thesis
      using run rec Some e entry_meter_rows(2,3)[OF wf e(1)]
      by (auto simp: consume_request_def q f consume_eq[OF inv] charged_def split: if_splits)
  next
    case None
    then obtain m where m: "named_meter licenseId name d = Some m" "m_archivedAt m = None"
      using run rec
      by (auto simp: consume_request_def q f consume_eq[OF inv] split: option.splits if_splits)
    then have m': "m \<in> set (meters d)" "m_licenseId m = licenseId" "m_name m = name"
      using named_meter_Some_iff[OF wf(1)] by auto
    note new = consume_new[OF inv m(1) None m(2) run[unfolded consume_request_def q f prod.case]]
    with rec m' show ?thesis by (auto simp: charged_def q dest: posted_entry posted_named)
  qed
qed

interpretation usage_charge: idempotent_charge meter_inv "meter_step sha256" meter_inv
    "consume_request sha256" consume_receipt "charged sha256"
  for sha256 :: "string \<Rightarrow> string"
proof
  show "consume_request sha256 f q d = Inr (r, d') \<Longrightarrow> meter_step sha256 d d'" for f q d r d'
    by (auto simp: consume_request_def split: prod.splits intro: step_consume)
  show "meter_inv d \<Longrightarrow> consume_request sha256 f q d = Inr (r, d') \<Longrightarrow>
      consume_receipt r = Some k \<Longrightarrow> charged sha256 q k d'" for f q d r d' k
    by (rule charged_after_consume)
  show "meter_inv d \<Longrightarrow> charged sha256 q k d \<Longrightarrow> meter_step sha256 d d' \<Longrightarrow>
      charged sha256 q k d'" for q k d d'
    using charged_stable meter_step_change by (metis meter_inv_def)
  show "meter_inv d \<Longrightarrow> charged sha256 q k d \<Longrightarrow>
      \<exists>r. consume_request sha256 f q d = Inr (r, d) \<and> consume_receipt r = Some k" for f q k d
    using charged_replay by (cases k) fastforce
qed

section \<open>The abstract account\<close>

text \<open>
  What the licence owner was promised: per licence and meter name a balance that may be
  closed, and per licence and event digest at most one journal line. \<open>account_consume\<close> is the
  contract of consumption on this view; \<open>abs_db\<close> reads the view off the tables.
\<close>

record account =
  held :: "string \<times> string \<Rightarrow> (int \<times> bool) option"
  journal :: "string \<times> string \<Rightarrow> (meter_ledger_kind \<times> int \<times> string \<times> int) option"

datatype account_outcome =
    Charged int
  | Already_charged int
  | Key_reused
  | No_such_meter
  | Meter_closed
  | Insufficient

definition account_consume ::
    "string \<Rightarrow> string \<Rightarrow> int \<Rightarrow> string \<Rightarrow> account \<Rightarrow> account_outcome \<times> account" where
  "account_consume l n units h a =
    (case journal a (l, h) of
      Some (k, delta, n', after) \<Rightarrow>
        (if k = Consume \<and> delta = - units \<and> n' = n then Already_charged after else Key_reused, a)
    | None \<Rightarrow>
        (case held a (l, n) of
          None \<Rightarrow> (No_such_meter, a)
        | Some (balance, isClosed) \<Rightarrow>
            if isClosed then (Meter_closed, a)
            else if balance < units then (Insufficient, a)
            else (Charged (balance - units),
              a\<lparr>held := (held a)((l, n) := Some (balance - units, False)),
                journal := (journal a)((l, h) := Some (Consume, - units, n, balance - units))\<rparr>)))"

definition abs_db :: "db \<Rightarrow> account" where
  "abs_db d = \<lparr>
    held = (\<lambda>(l, n). map_option (\<lambda>m. (m_balance m, m_archivedAt m \<noteq> None)) (named_meter l n d)),
    journal = (\<lambda>(l, h). map_option
      (\<lambda>e. (e_kind e, e_delta e, m_name (entry_meter d e), e_balanceAfter e)) (event_entry l h d))\<rparr>"

fun abs_outcome :: "usage_consumption_result \<Rightarrow> account_outcome" where
  "abs_outcome (Consumed m e) = Charged (m_balance m)"
| "abs_outcome (Replayed m e) = Already_charged (m_balance m)"
| "abs_outcome Conflict = Key_reused"
| "abs_outcome Not_found = No_such_meter"
| "abs_outcome Archived = Meter_closed"
| "abs_outcome Exhausted = Insufficient"

lemma named_meter_posted:
  assumes "meter_inv d" "posted m m' e d d'"
  shows "named_meter l n d' =
    (if l = m_licenseId m \<and> n = m_name m then Some m' else named_meter l n d)"
proof -
  have wf: "meters_wf d" "meters_wf d'"
    using assms posted_meters_wf by (auto simp: meter_inv_def)
  have u: "unique_on m_id (meters d)" using wf(1) by (simp add: meters_wf_def)
  have p: "m \<in> set (meters d)" "m_id m' = m_id m" "m_licenseId m' = m_licenseId m"
    "m_name m' = m_name m" using assms(2) by (simp_all add: posted_def)
  have mem: "x \<in> set (meters d') \<longleftrightarrow> x = m' \<or> x \<in> set (meters d) \<and> m_id x \<noteq> m_id m" for x
    using assms(2) in_set_replace[OF u p(1,2)] by (simp add: posted_def)
  show ?thesis
  proof (cases "l = m_licenseId m \<and> n = m_name m")
    case True
    then show ?thesis using p mem by (simp add: named_meter_Some_iff[OF wf(2)])
  next
    case False
    have "named_meter l n d' = Some x \<longleftrightarrow> named_meter l n d = Some x" for x
    proof -
      have "m_id x \<noteq> m_id m" if "x \<in> set (meters d)" "m_licenseId x = l" "m_name x = n"
        using unique_onD[OF u that(1) p(1)] that False by auto
      then show ?thesis
        using False p mem[of x]
        by (auto simp: named_meter_Some_iff[OF wf(1)] named_meter_Some_iff[OF wf(2)])
    qed
    then show ?thesis
      using False by (metis option.exhaust)
  qed
qed

lemma entry_meter_name_posted:
  assumes "meter_inv d" "posted m m' e d d'" "x \<in> set (ledger d)"
  shows "m_name (entry_meter d' x) = m_name (entry_meter d x)"
proof -
  have wf: "meters_wf d" "ledger_wf d" "meters_wf d'"
    using assms posted_meters_wf by (auto simp: meter_inv_def)
  note em = entry_meter_rows(2,3)[OF wf(1,2) assms(3)]
  have u: "unique_on m_id (meters d)" using wf(1) by (simp add: meters_wf_def)
  show ?thesis
  proof (cases "m_id (entry_meter d x) = m_id m")
    case True
    then have "entry_meter d x = m"
      using unique_onD[OF u em(1)] assms(2) by (simp add: posted_def)
    moreover have "entry_meter d' x = m'"
      using True assms(2) em(2) posted_row[OF assms(2)]
      by (intro entry_meter_unique[OF wf(3)]) (simp_all add: posted_def)
    ultimately show ?thesis using assms(2) by (simp add: posted_def)
  next
    case False
    then have "entry_meter d x \<in> set (meters d')"
      using em(1) assms(2) by (simp add: posted_def set_update_where)
    then have "entry_meter d' x = entry_meter d x"
      using em(2) by (intro entry_meter_unique[OF wf(3)])
    then show ?thesis by simp
  qed
qed

lemma event_entry_posted:
  assumes "posted m m' e d d'"
  shows "event_entry l h d' =
    (if l = e_licenseId e \<and> h = e_eventId e then Some e else event_entry l h d)"
proof -
  have "ledger d' = ledger d @ [e]" using assms by (simp add: posted_def)
  moreover have "event_entry (e_licenseId e) (e_eventId e) d = None"
  proof -
    have nt: "\<not> taken (\<lambda>e. (e_licenseId e, e_eventId e)) e (ledger d)"
      using assms by (simp add: posted_def)
    show ?thesis using not_takenD[OF nt] by (auto simp: event_entry_None_iff)
  qed
  ultimately show ?thesis
    by (auto simp: event_entry_def first_row_append split: option.splits)
qed

lemma abs_db_posted:
  assumes inv: "meter_inv d" and p: "posted m m' e d d'"
  shows "abs_db d' = (abs_db d)
    \<lparr>held := (held (abs_db d))
        ((m_licenseId m, m_name m) := Some (m_balance m', m_archivedAt m' \<noteq> None)),
     journal := (journal (abs_db d))
        ((e_licenseId e, e_eventId e) := Some (e_kind e, e_delta e, m_name m, e_balanceAfter e))\<rparr>"
proof -
  have wf': "meters_wf d'" using inv p posted_meters_wf by (auto simp: meter_inv_def)
  have lwf: "ledger_wf d" using inv by (simp add: meter_inv_def)
  have "entry_meter d' e = m'"
    using p posted_row[OF p] by (intro entry_meter_unique[OF wf']) (simp_all add: posted_def)
  then have new: "m_name (entry_meter d' e) = m_name m" using p by (simp add: posted_def)
  have old: "m_name (entry_meter d' x) = m_name (entry_meter d x)"
    if "event_entry l h d = Some x" for l h x
    using entry_meter_name_posted[OF inv p] that event_entry_Some_iff[OF lwf] by blast
  have "journal (abs_db d') = (journal (abs_db d))
        ((e_licenseId e, e_eventId e) := Some (e_kind e, e_delta e, m_name m, e_balanceAfter e))"
    using new old
    by (auto simp: abs_db_def fun_eq_iff event_entry_posted[OF p] split: option.splits)
      (auto simp: option.map_sel map_option_case split: option.splits)
  moreover have "held (abs_db d') = (held (abs_db d))
        ((m_licenseId m, m_name m) := Some (m_balance m', m_archivedAt m' \<noteq> None))"
    by (auto simp: abs_db_def fun_eq_iff named_meter_posted[OF inv p])
  ultimately show ?thesis by simp
qed

lemma consume_simulates:
  assumes inv: "meter_inv d"
    and run: "consume sha256 entryId now licenseId name units eventId d = Inr (r, d')"
  shows "account_consume licenseId name units (sha256 eventId) (abs_db d) =
    (abs_outcome r, abs_db d')"
proof -
  have wf: "meters_wf d" using inv by (simp add: meter_inv_def)
  show ?thesis
  proof (cases "event_entry licenseId (sha256 eventId) d")
    case (Some e)
    then show ?thesis
      using run by (auto simp: consume_eq[OF inv] account_consume_def abs_db_def split: if_splits)
  next
    case E: None
    show ?thesis
    proof (cases "named_meter licenseId name d")
      case None
      then show ?thesis
        using run E by (auto simp: consume_eq[OF inv] account_consume_def abs_db_def)
    next
      case N: (Some m)
      then have m: "m_licenseId m = licenseId" "m_name m = name"
        using named_meter_Some_iff[OF wf] by auto
      show ?thesis
      proof (cases "m_archivedAt m")
        case None
        from consume_new[OF inv N E None run] E N None m show ?thesis
          by (auto simp: account_consume_def abs_db_posted[OF inv]) (auto simp: abs_db_def)
      next
        case (Some t)
        then show ?thesis
          using run E N by (auto simp: consume_eq[OF inv] account_consume_def abs_db_def)
      qed
    qed
  qed
qed

lemma consume_commits:
  assumes inv: "meter_inv d" and units: "0 \<le> units" "units \<le> MAX_LICENSE_LIMIT"
    and fresh: "entryId \<notin> set (map e_id (ledger d))"
  shows "\<exists>r d'. consume sha256 entryId now licenseId name units eventId d = Inr (r, d')"
proof -
  have wf: "meters_wf d" using inv by (simp add: meter_inv_def)
  show ?thesis
  proof (cases "event_entry licenseId (sha256 eventId) d")
    case (Some e)
    then show ?thesis by (simp add: consume_eq[OF inv])
  next
    case E: None
    show ?thesis
    proof (cases "\<exists>m. named_meter licenseId name d = Some m \<and> m_archivedAt m = None \<and>
        units \<le> m_balance m")
      case False
      then have "consume sha256 entryId now licenseId name units eventId d \<in>
        {Inr (Not_found, d), Inr (Archived, d), Inr (Exhausted, d)}"
        using E named_meter_Some_iff[OF wf]
        by (auto simp: consume_eq[OF inv] posting_def bindT_def update_meters_guarded[OF wf]
            split: option.splits)
      then show ?thesis by blast
    next
      case True
      then obtain m where m: "named_meter licenseId name d = Some m" "m_archivedAt m = None"
        "units \<le> m_balance m" by blast
      then have m': "m \<in> set (meters d)" "m_licenseId m = licenseId"
        using named_meter_Some_iff[OF wf] by auto
      have bal: "0 \<le> m_balance m" "m_balance m \<le> MAX_LICENSE_LIMIT"
        using books_balance[OF inv m'(1)] by auto
      have "\<exists>d'. posting m (\<lambda>x. units \<le> m_balance x) (charge_row units now)
          (charge_entry entryId now licenseId (m_id m) (sha256 eventId) units)
          Exhausted Consumed d = Inr (Consumed (charge_row units now m)
            (charge_entry entryId now licenseId (m_id m) (sha256 eventId) units
              (charge_row units now m)), d')"
        by (rule posting_commits[OF wf m'(1)])
          (use m m' bal units fresh E in
            \<open>auto simp: accounts_for_def int4_def MAX_LICENSE_LIMIT_def taken_def event_entry_None_iff\<close>)
      then show ?thesis using E m by (auto simp: consume_eq[OF inv])
    qed
  qed
qed

lemma adjust_result:
  assumes inv: "meter_inv d" and m: "named_meter licenseId name d = Some m"
    and open_: "m_archivedAt m = None" and delta: "int4 delta"
    and fresh: "entryId \<notin> set (map e_id (ledger d))"
      "event_entry licenseId (operator_event eventUuid) d = None"
  shows "if 0 \<le> m_balance m + delta \<and> m_balance m + delta \<le> MAX_LICENSE_LIMIT
    then \<exists>m' e d'. adjust entryId eventUuid now licenseId name delta reason kind d =
        Inr (Adjusted m' e, d') \<and> named_meter licenseId name d' = Some m' \<and>
        m_balance m' = m_balance m + delta \<and> meter_inv d'
    else adjust entryId eventUuid now licenseId name delta reason kind d = Inr (Adj_out_of_range, d)"
proof -
  have wf: "meters_wf d" using inv by (simp add: meter_inv_def)
  have m': "m \<in> set (meters d)" "m_licenseId m = licenseId" "m_name m = name"
    using named_meter_Some_iff[OF wf] m by auto
  have bal: "0 \<le> m_balance m" "m_balance m \<le> MAX_LICENSE_LIMIT"
    using books_balance[OF inv m'(1)] by auto
  define g where "g = (\<lambda>x::license_meter. if delta > 0 then m_balance x \<le> MAX_LICENSE_LIMIT - delta
    else m_balance x \<ge> - delta)"
  define f where "f = (\<lambda>x::license_meter. x\<lparr>m_balance := m_balance x + delta, m_updatedAt := now\<rparr>)"
  define mk where "mk = (\<lambda>u::license_meter. \<lparr>e_id = entryId, e_licenseId = licenseId, e_meterId = m_id m,
    e_eventId = operator_event eventUuid, e_kind = kind, e_delta = delta,
    e_balanceBefore = m_balance u - delta, e_balanceAfter = m_balance u,
    e_reason = Some reason, e_createdAt = now\<rparr>)"
  have eq: "adjust entryId eventUuid now licenseId name delta reason kind d =
      posting m g f mk Adj_out_of_range Adjusted d"
    by (simp add: adjust_eq m open_ g_def f_def mk_def)
  have g: "g m \<longleftrightarrow> 0 \<le> m_balance m + delta \<and> m_balance m + delta \<le> MAX_LICENSE_LIMIT"
    using bal by (auto simp: g_def)
  have acc: "accounts_for m (f m) (mk (f m))"
    using m' by (simp add: accounts_for_def f_def mk_def)
  show ?thesis
  proof (cases "g m")
    case True
    have "\<exists>d'. posting m g f mk Adj_out_of_range Adjusted d = Inr (Adjusted (f m) (mk (f m)), d')"
      by (rule posting_commits[where g = g and f = f and mk = mk, OF wf m'(1) True acc])
        (use True g delta fresh in
          \<open>auto simp: f_def mk_def int4_def MAX_LICENSE_LIMIT_def taken_def event_entry_None_iff\<close>)
    then obtain d' where run: "posting m g f mk Adj_out_of_range Adjusted d =
      Inr (Adjusted (f m) (mk (f m)), d')" by blast
    then have p: "posted m (f m) (mk (f m)) d d'"
      using posting_cases[where f = f and mk = mk, OF wf m'(1) acc run] by auto
    then have "named_meter licenseId name d' = Some (f m)" "meter_inv d'"
      using m' by (simp_all add: named_meter_posted[OF inv p] posted_inv[OF inv p])
    with True g run show ?thesis by (auto simp: eq f_def)
  next
    case False
    then have "posting m g f mk Adj_out_of_range Adjusted d = Inr (Adj_out_of_range, d)"
      by (simp add: posting_def bindT_def update_meters_guarded[OF wf m'(1)])
    with False g show ?thesis by (simp add: eq)
  qed
qed

lemma meter_change_licenses: "meter_change d d' \<Longrightarrow> licenses d' = licenses d"
  by (auto simp: meter_change_def posted_def opened_def)

definition active_meters :: "string \<Rightarrow> db \<Rightarrow> license_meter list" where
  "active_meters licenseId d =
    rows (\<lambda>m. m_licenseId m = licenseId \<and> m_archivedAt m = None) (meters d)"

lemma posted_keeps_open:
  assumes "meter_inv d" "posted m m' e d d'" "x \<in> set (active_meters licenseId d)"
    and "m_archivedAt m' = None \<or> x \<noteq> m"
  shows "active_meters licenseId d' \<noteq> []"
proof -
  have u: "unique_on m_id (meters d)" using assms(1) by (simp add: meter_inv_def meters_wf_def)
  have x: "x \<in> set (meters d)" "m_licenseId x = licenseId" "m_archivedAt x = None"
    using assms(3) by (simp_all add: active_meters_def)
  have m: "m \<in> set (meters d)" using assms(2) by (simp add: posted_def)
  have "x \<in> set (active_meters licenseId d') \<or> m' \<in> set (active_meters licenseId d')"
  proof (cases "x = m")
    case True
    then have "m_archivedAt m' = None" using assms(4) by simp
    then show ?thesis
      using True x assms(2) posted_row[OF assms(2)] by (simp add: active_meters_def posted_def)
  next
    case False
    then have "m_id x \<noteq> m_id m" using unique_onD[OF u x(1) m] by blast
    then show ?thesis
      using x assms(2) by (simp add: active_meters_def posted_def set_update_where)
  qed
  then show ?thesis by (metis list.set_cases list.discI)
qed

lemma opened_keeps_open:
  "opened m e d d' \<Longrightarrow> active_meters licenseId d \<noteq> [] \<Longrightarrow> active_meters licenseId d' \<noteq> []"
  by (simp add: opened_def active_meters_def)

lemma consume_posts_open:
  assumes inv: "meter_inv d"
    and run: "consume sha256 entryId now licenseId name units eventId d = Inr (r, d')"
  shows "d' = d \<or> (\<exists>m m' e. posted m m' e d d' \<and> m_archivedAt m' = None)"
proof (cases "event_entry licenseId (sha256 eventId) d = None \<and>
    (\<exists>m. named_meter licenseId name d = Some m \<and> m_archivedAt m = None)")
  case True
  then obtain m where m: "event_entry licenseId (sha256 eventId) d = None"
    "named_meter licenseId name d = Some m" "m_archivedAt m = None" by blast
  from consume_new[OF inv m(2,1,3) run] m(3) show ?thesis by fastforce
next
  case False
  then show ?thesis
    using run by (auto simp: consume_eq[OF inv] split: option.splits if_splits)
qed

lemma adjust_posts_open:
  assumes wf: "meters_wf d"
    and run: "adjust entryId eventUuid now licenseId name delta reason kind d = Inr (r, d')"
  shows "d' = d \<or> (\<exists>m m' e. posted m m' e d d' \<and> m_archivedAt m' = None)"
proof (cases "\<exists>m. named_meter licenseId name d = Some m \<and> m_archivedAt m = None")
  case True
  then obtain m where m: "named_meter licenseId name d = Some m" "m_archivedAt m = None" by blast
  then have m': "m \<in> set (meters d)" "m_licenseId m = licenseId"
    using named_meter_Some_iff[OF wf] by auto
  have run': "posting m
      (\<lambda>x. if delta > 0 then m_balance x \<le> MAX_LICENSE_LIMIT - delta else m_balance x \<ge> - delta)
      (\<lambda>x. x\<lparr>m_balance := m_balance x + delta, m_updatedAt := now\<rparr>)
      (\<lambda>u. \<lparr>e_id = entryId, e_licenseId = licenseId, e_meterId = m_id m,
        e_eventId = operator_event eventUuid, e_kind = kind, e_delta = delta,
        e_balanceBefore = m_balance u - delta, e_balanceAfter = m_balance u,
        e_reason = Some reason, e_createdAt = now\<rparr>)
      Adj_out_of_range Adjusted d = Inr (r, d')"
    using run m by (simp add: adjust_eq)
  from posting_cases[OF wf m'(1) _ run'] m m' show ?thesis
    by (fastforce simp: accounts_for_def)
next
  case False
  then show ?thesis using run by (auto simp: adjust_eq split: option.splits if_split_asm)
qed

lemma posts_open_keep_open:
  assumes "meter_inv d" "d' = d \<or> (\<exists>m m' e. posted m m' e d d' \<and> m_archivedAt m' = None)"
    "active_meters licenseId d \<noteq> []"
  shows "active_meters licenseId d' \<noteq> []"
  using assms posted_keeps_open[OF assms(1)] by (metis list.set_sel(1))

lemma archiveActive_posts:
  assumes wf: "meters_wf d"
    and run: "archiveActive entryId eventUuid now licenseId name reason d = Inr (r, d')"
  shows "d' = d \<or> (\<exists>m m' e. named_meter licenseId name d = Some m \<and> m_archivedAt m = None \<and>
    posted m m' e d d')"
proof (cases "named_meter licenseId name d")
  case None
  then show ?thesis using run by (simp add: archiveActive_eq[OF wf])
next
  case (Some m)
  then have m: "m \<in> set (meters d)" "m_licenseId m = licenseId"
    using named_meter_Some_iff[OF wf] by auto
  show ?thesis
  proof (cases "m_archivedAt m")
    case None
    have run': "posting m (\<lambda>x. m_archivedAt x = None)
          (\<lambda>x. x\<lparr>m_archivedAt := Some now, m_updatedAt := now\<rparr>)
          (\<lambda>u. \<lparr>e_id = entryId, e_licenseId = licenseId, e_meterId = m_id u,
            e_eventId = operator_event eventUuid, e_kind = Archive, e_delta = 0,
            e_balanceBefore = m_balance u, e_balanceAfter = m_balance u,
            e_reason = Some reason, e_createdAt = now\<rparr>)
          None (\<lambda>u e. Some u) d = Inr (r, d')"
      using run Some None by (simp add: archiveActive_eq[OF wf])
    from posting_cases[OF wf m(1) _ run'] m Some None show ?thesis
      by (auto simp: accounts_for_def)
  next
    case arch: (Some t)
    then show ?thesis using run Some by (simp add: archiveActive_eq[OF wf])
  qed
qed

lemma archiveMeter_open:
  assumes inv: "meter_inv d" and l: "l \<in> set (licenses d)" "l_type l = Metered"
    and uniq: "unique_on l_id (licenses d)" and ne: "active_meters (l_id l) d \<noteq> []"
    and run: "archiveMeter entryId eventUuid now licenseId name reason d = Inr (r, d')"
  shows "active_meters (l_id l) d' \<noteq> []"
proof -
  have wf: "meters_wf d" using inv by (simp add: meter_inv_def)
  have u: "unique_on m_id (meters d)" using wf by (simp add: meters_wf_def)
  have "d' = d \<or> archiveActive entryId eventUuid now licenseId name reason d = Inr (r, d')"
    using run by (auto simp: archiveMeter_def split: option.splits if_splits)
  then consider "d' = d" | m m' e where "named_meter licenseId name d = Some m"
      "m_archivedAt m = None" "posted m m' e d d'" "d' \<noteq> d"
    using archiveActive_posts[OF wf] by blast
  then show ?thesis
  proof cases
    case 1
    with ne show ?thesis by simp
  next
    case 2
    then have m: "m \<in> set (meters d)" "m_licenseId m = licenseId" "m_name m = name"
      using named_meter_Some_iff[OF wf] by auto
    show ?thesis
    proof (cases "licenseId = l_id l")
      case False
      then have "x \<noteq> m" if "x \<in> set (active_meters (l_id l) d)" for x
        using that m by (auto simp: active_meters_def)
      with posted_keeps_open[OF inv 2(3)] ne show ?thesis by (metis list.set_sel(1))
    next
      case True
      have row: "first_row (\<lambda>l. l_id l = licenseId) (licenses d) = Some l"
        using first_row_Some_iff_unique[OF uniq, of "\<lambda>l. l_id l = licenseId" licenseId l] l True
        by simp
      have uname: "unique_on (\<lambda>m. (m_licenseId m, m_name m)) (meters d)"
        using wf by (simp add: meters_wf_def)
      have mem: "m \<in> set (active_meters (l_id l) d)"
        using m 2(2) True by (simp add: active_meters_def)
      then have "first_row (\<lambda>x. m_name x = name) (active_meters (l_id l) d) \<noteq> None"
        using m by (auto simp: first_row_None_iff)
      then obtain t where t: "first_row (\<lambda>x. m_name x = name) (active_meters (l_id l) d) = Some t"
        by blast
      have "length (active_meters (l_id l) d) \<noteq> 1"
      proof
        assume one: "length (active_meters (l_id l) d) = 1"
        have "d' = d"
          using run row l True t one by (simp add: archiveMeter_def active_meters_def)
        with 2(4) show False by simp
      qed
      moreover have dist: "distinct (active_meters (l_id l) d)"
        using u by (simp add: active_meters_def rows_def unique_on_def distinct_map)
      ultimately obtain x where "x \<in> set (active_meters (l_id l) d)" "x \<noteq> m"
        using distinct_other[OF dist mem] by blast
      then show ?thesis using posted_keeps_open[OF inv 2(3)] by blast
    qed
  qed
qed

lemma meter_step_open:
  assumes "meter_step sha256 d d'" "meter_inv d" "l \<in> set (licenses d)" "l_type l = Metered"
    "unique_on l_id (licenses d)" "active_meters (l_id l) d \<noteq> []"
  shows "active_meters (l_id l) d' \<noteq> []"
  using assms
proof (induction rule: meter_step.induct)
  case step_create
  from createMeter_change[OF this(1)] this(6) show ?case by (rule opened_keeps_open)
next
  case step_archive
  show ?case by (rule archiveMeter_open[OF step_archive(2-6) step_archive(1)])
next
  case step_consume
  from posts_open_keep_open[OF this(2) consume_posts_open[OF this(2,1)] this(6)] show ?case .
next
  case step_adjust
  have "meters_wf d" if "meter_inv d" for d using that by (simp add: meter_inv_def)
  from posts_open_keep_open[OF step_adjust(2) adjust_posts_open[OF this[OF step_adjust(2)] step_adjust(1)]
      step_adjust(6)]
  show ?case .
qed

lemma listMeters_spec:
  "sorted (map m_name (listMeters licenseId includeArchived d))"
  "set (listMeters licenseId includeArchived d) =
    {m \<in> set (meters d). m_licenseId m = licenseId \<and> (includeArchived \<or> m_archivedAt m = None)}"
  by (simp_all add: listMeters_def)

lemma listLedger_spec:
  assumes "meter_inv d"
  shows "set (listLedger licenseId None d) = {e \<in> set (ledger d). e_licenseId e = licenseId}"
    and "sorted (map (\<lambda>e. - e_createdAt e) (listLedger licenseId None d))"
  using assms by (force simp: listLedger_def meter_inv_def ledger_meters_eq image_iff)+

section \<open>A concrete instance\<close>

definition sample_meter :: license_meter where
  "sample_meter = \<lparr>m_id = ''M'', m_licenseId = ''L'', m_name = ''api'', m_balance = 10,
    m_archivedAt = None, m_createdAt = 7, m_updatedAt = 7\<rparr>"

definition sample_entry :: usage_ledger_entry where
  "sample_entry = \<lparr>e_id = ''E'', e_licenseId = ''L'', e_meterId = ''M'', e_eventId = ''operator:U'',
    e_kind = Create, e_delta = 10, e_balanceBefore = 0, e_balanceAfter = 10,
    e_reason = Some ''start'', e_createdAt = 7\<rparr>"

definition sample_meter_db :: db where
  "sample_meter_db = (sample_db Metered)\<lparr>meters := [sample_meter], ledger := [sample_entry]\<rparr>"

lemmas sample_meter_defs = sample_meter_def sample_entry_def sample_meter_db_def sample_defs

lemma sample_meter_db_created:
  "createMeter ''M'' ''E'' ''U'' 7 ''L'' ''api'' 10 ''start'' (sample_db Metered) =
    Inr (sample_meter, sample_meter_db)"
  by (simp add: createMeter_def insert_meter_def insert_ledger_def sample_meter_defs bindT_def
      taken_def license_exists_def int4_def meter_row_ok_def ledger_row_int4_def operator_event_def)

lemma sample_meter_db_inv: "meter_inv sample_meter_db"
  by (simp add: meter_inv_def meters_wf_def ledger_wf_def books_ok_def meter_entries_def rows_def
      sample_meter_defs taken_def license_exists_def int4_def meter_row_ok_def ledger_row_int4_def)

section \<open>Properties\<close>

text \<open>
  C2: a committed consumption is charged exactly once. Whatever sequence of meter operations
  follows it (other consumptions, top-ups, even archiving the meter), sending the same request
  again is answered with the original ledger entry and the balance after it, under any new
  identifier and clock, and leaves the database as it is.
\<close>

theorem consume_exactly_once:
  assumes "meter_inv d"
    and "consume sha256 entryId now licenseId name units eventId d = Inr (Consumed m e, d1)"
    and "(meter_step sha256)\<^sup>*\<^sup>* d1 d2"
  shows "\<exists>m2. consume sha256 entryId' now' licenseId name units eventId d2 = Inr (Replayed m2 e, d2) \<and>
    m_id m2 = m_id m \<and> m_balance m2 = m_balance m"
proof -
  let ?q = "(licenseId, name, units, eventId)"
  have run: "consume_request sha256 (entryId, now) ?q d = Inr (Consumed m e, d1)"
    using assms(2) by (simp add: consume_request_def)
  then have "charged sha256 ?q (m_id m, m_balance m, e) d1" and "meter_inv d1"
    using assms(1) usage_charge.charge_records usage_charge.charge_step meter_machine.invar_step
    by fastforce+
  with assms(3) have "charged sha256 ?q (m_id m, m_balance m, e) d2" and "meter_inv d2"
    using usage_charge.record_steps meter_machine.invar_steps by blast+
  from charged_replay[OF this(2,1), of "(entryId', now')"] show ?thesis
    by (simp add: consume_request_def)
qed

theorem consume_exactly_once_witness:
  "\<exists>m2 e. consume id ''F'' 9 ''L'' ''api'' 4 ''ev'' sample_meter_db =
      Inr (Consumed (sample_meter\<lparr>m_balance := 6, m_updatedAt := 9\<rparr>) e,
        sample_meter_db\<lparr>meters := [sample_meter\<lparr>m_balance := 6, m_updatedAt := 9\<rparr>],
          ledger := [sample_entry, e]\<rparr>) \<and>
    consume id ''G'' 11 ''L'' ''api'' 4 ''ev''
      (sample_meter_db\<lparr>meters := [sample_meter\<lparr>m_balance := 6, m_updatedAt := 9\<rparr>],
        ledger := [sample_entry, e]\<rparr>) =
      Inr (Replayed m2 e, sample_meter_db\<lparr>meters := [sample_meter\<lparr>m_balance := 6, m_updatedAt := 9\<rparr>],
        ledger := [sample_entry, e]\<rparr>) \<and> m_balance m2 = 6"
proof -
  define e where "e = charge_entry ''F'' 9 ''L'' ''M'' ''ev'' 4 (charge_row 4 9 sample_meter)"
  have run: "consume id ''F'' 9 ''L'' ''api'' 4 ''ev'' sample_meter_db =
      Inr (Consumed (sample_meter\<lparr>m_balance := 6, m_updatedAt := 9\<rparr>) e,
        sample_meter_db\<lparr>meters := [sample_meter\<lparr>m_balance := 6, m_updatedAt := 9\<rparr>],
          ledger := [sample_entry, e]\<rparr>)"
    by (simp add: consume_def Let_def hashUsageEventId_def ledger_meters_def bindT_def
        update_meters_def insert_ledger_def sample_meter_defs e_def taken_def license_exists_def
        int4_def meter_row_ok_def ledger_row_int4_def rows_def update_where_def)
  from consume_exactly_once[OF sample_meter_db_inv run rtranclp.rtrancl_refl, of "''G''" 11] run
  show ?thesis by (auto simp: sample_meter_defs)
qed

text \<open>
  C3: consumption implements the abstract account. On every database that satisfies the
  invariant, for every number of units the API accepts and a fresh entry identifier, the
  transaction commits, its outcome is the one the abstract account gives, and the abstraction
  of the database it leaves is the abstract account after the operation.
\<close>

theorem consume_refines_account:
  assumes "meter_inv d" and "0 \<le> units" and "units \<le> MAX_LICENSE_LIMIT"
    and "entryId \<notin> set (map e_id (ledger d))"
  shows "\<exists>r d'. consume sha256 entryId now licenseId name units eventId d = Inr (r, d') \<and>
    account_consume licenseId name units (sha256 eventId) (abs_db d) = (abs_outcome r, abs_db d') \<and>
    meter_inv d'"
  using consume_commits[OF assms] consume_simulates[OF assms(1)]
    consume_change[OF assms(1)] meter_change_inv[OF assms(1)] by metis

theorem consume_refines_account_witness:
  "\<exists>r d'. consume id ''F'' 9 ''L'' ''api'' 4 ''ev'' sample_meter_db = Inr (r, d') \<and>
    account_consume ''L'' ''api'' 4 ''ev'' (abs_db sample_meter_db) = (abs_outcome r, abs_db d') \<and>
    meter_inv d'"
  using consume_refines_account[OF sample_meter_db_inv, of 4 "''F''" id 9 "''L''" "''api''" "''ev''"]
  by (simp add: MAX_LICENSE_LIMIT_def sample_meter_db_def sample_entry_def)

text \<open>
  The books balance. From a database without meters, after any sequence of committed meter
  operations, the balance of every meter is the sum of the ledger entries booked on it and
  stays between 0 and the four-byte limit, and no licence has two entries for one event.
\<close>

theorem meter_books_balance:
  assumes "meters d = []" and "ledger d = []" and "(meter_step sha256)\<^sup>*\<^sup>* d d'"
  shows "list_all (\<lambda>m. m_balance m = sum_list (map e_delta (meter_entries m d')) \<and>
      0 \<le> m_balance m \<and> m_balance m \<le> MAX_LICENSE_LIMIT) (meters d') \<and>
    distinct (map (\<lambda>e. (e_licenseId e, e_eventId e)) (ledger d'))"
proof -
  have "meter_inv d"
    using assms(1,2) by (simp add: meter_inv_def meters_wf_def ledger_wf_def books_ok_def)
  then have inv: "meter_inv d'" using assms(3) meter_machine.invar_steps by blast
  then show ?thesis
    using books_balance[OF inv] by (simp add: list_all_iff meter_inv_def ledger_wf_def unique_on_def)
qed

theorem meter_books_balance_witness:
  "sum_list (map e_delta (meter_entries sample_meter sample_meter_db)) = 10"
proof -
  have "meter_step id (sample_db Metered) sample_meter_db"
    using sample_meter_db_created by (rule step_create)
  then have "(meter_step id)\<^sup>*\<^sup>* (sample_db Metered) sample_meter_db" by blast
  from meter_books_balance[OF _ _ this] show ?thesis
    by (simp add: sample_meter_db_def sample_db_def empty_db_def) (simp add: sample_meter_def)
qed

text \<open>
  C4: an adjustment of an open meter by \<open>delta\<close> commits exactly when the new balance lies
  between 0 and the four-byte limit, and then the meter holds that balance; otherwise it
  answers \<open>out-of-range\<close> and changes nothing.
\<close>

theorem adjust_within_bounds:
  assumes "meter_inv d" and "named_meter licenseId name d = Some m" and "m_archivedAt m = None"
    and "int4 delta" and "entryId \<notin> set (map e_id (ledger d))"
    and "event_entry licenseId (operator_event eventUuid) d = None"
  shows "if 0 \<le> m_balance m + delta \<and> m_balance m + delta \<le> MAX_LICENSE_LIMIT
    then \<exists>m' e d'. adjust entryId eventUuid now licenseId name delta reason kind d =
        Inr (Adjusted m' e, d') \<and> named_meter licenseId name d' = Some m' \<and>
        m_balance m' = m_balance m + delta \<and> meter_inv d'
    else adjust entryId eventUuid now licenseId name delta reason kind d = Inr (Adj_out_of_range, d)"
  using assms by (rule adjust_result)

theorem adjust_within_bounds_witness:
  "adjust ''F'' ''V'' 9 ''L'' ''api'' (-11) ''fix'' Adjustment sample_meter_db =
    Inr (Adj_out_of_range, sample_meter_db)"
proof -
  have "named_meter ''L'' ''api'' sample_meter_db = Some sample_meter"
    by (simp add: named_meter_def sample_meter_defs)
  from adjust_within_bounds[OF sample_meter_db_inv this, of "-11" "''F''" "''V''" 9 "''fix''" Adjustment]
  show ?thesis
    by (simp add: sample_meter_def sample_meter_db_def sample_entry_def int4_def event_entry_def
        operator_event_def)
qed

text \<open>
  A metered licence that has an active meter keeps one. No sequence of meter operations,
  archiving included, archives the last active meter of a metered licence.
\<close>

theorem metered_license_keeps_meter:
  assumes "meter_inv d" and "unique_on l_id (licenses d)" and "l \<in> set (licenses d)"
    and "l_type l = Metered" and "active_meters (l_id l) d \<noteq> []"
    and "(meter_step sha256)\<^sup>*\<^sup>* d d'"
  shows "active_meters (l_id l) d' \<noteq> []"
proof -
  from assms(6) have "meter_inv d' \<and> licenses d' = licenses d \<and> active_meters (l_id l) d' \<noteq> []"
  proof (induction rule: rtranclp_induct)
    case base
    then show ?case using assms by simp
  next
    case (step d1 d2)
    then have "meter_change d1 d2" using meter_step_change by blast
    then have "meter_inv d2" "licenses d2 = licenses d"
      using step meter_change_inv meter_change_licenses by auto
    moreover have "active_meters (l_id l) d2 \<noteq> []"
      using step assms by (intro meter_step_open[OF step(2)]) simp_all
    ultimately show ?case by simp
  qed
  then show ?thesis by simp
qed

theorem metered_license_keeps_meter_witness:
  "archiveMeter ''F'' ''V'' 9 ''L'' ''api'' ''old'' sample_meter_db = Inr (Some sample_meter, sample_meter_db)
    \<and> active_meters ''L'' sample_meter_db \<noteq> []"
proof -
  have run: "archiveMeter ''F'' ''V'' 9 ''L'' ''api'' ''old'' sample_meter_db =
      Inr (Some sample_meter, sample_meter_db)"
    by (simp add: archiveMeter_def sample_meter_defs rows_def)
  have "(meter_step id)\<^sup>*\<^sup>* sample_meter_db sample_meter_db"
    using step_archive[OF run] by blast
  from metered_license_keeps_meter[OF sample_meter_db_inv _ _ _ _ this, of "sample_license Metered"] run
  show ?thesis by (simp add: sample_meter_defs active_meters_def rows_def)
qed

end
