(* ===== verification/CustomerRepository.thy ===== *)
theory CustomerRepository
  imports DeviceRepository
begin

text \<open>
  \<open>infrastructure/repositories/DrizzleCustomerRepository.ts\<close>: customers, with the duplicate
  address of the unique index turned into a domain error. The theory shows what each method
  answers on each branch and that the constraints of the schema are kept, also by the cascade
  of a delete.
\<close>

record customer_update =
  cu_email :: "string option"
  cu_name :: "string option"
  cu_metadata :: "json_object option"

definition translateDuplicateEmail :: "failure \<Rightarrow> failure" where
  "translateDuplicateEmail e =
    (if e = Db_error (Unique_violation ''customers_email_unique'')
     then ConflictError ''A customer with this email already exists'' INVALID_REQUEST else e)"

definition apply_customer_update :: "customer_update \<Rightarrow> int \<Rightarrow> customer \<Rightarrow> customer" where
  "apply_customer_update data now c =
    c\<lparr>c_email := case_option (c_email c) id (cu_email data),
      c_name := case_option (c_name c) id (cu_name data),
      c_metadata := case_option (c_metadata c) id (cu_metadata data),
      c_updatedAt := now\<rparr>"

definition customer_create ::
    "string \<Rightarrow> int \<Rightarrow> string \<Rightarrow> string \<Rightarrow> json_object \<Rightarrow> customer txn" where
  "customer_create uuid dbNow email name metadata d =
    map_sum translateDuplicateEmail id (insert_customer
      \<lparr>c_id = uuid, c_email = email, c_name = name, c_metadata = metadata,
       c_createdAt = dbNow, c_updatedAt = dbNow\<rparr> d)"

definition customer_findAll :: "db \<Rightarrow> customer list" where
  "customer_findAll d = sort_key (\<lambda>c. - c_createdAt c) (customers d)"

definition customer_findById :: "string \<Rightarrow> db \<Rightarrow> customer option" where
  "customer_findById i d = first_row (\<lambda>c. c_id c = i) (customers d)"

definition customerRepo_update :: "int \<Rightarrow> string \<Rightarrow> customer_update \<Rightarrow> customer txn" where
  "customerRepo_update now i data d =
    map_sum translateDuplicateEmail id
      (let customers' = update_where (\<lambda>c. c_id c = i) (apply_customer_update data now) (customers d) in
       if \<not> unique_on c_email customers' then
         Inl (Db_error (Unique_violation ''customers_email_unique''))
       else
         (case map (apply_customer_update data now) (rows (\<lambda>c. c_id c = i) (customers d)) of
           [] \<Rightarrow> Inl (Plain_error ''Database returned no updated customer.'')
         | customer # _ \<Rightarrow> Inr (customer, d\<lparr>customers := customers'\<rparr>)))"

definition customer_delete :: "string \<Rightarrow> unit txn" where
  "customer_delete i d = Inr ((), delete_customers (\<lambda>c. c_id c = i) d)"

section \<open>Answers\<close>

lemma customer_create_conflict:
  assumes "uuid \<notin> set (map c_id (customers d))"
  shows "customer_create uuid dbNow email name metadata d =
    (if email \<in> set (map c_email (customers d))
     then Inl (ConflictError ''A customer with this email already exists'' INVALID_REQUEST)
     else let c = \<lparr>c_id = uuid, c_email = email, c_name = name, c_metadata = metadata,
          c_createdAt = dbNow, c_updatedAt = dbNow\<rparr>
       in Inr (c, d\<lparr>customers := customers d @ [c]\<rparr>))"
  using assms
  by (simp add: customer_create_def insert_customer_def translateDuplicateEmail_def taken_def Let_def)

lemma customers_change_wf:
  assumes "db_wf d" "customers_wf (d\<lparr>customers := cs\<rparr>)" "set (map c_id (customers d)) \<subseteq> set (map c_id cs)"
  shows "db_wf (d\<lparr>customers := cs\<rparr>)"
  using assms by (auto simp: db_wf_def wf_defs license_exists_def customer_exists_def)

lemma customer_create_wf:
  assumes wf: "db_wf d" and run: "customer_create uuid dbNow email name metadata d = Inr (c, d')"
  shows "db_wf d'"
proof -
  let ?c = "\<lparr>c_id = uuid, c_email = email, c_name = name, c_metadata = metadata,
       c_createdAt = dbNow, c_updatedAt = dbNow\<rparr>"
  have d': "d' = d\<lparr>customers := customers d @ [?c]\<rparr>" "\<not> taken c_id ?c (customers d)"
    "\<not> taken c_email ?c (customers d)"
    using run by (auto simp: customer_create_def insert_customer_def split: if_splits)
  show ?thesis
    unfolding d'(1)
    by (rule customers_change_wf[OF wf]) (use wf d'(2,3) in \<open>auto simp: customers_wf_def db_wf_def\<close>)
qed

lemma customer_update_wf:
  assumes wf: "db_wf d" and run: "customerRepo_update now i data d = Inr (c, d')"
  shows "db_wf d'"
proof -
  let ?cs = "update_where (\<lambda>c. c_id c = i) (apply_customer_update data now) (customers d)"
  have d': "d' = d\<lparr>customers := ?cs\<rparr>" "unique_on c_email ?cs"
    using run by (auto simp: customerRepo_update_def Let_def split: if_splits list.splits)
  have ids: "map c_id ?cs = map c_id (customers d)"
    by (rule map_update_where) (simp add: apply_customer_update_def)
  show ?thesis
    unfolding d'(1)
  proof (rule customers_change_wf[OF wf])
    show "customers_wf (d\<lparr>customers := ?cs\<rparr>)"
      using wf d'(2) ids by (simp add: customers_wf_def db_wf_def unique_on_def)
    show "set (map c_id (customers d)) \<subseteq> set (map c_id ?cs)" by (simp only: ids) 
  qed
qed

section \<open>Cascades keep the constraints\<close>

lemma delete_licenses_wf:
  assumes wf: "db_wf d"
  shows "db_wf (delete_licenses P d)"
proof -
  let ?d' = "delete_licenses P d"
  let ?gone = "set (map l_id (rows P (licenses d)))"
  note split = wf[unfolded db_wf_def]
  have ids: "license_exists i ?d' \<longleftrightarrow> license_exists i d \<and> i \<notin> ?gone" for i
  proof -
    have u: "unique_on l_id (licenses d)" using split by (simp add: licenses_wf_def)
    have "i \<in> ?gone \<longleftrightarrow> (\<exists>l \<in> set (licenses d). l_id l = i \<and> P l)" by auto
    moreover have "license_exists i ?d' \<longleftrightarrow> (\<exists>l \<in> set (licenses d). l_id l = i \<and> \<not> P l)"
      by (auto simp: license_exists_def delete_licenses_def Let_def)
    moreover have "license_exists i d \<longleftrightarrow> (\<exists>l \<in> set (licenses d). l_id l = i)"
      by (auto simp: license_exists_def)
    ultimately show ?thesis using unique_onD[OF u] by metis
  qed
  have cust: "customers ?d' = customers d" by (simp add: delete_licenses_def Let_def)
  have "customers_wf ?d'" using split cust by (simp add: customers_wf_def)
  moreover have "licenses_wf ?d'"
    using split
    by (simp add: licenses_wf_def delete_licenses_def Let_def unique_on_delete_where customer_exists_def)
  moreover have "ipAllowlist_wf ?d'"
    using split ids
    by (simp add: ipAllowlist_wf_def) (simp add: delete_licenses_def Let_def unique_on_delete_where)
  moreover have "deviceAllowlist_wf ?d'"
    using split ids
    by (simp add: deviceAllowlist_wf_def) (simp add: delete_licenses_def Let_def unique_on_delete_where)
  moreover have "devices_wf ?d'"
    using split ids
    by (simp add: devices_wf_def) (simp add: delete_licenses_def Let_def unique_on_delete_where)
  moreover have "meters_wf ?d'"
    using split ids
    by (simp add: meters_wf_def) (simp add: delete_licenses_def Let_def unique_on_delete_where)
  moreover have "ledger_wf ?d'"
  proof -
    have "e_meterId e \<in> set (map m_id (meters ?d'))" if e: "e \<in> set (ledger ?d')" for e
    proof -
      have "e_meterId e \<in> set (map m_id (meters d))"
        using split e by (auto simp: ledger_wf_def delete_licenses_def Let_def)
      then obtain m where m: "m \<in> set (meters d)" "m_id m = e_meterId e" by auto
      with e have "m \<in> set (meters ?d')" by (auto simp: delete_licenses_def Let_def)
      with m(2) show ?thesis by (metis image_eqI list.set_map)
    qed
    then show ?thesis
      using split ids
      by (simp add: ledger_wf_def) (simp add: delete_licenses_def Let_def unique_on_delete_where)
  qed
  moreover have "stripeLinks_wf ?d'"
    using split ids
    by (simp add: stripeLinks_wf_def) (simp add: delete_licenses_def Let_def unique_on_delete_where)
  moreover have "activity_wf ?d'" "webhookEvents_wf ?d'"
    using split by (simp_all add: activity_wf_def webhookEvents_wf_def delete_licenses_def Let_def)
  ultimately show ?thesis by (simp add: db_wf_def)
qed

lemma customer_delete_wf:
  assumes wf: "db_wf d"
  shows "db_wf (delete_customers P d)"
proof -
  let ?gone = "set (map c_id (rows P (customers d)))"
  let ?d1 = "delete_licenses (\<lambda>l. l_customerId l \<in> ?gone) d"
  have d': "delete_customers P d = ?d1\<lparr>customers := delete_where P (customers d)\<rparr>"
    by (simp add: delete_customers_def)
  have wf1: "db_wf ?d1" using delete_licenses_wf[OF wf] .
  have "customers_wf (delete_customers P d)"
    using wf by (simp add: d' customers_wf_def db_wf_def unique_on_delete_where)
  moreover have "licenses_wf (delete_customers P d)"
  proof -
    have "customer_exists (l_customerId l) (delete_customers P d)" if "l \<in> set (licenses ?d1)" for l
    proof -
      have "l \<in> set (licenses d)" "l_customerId l \<notin> ?gone"
        using that by (auto simp: delete_licenses_def Let_def)
      moreover have "customer_exists (l_customerId l) d"
        using wf calculation by (simp add: db_wf_def licenses_wf_def)
      ultimately show ?thesis by (auto simp: customer_exists_def d')
    qed
    then show ?thesis using wf1 by (simp add: d' db_wf_def licenses_wf_def)
  qed
  ultimately show ?thesis
    using wf1 by (simp add: d' db_wf_def wf_defs license_exists_def)
qed

end
