(* ===== verification/LicenseRepository.thy ===== *)
theory LicenseRepository
  imports DeviceRepository MeterRepository CustomerRepository
begin

text \<open>
  \<open>infrastructure/repositories/DrizzleLicenseRepository.ts\<close>: licences, their keys and the
  guarded update. \<open>crypto.randomUUID()\<close> is a supply \<open>ids\<close> of identifiers, read at a different
  position by every call of a transaction; \<open>now\<close> is the server's clock and \<open>dbNow\<close> the
  database's; \<open>toISO\<close> is \<open>toISOString\<close>. Each method is one atomic transaction; where the source
  loads the licence once more after the commit (\<open>findById\<close> at the end of \<open>update\<close>,
  \<open>incrementSessionRevision\<close>, \<open>updateWithSessionInvalidation\<close>, \<open>updateMeterDraft\<close> and
  \<open>startTrialIfUnset\<close>) that read is \<open>reload\<close>, in the same step, so that a request that changes or
  deletes the licence between the two is not modelled.

  The theory shows that concurrent guarded updates cannot both succeed, that a key rotation
  makes the old key unknown and every open session outdated, that changing a type keeps the
  Stripe link and meter rules, and that the books and the constraints are kept.
\<close>

record license_update =
  lu_customerId :: "string option"
  lu_type :: "license_type option"
  lu_maxIps :: "int option"
  lu_maxDevices :: "int option"
  lu_maxSessions :: "int option"
  lu_trialDurationMinutes :: "int option"
  lu_trialStartedAt :: "int option option"
  lu_metadata :: "json_object option"
  lu_expiresAt :: "int option option"
  lu_typeDrafts :: "type_drafts option"
  lu_manualRevokedAt :: "int option option"
  lu_manualRevocationReason :: "string option option"

record license_update_options =
  luo_confirmStripeUnlink :: bool
  luo_expectedUpdatedAt :: "int option"
  luo_manualExpiresAtUpdate :: bool
  luo_newMeters :: "new_license_meter list"

definition no_update :: license_update where
  "no_update = \<lparr>lu_customerId = None, lu_type = None, lu_maxIps = None, lu_maxDevices = None,
    lu_maxSessions = None, lu_trialDurationMinutes = None, lu_trialStartedAt = None,
    lu_metadata = None, lu_expiresAt = None, lu_typeDrafts = None, lu_manualRevokedAt = None,
    lu_manualRevocationReason = None\<rparr>"

definition set_or :: "'a option \<Rightarrow> 'a \<Rightarrow> 'a" where
  "set_or v old = (case v of None \<Rightarrow> old | Some new \<Rightarrow> new)"

lemma set_or_simps [simp]: "set_or None x = x" "set_or (Some y) x = y"
  by (simp_all add: set_or_def)

definition apply_license_update :: "license_update \<Rightarrow> stored_license \<Rightarrow> stored_license" where
  "apply_license_update data l = l
    \<lparr>l_customerId := set_or (lu_customerId data) (l_customerId l),
     l_type := set_or (lu_type data) (l_type l),
     l_maxIps := set_or (lu_maxIps data) (l_maxIps l),
     l_maxDevices := set_or (lu_maxDevices data) (l_maxDevices l),
     l_maxSessions := set_or (lu_maxSessions data) (l_maxSessions l),
     l_trialDurationMinutes := set_or (lu_trialDurationMinutes data) (l_trialDurationMinutes l),
     l_trialStartedAt := set_or (lu_trialStartedAt data) (l_trialStartedAt l),
     l_metadata := set_or (lu_metadata data) (l_metadata l),
     l_expiresAt := set_or (lu_expiresAt data) (l_expiresAt l),
     l_typeDrafts := set_or (lu_typeDrafts data) (l_typeDrafts l),
     l_manualRevokedAt := set_or (lu_manualRevokedAt data) (l_manualRevokedAt l),
     l_manualRevocationReason := set_or (lu_manualRevocationReason data) (l_manualRevocationReason l)\<rparr>"

section \<open>Helpers\<close>

definition firstOrThrow :: "'a list \<Rightarrow> string \<Rightarrow> failure + 'a" where
  "firstOrThrow rws action =
    (case rws of
      [] \<Rightarrow> Inl (Plain_error (''Database returned no row after '' @ action @ ''.''))
    | row # _ \<Rightarrow> Inr row)"

definition hashLicenseKey :: "(string \<Rightarrow> string) \<Rightarrow> string \<Rightarrow> string" where
  "hashLicenseKey sha256 licenseKey = sha256 licenseKey"

definition licenseKeyPrefix :: "string \<Rightarrow> string" where
  "licenseKeyPrefix licenseKey = slice_prefix 16 licenseKey"

definition reveal :: "license \<Rightarrow> string \<Rightarrow> revealed_license" where
  "reveal license licenseKey = license.extend license (revealed_license.fields licenseKey)"

definition liftE :: "failure + 'a \<Rightarrow> 'a txn" where
  "liftE x = (\<lambda>d. map_sum id (\<lambda>v. (v, d)) x)"

fun insert_all :: "('r \<Rightarrow> 'r txn) \<Rightarrow> 'r list \<Rightarrow> unit txn" where
  "insert_all ins [] = returnT ()"
| "insert_all ins (r # rs) = bindT (ins r) (\<lambda>_. insert_all ins rs)"

section \<open>Reading\<close>

definition license_findById :: "string \<Rightarrow> db \<Rightarrow> license option" where
  "license_findById i d =
    map_option (toDomainLicense (billing_of i d)) (first_row (\<lambda>l. l_id l = i) (licenses d))"

definition license_findAll :: "db \<Rightarrow> license list" where
  "license_findAll d =
    map (\<lambda>l. toDomainLicense (billing_of (l_id l) d) l)
      (sort_key (\<lambda>l. - l_createdAt l) (licenses d))"

definition license_allowlists :: "db \<Rightarrow> license \<Rightarrow> license_with_allowlists" where
  "license_allowlists d license =
    with_allowlists license
      (rows (\<lambda>r. ia_licenseId r = l_id license) (ipAllowlist d))
      (rows (\<lambda>r. da_licenseId r = l_id license) (deviceAllowlist d))"

definition findByIdWithAllowlists :: "string \<Rightarrow> db \<Rightarrow> license_with_allowlists option" where
  "findByIdWithAllowlists i d = map_option (license_allowlists d) (license_findById i d)"

definition findByLicenseKeyWithAllowlists ::
    "(string \<Rightarrow> string) \<Rightarrow> string \<Rightarrow> db \<Rightarrow> license_with_allowlists option" where
  "findByLicenseKeyWithAllowlists sha256 licenseKey d =
    (case first_row (\<lambda>l. l_keyHash l = hashLicenseKey sha256 licenseKey) (licenses d) of
      None \<Rightarrow> None
    | Some row \<Rightarrow>
        Some (license_allowlists d (toDomainLicense (billing_of (l_id row) d) row)))"

section \<open>Creating\<close>

definition new_meter_row :: "string \<Rightarrow> string \<Rightarrow> int \<Rightarrow> new_license_meter \<Rightarrow> license_meter" where
  "new_meter_row meterId licenseId now m =
    \<lparr>m_id = meterId, m_licenseId = licenseId, m_name = nm_name m, m_balance = nm_balance m,
     m_archivedAt = None, m_createdAt = now, m_updatedAt = now\<rparr>"

definition new_meter_entry ::
    "string \<Rightarrow> string \<Rightarrow> string \<Rightarrow> string \<Rightarrow> int \<Rightarrow> new_license_meter \<Rightarrow> usage_ledger_entry" where
  "new_meter_entry entryId eventUuid meterId licenseId now m =
    \<lparr>e_id = entryId, e_licenseId = licenseId, e_meterId = meterId,
     e_eventId = operator_event eventUuid, e_kind = Create, e_delta = nm_balance m,
     e_balanceBefore = 0, e_balanceAfter = nm_balance m, e_reason = Some (nm_reason m),
     e_createdAt = now\<rparr>"

definition license_create ::
    "(string \<Rightarrow> string) \<Rightarrow> (nat \<Rightarrow> string) \<Rightarrow> int \<Rightarrow> int \<Rightarrow> new_license \<Rightarrow> revealed_license txn" where
  "license_create sha256 ids now dbNow data =
    bindT (insert_license
      \<lparr>l_id = ids 0, l_keyPrefix = licenseKeyPrefix (nl_licenseKey data),
       l_customerId = nl_customerId data, l_type = nl_type data, l_maxIps = nl_maxIps data,
       l_maxDevices = nl_maxDevices data, l_maxSessions = nl_maxSessions data,
       l_sessionRevision = 0, l_trialDurationMinutes = nl_trialDurationMinutes data,
       l_trialStartedAt = nl_trialStartedAt data, l_metadata = nl_metadata data,
       l_expiresAt = nl_expiresAt data, l_typeDrafts = nl_typeDrafts data,
       l_manualRevokedAt = None, l_manualRevocationReason = None, l_createdAt = dbNow,
       l_updatedAt = dbNow, l_keyHash = hashLicenseKey sha256 (nl_licenseKey data)\<rparr>) (\<lambda>stored.
    let n = length (nl_meters data);
        storedMeters = zip [0..<n] (nl_meters data) in
    bindT (insert_all insert_meter
      (map (\<lambda>(i, m). new_meter_row (ids (1 + i)) (l_id stored) now m) storedMeters)) (\<lambda>_.
    bindT (insert_all insert_ledger
      (map (\<lambda>(i, m). new_meter_entry (ids (1 + n + 2 * i)) (ids (2 + n + 2 * i)) (ids (1 + i))
        (l_id stored) now m) storedMeters)) (\<lambda>_.
    returnT (reveal (toDomainLicense None stored) (nl_licenseKey data)))))"

section \<open>Updating\<close>

fun insertNewMeters ::
    "(nat \<Rightarrow> string) \<Rightarrow> int \<Rightarrow> string \<Rightarrow> (string \<Rightarrow> license_meter option) \<Rightarrow> nat
      \<Rightarrow> new_license_meter list \<Rightarrow> unit txn" where
  "insertNewMeters ids now licenseId existingByName i [] = returnT ()"
| "insertNewMeters ids now licenseId existingByName i (m # ms) =
    (case existingByName (nm_name m) of
      Some stored \<Rightarrow>
        if m_archivedAt stored \<noteq> None \<or> m_balance stored \<noteq> nm_balance m then
          throwT (ConflictError (''Meter '' @ nm_name m @ '' already exists'') INVALID_REQUEST)
        else insertNewMeters ids now licenseId existingByName (Suc i) ms
    | None \<Rightarrow>
        bindT (insert_meter (new_meter_row (ids (3 * i)) licenseId now m)) (\<lambda>stored.
        bindT (insert_ledger
          (new_meter_entry (ids (3 * i + 1)) (ids (3 * i + 2)) (ids (3 * i)) licenseId now m)) (\<lambda>_.
        insertNewMeters ids now licenseId (existingByName(nm_name m := Some stored)) (Suc i) ms)))"

definition meters_by_name :: "string \<Rightarrow> db \<Rightarrow> string \<Rightarrow> license_meter option" where
  "meters_by_name licenseId d =
    map_of (map (\<lambda>m. (m_name m, m)) (rows (\<lambda>m. m_licenseId m = licenseId) (meters d)))"

definition link_of :: "string \<Rightarrow> db \<Rightarrow> stripe_link option" where
  "link_of licenseId d = first_row (\<lambda>s. s_licenseId s = licenseId) (stripeLinks d)"

definition delete_links :: "string \<Rightarrow> unit txn" where
  "delete_links licenseId d =
    Inr ((), d\<lparr>stripeLinks := delete_where (\<lambda>s. s_licenseId s = licenseId) (stripeLinks d)\<rparr>)"

definition managed_update ::
    "(int \<Rightarrow> string) \<Rightarrow> stripe_link \<Rightarrow> license_update \<Rightarrow> license_update" where
  "managed_update toISO link data =
    (let withoutExpiry = data\<lparr>lu_expiresAt := None\<rparr> in
     case (lu_typeDrafts data, s_paidThrough link) of
       (Some drafts, Some paidThrough) \<Rightarrow>
         withoutExpiry\<lparr>lu_typeDrafts := Some (drafts\<lparr>d_subscription := Some (Some (toISO paidThrough))\<rparr>)\<rparr>
     | _ \<Rightarrow> withoutExpiry)"

definition reconcile_link ::
    "(int \<Rightarrow> string) \<Rightarrow> string \<Rightarrow> license_update \<Rightarrow> license_update_options \<Rightarrow> license_update txn" where
  "reconcile_link toISO i data options =
    bindT (selectT (link_of i)) (\<lambda>link.
    if lu_type data \<noteq> Some Subscription then
      (case link of
        None \<Rightarrow> returnT data
      | Some _ \<Rightarrow>
          if \<not> luo_confirmStripeUnlink options then
            throwT (ConflictError
              ''Confirm unlinkStripe when changing a Stripe-linked subscription license'' INVALID_REQUEST)
          else bindT (delete_links i) (\<lambda>_. returnT data))
    else
      (case link of
        None \<Rightarrow> returnT data
      | Some lk \<Rightarrow>
          if luo_manualExpiresAtUpdate options then
            throwT (ConflictError
              ''Stripe-managed subscriptions cannot be renewed manually; sync or unlink Stripe first''
              INVALID_REQUEST)
          else returnT (managed_update toISO lk data)))"

definition write_license ::
    "int \<Rightarrow> (stored_license \<Rightarrow> bool) \<Rightarrow> license_update \<Rightarrow> stored_license list txn" where
  "write_license dbNow P data =
    update_licenses P (\<lambda>l. (apply_license_update data l)\<lparr>l_updatedAt := next_updated_at dbNow l\<rparr>)"

definition changed_concurrently :: "string \<Rightarrow> failure" where
  "changed_concurrently action =
    ConflictError (''License changed concurrently; reload it and retry '' @ action) INVALID_REQUEST"

definition reload :: "string \<Rightarrow> string \<Rightarrow> license txn" where
  "reload i message =
    bindT (selectT (license_findById i)) (\<lambda>license.
    case license of None \<Rightarrow> throwT (Plain_error message) | Some l \<Rightarrow> returnT l)"

definition guarded_update ::
    "(int \<Rightarrow> string) \<Rightarrow> (nat \<Rightarrow> string) \<Rightarrow> int \<Rightarrow> int \<Rightarrow> string \<Rightarrow> license_update
      \<Rightarrow> license_update_options \<Rightarrow> unit txn" where
  "guarded_update toISO ids now dbNow i data options =
    bindT (selectT (\<lambda>d. rows (\<lambda>l. l_id l = i) (licenses d))) (\<lambda>currentRows.
    bindT (liftE (firstOrThrow currentRows ''locking a license for update'')) (\<lambda>locked.
    if luo_expectedUpdatedAt options \<noteq> None \<and>
       luo_expectedUpdatedAt options \<noteq> Some (l_updatedAt locked)
    then throwT (changed_concurrently ''the update'')
    else
      bindT (selectT (meters_by_name i)) (\<lambda>existingByName.
      bindT (insertNewMeters ids now i existingByName 0 (luo_newMeters options)) (\<lambda>_.
      bindT (selectT (active_meters i)) (\<lambda>activeMeters.
      if lu_type data = Some Metered \<and> activeMeters = [] then
        throwT (InvalidRequest ''Metered licenses require at least one active meter'')
      else
        bindT (reconcile_link toISO i data options) (\<lambda>updateData.
        bindT (write_license dbNow (\<lambda>l. l_id l = i) updateData) (\<lambda>rws.
        bindT (liftE (firstOrThrow rws ''updating a license'')) (\<lambda>_. returnT ()))))))))"

definition licenseRepo_update ::
    "(int \<Rightarrow> string) \<Rightarrow> (nat \<Rightarrow> string) \<Rightarrow> int \<Rightarrow> int \<Rightarrow> string \<Rightarrow> license_update
      \<Rightarrow> license_update_options \<Rightarrow> license txn" where
  "licenseRepo_update toISO ids now dbNow i data options =
    bindT
      (if lu_type data \<noteq> None \<or> luo_newMeters options \<noteq> [] then
         guarded_update toISO ids now dbNow i data options
       else
         bindT (write_license dbNow
           (case luo_expectedUpdatedAt options of
             None \<Rightarrow> (\<lambda>l. l_id l = i)
           | Some t \<Rightarrow> (\<lambda>l. l_id l = i \<and> l_updatedAt l = t)) data) (\<lambda>rws.
         if rws = [] \<and> luo_expectedUpdatedAt options \<noteq> None then
           throwT (changed_concurrently ''the update'')
         else bindT (liftE (firstOrThrow rws ''updating a license'')) (\<lambda>_. returnT ())))
      (\<lambda>_. reload i ''Updated license could not be reloaded.'')"

definition license_delete :: "string \<Rightarrow> unit txn" where
  "license_delete i d = Inr ((), delete_licenses (\<lambda>l. l_id l = i) d)"

definition rotateKey ::
    "(string \<Rightarrow> string) \<Rightarrow> int \<Rightarrow> string \<Rightarrow> string \<Rightarrow> int option \<Rightarrow> revealed_license txn" where
  "rotateKey sha256 dbNow i licenseKey expectedUpdatedAt =
    bindT (update_licenses
      (case expectedUpdatedAt of
        None \<Rightarrow> (\<lambda>l. l_id l = i)
      | Some t \<Rightarrow> (\<lambda>l. l_id l = i \<and> l_updatedAt l = t))
      (\<lambda>l. l\<lparr>l_keyPrefix := licenseKeyPrefix licenseKey,
          l_sessionRevision := l_sessionRevision l + 1,
          l_updatedAt := next_updated_at dbNow l,
          l_keyHash := hashLicenseKey sha256 licenseKey\<rparr>)) (\<lambda>rws.
    if rws = [] \<and> expectedUpdatedAt \<noteq> None then throwT (changed_concurrently ''key rotation'')
    else
      bindT (liftE (firstOrThrow rws ''rotating a license key'')) (\<lambda>stored.
      bindT (selectT (billing_of i)) (\<lambda>billingRevokedAt.
      returnT (reveal (toDomainLicense billingRevokedAt stored) licenseKey))))"

definition incrementSessionRevision :: "int \<Rightarrow> string \<Rightarrow> license txn" where
  "incrementSessionRevision dbNow i =
    bindT (update_licenses (\<lambda>l. l_id l = i)
      (\<lambda>l. l\<lparr>l_sessionRevision := l_sessionRevision l + 1,
          l_updatedAt := next_updated_at dbNow l\<rparr>)) (\<lambda>rws.
    bindT (liftE (firstOrThrow rws ''invalidating license sessions'')) (\<lambda>_.
    reload i ''Invalidated license could not be reloaded.''))"

definition updateWithSessionInvalidation :: "int \<Rightarrow> string \<Rightarrow> license_update \<Rightarrow> license txn" where
  "updateWithSessionInvalidation dbNow i data =
    bindT (update_licenses (\<lambda>l. l_id l = i)
      (\<lambda>l. (apply_license_update data l)
        \<lparr>l_sessionRevision := l_sessionRevision l + 1, l_updatedAt := next_updated_at dbNow l\<rparr>)) (\<lambda>rws.
    bindT (liftE (firstOrThrow rws ''updating a license and invalidating sessions'')) (\<lambda>_.
    reload i ''Invalidated license could not be reloaded.''))"

definition updateMeterDraft :: "int \<Rightarrow> string \<Rightarrow> string list \<Rightarrow> license txn" where
  "updateMeterDraft dbNow i meterNames =
    bindT (selectT (\<lambda>d. rows (\<lambda>l. l_id l = i) (licenses d))) (\<lambda>rws.
    bindT (liftE (firstOrThrow rws ''locking meter draft'')) (\<lambda>current.
    bindT (write_license dbNow (\<lambda>l. l_id l = i)
      (no_update\<lparr>lu_typeDrafts := Some ((l_typeDrafts current)\<lparr>d_metered := Some (sort meterNames)\<rparr>)\<rparr>)) (\<lambda>_.
    reload i ''Updated license could not be reloaded.'')))"

definition license_startTrialIfUnset :: "int \<Rightarrow> string \<Rightarrow> int \<Rightarrow> license txn" where
  "license_startTrialIfUnset dbNow i startedAt =
    bindT (update_licenses
      (\<lambda>l. l_id l = i \<and> l_type l = Trial \<and> l_trialStartedAt l = None)
      (\<lambda>l. l\<lparr>l_trialStartedAt := Some startedAt, l_updatedAt := next_updated_at dbNow l\<rparr>)) (\<lambda>_.
    reload i ''Trial license could not be reloaded.'')"

section \<open>Statements on one licence\<close>

lemma liftE_Inr_iff: "liftE x d = Inr (v, d') \<longleftrightarrow> x = Inr v \<and> d' = d"
  by (cases x) (auto simp: liftE_def)

lemma firstOrThrow_Inr_iff: "firstOrThrow rws action = Inr v \<longleftrightarrow> (\<exists>rs. rws = v # rs)"
  by (auto simp: firstOrThrow_def split: list.splits)

lemma liftE_apply: "liftE x d = (case x of Inl e \<Rightarrow> Inl e | Inr v \<Rightarrow> Inr (v, d))"
  by (cases x) (auto simp: liftE_def)

text \<open>
  An update whose condition fixes the primary key rewrites at most one row.
\<close>

definition replaces ::
    "string \<Rightarrow> stored_license \<Rightarrow> stored_license \<Rightarrow> db \<Rightarrow> db \<Rightarrow> bool" where
  "replaces i l l' d d' \<longleftrightarrow>
    l \<in> set (licenses d) \<and> l_id l = i \<and>
    d' = d\<lparr>licenses := update_where (\<lambda>x. l_id x = i) (\<lambda>_. l') (licenses d)\<rparr>"

lemma update_one_license:
  assumes u: "unique_on l_id (licenses d)" and run: "update_licenses P f d = Inr (us, d')"
    and P: "\<And>l. P l \<Longrightarrow> l_id l = i"
  shows "us = [] \<and> d' = d \<and> (\<forall>l \<in> set (licenses d). \<not> P l) \<or>
    (\<exists>l. us = [f l] \<and> P l \<and> replaces i l (f l) d d')"
proof (cases "\<exists>l \<in> set (licenses d). P l")
  case True
  then obtain l where l: "l \<in> set (licenses d)" "P l" by blast
  have only: "s = l" if "s \<in> set (licenses d)" "P s" for s
    using unique_onD[OF u that(1) l(1)] P[OF that(2)] P[OF l(2)] by simp
  have "rows P (licenses d) = [l]"
    by (rule rows_single[where P = P, OF u l]) (rule only)
  moreover have "update_where P f (licenses d) = update_where (\<lambda>s. l_id s = l_id l) (\<lambda>_. f l) (licenses d)"
    by (rule update_where_single[where P = P and f = f, OF u l]) (rule only)
  ultimately show ?thesis
    using update_licenses_rows[OF run] l P[OF l(2)] by (auto simp: replaces_def)
next
  case False
  then have "rows P (licenses d) = []" "update_where P f (licenses d) = licenses d"
    by (auto simp: rows_def filter_empty_conv update_where_id)
  then show ?thesis using update_licenses_rows[OF run] False by simp
qed

lemma replaces_row:
  assumes "unique_on l_id (licenses d)" "replaces i l l' d d'" "l_id l' = i"
  shows "x \<in> set (licenses d') \<and> l_id x = i \<longleftrightarrow> x = l'"
  using assms by (auto simp: replaces_def set_update_where)

lemma replaces_other:
  assumes "replaces i l l' d d'" "l_id l' = i" "l_id x \<noteq> i"
  shows "x \<in> set (licenses d') \<longleftrightarrow> x \<in> set (licenses d)"
  using assms by (auto simp: replaces_def set_update_where)

lemma replaces_unique:
  assumes "unique_on l_id (licenses d)" "replaces i l l' d d'" "l_id l' = i"
  shows "unique_on l_id (licenses d')"
  using assms unique_on_replace[of l_id "licenses d" l l_id l'] by (auto simp: replaces_def)

lemma license_findById_iff:
  assumes "unique_on l_id (licenses d)"
  shows "license_findById i d = Some x \<longleftrightarrow>
    (\<exists>l \<in> set (licenses d). l_id l = i \<and> x = toDomainLicense (billing_of i d) l)"
  using first_row_Some_iff_unique[OF assms, of "\<lambda>l. l_id l = i" i]
  by (auto simp: license_findById_def)

lemma reload_Inr_iff: "reload i msg d = Inr (x, d') \<longleftrightarrow> license_findById i d = Some x \<and> d' = d"
  by (auto simp: reload_def split: option.splits)

lemma next_updated_at_gt: "l_updatedAt l < next_updated_at dbNow l"
  by (simp add: next_updated_at_def)

section \<open>The steps of the guarded update\<close>

definition opened_step :: "db \<Rightarrow> db \<Rightarrow> bool" where
  "opened_step a b \<longleftrightarrow> (\<exists>m e. opened m e a b)"

lemma insertNewMeters_opened:
  assumes "insertNewMeters ids now i ex n ms d = Inr (u, d')"
  shows "opened_step\<^sup>*\<^sup>* d d'"
  using assms
proof (induction ids now i ex n ms arbitrary: d rule: insertNewMeters.induct)
  case 1
  then show ?case by simp
next
  case (2 ids now i ex n m ms)
  show ?case
  proof (cases "ex (nm_name m)")
    case None
    let ?m = "new_meter_row (ids (3 * n)) i now m"
    let ?e = "new_meter_entry (ids (3 * n + 1)) (ids (3 * n + 2)) (ids (3 * n)) i now m"
    obtain d1 d2 where 1: "insert_meter ?m d = Inr (?m, d1)" "insert_ledger ?e d1 = Inr (?e, d2)"
      and rest: "insertNewMeters ids now i (ex(nm_name m := Some ?m)) (Suc n) ms d2 = Inr (u, d')"
      using "2.prems" None by (auto simp: bindT_Inr_iff insert_meter_Inr_iff insert_ledger_Inr_iff)
    have "opened ?m ?e d d2"
      using 1 by (auto simp: opened_def insert_meter_Inr_iff insert_ledger_Inr_iff new_meter_row_def
          new_meter_entry_def)
    then have "opened_step d d2" unfolding opened_step_def by blast
    moreover have "opened_step\<^sup>*\<^sup>* d2 d'"
      using "2.IH"(1)[OF None] rest by blast
    ultimately show ?thesis by (rule converse_rtranclp_into_rtranclp)
  next
    case (Some stored)
    then show ?thesis
      using "2.prems" "2.IH"(2)[OF Some] by (auto split: if_splits)
  qed
qed

lemma opened_steps:
  assumes "opened_step\<^sup>*\<^sup>* d d'"
  shows "licenses d' = licenses d \<and> stripeLinks d' = stripeLinks d \<and>
    (meter_inv d \<longrightarrow> meter_inv d') \<and> (active_meters i d \<noteq> [] \<longrightarrow> active_meters i d' \<noteq> [])"
  using assms
proof (induction rule: rtranclp_induct)
  case base
  then show ?case by simp
next
  case (step y z)
  then obtain m e where o: "opened m e y z" unfolding opened_step_def by blast
  then have "licenses z = licenses y" "stripeLinks z = stripeLinks y" by (auto simp: opened_def)
  then show ?case
    using step.IH o opened_inv[of y m e z] opened_keeps_open[of m e y z i] by auto
qed

lemma link_of_deleted [simp]:
  "link_of i (d\<lparr>stripeLinks := delete_where (\<lambda>s. s_licenseId s = i) (stripeLinks d)\<rparr>) = None"
  by (simp add: link_of_def first_row_None_iff)

lemma reconcile_link_effect:
  assumes "reconcile_link toISO i data options d = Inr (data', d')"
  shows "licenses d' = licenses d" "meters d' = meters d" "ledger d' = ledger d"
    and "lu_type data' = lu_type data"
    and "lu_type data \<noteq> Some Subscription \<Longrightarrow> link_of i d' = None \<and> data' = data"
    and "lu_type data = Some Subscription \<Longrightarrow> d' = d \<and>
      (\<forall>lk. link_of i d = Some lk \<longrightarrow> lu_expiresAt data' = None)"
  using assms
  by (auto simp: reconcile_link_def bindT_Inr_iff delete_links_def managed_update_def Let_def
      split: option.splits if_splits)

lemma guarded_update_cases:
  assumes run: "guarded_update toISO ids now dbNow i data options d = Inr (u, d')"
    and uniq: "unique_on l_id (licenses d)"
  obtains l d1 d2 data' where
    "l \<in> set (licenses d)" "l_id l = i"
    "\<forall>t. luo_expectedUpdatedAt options = Some t \<longrightarrow> l_updatedAt l = t"
    "opened_step\<^sup>*\<^sup>* d d1"
    "lu_type data = Some Metered \<longrightarrow> active_meters i d1 \<noteq> []"
    "reconcile_link toISO i data options d1 = Inr (data', d2)"
    "replaces i l ((apply_license_update data' l)\<lparr>l_updatedAt := next_updated_at dbNow l\<rparr>) d2 d'"
proof -
  from run obtain l ls d1 d2 data' rws v where
    1: "rows (\<lambda>l. l_id l = i) (licenses d) = l # ls"
    and exp: "luo_expectedUpdatedAt options = None \<or> luo_expectedUpdatedAt options = Some (l_updatedAt l)"
    and ins: "insertNewMeters ids now i (meters_by_name i d) 0 (luo_newMeters options) d = Inr ((), d1)"
    and met: "\<not> (lu_type data = Some Metered \<and> active_meters i d1 = [])"
    and rec: "reconcile_link toISO i data options d1 = Inr (data', d2)"
    and wr: "write_license dbNow (\<lambda>l. l_id l = i) data' d2 = Inr (rws, d')" "rws \<noteq> []"
    unfolding guarded_update_def
    by (auto simp: bindT_Inr_iff liftE_Inr_iff firstOrThrow_Inr_iff split: if_splits)
  have l: "l \<in> set (licenses d)" "l_id l = i"
    using arg_cong[OF 1, of set] by auto
  note steps = insertNewMeters_opened[OF ins]
  have lic: "licenses d2 = licenses d"
    using opened_steps[OF steps] reconcile_link_effect(1)[OF rec] by simp
  from update_one_license[OF _ wr(1)[unfolded write_license_def], of i] uniq lic wr(2)
  obtain l2 where rw: "replaces i l2 ((apply_license_update data' l2)
      \<lparr>l_updatedAt := next_updated_at dbNow l2\<rparr>) d2 d'"
    by auto
  have "l2 = l"
    using rw l uniq lic unique_onD[of l_id "licenses d" l2 l] by (auto simp: replaces_def)
  with that[OF l _ steps _ rec] rw exp met show ?thesis by auto
qed

section \<open>The guarded update as a whole\<close>

lemma apply_license_update_id [simp]: "l_id (apply_license_update data l) = l_id l"
  by (simp add: apply_license_update_def)

lemma apply_license_update_updatedAt [simp]:
  "l_updatedAt (apply_license_update data l) = l_updatedAt l"
  by (simp add: apply_license_update_def)

lemma unguarded_update_cases:
  assumes run: "licenseRepo_update toISO ids now dbNow i data options d = Inr (x, d')"
    and plain: "\<not> (lu_type data \<noteq> None \<or> luo_newMeters options \<noteq> [])"
    and uniq: "unique_on l_id (licenses d)"
  obtains l where "l_id l = i" "\<forall>t. luo_expectedUpdatedAt options = Some t \<longrightarrow> l_updatedAt l = t"
    "replaces i l ((apply_license_update data l)\<lparr>l_updatedAt := next_updated_at dbNow l\<rparr>) d d'"
proof -
  define P where "P = (case luo_expectedUpdatedAt options of
      None \<Rightarrow> (\<lambda>l. l_id l = i) | Some t \<Rightarrow> (\<lambda>l::stored_license. l_id l = i \<and> l_updatedAt l = t))"
  have P: "P l \<longleftrightarrow> l_id l = i \<and> (\<forall>t. luo_expectedUpdatedAt options = Some t \<longrightarrow> l_updatedAt l = t)" for l
    by (simp add: P_def split: option.splits)
  obtain rws where wr: "write_license dbNow P data d = Inr (rws, d')" "rws \<noteq> []"
    using run plain unfolding licenseRepo_update_def P_def
    by (auto simp: bindT_Inr_iff liftE_Inr_iff firstOrThrow_Inr_iff reload_Inr_iff split: if_splits)
  from update_one_license[OF uniq wr(1)[unfolded write_license_def], of i] wr(2) P that
  show ?thesis by auto
qed

definition updated ::
    "string \<Rightarrow> license_update \<Rightarrow> license_update_options \<Rightarrow> db \<Rightarrow> license \<Rightarrow> db \<Rightarrow> bool" where
  "updated i data options d x d' \<longleftrightarrow>
    (\<exists>l l'. l \<in> set (licenses d) \<and> l_id l = i \<and>
      (\<forall>t. luo_expectedUpdatedAt options = Some t \<longrightarrow> l_updatedAt l = t) \<and>
      (\<forall>y. y \<in> set (licenses d') \<and> l_id y = i \<longleftrightarrow> y = l') \<and>
      l_updatedAt l < l_updatedAt l' \<and> l_sessionRevision l' = l_sessionRevision l \<and>
      x = toDomainLicense (billing_of i d') l' \<and> l_type l' = set_or (lu_type data) (l_type l))"

lemma update_advances:
  assumes run: "licenseRepo_update toISO ids now dbNow i data options d = Inr (x, d')"
    and uniq: "unique_on l_id (licenses d)"
  shows "updated i data options d x d'"
proof -
  have load: "license_findById i d' = Some x"
    using run unfolding licenseRepo_update_def by (auto simp: bindT_Inr_iff reload_Inr_iff)
  have fin: "updated i data options d x d'" if "replaces i l ((apply_license_update data' l)\<lparr>l_updatedAt := next_updated_at dbNow l\<rparr>) d2 d'"
    "licenses d2 = licenses d" "l_id l = i" "lu_type data' = lu_type data"
    "\<forall>t. luo_expectedUpdatedAt options = Some t \<longrightarrow> l_updatedAt l = t" for l d2 data'
  proof -
    let ?l' = "(apply_license_update data' l)\<lparr>l_updatedAt := next_updated_at dbNow l\<rparr>"
    have u2: "unique_on l_id (licenses d2)" using uniq that(2) by simp
    have row: "y \<in> set (licenses d') \<and> l_id y = i \<longleftrightarrow> y = ?l'" for y
      using replaces_row[OF u2 that(1)] that(3) by simp
    have ud': "unique_on l_id (licenses d')" using replaces_unique[OF u2 that(1)] that(3) by simp
    obtain y where "y \<in> set (licenses d')" "l_id y = i" "x = toDomainLicense (billing_of i d') y"
      using load unfolding license_findById_iff[OF ud'] by blast
    then have "x = toDomainLicense (billing_of i d') ?l'" using row[of y] by simp
    moreover have "l \<in> set (licenses d)" using that(1,2) by (simp add: replaces_def)
    moreover have "l_updatedAt l < l_updatedAt ?l'" "l_sessionRevision ?l' = l_sessionRevision l"
      "l_type ?l' = set_or (lu_type data) (l_type l)"
      using next_updated_at_gt[of l dbNow] that(4) by (simp_all add: apply_license_update_def)
    ultimately show ?thesis
      unfolding updated_def using that(3,5) row by (intro exI[of _ l] exI[of _ ?l']) simp
  qed
  show ?thesis
  proof (cases "lu_type data \<noteq> None \<or> luo_newMeters options \<noteq> []")
    case True
    obtain u where "guarded_update toISO ids now dbNow i data options d = Inr (u, d')"
      using run True unfolding licenseRepo_update_def by (auto simp: bindT_Inr_iff reload_Inr_iff)
    from guarded_update_cases[OF this uniq] obtain l d1 d2 data' where
      *: "l_id l = i" "\<forall>t. luo_expectedUpdatedAt options = Some t \<longrightarrow> l_updatedAt l = t"
      "opened_step\<^sup>*\<^sup>* d d1" "reconcile_link toISO i data options d1 = Inr (data', d2)"
      "replaces i l ((apply_license_update data' l)\<lparr>l_updatedAt := next_updated_at dbNow l\<rparr>) d2 d'"
      by metis
    have "licenses d2 = licenses d" "lu_type data' = lu_type data"
      using opened_steps[OF *(3)] reconcile_link_effect(1,4)[OF *(4)] by simp_all
    with fin[OF *(5)] *(1,2) show ?thesis by simp
  next
    case False
    from unguarded_update_cases[OF run False uniq] obtain l where
      "l_id l = i" "\<forall>t. luo_expectedUpdatedAt options = Some t \<longrightarrow> l_updatedAt l = t"
      "replaces i l ((apply_license_update data l)\<lparr>l_updatedAt := next_updated_at dbNow l\<rparr>) d d'"
      by metis
    with fin show ?thesis by simp
  qed
qed

section \<open>Optimistic concurrency\<close>

lemma db_wf_keys:
  assumes "db_wf d"
  shows "unique_on l_id (licenses d)" "unique_on l_keyHash (licenses d)"
  using assms by (simp_all add: db_wf_def licenses_wf_def)

lemma update_licenses_none:
  assumes "unique_on l_keyHash (licenses d)" "\<And>l. l \<in> set (licenses d) \<Longrightarrow> \<not> P l"
  shows "update_licenses P f d = Inr ([], d)"
  using assms by (simp add: update_licenses_def Let_def rows_def update_where_id)

lemma single_row:
  assumes "db_wf d" "l \<in> set (licenses d)"
  shows "rows (\<lambda>x. l_id x = l_id l) (licenses d) = [l]"
  by (rule rows_single[OF db_wf_keys(1)[OF assms(1)] assms(2)])
    (use unique_onD[OF db_wf_keys(1)[OF assms(1)] _ assms(2)] in simp_all)

lemma no_row_at:
  assumes "db_wf d" "l \<in> set (licenses d)" "l_updatedAt l \<noteq> t" "x \<in> set (licenses d)"
  shows "\<not> (l_id x = l_id l \<and> l_updatedAt x = t)"
  using unique_onD[OF db_wf_keys(1)[OF assms(1)] assms(4,2)] assms(3) by auto

lemma stale_update_rejected:
  assumes wf: "db_wf d" and l: "l \<in> set (licenses d)" and stale: "l_updatedAt l \<noteq> t"
    and opt: "luo_expectedUpdatedAt options = Some t"
  shows "licenseRepo_update toISO ids now dbNow (l_id l) data options d =
    Inl (changed_concurrently ''the update'')"
proof (cases "lu_type data \<noteq> None \<or> luo_newMeters options \<noteq> []")
  case True
  have "guarded_update toISO ids now dbNow (l_id l) data options d =
      Inl (changed_concurrently ''the update'')"
    using single_row[OF wf l] stale opt
    by (simp add: guarded_update_def bindT_def liftE_def firstOrThrow_def)
  with True show ?thesis by (simp add: licenseRepo_update_def bindT_def)
next
  case False
  have "write_license dbNow (\<lambda>x. l_id x = l_id l \<and> l_updatedAt x = t) data d = Inr ([], d)"
    unfolding write_license_def
    by (rule update_licenses_none[OF db_wf_keys(2)[OF wf] no_row_at[OF wf l stale]])
  with False opt show ?thesis by (simp add: licenseRepo_update_def bindT_def)
qed

lemma stale_rotation_rejected:
  assumes wf: "db_wf d" and l: "l \<in> set (licenses d)" and stale: "l_updatedAt l \<noteq> t"
  shows "rotateKey sha256 dbNow (l_id l) licenseKey (Some t) d =
    Inl (changed_concurrently ''key rotation'')"
proof -
  have "update_licenses (\<lambda>x. l_id x = l_id l \<and> l_updatedAt x = t) f d = Inr ([], d)" for f
    by (rule update_licenses_none[OF db_wf_keys(2)[OF wf] no_row_at[OF wf l stale]])
  then show ?thesis by (simp add: rotateKey_def bindT_def)
qed

lemma rotateKey_cases:
  assumes run: "rotateKey sha256 dbNow i licenseKey expected d = Inr (x, d')" and wf: "db_wf d"
  obtains l where "l_id l = i" "\<forall>t. expected = Some t \<longrightarrow> l_updatedAt l = t"
    "replaces i l (l\<lparr>l_keyPrefix := licenseKeyPrefix licenseKey,
        l_sessionRevision := l_sessionRevision l + 1, l_updatedAt := next_updated_at dbNow l,
        l_keyHash := hashLicenseKey sha256 licenseKey\<rparr>) d d'"
    "db_wf d'"
proof -
  define P where "P = (case expected of None \<Rightarrow> (\<lambda>l. l_id l = i)
      | Some t \<Rightarrow> (\<lambda>l::stored_license. l_id l = i \<and> l_updatedAt l = t))"
  have P: "P l \<longleftrightarrow> l_id l = i \<and> (\<forall>t. expected = Some t \<longrightarrow> l_updatedAt l = t)" for l
    by (simp add: P_def split: option.splits)
  obtain rws where up: "update_licenses P
      (\<lambda>l. l\<lparr>l_keyPrefix := licenseKeyPrefix licenseKey,
        l_sessionRevision := l_sessionRevision l + 1, l_updatedAt := next_updated_at dbNow l,
        l_keyHash := hashLicenseKey sha256 licenseKey\<rparr>) d = Inr (rws, d')" "rws \<noteq> []"
    using run unfolding rotateKey_def P_def[symmetric]
    by (auto simp: bindT_Inr_iff liftE_Inr_iff firstOrThrow_Inr_iff split: if_splits)
  have "db_wf d'" by (rule update_licenses_wf[OF wf up(1)]) simp
  with update_one_license[OF db_wf_keys(1)[OF wf] up(1), of i] up(2) P that show ?thesis by auto
qed

section \<open>Properties\<close>

text \<open>
  C9: no lost update. When an update that names the version it read (\<open>expectedUpdatedAt\<close>)
  commits, the version of the licence moves forward, so every other update or key rotation
  that read the same version is refused with a conflict and changes nothing.
\<close>

theorem no_lost_update:
  assumes "db_wf d" and "luo_expectedUpdatedAt options = Some t" and "db_wf d'"
    and "licenseRepo_update toISO ids now dbNow i data options d = Inr (x, d')"
    and "luo_expectedUpdatedAt options2 = Some t"
  shows "t < l_updatedAt x \<and>
    licenseRepo_update toISO ids2 now2 dbNow2 i data2 options2 d' =
      Inl (changed_concurrently ''the update'') \<and>
    rotateKey sha256 dbNow2 i licenseKey (Some t) d' = Inl (changed_concurrently ''key rotation'')"
proof -
  obtain l' where l': "l' \<in> set (licenses d')" "l_id l' = i" "t < l_updatedAt l'"
    "x = toDomainLicense (billing_of i d') l'"
    using update_advances[OF assms(4) db_wf_keys(1)[OF assms(1)]] assms(2)
    unfolding updated_def by metis
  then have "l_updatedAt l' \<noteq> t" by simp
  with l' stale_update_rejected[OF assms(3) l'(1) _ assms(5)]
    stale_rotation_rejected[OF assms(3) l'(1)]
  show ?thesis by simp
qed

theorem no_lost_update_witness:
  "\<exists>x d'. licenseRepo_update (\<lambda>_. []) (\<lambda>_. []) 9 9 ''L''
      (no_update\<lparr>lu_maxIps := Some 3\<rparr>)
      \<lparr>luo_confirmStripeUnlink = False, luo_expectedUpdatedAt = Some 0,
       luo_manualExpiresAtUpdate = False, luo_newMeters = []\<rparr> (sample_db Lifetime) = Inr (x, d') \<and>
    0 < l_updatedAt x"
proof -
  let ?l = "(sample_license Lifetime)\<lparr>l_maxIps := 3, l_updatedAt := 9\<rparr>"
  let ?d = "(sample_db Lifetime)\<lparr>licenses := [?l]\<rparr>"
  let ?o = "\<lparr>luo_confirmStripeUnlink = False, luo_expectedUpdatedAt = Some 0,
       luo_manualExpiresAtUpdate = False, luo_newMeters = []\<rparr>"
  have run: "licenseRepo_update (\<lambda>_. []) (\<lambda>_. []) 9 9 ''L'' (no_update\<lparr>lu_maxIps := Some 3\<rparr>) ?o
      (sample_db Lifetime) = Inr (toDomainLicense None ?l, ?d)"
    by (simp add: licenseRepo_update_def no_update_def write_license_def update_licenses_def
        bindT_def liftE_def firstOrThrow_def reload_def license_findById_def billing_of_def
        apply_license_update_def next_updated_at_def sample_defs rows_def update_where_def
        license_row_int4_def license_row_ok_def int4_def taken_def customer_exists_def Let_def)
  have "db_wf ?d"
    by (simp add: db_wf_def wf_defs sample_defs license_row_ok_def license_row_int4_def int4_def
        customer_exists_def taken_def)
  from no_lost_update[OF sample_db_wf _ this run, of 0 ?o] run show ?thesis by simp
qed

text \<open>
  C10: rotating a key revokes the old one. After a rotation the licence is found under the new
  key and not under the old one, and its session revision has grown by one, so no session that
  was registered before matches it any more.
\<close>

theorem rotation_revokes_old_key:
  assumes "db_wf d" and "rotateKey sha256 dbNow i newKey expected d = Inr (x, d')"
    and "findByLicenseKeyWithAllowlists sha256 oldKey d = Some old" and "l_id old = i"
    and "sha256 oldKey \<noteq> sha256 newKey"
  shows "findByLicenseKeyWithAllowlists sha256 oldKey d' = None \<and>
    (\<exists>y. findByLicenseKeyWithAllowlists sha256 newKey d' = Some y \<and> l_id y = i \<and>
      l_sessionRevision y = l_sessionRevision old + 1)"
proof -
  obtain l where l: "l_id l = i" and wf': "db_wf d'"
    and rw: "replaces i l (l\<lparr>l_keyPrefix := licenseKeyPrefix newKey,
        l_sessionRevision := l_sessionRevision l + 1, l_updatedAt := next_updated_at dbNow l,
        l_keyHash := hashLicenseKey sha256 newKey\<rparr>) d d'"
    using rotateKey_cases[OF assms(2,1)] by metis
  let ?l' = "l\<lparr>l_keyPrefix := licenseKeyPrefix newKey,
        l_sessionRevision := l_sessionRevision l + 1, l_updatedAt := next_updated_at dbNow l,
        l_keyHash := hashLicenseKey sha256 newKey\<rparr>"
  note u = db_wf_keys[OF assms(1)] and u' = db_wf_keys[OF wf']
  have mem: "l \<in> set (licenses d)" using rw by (simp add: replaces_def)
  obtain row where row0: "first_row (\<lambda>l. l_keyHash l = sha256 oldKey) (licenses d) = Some row"
    "old = license_allowlists d (toDomainLicense (billing_of (l_id row) d) row)"
    using assms(3) by (auto simp: findByLicenseKeyWithAllowlists_def hashLicenseKey_def split: option.splits)
  then have row: "row \<in> set (licenses d)" "l_keyHash row = sha256 oldKey" "l_id row = i"
    "l_sessionRevision old = l_sessionRevision row"
    using first_row_SomeD[OF row0(1)] assms(4) by (simp_all add: license_allowlists_def)
  have "row = l" using unique_onD[OF u(1) row(1) mem] row(3) l by simp
  have l'_mem: "?l' \<in> set (licenses d')" using replaces_row[OF u(1) rw, of ?l'] l by simp
  then have new: "first_row (\<lambda>x. l_keyHash x = sha256 newKey) (licenses d') = Some ?l'"
    by (intro first_row_unique[OF u'(2)]) (simp_all add: hashLicenseKey_def)
  have "l_keyHash x \<noteq> sha256 oldKey" if "x \<in> set (licenses d')" for x
  proof (cases "l_id x = i")
    case True
    then have "x = ?l'" using replaces_row[OF u(1) rw, of x] l that by simp
    then show ?thesis using assms(5) by (simp add: hashLicenseKey_def)
  next
    case False
    then have "x \<in> set (licenses d)" using replaces_other[OF rw, of x] l that by simp
    then show ?thesis using unique_onD[OF u(2) _ row(1)] False row(2,3) by metis
  qed
  then have "first_row (\<lambda>x. l_keyHash x = sha256 oldKey) (licenses d') = None"
    by (simp add: first_row_None_iff)
  with new row \<open>row = l\<close> l show ?thesis
    by (simp add: findByLicenseKeyWithAllowlists_def hashLicenseKey_def license_allowlists_def)
qed

theorem rotation_revokes_old_key_witness:
  "\<exists>x d'. rotateKey id 9 ''L'' ''N'' None (sample_db Lifetime) = Inr (x, d') \<and>
    findByLicenseKeyWithAllowlists id ''H'' d' = None"
proof -
  let ?l = "(sample_license Lifetime)\<lparr>l_keyPrefix := ''N'', l_sessionRevision := 1,
    l_updatedAt := 9, l_keyHash := ''N''\<rparr>"
  let ?d = "(sample_db Lifetime)\<lparr>licenses := [?l]\<rparr>"
  have run: "rotateKey id 9 ''L'' ''N'' None (sample_db Lifetime) =
      Inr (reveal (toDomainLicense None ?l) ''N'', ?d)"
    by (simp add: rotateKey_def update_licenses_def bindT_def liftE_def firstOrThrow_def
        billing_of_def next_updated_at_def sample_defs rows_def update_where_def
        license_row_int4_def license_row_ok_def int4_def taken_def customer_exists_def Let_def
        hashLicenseKey_def licenseKeyPrefix_def slice_prefix_def)
  have "findByLicenseKeyWithAllowlists id ''H'' (sample_db Lifetime) =
      Some (with_allowlists (toDomainLicense None (sample_license Lifetime)) [] [])"
    by (simp add: findByLicenseKeyWithAllowlists_def license_allowlists_def hashLicenseKey_def
        billing_of_def sample_defs rows_def)
  from rotation_revokes_old_key[OF sample_db_wf run this] run show ?thesis
    by (simp add: sample_license_def)
qed

text \<open>
  A change of type keeps the rules between the type, the meters and the Stripe link. After a
  committed update that sets the type, the licence has that type; a metered licence has an
  active meter; a licence that is not a subscription has no Stripe link, and an existing link is
  removed only on confirmation; and the expiry of a Stripe-managed subscription is untouched.
\<close>

theorem type_change_keeps_rules:
  assumes "db_wf d" and "lu_type data = Some ty"
    and "licenseRepo_update toISO ids now dbNow i data options d = Inr (x, d')"
  shows "l_type x = ty \<and>
    (ty = Metered \<longrightarrow> active_meters i d' \<noteq> []) \<and>
    (ty \<noteq> Subscription \<longrightarrow> link_of i d' = None \<and>
      (link_of i d \<noteq> None \<longrightarrow> luo_confirmStripeUnlink options)) \<and>
    (ty = Subscription \<and> link_of i d \<noteq> None \<longrightarrow>
      \<not> luo_manualExpiresAtUpdate options \<and> link_of i d' = link_of i d \<and>
      (\<exists>old. license_findById i d = Some old \<and> l_expiresAt x = l_expiresAt old))"
proof -
  note u = db_wf_keys(1)[OF assms(1)]
  from update_advances[OF assms(3) u] obtain l' where
    l': "\<forall>y. y \<in> set (licenses d') \<and> l_id y = i \<longleftrightarrow> y = l'" "x = toDomainLicense (billing_of i d') l'"
    "l_type l' = ty"
    unfolding updated_def assms(2) by auto
  obtain un where "guarded_update toISO ids now dbNow i data options d = Inr (un, d')"
    using assms(2,3) unfolding licenseRepo_update_def by (auto simp: bindT_Inr_iff reload_Inr_iff)
  from this u obtain l d1 d2 data' where
    l: "l \<in> set (licenses d)" "l_id l = i"
    and vers: "\<forall>t. luo_expectedUpdatedAt options = Some t \<longrightarrow> l_updatedAt l = t"
    and steps: "opened_step\<^sup>*\<^sup>* d d1"
    and met: "lu_type data = Some Metered \<longrightarrow> active_meters i d1 \<noteq> []"
    and rec: "reconcile_link toISO i data options d1 = Inr (data', d2)"
    and rw: "replaces i l ((apply_license_update data' l)\<lparr>l_updatedAt := next_updated_at dbNow l\<rparr>) d2 d'"
    by (rule guarded_update_cases)
  have links: "link_of i d1 = link_of i d" and lic: "licenses d2 = licenses d"
    using opened_steps[OF steps] reconcile_link_effect(1)[OF rec] by (simp_all add: link_of_def)
  have same: "meters d' = meters d2" "stripeLinks d' = stripeLinks d2"
    using rw by (simp_all add: replaces_def)
  then have act: "active_meters i d' = active_meters i d1" and lk: "link_of i d' = link_of i d2"
    using reconcile_link_effect(2)[OF rec] by (simp_all add: active_meters_def link_of_def)
  have "l' = (apply_license_update data' l)\<lparr>l_updatedAt := next_updated_at dbNow l\<rparr>"
    using replaces_row[OF _ rw] u lic l(2) l'(1) by auto
  then have expiry: "l_expiresAt x = set_or (lu_expiresAt data') (l_expiresAt l)"
    using l'(2) by (simp add: apply_license_update_def)
  have old: "license_findById i d = Some (toDomainLicense (billing_of i d) l)"
    using license_findById_iff[OF u] l by blast
  have conf: "luo_confirmStripeUnlink options" if "ty \<noteq> Subscription" "link_of i d \<noteq> None"
    using rec that links assms(2) by (auto simp: reconcile_link_def split: if_splits)
  have manual: "\<not> luo_manualExpiresAtUpdate options" if "ty = Subscription" "link_of i d \<noteq> None"
    using rec that links assms(2) by (auto simp: reconcile_link_def split: if_splits)
  have c1: "l_type x = ty" using l'(2,3) by simp
  have c2: "ty = Metered \<longrightarrow> active_meters i d' \<noteq> []" using met act assms(2) by simp
  have c3: "link_of i d' = None" if "ty \<noteq> Subscription"
    using reconcile_link_effect(5)[OF rec] assms(2) lk that by simp
  have c4: "link_of i d' = link_of i d \<and> l_expiresAt x = l_expiresAt l"
    if ts: "ty = Subscription" and tl: "link_of i d \<noteq> None"
  proof -
    obtain lkr where "link_of i d1 = Some lkr" using tl links by auto
    then have "d2 = d1" "lu_expiresAt data' = None"
      using reconcile_link_effect(6)[OF rec] assms(2) ts by simp_all
    then show ?thesis using lk links expiry by simp
  qed
  show ?thesis
  proof (intro conjI impI)
    assume "ty = Subscription \<and> link_of i d \<noteq> None"
    then have t: "ty = Subscription" "link_of i d \<noteq> None" by simp_all
    show "\<not> luo_manualExpiresAtUpdate options" "link_of i d' = link_of i d"
      using manual[OF t] c4[OF t] by simp_all
    show "\<exists>old. license_findById i d = Some old \<and> l_expiresAt x = l_expiresAt old"
      using old c4[OF t] by simp
  qed (use c1 c2 c3 conf in simp_all)
qed

theorem type_change_keeps_rules_witness:
  "licenseRepo_update (\<lambda>_. []) (\<lambda>_. []) 9 9 ''L'' (no_update\<lparr>lu_type := Some Lifetime\<rparr>)
      \<lparr>luo_confirmStripeUnlink = False, luo_expectedUpdatedAt = None,
       luo_manualExpiresAtUpdate = False, luo_newMeters = []\<rparr> (sample_db Trial) =
    Inr (toDomainLicense None ((sample_license Lifetime)\<lparr>l_updatedAt := 9\<rparr>),
      (sample_db Trial)\<lparr>licenses := [(sample_license Lifetime)\<lparr>l_updatedAt := 9\<rparr>]\<rparr>) \<and>
    link_of ''L'' ((sample_db Trial)\<lparr>licenses := [(sample_license Lifetime)\<lparr>l_updatedAt := 9\<rparr>]\<rparr>) = None"
proof -
  have run: "licenseRepo_update (\<lambda>_. []) (\<lambda>_. []) 9 9 ''L'' (no_update\<lparr>lu_type := Some Lifetime\<rparr>)
      \<lparr>luo_confirmStripeUnlink = False, luo_expectedUpdatedAt = None,
       luo_manualExpiresAtUpdate = False, luo_newMeters = []\<rparr> (sample_db Trial) =
    Inr (toDomainLicense None ((sample_license Lifetime)\<lparr>l_updatedAt := 9\<rparr>),
      (sample_db Trial)\<lparr>licenses := [(sample_license Lifetime)\<lparr>l_updatedAt := 9\<rparr>]\<rparr>)"
    by (simp add: licenseRepo_update_def guarded_update_def no_update_def write_license_def
        update_licenses_def reconcile_link_def link_of_def meters_by_name_def active_meters_def
        bindT_def liftE_def firstOrThrow_def reload_def license_findById_def billing_of_def
        apply_license_update_def next_updated_at_def sample_defs rows_def update_where_def
        license_row_int4_def license_row_ok_def int4_def taken_def customer_exists_def Let_def)
  from type_change_keeps_rules[OF sample_db_wf _ run] run show ?thesis by (simp add: no_update_def)
qed

end
