(* ===== verification/LicenseService.thy ===== *)
theory LicenseService
  imports ActivityService SessionRepository DeviceRepository LicenseRepository MeterRepository
begin

text \<open>
  \<open>application/services/LicenseService.ts\<close>: what a client may do with a licence. Each method is
  an operation of the world of theory \<open>Io\<close>, with its calls in the order of the source, so other
  requests may run between any two of them and any call may be lost.

  The theory shows that an activation is admitted only under the policy read in the
  registration transaction, that it never raises the registration counts above the limits,
  that a rejected activation leaves no session behind as long as Redis answers, that a live
  session of an old revision is refused, and that usage is charged to an active metered
  licence whose session is live.
\<close>

section \<open>The repositories as the services call them\<close>

definition SESSION_TTL_SECONDS :: int where
  "SESSION_TTL_SECONDS = 45"

definition attach_allowlists :: "license \<Rightarrow> license_with_allowlists io" where
  "attach_allowlists license =
    bindIO (db_read (\<lambda>_ d. rows (\<lambda>r. ia_licenseId r = l_id license) (ipAllowlist d))) (\<lambda>allowedIps.
    bindIO (db_read (\<lambda>_ d. rows (\<lambda>r. da_licenseId r = l_id license) (deviceAllowlist d))) (\<lambda>allowedDevices.
    returnIO (with_allowlists license allowedIps allowedDevices)))"

definition load_with_allowlists :: "license option io \<Rightarrow> license_with_allowlists option io" where
  "load_with_allowlists lookup =
    bindIO lookup (\<lambda>found.
      case found of
        None \<Rightarrow> returnIO None
      | Some license \<Rightarrow> bindIO (attach_allowlists license) (\<lambda>l. returnIO (Some l)))"

definition license_by_key :: "(string \<Rightarrow> string) \<Rightarrow> string \<Rightarrow> db \<Rightarrow> license option" where
  "license_by_key sha256 licenseKey d =
    map_option (\<lambda>row. toDomainLicense (billing_of (l_id row) d) row)
      (first_row (\<lambda>l. l_keyHash l = hashLicenseKey sha256 licenseKey) (licenses d))"

definition findById_io :: "string \<Rightarrow> license option io" where
  "findById_io i = db_read (\<lambda>_. license_findById i)"

definition find_by_key :: "string \<Rightarrow> license_with_allowlists option io" where
  "find_by_key licenseKey =
    load_with_allowlists (db_read (\<lambda>env. license_by_key (e_sha256 env) licenseKey))"

definition find_by_id :: "string \<Rightarrow> license_with_allowlists option io" where
  "find_by_id i = load_with_allowlists (findById_io i)"

definition refresh_session :: "string \<Rightarrow> session_binding \<Rightarrow> resolved_session option io" where
  "refresh_session sessionToken binding =
    redis_call (\<lambda>env k.
      refreshSession (e_sha256 env) (e_redisNow env k) sessionToken binding SESSION_TTL_SECONDS)"

definition remove_session :: "string \<Rightarrow> session_binding \<Rightarrow> resolved_session option io" where
  "remove_session sessionToken binding =
    redis_call (\<lambda>env k. removeSession (e_sha256 env) (e_redisNow env k) sessionToken binding)"

definition register_session ::
    "string \<Rightarrow> int \<Rightarrow> session_binding \<Rightarrow> int \<Rightarrow> session_registration_result io" where
  "register_session licenseId sessionRevision binding maxSessions =
    redis_call (\<lambda>env k. registerSession (e_sha256 env) (e_uuid env k 0) (e_redisNow env k)
      licenseId sessionRevision binding SESSION_TTL_SECONDS maxSessions)"

definition find_device :: "string \<Rightarrow> session_binding \<Rightarrow> registered_device option io" where
  "find_device licenseId binding =
    db_read (\<lambda>_. findRegisteredDevice licenseId (sb_ip binding) (sb_deviceId binding))"

definition best_effort :: "'a io \<Rightarrow> unit io" where
  "best_effort m = catchIO (bindIO m (\<lambda>_. returnIO ())) (\<lambda>_. returnIO ())"

section \<open>Helpers of the service\<close>

record license_session_result =
  sr_licenseType :: license_type
  sr_metadata :: json_object
  sr_sessionToken :: string
  sr_sessionTtlSeconds :: int

record consume_usage_input =
  ci_meter :: string
  ci_units :: jsnum
  ci_eventId :: string

record consume_usage_result =
  cr_meter :: string
  cr_units :: int
  cr_eventId :: string
  cr_remaining :: int

fun api_code_name :: "api_error_code \<Rightarrow> string" where
  "api_code_name INVALID_REQUEST = ''INVALID_REQUEST''"
| "api_code_name RATE_LIMITED = ''RATE_LIMITED''"
| "api_code_name LICENSE_INVALID = ''LICENSE_INVALID''"
| "api_code_name LICENSE_REVOKED = ''LICENSE_REVOKED''"
| "api_code_name LICENSE_EXPIRED = ''LICENSE_EXPIRED''"
| "api_code_name IP_NOT_ALLOWED = ''IP_NOT_ALLOWED''"
| "api_code_name DEVICE_NOT_ALLOWED = ''DEVICE_NOT_ALLOWED''"
| "api_code_name SESSION_INVALID_OR_EXPIRED = ''SESSION_INVALID_OR_EXPIRED''"
| "api_code_name CONCURRENT_SESSION_LIMIT = ''CONCURRENT_SESSION_LIMIT''"
| "api_code_name METER_NOT_FOUND = ''METER_NOT_FOUND''"
| "api_code_name METER_ARCHIVED = ''METER_ARCHIVED''"
| "api_code_name METER_EXHAUSTED = ''METER_EXHAUSTED''"
| "api_code_name USAGE_EVENT_CONFLICT = ''USAGE_EVENT_CONFLICT''"
| "api_code_name IP_REGISTRATION_LIMIT = ''IP_REGISTRATION_LIMIT''"
| "api_code_name DEVICE_REGISTRATION_LIMIT = ''DEVICE_REGISTRATION_LIMIT''"
| "api_code_name INTERNAL_ERROR = ''INTERNAL_ERROR''"

definition errorReason :: "failure \<Rightarrow> string" where
  "errorReason e =
    (case e of Domain_error de \<Rightarrow> api_code_name (de_code de) | _ \<Rightarrow> ''INTERNAL_ERROR'')"

definition binding :: "string \<Rightarrow> string \<Rightarrow> session_binding result" where
  "binding ip deviceId =
    (let normalizedDeviceId = trim deviceId in
     if normalizedDeviceId = [] \<or> length normalizedDeviceId > 128 then
       Inl (InvalidRequest ''deviceId must contain between 1 and 128 characters'')
     else Inr \<lparr>sb_ip = trim ip, sb_deviceId = normalizedDeviceId\<rparr>)"

definition client_event ::
    "activity_event_type \<Rightarrow> 'a license_scheme option \<Rightarrow> session_binding \<Rightarrow> new_activity_event" where
  "client_event ty license b =
    \<lparr>na_type = ty, na_source = Client, na_outcome = None, na_reason = None,
     na_licenseId = map_option l_id license, na_customerId = map_option l_customerId license,
     na_keyPrefix = map_option l_keyPrefix license, na_ip = Some (sb_ip b),
     na_deviceId = Some (sb_deviceId b), na_details = None, na_createdAt = None\<rparr>"

definition rejected_event ::
    "activity_event_type \<Rightarrow> failure \<Rightarrow> 'a license_scheme option \<Rightarrow> session_binding \<Rightarrow> new_activity_event" where
  "rejected_event ty e license b = (client_event ty license b)
    \<lparr>na_outcome := Some Rejected, na_reason := Some (errorReason e)\<rparr>"

definition service_capture :: "new_activity_event \<Rightarrow> unit io" where
  "service_capture event = best_effort (capture event)"

definition invalidSession :: failure where
  "invalidSession =
    DomainError ''Invalid or expired session token'' 403 SESSION_INVALID_OR_EXPIRED"

definition assertActive :: "'a license_scheme \<Rightarrow> int \<Rightarrow> unit result" where
  "assertActive license now =
    (case es_status (deriveLicenseStatus license now) of
      Revoked \<Rightarrow> Inl (DomainError ''License is revoked'' 403 LICENSE_REVOKED)
    | Expired \<Rightarrow> Inl (DomainError ''License has expired'' 403 LICENSE_EXPIRED)
    | Active \<Rightarrow> Inr ())"

definition assertAllowed :: "license_with_allowlists \<Rightarrow> session_binding \<Rightarrow> unit result" where
  "assertAllowed license b =
    (if l_allowedIps license \<noteq> [] \<and> \<not> list_ex (\<lambda>entry. ia_ip entry = sb_ip b) (l_allowedIps license)
     then Inl (DomainError ''IP address is not allowed'' 403 IP_NOT_ALLOWED)
     else if l_allowedDevices license \<noteq> [] \<and>
       \<not> list_ex (\<lambda>entry. da_deviceId entry = sb_deviceId b) (l_allowedDevices license)
     then Inl (DomainError ''Device is not allowed'' 403 DEVICE_NOT_ALLOWED)
     else Inr ())"

definition assert_usable :: "license_with_allowlists \<Rightarrow> session_binding \<Rightarrow> unit io" where
  "assert_usable license b =
    bindIO nowIO (\<lambda>now. bindIO (liftIO (assertActive license now)) (\<lambda>_.
      liftIO (assertAllowed license b)))"

definition validateUsageInput :: "consume_usage_input \<Rightarrow> int result" where
  "validateUsageInput input =
    (if ci_meter input = [] \<or> length (ci_meter input) > 128 then
       Inl (InvalidRequest ''meter must contain between 1 and 128 characters'')
     else
       (case ci_units input of
         Integral n \<Rightarrow>
           if n < 1 \<or> n > MAX_LICENSE_LIMIT then
             Inl (InvalidRequest ''units must be a positive integer no greater than 2147483647'')
           else if ci_eventId input = [] \<or> length (ci_eventId input) > 128 then
             Inl (InvalidRequest ''eventId must contain between 1 and 128 characters'')
           else Inr n
       | _ \<Rightarrow> Inl (InvalidRequest ''units must be a positive integer no greater than 2147483647'')))"

definition sessionResult :: "'a license_base_scheme \<Rightarrow> string \<Rightarrow> license_session_result" where
  "sessionResult license sessionToken =
    \<lparr>sr_licenseType = l_type license, sr_metadata = l_metadata license,
     sr_sessionToken = sessionToken, sr_sessionTtlSeconds = SESSION_TTL_SECONDS\<rparr>"

definition removeSessionBestEffort :: "string \<Rightarrow> session_binding \<Rightarrow> unit io" where
  "removeSessionBestEffort sessionToken b = best_effort (remove_session sessionToken b)"

definition touch_seen :: "string \<Rightarrow> session_binding \<Rightarrow> unit io" where
  "touch_seen licenseId b =
    best_effort
      (bindIO (find_device licenseId b) (\<lambda>device.
        case device of
          None \<Rightarrow> returnIO ()
        | Some r \<Rightarrow> db_call (\<lambda>env k. touchDevice (rd_id r) (e_now env k))))"

section \<open>Activation\<close>

definition registration_limits ::
    "license_with_allowlists \<Rightarrow> license_device_usage \<Rightarrow> unit result" where
  "registration_limits current usage =
    (if l_maxIps current > 0 \<and> \<not> du_ipRegistered usage \<and> du_uniqueIps usage \<ge> l_maxIps current
     then Inl (DomainError ''IP registration limit reached'' 403 IP_REGISTRATION_LIMIT)
     else if l_maxDevices current > 0 \<and> \<not> du_deviceRegistered usage \<and>
       du_uniqueDevices usage \<ge> l_maxDevices current
     then Inl (DomainError ''Device registration limit reached'' 403 DEVICE_REGISTRATION_LIMIT)
     else Inr ())"

definition check_limits ::
    "license_with_allowlists \<Rightarrow> session_binding \<Rightarrow> registered_device option \<Rightarrow> unit io" where
  "check_limits current b existing =
    (case existing of
      Some _ \<Rightarrow> returnIO ()
    | None \<Rightarrow>
        bindIO (db_read (\<lambda>_. getLicenseDeviceUsage (l_id current) (sb_ip b) (sb_deviceId b)))
          (\<lambda>usage. liftIO (registration_limits current usage)))"

definition start_trial :: "license_with_allowlists \<Rightarrow> license_with_allowlists io" where
  "start_trial current =
    (if l_type current = Trial \<and> l_trialStartedAt current = None then
       bindIO (db_call (\<lambda>env k.
         device_startTrialIfUnset (e_dbNow env k) (l_id current) (e_now env k))) (\<lambda>startedAt.
         case startedAt of
           None \<Rightarrow> throwIO (Plain_error ''Trial activation could not be persisted.'')
         | Some t \<Rightarrow> returnIO (current\<lparr>l_trialStartedAt := Some t\<rparr>))
     else returnIO current)"

definition register_device ::
    "license_with_allowlists \<Rightarrow> session_binding \<Rightarrow> registered_device option \<Rightarrow> unit io" where
  "register_device current b existing =
    (case existing of
      Some _ \<Rightarrow> returnIO ()
    | None \<Rightarrow>
        bindIO (db_call (\<lambda>env k. registerDevice (e_uuid env k 0) (e_now env k) (e_dbNow env k)
          (l_id current) (sb_ip b) (sb_deviceId b))) (\<lambda>_. returnIO ()))"

definition open_session :: "license_with_allowlists \<Rightarrow> session_binding \<Rightarrow> unit io" where
  "open_session current b =
    bindIO (register_session (l_id current) (l_sessionRevision current) b (l_maxSessions current))
      (\<lambda>registration.
        case registration of
          Limit_reached \<Rightarrow>
            throwIO (DomainError ''Maximum concurrent sessions reached'' 403 CONCURRENT_SESSION_LIMIT)
        | Registered token \<Rightarrow> setLocal (Some token))"

definition admission_checks ::
    "license_with_allowlists \<Rightarrow> session_binding
      \<Rightarrow> (license_with_allowlists \<times> registered_device option) io" where
  "admission_checks license b =
    bindIO (db_read (\<lambda>_. findLicenseAdmissionPolicy (l_id license))) (\<lambda>found.
      case found of
        None \<Rightarrow> throwIO (DomainError ''License changed during activation'' 403 LICENSE_INVALID)
      | Some current \<Rightarrow>
          if l_sessionRevision current \<noteq> l_sessionRevision license then
            throwIO (DomainError ''License changed during activation'' 403 LICENSE_INVALID)
          else
            bindIO (assert_usable current b) (\<lambda>_.
            bindIO (find_device (l_id current) b) (\<lambda>existing.
            bindIO (check_limits current b existing) (\<lambda>_.
            returnIO (current, existing)))))"

definition admission :: "license_with_allowlists \<Rightarrow> session_binding \<Rightarrow> license_with_allowlists io" where
  "admission license b =
    bindIO (admission_checks license b) (\<lambda>(current, existing).
    bindIO (open_session current b) (\<lambda>_.
    bindIO (start_trial current) (\<lambda>admittedLicense.
    bindIO (register_device current b existing) (\<lambda>_.
    returnIO admittedLicense))))"

definition admitActivation ::
    "license_with_allowlists \<Rightarrow> session_binding \<Rightarrow> (license_with_allowlists \<times> string) io" where
  "admitActivation license b =
    bindIO (setLocal None) (\<lambda>_.
    bindIO
      (catchIO (transaction (admission license b)) (\<lambda>error.
        bindIO getLocal (\<lambda>sessionToken.
        bindIO (case sessionToken of None \<Rightarrow> returnIO ()
          | Some token \<Rightarrow> if token = [] then returnIO () else best_effort (remove_session token b)) (\<lambda>_.
        throwIO error)))) (\<lambda>admitted.
    bindIO (touch_seen (l_id admitted) b) (\<lambda>_.
    bindIO getLocal (\<lambda>sessionToken.
      case sessionToken of
        None \<Rightarrow> throwIO (Plain_error ''Session registration did not complete.'')
      | Some token \<Rightarrow>
          if token = [] then throwIO (Plain_error ''Session registration did not complete.'')
          else returnIO (admitted, token)))))"

definition activation_rejected ::
    "license_with_allowlists option \<Rightarrow> session_binding \<Rightarrow> failure \<Rightarrow> 'a io" where
  "activation_rejected license b error =
    bindIO (service_capture (rejected_event License_activation_rejected error license b))
      (\<lambda>_. throwIO error)"

definition activate :: "string \<Rightarrow> string \<Rightarrow> string \<Rightarrow> license_session_result io" where
  "activate licenseKey deviceId ip =
    bindIO (liftIO (binding ip deviceId)) (\<lambda>b.
    bindIO (catchIO (find_by_key licenseKey) (activation_rejected None b)) (\<lambda>license.
    bindIO (service_capture (client_event License_activation_attempted license b)) (\<lambda>_.
    case license of
      None \<Rightarrow> activation_rejected None b (DomainError ''Invalid license key'' 403 LICENSE_INVALID)
    | Some l \<Rightarrow>
        bindIO (catchIO (admitActivation l b) (activation_rejected (Some l) b)) (\<lambda>(admitted, token).
        bindIO (service_capture (client_event License_activation_succeeded (Some admitted) b)) (\<lambda>_.
        returnIO (sessionResult admitted token))))))"

section \<open>A live session\<close>

definition requireActiveSessionLicense ::
    "string \<Rightarrow> int \<Rightarrow> string \<Rightarrow> session_binding \<Rightarrow> license_with_allowlists io" where
  "requireActiveSessionLicense licenseId sessionRevision sessionToken b =
    (let refuse = bindIO (removeSessionBestEffort sessionToken b) (\<lambda>_. throwIO invalidSession) in
    bindIO (findById_io licenseId) (\<lambda>license.
    case license of
      None \<Rightarrow> refuse
    | Some l \<Rightarrow>
        bindIO (find_by_id (l_id l)) (\<lambda>withAllowlists.
        case withAllowlists of
          None \<Rightarrow> refuse
        | Some la \<Rightarrow>
            if l_sessionRevision la \<noteq> sessionRevision then refuse
            else
              bindIO (catchIO (assert_usable la b) (\<lambda>error.
                bindIO (removeSessionBestEffort sessionToken b) (\<lambda>_. throwIO error))) (\<lambda>_.
              returnIO la))))"

definition live_license :: "string \<Rightarrow> session_binding \<Rightarrow> license_with_allowlists io" where
  "live_license sessionToken b =
    bindIO (refresh_session sessionToken b) (\<lambda>resolved.
      case resolved of
        None \<Rightarrow> throwIO invalidSession
      | Some s \<Rightarrow>
          requireActiveSessionLicense (rs_licenseId s) (rs_sessionRevision s) (rs_token s) b)"

definition heartbeat :: "string \<Rightarrow> string \<Rightarrow> string \<Rightarrow> license_session_result io" where
  "heartbeat sessionToken deviceId ip =
    bindIO (liftIO (binding ip deviceId)) (\<lambda>b.
    bindIO (live_license sessionToken b) (\<lambda>license.
    bindIO (touch_seen (l_id license) b) (\<lambda>_.
    bindIO (service_capture (client_event License_heartbeat (Some license) b)) (\<lambda>_.
    returnIO (sessionResult license sessionToken)))))"

definition usage_details :: "(string \<Rightarrow> string) \<Rightarrow> string \<Rightarrow> jsnum \<Rightarrow> string \<Rightarrow> json_object" where
  "usage_details sha256 meter units eventId =
    [(''meter'', JStr meter), (''units'', JNum units),
     (''eventIdHash'', JStr (hashUsageEventId sha256 eventId))]"

definition usage_rejected ::
    "consume_usage_input \<Rightarrow> license_with_allowlists option \<Rightarrow> session_binding \<Rightarrow> failure \<Rightarrow> 'a io" where
  "usage_rejected input license b error =
    bindIO (askIO e_sha256) (\<lambda>sha256.
    bindIO (service_capture ((rejected_event Usage_rejected error license b)
        \<lparr>na_details := Some (usage_details sha256 (ci_meter input) (ci_units input) (ci_eventId input))\<rparr>))
      (\<lambda>_. throwIO error))"

definition charge ::
    "license_with_allowlists \<Rightarrow> session_binding \<Rightarrow> consume_usage_input \<Rightarrow> int \<Rightarrow> consume_usage_result io" where
  "charge license b input units =
    (if l_type license \<noteq> Metered then
       throwIO (InvalidRequest ''Usage can only be consumed from metered licenses'')
     else
       bindIO (db_call (\<lambda>env k. consume (e_sha256 env) (e_uuid env k 0) (e_now env k)
         (l_id license) (ci_meter input) units (ci_eventId input))) (\<lambda>result.
       let receipt = (\<lambda>meter. \<lparr>cr_meter = m_name meter, cr_units = units,
             cr_eventId = ci_eventId input, cr_remaining = m_balance meter\<rparr>) in
       case result of
         Conflict \<Rightarrow> throwIO (DomainError
           ''eventId was already used with a different usage request'' 409 USAGE_EVENT_CONFLICT)
       | Not_found \<Rightarrow> throwIO (DomainError ''Meter not found'' 404 METER_NOT_FOUND)
       | Archived \<Rightarrow> throwIO (DomainError ''Meter is archived'' 409 METER_ARCHIVED)
       | Exhausted \<Rightarrow> throwIO (DomainError ''Meter balance is exhausted'' 403 METER_EXHAUSTED)
       | Consumed meter _ \<Rightarrow>
           bindIO (askIO e_sha256) (\<lambda>sha256.
           bindIO (service_capture ((client_event Usage_consumed (Some license) b)
               \<lparr>na_details := Some (usage_details sha256 (m_name meter) (Integral units) (ci_eventId input)
                 @ [(''remaining'', JNum (Integral (m_balance meter)))])\<rparr>)) (\<lambda>_.
           returnIO (receipt meter)))
       | Replayed meter _ \<Rightarrow> returnIO (receipt meter)))"

definition service_consume ::
    "string \<Rightarrow> string \<Rightarrow> string \<Rightarrow> consume_usage_input \<Rightarrow> consume_usage_result io" where
  "service_consume sessionToken deviceId ip input =
    bindIO (liftIO (binding ip deviceId)) (\<lambda>b.
    let normalizedInput = input\<lparr>ci_meter := trim (ci_meter input), ci_eventId := trim (ci_eventId input)\<rparr> in
    bindIO
      (catchIO
        (bindIO (liftIO (validateUsageInput normalizedInput)) (\<lambda>units.
         bindIO (live_license sessionToken b) (\<lambda>license. returnIO (units, license))))
        (usage_rejected normalizedInput None b)) (\<lambda>(units, license).
    catchIO (charge license b normalizedInput units)
      (usage_rejected normalizedInput (Some license) b)))"

definition deactivate :: "string \<Rightarrow> string \<Rightarrow> string \<Rightarrow> unit io" where
  "deactivate sessionToken deviceId ip =
    bindIO (liftIO (binding ip deviceId)) (\<lambda>b.
    bindIO (remove_session sessionToken b) (\<lambda>removed.
    case removed of
      None \<Rightarrow> returnIO ()
    | Some s \<Rightarrow>
        bindIO (catchIO (findById_io (rs_licenseId s)) (\<lambda>_. returnIO None)) (\<lambda>license.
        service_capture ((client_event License_deactivated license b)
          \<lparr>na_licenseId := Some (rs_licenseId s)\<rparr>))))"

section \<open>Telemetry and reads\<close>

lemma best_effort_total: "\<exists>w'. best_effort m env w = (Inr (), w')"
  by (cases "m env w") (auto simp: best_effort_def catchIO_def bindIO_def split: sum.splits prod.splits)

lemma service_capture_steps: "steps quiet same_redis (service_capture e)" "steps quiet same_tables (service_capture e)"
  unfolding service_capture_def best_effort_def
  by (intro redis_kept.steps_rules capture_steps) (intro tables_kept.steps_rules capture_steps)

lemma find_by_key_steps: "steps quiet same_redis (find_by_key k)" "steps quiet same_tables (find_by_key k)"
  unfolding find_by_key_def load_with_allowlists_def attach_allowlists_def
  by (intro redis_kept.steps_rules) (intro tables_kept.steps_rules)

lemma assertActive_Inr: "assertActive l now = Inr u \<longleftrightarrow> license_active l now"
  by (simp add: assertActive_def split: license_status.splits)

definition usable :: "license_with_allowlists \<Rightarrow> session_binding \<Rightarrow> int \<Rightarrow> bool" where
  "usable l b now \<longleftrightarrow>
    license_active l now \<and>
    (l_allowedIps l = [] \<or> sb_ip b \<in> set (map ia_ip (l_allowedIps l))) \<and>
    (l_allowedDevices l = [] \<or> sb_deviceId b \<in> set (map da_deviceId (l_allowedDevices l)))"

lemma list_ex_member: "list_ex (\<lambda>e. f e = x) xs \<longleftrightarrow> x \<in> f ` set xs"
  by (auto simp: list_ex_iff)

lemma assertAllowed_Inr:
  "assertAllowed l b = Inr u \<longleftrightarrow>
    (l_allowedIps l = [] \<or> sb_ip b \<in> set (map ia_ip (l_allowedIps l))) \<and>
    (l_allowedDevices l = [] \<or> sb_deviceId b \<in> set (map da_deviceId (l_allowedDevices l)))"
  by (simp add: assertAllowed_def list_ex_member)

lemma assert_usable_Inr:
  "assert_usable l b env w = (Inr u, w') \<longleftrightarrow> usable l b (e_now env (w_tick w)) \<and> w' = w"
  by (auto simp: assert_usable_def bindIO_Inr_iff assertActive_Inr assertAllowed_Inr usable_def)

lemma assert_usable_world: "assert_usable l b env w = (res, w') \<Longrightarrow> w' = w"
  by (auto simp: assert_usable_def bindIO_iff)

section \<open>Admission\<close>

definition within_limits :: "license_with_allowlists \<Rightarrow> session_binding \<Rightarrow> db \<Rightarrow> bool" where
  "within_limits l b d \<longleftrightarrow>
    findRegisteredDevice (l_id l) (sb_ip b) (sb_deviceId b) d \<noteq> None \<or>
    (l_maxIps l > 0 \<longrightarrow> sb_ip b \<in> registered_ips (l_id l) d \<or>
      int (card (registered_ips (l_id l) d)) < l_maxIps l) \<and>
    (l_maxDevices l > 0 \<longrightarrow> sb_deviceId b \<in> registered_ids (l_id l) d \<or>
      int (card (registered_ids (l_id l) d)) < l_maxDevices l)"

lemma check_limits_Inr:
  "check_limits l b (findRegisteredDevice (l_id l) (sb_ip b) (sb_deviceId b) d) (isolated env) w =
      (Inr u, w') \<Longrightarrow> w_db w = d \<Longrightarrow> within_limits l b d \<and> w_db w' = d \<and> w_local w' = w_local w"
  by (auto simp: check_limits_def within_limits_def registration_limits_def bindIO_Inr_iff
      db_read_Inr usage_counts usage_registered interfere_isolated split: option.splits if_splits)

text \<open>
  What an activation does to the sessions. \<open>session_live env b l k r r' token\<close>: between the states \<open>r\<close> and
  \<open>r'\<close> of Redis, at the tick \<open>k\<close>, the licence had fewer live sessions of its revision than a positive
  limit allows, and then it has exactly those and the new one, which resolves for its time to live.
\<close>

definition session_live ::
    "env \<Rightarrow> session_binding \<Rightarrow> license_with_allowlists \<Rightarrow> nat \<Rightarrow> redis \<Rightarrow> redis \<Rightarrow> string \<Rightarrow> bool" where
  "session_live env b l k r r' token \<longleftrightarrow>
    (let t = e_redisNow env k; old = revision_sessions (l_id l) (l_sessionRevision l) t r in
     (l_maxSessions l > 0 \<longrightarrow> int (card old) < l_maxSessions l) \<and>
     live_sessions (l_id l) t r' = insert token old \<and>
     (\<forall>t'. t \<le> t' \<and> t' \<le> t + 1000 * SESSION_TTL_SECONDS \<longrightarrow>
       session_of token t' r' = Some (l_id l, l_sessionRevision l, hashBinding (e_sha256 env) b)))"

text \<open>
  The registration of one run, from the world \<open>w\<close> to \<open>w'\<close>: the token is the one drawn at this tick, and
  Redis went, by the registration for this licence under its limit, from the state the other
  requests left to the state of \<open>w'\<close>.
\<close>

definition session_opened ::
    "env \<Rightarrow> session_binding \<Rightarrow> license_with_allowlists \<Rightarrow> world \<Rightarrow> world \<Rightarrow> string \<Rightarrow> bool" where
  "session_opened env b l w w' token \<longleftrightarrow>
    (let k = w_tick w; r = w_redis (interfere env w) in
     token = e_uuid env k 0 \<and>
     registerSession (e_sha256 env) token (e_redisNow env k) (l_id l) (l_sessionRevision l) b
       SESSION_TTL_SECONDS (l_maxSessions l) r = (Inr (Registered token), w_redis w') \<and>
     (session_inv SESSION_TTL_SECONDS (e_redisNow env k) r \<and> valid_session (l_id l) (l_sessionRevision l) \<longrightarrow>
       session_live env b l k r (w_redis w') token))"

lemma registered_live:
  assumes inv: "session_inv SESSION_TTL_SECONDS (e_redisNow env k) r"
    and valid: "valid_session (l_id l) (l_sessionRevision l)"
    and run: "registerSession (e_sha256 env) token (e_redisNow env k) (l_id l) (l_sessionRevision l) b
      SESSION_TTL_SECONDS (l_maxSessions l) r = (Inr (Registered token), r')"
  shows "session_live env b l k r r' token"
proof -
  let ?t = "e_redisNow env k" and ?h = "hashBinding (e_sha256 env) b"
  let ?r1 = "prune_members (session_set_key (l_id l)) (show_int (l_sessionRevision l)) ?t r"
  from registerSession_cases[OF run]
  have room: "l_maxSessions l \<le> 0 \<or> int (scard (session_set_key (l_id l)) ?t ?r1) < l_maxSessions l"
    and r': "r' = store_session token (l_id l) (l_sessionRevision l) ?h SESSION_TTL_SECONDS ?t ?r1"
    by auto
  have "live_sessions (l_id l) ?t r' = insert token (revision_sessions (l_id l) (l_sessionRevision l) ?t r)"
    using pruned_live[OF inv, of "l_id l" "l_sessionRevision l"]
    by (auto simp: r' live_sessions_def store_session_of[OF valid] SESSION_TTL_SECONDS_def)
  moreover have "session_of token t' r' = Some (l_id l, l_sessionRevision l, ?h)"
    if "?t \<le> t'" "t' \<le> ?t + 1000 * SESSION_TTL_SECONDS" for t'
    using that by (simp add: r' store_session_of[OF valid that(1)])
  ultimately show ?thesis
    using room pruned_scard[OF inv, of "l_id l" "l_sessionRevision l"]
    by (auto simp: session_live_def Let_def)
qed

lemma interfere_isolated_redis: "w_redis (interfere (isolated env) w) = w_redis (interfere env w)"
proof -
  obtain d r where "e_others env (w_tick w) (w_db w, w_redis w) = (d, r)" by fastforce
  then show ?thesis by (simp add: interfere_def isolated_def)
qed

lemma registered_fresh:
  "registerSession sha256 token t l rv b ttl mx r = (Inr (Registered tk), r') \<Longrightarrow> tk = token"
  using registerSession_cases by fastforce

lemma open_session_Inr:
  assumes "open_session l b (isolated env) w = (Inr u, w')"
  obtains token where "session_opened env b l w w' token"
    "w_local w' = Some token" "w_db w' = w_db w"
proof -
  from assms obtain reg w1 where reg:
    "register_session (l_id l) (l_sessionRevision l) b (l_maxSessions l) (isolated env) w = (Inr reg, w1)"
    "(case reg of Limit_reached \<Rightarrow>
        throwIO (DomainError ''Maximum concurrent sessions reached'' 403 CONCURRENT_SESSION_LIMIT)
      | Registered token \<Rightarrow> setLocal (Some token)) (isolated env) w1 = (Inr u, w')"
    by (auto simp: open_session_def bindIO_Inr_iff)
  then obtain token where token: "reg = Registered token" by (cases reg) auto
  let ?k = "w_tick w"
  have run: "registerSession (e_sha256 env) (e_uuid env ?k 0) (e_redisNow env ?k) (l_id l) (l_sessionRevision l)
      b SESSION_TTL_SECONDS (l_maxSessions l) (w_redis (interfere env w)) = (Inr (Registered token), w_redis w')"
    and loc: "w_local w' = Some token" "w_db w' = w_db w"
    using reg token
    by (auto simp: register_session_def redis_call_Inr interfere_isolated interfere_isolated_redis)
  have "token = e_uuid env ?k 0" using registered_fresh[OF run] .
  with run have "session_opened env b l w w' token"
    by (auto simp: session_opened_def Let_def intro: registered_live)
  then show thesis using that loc by blast
qed

lemma start_trial_Inr:
  assumes "start_trial l (isolated env) w = (Inr a, w')"
  shows "w_local w' = w_local w \<and>
    w_tick w' = (if l_type l = Trial \<and> l_trialStartedAt l = None then Suc (w_tick w) else w_tick w) \<and>
    (if l_type l = Trial \<and> l_trialStartedAt l = None
     then \<exists>t. device_startTrialIfUnset (e_dbNow env (w_tick w)) (l_id l) (e_now env (w_tick w)) (w_db w) =
        Inr (Some t, w_db w') \<and> a = l\<lparr>l_trialStartedAt := Some t\<rparr>
     else a = l \<and> w_db w' = w_db w)"
  using assms
  by (auto simp: start_trial_def bindIO_Inr_iff db_call_Inr interfere_isolated
      split: if_splits option.splits)

lemma register_device_Inr:
  assumes "register_device l b existing (isolated env) w = (Inr u, w')"
  shows "w_local w' = w_local w \<and>
    (if existing = None
     then \<exists>r. registerDevice (e_uuid env (w_tick w) 0) (e_now env (w_tick w)) (e_dbNow env (w_tick w))
        (l_id l) (sb_ip b) (sb_deviceId b) (w_db w) = Inr (r, w_db w')
     else w_db w' = w_db w)"
  using assms
  by (auto simp: register_device_def bindIO_Inr_iff db_call_Inr interfere_isolated
      split: option.splits)

text \<open>
  What a successful registration transaction read and wrote, besides the session: \<open>k\<close> is the tick
  at which the licence was checked, \<open>k1\<close> the tick after the session was registered.
\<close>

definition admitted ::
    "env \<Rightarrow> session_binding \<Rightarrow> license_with_allowlists \<Rightarrow> nat \<Rightarrow> nat \<Rightarrow> db \<Rightarrow> db \<Rightarrow> bool" where
  "admitted env b current k k1 d d' \<longleftrightarrow>
    findLicenseAdmissionPolicy (l_id current) d = Some current \<and>
    usable current b (e_now env k) \<and> within_limits current b d \<and>
    (let unstarted = (l_type current = Trial \<and> l_trialStartedAt current = None);
         k2 = (if unstarted then Suc k1 else k1) in
     \<exists>d1.
      (if unstarted
       then \<exists>t. device_startTrialIfUnset (e_dbNow env k1) (l_id current) (e_now env k1) d = Inr (Some t, d1)
       else d1 = d) \<and>
      (if findRegisteredDevice (l_id current) (sb_ip b) (sb_deviceId b) d = None
       then \<exists>r. registerDevice (e_uuid env k2 0) (e_now env k2) (e_dbNow env k2) (l_id current) (sb_ip b)
          (sb_deviceId b) d1 = Inr (r, d')
       else d' = d1))"

lemma find_policy_id: "findLicenseAdmissionPolicy i d = Some l \<Longrightarrow> l_id l = i"
  by (auto simp: findLicenseAdmissionPolicy_def dest!: first_row_SomeD split: option.splits)

lemma admission_checks_Inr:
  assumes "admission_checks license b (isolated env) w = (Inr (current, existing), w')"
  shows "findLicenseAdmissionPolicy (l_id license) (w_db w) = Some current" "l_id current = l_id license"
    and "l_sessionRevision current = l_sessionRevision license"
    and "usable current b (e_now env (Suc (w_tick w)))" "within_limits current b (w_db w)"
    and "existing = findRegisteredDevice (l_id current) (sb_ip b) (sb_deviceId b) (w_db w)"
    and "w_db w' = w_db w"
proof -
  let ?w1 = "interfere (isolated env) w"
  let ?w2 = "interfere (isolated env) ?w1"
  let ?ex = "findRegisteredDevice (l_id current) (sb_ip b) (sb_deviceId b) (w_db w)"
  have w2: "w_db ?w2 = w_db w" by (simp add: interfere_isolated)
  from assms have cur: "findLicenseAdmissionPolicy (l_id license) (w_db w) = Some current"
      "l_sessionRevision current = l_sessionRevision license"
    and us: "usable current b (e_now env (w_tick ?w1))" and ex: "existing = ?ex"
    and lim: "check_limits current b ?ex (isolated env) ?w2 = (Inr (), w')"
    by (auto simp: admission_checks_def bindIO_Inr_iff db_read_Inr assert_usable_Inr find_device_def
        interfere_isolated split: option.splits if_splits)
  show "findLicenseAdmissionPolicy (l_id license) (w_db w) = Some current" "l_id current = l_id license"
    "l_sessionRevision current = l_sessionRevision license"
    "usable current b (e_now env (Suc (w_tick w)))" "within_limits current b (w_db w)"
    "existing = ?ex" "w_db w' = w_db w"
    using cur us ex find_policy_id[OF cur(1)] check_limits_Inr[OF lim w2]
    by (simp_all add: interfere_isolated)
qed

lemma registration_steps:
  "steps quiet same_redis (start_trial l)" "steps quiet same_redis (register_device l b existing)"
  unfolding start_trial_def register_device_def by (intro redis_kept.steps_rules steps_same_redis_db)+

lemma admission_Inr:
  assumes "admission license b (isolated env) w = (Inr a, w')"
  obtains current existing token w3 w4 where
    "admission_checks license b (isolated env) w = (Inr (current, existing), w3)"
    "open_session current b (isolated env) w3 = (Inr (), w4)"
    "session_opened env b current w3 w4 token" "w_local w' = Some token"
    "admitted env b current (Suc (w_tick w)) (w_tick w4) (w_db w) (w_db w')"
    "l_id a = l_id current" "l_type a = l_type current" "l_metadata a = l_metadata current"
    "quiet env \<longrightarrow> w_redis w' = w_redis w4"
proof -
  from assms obtain current existing w3 w4 w5 where
    chk: "admission_checks license b (isolated env) w = (Inr (current, existing), w3)"
    and ses: "open_session current b (isolated env) w3 = (Inr (), w4)"
    and tri: "start_trial current (isolated env) w4 = (Inr a, w5)"
    and dev: "register_device current b existing (isolated env) w5 = (Inr (), w')"
    by (auto simp: admission_def bindIO_Inr_iff)
  note c = admission_checks_Inr[OF chk]
  obtain token where op: "session_opened env b current w3 w4 token" "w_local w4 = Some token"
    and w4: "w_db w4 = w_db w3"
    by (rule open_session_Inr[OF ses])
  note t = start_trial_Inr[OF tri, unfolded w4 c(7)] and v = register_device_Inr[OF dev, unfolded c(6)]
  have "admitted env b current (Suc (w_tick w)) (w_tick w4) (w_db w) (w_db w')"
    unfolding admitted_def Let_def using c(1,4,5) t v unfolding c(2)[symmetric] by (auto split: if_splits)
  moreover have "w_redis w' = w_redis w4" if "quiet env"
    using stepsD[OF registration_steps(1) _ tri] stepsD[OF registration_steps(2) _ dev] that
    by (simp add: same_redis_def)
  ultimately show thesis
    using that[OF chk ses op(1)] op(2) t v by (auto split: if_splits)
qed

lemma card_insert_bound:
  assumes "finite A" "0 < m" "x \<in> A \<or> int (card A) < m"
  shows "int (card (insert x A)) \<le> max m (int (card A))"
  using assms card_insert_if[of A x] by (auto simp: max_def)

lemma trial_devices:
  "device_startTrialIfUnset dbNow i t d = Inr (x, d') \<Longrightarrow> devices d' = devices d"
  using update_licenses_rows by (fastforce simp: device_startTrialIfUnset_def bindT_Inr_iff)

lemma admitted_registers:
  assumes "admitted env b c k k1 d d'"
  shows "findRegisteredDevice (l_id c) (sb_ip b) (sb_deviceId b) d' \<noteq> None"
    and "l_maxIps c > 0 \<Longrightarrow> int (card (registered_ips (l_id c) d')) \<le>
      max (l_maxIps c) (int (card (registered_ips (l_id c) d)))"
    and "l_maxDevices c > 0 \<Longrightarrow> int (card (registered_ids (l_id c) d')) \<le>
      max (l_maxDevices c) (int (card (registered_ids (l_id c) d)))"
proof -
  let ?ex = "findRegisteredDevice (l_id c) (sb_ip b) (sb_deviceId b) d"
  obtain d1 where d1: "devices d1 = devices d"
    and reg: "if ?ex = None
      then \<exists>uuid now dbNow r. registerDevice uuid now dbNow (l_id c) (sb_ip b) (sb_deviceId b) d1 = Inr (r, d')
      else d' = d1"
    using assms trial_devices unfolding admitted_def Let_def by metis
  have same: "findRegisteredDevice l i v d1 = findRegisteredDevice l i v d"
    "registered_ips l d1 = registered_ips l d" "registered_ids l d1 = registered_ids l d" for l i v
    using d1 by (simp_all add: findRegisteredDevice_def registered_ips_def registered_ids_def)
  have lim: "within_limits c b d" using assms by (simp add: admitted_def)
  have "findRegisteredDevice (l_id c) (sb_ip b) (sb_deviceId b) d' \<noteq> None \<and>
    (l_maxIps c > 0 \<longrightarrow> int (card (registered_ips (l_id c) d')) \<le>
      max (l_maxIps c) (int (card (registered_ips (l_id c) d)))) \<and>
    (l_maxDevices c > 0 \<longrightarrow> int (card (registered_ids (l_id c) d')) \<le>
      max (l_maxDevices c) (int (card (registered_ids (l_id c) d))))"
  proof (cases "?ex = None")
    case True
    then obtain uuid now dbNow r where
      "registerDevice uuid now dbNow (l_id c) (sb_ip b) (sb_deviceId b) d1 = Inr (r, d')"
      using reg by auto
    note reg = registerDevice_registered[OF this]
    show ?thesis
      using reg(3) lim True same
        card_insert_bound[of "registered_ips (l_id c) d" "l_maxIps c" "sb_ip b"]
        card_insert_bound[of "registered_ids (l_id c) d" "l_maxDevices c" "sb_deviceId b"]
      by (simp add: reg(1,2) within_limits_def)
  next
    case False
    then show ?thesis using reg same by simp
  qed
  then show "findRegisteredDevice (l_id c) (sb_ip b) (sb_deviceId b) d' \<noteq> None"
    "l_maxIps c > 0 \<Longrightarrow> int (card (registered_ips (l_id c) d')) \<le>
      max (l_maxIps c) (int (card (registered_ips (l_id c) d)))"
    "l_maxDevices c > 0 \<Longrightarrow> int (card (registered_ids (l_id c) d')) \<le>
      max (l_maxDevices c) (int (card (registered_ids (l_id c) d)))"
    by blast+
qed

text \<open>The world in which an activation takes the registration lock, and the one it leaves.\<close>

definition world_at_lock :: "string \<Rightarrow> session_binding \<Rightarrow> env \<Rightarrow> world \<Rightarrow> world" where
  "world_at_lock licenseKey b env w =
    (snd (bindIO (find_by_key licenseKey)
      (\<lambda>license. service_capture (client_event License_activation_attempted license b)) env w))
    \<lparr>w_local := None\<rparr>"

lemma touch_seen_steps: "steps quiet same_redis (touch_seen i b)"
  unfolding touch_seen_def best_effort_def find_device_def
  by (intro redis_kept.steps_rules steps_same_redis_db)

lemma admitActivation_Inr:
  assumes "admitActivation l b env w = (Inr (a, token), w')"
  obtains w2 where "transaction (admission l b) env (w\<lparr>w_local := None\<rparr>) = (Inr a, w2)"
    "w_local w2 = Some token" "quiet env \<longrightarrow> w_redis w' = w_redis w2"
proof -
  from assms obtain w2 w3 where
    t: "transaction (admission l b) env (w\<lparr>w_local := None\<rparr>) = (Inr a, w2)"
    and touch: "touch_seen (l_id a) b env w2 = (Inr (), w3)" and loc: "w_local w3 = Some token" "w' = w3"
    by (auto simp: admitActivation_def bindIO_Inr_iff catchIO_Inr_iff split: option.splits if_splits)
  have "steps (\<lambda>_. True) same_local (touch_seen (l_id a) b)"
    unfolding touch_seen_def best_effort_def find_device_def
    by (intro local_kept.steps_rules steps_same_local_calls)
  then have "w_local w3 = w_local w2"
    using touch by (auto simp: same_local_def dest: stepsD)
  moreover have "quiet env \<longrightarrow> w_redis w3 = w_redis w2"
    using stepsD[OF touch_seen_steps _ touch] by (simp add: same_redis_def)
  ultimately show thesis using t loc that by simp
qed

lemma activate_Inr:
  assumes "activate licenseKey deviceId ip env w = (Inr res, w')"
  obtains b l a token w2 where "binding ip deviceId = Inr b"
    "fst (find_by_key licenseKey env w) = Inr (Some l)"
    "transaction (admission l b) env (world_at_lock licenseKey b env w) = (Inr a, w2)"
    "w_local w2 = Some token" "res = sessionResult a token" "quiet env \<longrightarrow> w_redis w' = w_redis w2"
proof -
  from assms obtain b l w1 w3 a token u where b: "binding ip deviceId = Inr b"
    and find: "find_by_key licenseKey env w = (Inr (Some l), w1)"
    and adm: "admitActivation l b env
      (snd (service_capture (client_event License_activation_attempted (Some l) b) env w1)) =
        (Inr (a, token), w3)"
    and cap: "service_capture (client_event License_activation_succeeded (Some a) b) env w3 = (Inr u, w')"
    and res: "res = sessionResult a token"
    by (auto simp: activate_def bindIO_Inr_iff catchIO_Inr_iff activation_rejected_def
        split: option.splits)
  obtain w2 where "transaction (admission l b) env (world_at_lock licenseKey b env w) = (Inr a, w2)"
      "w_local w2 = Some token" "quiet env \<longrightarrow> w_redis w3 = w_redis w2"
    using admitActivation_Inr[OF adm] by (auto simp: world_at_lock_def bindIO_def find)
  moreover have "quiet env \<longrightarrow> w_redis w' = w_redis w3"
    using stepsD[OF service_capture_steps(1) _ cap] by (simp add: same_redis_def)
  ultimately show thesis using b find res that by simp
qed

section \<open>A rejected activation\<close>

text \<open>
  \<open>session_ready env w\<close>: the sessions in Redis satisfy their invariant, clocks do not run
  backwards, the identifiers of the licences are ones a session can hold (they are UUIDs), and
  the tokens still to be drawn are new.
\<close>

definition session_ready :: "env \<Rightarrow> world \<Rightarrow> bool" where
  "session_ready env w \<longleftrightarrow>
    session_inv SESSION_TTL_SECONDS (e_redisNow env (w_tick w)) (w_redis w) \<and>
    (\<forall>j k. j \<le> k \<longrightarrow> e_redisNow env j \<le> e_redisNow env k) \<and>
    (\<forall>l \<in> set (licenses (w_db w)). valid_session (l_id l) (l_sessionRevision l)) \<and>
    (\<forall>k \<ge> w_tick w. e_uuid env k 0 \<noteq> [] \<and>
      fresh_token (e_uuid env k 0) (e_redisNow env k) (w_redis w))"

definition no_new_session :: "env \<Rightarrow> world \<Rightarrow> world \<Rightarrow> bool" where
  "no_new_session env w w' \<longleftrightarrow>
    (\<forall>token t x. e_redisNow env (w_tick w') \<le> t \<longrightarrow> session_of token t (w_redis w') = Some x \<longrightarrow>
      session_of token t (w_redis w) = Some x)"

definition redis_answers :: "env \<Rightarrow> bool" where
  "redis_answers env \<longleftrightarrow> (\<forall>k. e_redisOutcome env k = Done)"

text \<open>What one registration call of the run did to Redis.\<close>

definition opened_at :: "env \<Rightarrow> session_binding \<Rightarrow> world \<Rightarrow> world \<Rightarrow> bool" where
  "opened_at env b w w' \<longleftrightarrow>
    (\<exists>k l rv mx. w_tick w \<le> k \<and> k < w_tick w' \<and> valid_session l rv \<and>
      w_local w' = Some (e_uuid env k 0) \<and>
      registerSession (e_sha256 env) (e_uuid env k 0) (e_redisNow env k) l rv b SESSION_TTL_SECONDS mx
        (w_redis w) = (Inr (Registered (e_uuid env k 0)), w_redis w'))"

definition pruned_at :: "env \<Rightarrow> world \<Rightarrow> world \<Rightarrow> bool" where
  "pruned_at env w w' \<longleftrightarrow>
    w_redis w' = w_redis w \<or>
    (\<exists>k l rv. w_tick w \<le> k \<and> k < w_tick w' \<and>
      w_redis w' = prune_members (session_set_key l) (show_int rv) (e_redisNow env k) (w_redis w))"

lemma open_session_quiet:
  assumes q: "quiet env" "redis_answers env" and v: "valid_session (l_id l) (l_sessionRevision l)"
    and run: "open_session l b env w = (res, w')"
  shows "w_tick w < w_tick w' \<and>
    ((\<exists>e. res = Inl e) \<and> w_local w' = w_local w \<and> pruned_at env w w' \<or>
     res = Inr () \<and> opened_at env b w w')"
proof -
  let ?k = "w_tick w"
  obtain reg r' where reg: "registerSession (e_sha256 env) (e_uuid env ?k 0) (e_redisNow env ?k)
      (l_id l) (l_sessionRevision l) b SESSION_TTL_SECONDS (l_maxSessions l) (w_redis w) = (reg, r')"
    by fastforce
  have run': "bindIO (liftIO reg) (\<lambda>registration. case registration of
        Limit_reached \<Rightarrow>
          throwIO (DomainError ''Maximum concurrent sessions reached'' 403 CONCURRENT_SESSION_LIMIT)
      | Registered token \<Rightarrow> setLocal (Some token)) env (w\<lparr>w_tick := Suc ?k, w_redis := r'\<rparr>) = (res, w')"
    using run q reg
    by (simp add: open_session_def register_session_def redis_call_def bindIO_def redis_answers_def)
  from registerSession_cases[OF reg] consider
      "reg = Inr Limit_reached" "r' = prune_members (session_set_key (l_id l))
        (show_int (l_sessionRevision l)) (e_redisNow env ?k) (w_redis w)"
    | "reg = Inr (Registered (e_uuid env ?k 0))"
    by (auto simp: SESSION_TTL_SECONDS_def)
  then show ?thesis
  proof cases
    case 1
    then show ?thesis using run' by (fastforce simp: bindIO_def pruned_at_def)
  next
    case 2
    with run' reg v have "opened_at env b w w'"
      unfolding opened_at_def
      by (intro exI[of _ ?k] exI[of _ "l_id l"] exI[of _ "l_sessionRevision l"]
          exI[of _ "l_maxSessions l"]) (auto simp: bindIO_def)
    then show ?thesis using run' 2 by (auto simp: bindIO_def)
  qed
qed

lemma admission_checks_steps: "steps quiet same_redis (admission_checks l b)"
  unfolding admission_checks_def assert_usable_def find_device_def check_limits_def
  by (intro redis_kept.steps_rules)

lemma admission_checks_found:
  assumes "quiet env" "admission_checks l b env w = (Inr (current, existing), w')"
  shows "\<exists>s \<in> set (licenses (w_db w)). l_id s = l_id current \<and> l_sessionRevision s = l_sessionRevision current"
proof -
  from assms have "findLicenseAdmissionPolicy (l_id l) (w_db w) = Some current"
    by (auto simp: admission_checks_def bindIO_Inr_iff db_read_Inr split: option.splits if_splits)
  then show ?thesis
    by (auto simp: findLicenseAdmissionPolicy_def dest!: first_row_SomeD split: option.splits)
qed

lemma opened_at_later:
  "opened_at env b w w' \<Longrightarrow> w_redis v' = w_redis w' \<Longrightarrow> w_local v' = w_local w' \<Longrightarrow>
    w_redis v = w_redis w \<Longrightarrow> w_tick v \<le> w_tick w \<Longrightarrow> w_tick w' \<le> w_tick v' \<Longrightarrow> opened_at env b v v'"
proof -
  assume o: "opened_at env b w w'" and e: "w_redis v' = w_redis w'" "w_local v' = w_local w'"
    "w_redis v = w_redis w" "w_tick v \<le> w_tick w" "w_tick w' \<le> w_tick v'"
  from o obtain k l rv mx where k: "w_tick w \<le> k" "k < w_tick w'" "valid_session l rv"
      "w_local w' = Some (e_uuid env k 0)"
      "registerSession (e_sha256 env) (e_uuid env k 0) (e_redisNow env k) l rv b SESSION_TTL_SECONDS mx
        (w_redis w) = (Inr (Registered (e_uuid env k 0)), w_redis w')"
    unfolding opened_at_def by blast
  show ?thesis
    unfolding opened_at_def e(1-3) using k e(4,5)
    by (intro exI[of _ k] exI[of _ l] exI[of _ rv] exI[of _ mx]) simp
qed

lemma pruned_at_later:
  "pruned_at env w w' \<Longrightarrow> w_redis v' = w_redis w' \<Longrightarrow> w_redis v = w_redis w \<Longrightarrow>
    w_tick v \<le> w_tick w \<Longrightarrow> w_tick w' \<le> w_tick v' \<Longrightarrow> pruned_at env v v'"
  unfolding pruned_at_def by (auto intro: le_trans less_le_trans)

lemma admission_quiet:
  assumes q: "quiet env" "redis_answers env"
    and v: "\<forall>s \<in> set (licenses (w_db w)). valid_session (l_id s) (l_sessionRevision s)"
    and run: "admission license b env w = (res, w')"
  shows "w_tick w \<le> w_tick w' \<and>
    ((\<exists>e. res = Inl e) \<and> w_local w' = w_local w \<and> pruned_at env w w' \<or> opened_at env b w w')"
proof -
  obtain chk w1 where chk: "admission_checks license b env w = (chk, w1)" by fastforce
  have s1: "same_redis w w1" using stepsD[OF admission_checks_steps q(1) chk] .
  show ?thesis
  proof (cases chk)
    case (Inl e)
    then show ?thesis
      using run chk s1 by (auto simp: admission_def bindIO_def same_redis_def pruned_at_def)
  next
    case (Inr ce)
    obtain current existing where ce: "ce = (current, existing)" by (cases ce)
    obtain op w2 where op: "open_session current b env w1 = (op, w2)" by fastforce
    have "valid_session (l_id current) (l_sessionRevision current)"
      using admission_checks_found[OF q(1)] chk Inr ce v by fastforce
    note op' = open_session_quiet[OF q this op]
    show ?thesis
    proof (cases op)
      case (Inl e)
      then have "res = Inl e" "w' = w2" using run chk Inr ce op by (auto simp: admission_def bindIO_def)
      with op' Inl s1 show ?thesis
        by (auto simp: same_redis_def intro: pruned_at_later)
    next
      case opened: (Inr u)
      have "bindIO (start_trial current) (\<lambda>admittedLicense.
          bindIO (register_device current b existing) (\<lambda>_. returnIO admittedLicense)) env w2 = (res, w')"
        using run chk Inr ce op opened by (simp add: admission_def bindIO_def)
      moreover have "steps quiet same_redis (bindIO (start_trial current) (\<lambda>admittedLicense.
          bindIO (register_device current b existing) (\<lambda>_. returnIO admittedLicense)))"
        unfolding start_trial_def register_device_def
        by (intro redis_kept.steps_rules steps_same_redis_db)
      ultimately have "same_redis w2 w'" using q(1) by (auto dest: stepsD)
      with op' opened s1 show ?thesis
        by (auto simp: same_redis_def intro: opened_at_later)
    qed
  qed
qed

lemma transaction_quiet:
  assumes q: "quiet env" and run: "transaction m env w = (res, w')"
  shows "res = Inl Unavailable \<and> w' = w\<lparr>w_tick := Suc (w_tick w)\<rparr> \<or>
    (\<exists>r w2. m env (w\<lparr>w_tick := Suc (w_tick w)\<rparr>) = (r, w2) \<and> w_redis w' = w_redis w2 \<and>
      w_local w' = w_local w2 \<and> w_tick w2 \<le> w_tick w' \<and>
      (res = r \<or> res = Inl Unavailable) \<and> (\<forall>e. r = Inl e \<longrightarrow> res = r) \<and>
      ((\<exists>e. r = Inl e) \<longrightarrow> w_db w' = w_db w))"
proof (cases "e_dbOutcome env (w_tick w) = Lost_request")
  case True
  then show ?thesis using run q by (auto simp: transaction_def)
next
  case False
  obtain r w2 where m: "m env (w\<lparr>w_tick := Suc (w_tick w)\<rparr>) = (r, w2)" by fastforce
  then show ?thesis
    using run q False
    by (cases r) (auto simp: transaction_def Let_def split: outcome.splits)
qed

lemma removed_session_of:
  assumes inv: "session_inv ttl t r" and le: "t \<le> t'"
    and run: "removeSession sha256 t token b r = (res, r')"
    and own: "\<And>l rv h. session_of token t r = Some (l, rv, h) \<Longrightarrow> h = hashBinding sha256 b"
  shows "session_of token' t' r' = (if token' = token then None else session_of token' t' r)"
proof (cases "session_of token t r")
  case None
  then have "session_of token t' r = None" using session_of_later[OF le] by (metis option.exhaust)
  then show ?thesis using removeSession_cases[OF inv run] None by simp
next
  case (Some x)
  then show ?thesis
    using removeSession_cases[OF inv run] own by (cases x) (auto simp: drop_session_of)
qed

lemma pruned_no_new:
  assumes ready: "session_ready env w" and p: "pruned_at env w w'" and le: "w_tick w' \<le> w_tick w''"
    and r: "w_redis w'' = w_redis w'"
  shows "no_new_session env w w''"
proof (cases "w_redis w' = w_redis w")
  case True
  then show ?thesis by (simp add: no_new_session_def r)
next
  case False
  then obtain k l rv where k: "w_tick w \<le> k" "k < w_tick w'"
    and w': "w_redis w' = prune_members (session_set_key l) (show_int rv) (e_redisNow env k) (w_redis w)"
    using p unfolding pruned_at_def by blast
  have inv: "session_inv SESSION_TTL_SECONDS (e_redisNow env k) (w_redis w)"
    using ready k by (auto simp: session_ready_def intro: session_inv_later)
  have "e_redisNow env k \<le> t" if "e_redisNow env (w_tick w'') \<le> t" for t
  proof -
    have "e_redisNow env k \<le> e_redisNow env (w_tick w'')"
      using ready k le by (simp add: session_ready_def)
    then show ?thesis using that by simp
  qed
  then show ?thesis
    unfolding no_new_session_def r w'
    using prune_session_of[OF inv] by (auto split: option.splits if_splits)
qed

lemma opened_session_inv:
  assumes ready: "session_ready env w" and o: "opened_at env b w w'"
    and tok: "w_local w' = Some token"
  obtains k where "w_tick w \<le> k" "k < w_tick w'" "token \<noteq> []"
    "session_inv SESSION_TTL_SECONDS (e_redisNow env k) (w_redis w')"
    "\<forall>t l rv h. e_redisNow env k \<le> t \<longrightarrow> session_of token t (w_redis w') = Some (l, rv, h) \<longrightarrow>
      h = hashBinding (e_sha256 env) b"
    "\<forall>token' t x. e_redisNow env k \<le> t \<longrightarrow> token' \<noteq> token \<longrightarrow>
      session_of token' t (w_redis w') = Some x \<longrightarrow> session_of token' t (w_redis w) = Some x"
proof -
  from o obtain k l rv mx where k: "w_tick w \<le> k" "k < w_tick w'" "valid_session l rv"
      "e_uuid env k 0 = token"
    and run: "registerSession (e_sha256 env) token (e_redisNow env k) l rv b
        SESSION_TTL_SECONDS mx (w_redis w) = (Inr (Registered token), w_redis w')"
    using tok unfolding opened_at_def by auto
  have inv: "session_inv SESSION_TTL_SECONDS (e_redisNow env k) (w_redis w)"
    using ready k by (auto simp: session_ready_def intro: session_inv_later)
  have fresh: "token \<noteq> []" "fresh_token token (e_redisNow env k) (w_redis w)"
    using ready k by (auto simp: session_ready_def)
  have "session_inv SESSION_TTL_SECONDS (e_redisNow env k) (w_redis w')"
    by (rule registerSession_inv[OF inv k(3) _ fresh(2) run]) (simp add: SESSION_TTL_SECONDS_def)
  moreover note reg = registered_session_of(3)[OF inv k(3) _ run]
  have "\<forall>t l rv h. e_redisNow env k \<le> t \<longrightarrow> session_of token t (w_redis w') = Some (l, rv, h) \<longrightarrow>
      h = hashBinding (e_sha256 env) b"
    using reg[where token' = token] by (auto split: if_splits)
  moreover have "\<forall>token' t x. e_redisNow env k \<le> t \<longrightarrow> token' \<noteq> token \<longrightarrow>
      session_of token' t (w_redis w') = Some x \<longrightarrow> session_of token' t (w_redis w) = Some x"
    using reg by (auto split: option.splits if_splits)
  ultimately show thesis using that[OF k(1,2) fresh(1)] by blast
qed

lemma cleanup_no_new:
  assumes q: "quiet env" "redis_answers env" and ready: "session_ready env w"
    and o: "opened_at env b w w1" and tok: "w_local w1 = Some token"
    and run: "best_effort (remove_session token b) env w1 = (res, w')"
  shows "no_new_session env w w' \<and> w_tick w1 \<le> w_tick w' \<and> w_db w' = w_db w1"
proof -
  obtain k where k: "w_tick w \<le> k" "k < w_tick w1" "token \<noteq> []"
    and inv: "session_inv SESSION_TTL_SECONDS (e_redisNow env k) (w_redis w1)"
    and own: "\<forall>t l rv h. e_redisNow env k \<le> t \<longrightarrow> session_of token t (w_redis w1) = Some (l, rv, h) \<longrightarrow>
      h = hashBinding (e_sha256 env) b"
    and old: "\<forall>token' t x. e_redisNow env k \<le> t \<longrightarrow> token' \<noteq> token \<longrightarrow>
      session_of token' t (w_redis w1) = Some x \<longrightarrow> session_of token' t (w_redis w) = Some x"
    by (rule opened_session_inv[OF ready o tok])
  let ?k = "w_tick w1"
  have mono: "e_redisNow env i \<le> e_redisNow env j" if "i \<le> j" for i j
    using ready that by (simp add: session_ready_def)
  have inv': "session_inv SESSION_TTL_SECONDS (e_redisNow env ?k) (w_redis w1)"
    using inv mono k by (auto intro: session_inv_later)
  obtain x r' where rm: "removeSession (e_sha256 env) (e_redisNow env ?k) token b (w_redis w1) = (x, r')"
    by fastforce
  have w': "w' = w1\<lparr>w_tick := Suc ?k, w_redis := r'\<rparr>"
    using run q rm
    by (cases x) (auto simp: best_effort_def remove_session_def redis_call_def catchIO_def bindIO_def
        redis_answers_def)
  have "session_of token' t (w_redis w) = Some y"
    if t: "e_redisNow env (Suc ?k) \<le> t" and y: "session_of token' t r' = Some y" for token' t y
  proof -
    have le: "e_redisNow env ?k \<le> t" "e_redisNow env k \<le> t"
      using t mono[of ?k "Suc ?k"] mono[of k "Suc ?k"] k by auto
    have "h = hashBinding (e_sha256 env) b"
      if "session_of token (e_redisNow env ?k) (w_redis w1) = Some (l, rv, h)" for l rv h
      using own mono[of k ?k] that k by auto
    then have "session_of token' t r' = (if token' = token then None else session_of token' t (w_redis w1))"
      by (rule removed_session_of[OF inv' le(1) rm])
    then have "token' \<noteq> token" and "session_of token' t (w_redis w1) = Some y"
      using y by (simp_all split: if_split_asm)
    then show ?thesis using old le(2) by blast
  qed
  then show ?thesis by (auto simp: no_new_session_def w')
qed

lemma admitActivation_Inl:
  assumes q: "quiet env" "redis_answers env" and ready: "session_ready env w"
    and run: "admitActivation l b env w = (Inl e, w')"
  shows "no_new_session env w w' \<and> (e \<noteq> Unavailable \<longrightarrow> w_db w' = w_db w)"
proof -
  let ?w0 = "w\<lparr>w_local := None\<rparr>"
  let ?w1 = "?w0\<lparr>w_tick := Suc (w_tick w)\<rparr>"
  obtain t w2 where t: "transaction (admission l b) env ?w0 = (t, w2)" by fastforce
  have val: "\<forall>s \<in> set (licenses (w_db ?w1)). valid_session (l_id s) (l_sessionRevision s)"
    using ready by (simp add: session_ready_def)
  have body: "pruned_at env w w2 \<and> w_local w2 = None \<and> (\<exists>e. t = Inl e) \<or> opened_at env b w w2"
  proof -
    from transaction_quiet[OF q(1) t] consider
        (lost) "t = Inl Unavailable" "w2 = ?w1"
      | (ran) r w3 where "admission l b env ?w1 = (r, w3)" "w_redis w2 = w_redis w3"
        "w_local w2 = w_local w3" "w_tick w3 \<le> w_tick w2" "\<forall>e. r = Inl e \<longrightarrow> t = r"
      by auto
    then show ?thesis
    proof cases
      case lost
      then show ?thesis by (simp add: pruned_at_def)
    next
      case (ran r w3)
      show ?thesis
        using admission_quiet[OF q val ran(1)] ran(2-)
          pruned_at_later[of env ?w1 w3 w2 w] opened_at_later[of env b ?w1 w3 w2 w]
        by auto
    qed
  qed
  have db: "t = Inl e' \<Longrightarrow> e' \<noteq> Unavailable \<Longrightarrow> w_db w2 = w_db w" for e'
    using transaction_quiet[OF q(1) t] by auto
  show ?thesis
  proof (cases t)
    case (Inl e')
    have h: "bindIO (case w_local w2 of None \<Rightarrow> returnIO ()
          | Some token \<Rightarrow> if token = [] then returnIO () else best_effort (remove_session token b)) (\<lambda>_.
        throwIO e') env w2 = (Inl e, w')"
      using run t Inl by (auto simp: admitActivation_def bindIO_def catchIO_def split: sum.splits prod.splits)
    show ?thesis
    proof (cases "w_local w2")
      case None
      then have "w' = w2" "e = e'" using h by simp_all
      moreover have "pruned_at env w w2"
        using body None by (auto simp: opened_at_def)
      ultimately show ?thesis using pruned_no_new[OF ready, of w2 w2] db Inl by simp
    next
      case (Some token)
      then have o: "opened_at env b w w2" using body by auto
      have "token \<noteq> []" by (rule opened_session_inv[OF ready o Some])
      then have "best_effort (remove_session token b) env w2 = (Inr (), w')" "e = e'"
        using h Some best_effort_total[of "remove_session token b" env w2] by (auto simp: bindIO_def)
      then show ?thesis using cleanup_no_new[OF q ready o Some] db Inl by auto
    qed
  next
    case (Inr a)
    then have o: "opened_at env b w w2" using body by auto
    then obtain token where tok: "w_local w2 = Some token" by (auto simp: opened_at_def)
    have ne: "token \<noteq> []" by (rule opened_session_inv[OF ready o tok])
    obtain w3 where touch: "touch_seen (l_id a) b env w2 = (Inr (), w3)"
      using best_effort_total unfolding touch_seen_def by metis
    have "steps (\<lambda>_. True) same_local (touch_seen (l_id a) b)"
      unfolding touch_seen_def best_effort_def find_device_def
      by (intro local_kept.steps_rules steps_same_local_calls)
    then have "w_local w3 = Some token" using touch tok by (auto simp: same_local_def dest: stepsD)
    then show ?thesis using run t Inr touch ne by (simp add: admitActivation_def bindIO_def catchIO_def)
  qed
qed

lemma session_ready_later:
  "session_ready env w \<Longrightarrow> same_redis w w' \<Longrightarrow> same_tables w w' \<Longrightarrow> session_ready env w'"
  by (auto simp: session_ready_def same_redis_def same_tables_def but_activity_def intro: session_inv_later)

lemma no_new_session_extend:
  assumes "session_ready env w" "same_redis w u" "no_new_session env u v" "same_redis v w'"
  shows "no_new_session env w w'"
  unfolding no_new_session_def
proof (intro allI impI)
  fix token t x
  assume t: "e_redisNow env (w_tick w') \<le> t" and s: "session_of token t (w_redis w') = Some x"
  have "e_redisNow env (w_tick v) \<le> e_redisNow env (w_tick w')"
    using assms(1,4) by (simp add: session_ready_def same_redis_def)
  then have "e_redisNow env (w_tick v) \<le> t" "session_of token t (w_redis v) = Some x"
    using t s assms(4) by (simp_all add: same_redis_def)
  then have "session_of token t (w_redis u) = Some x"
    using assms(3) unfolding no_new_session_def by blast
  then show "session_of token t (w_redis w) = Some x"
    using assms(2) by (simp add: same_redis_def)
qed

lemma rejected_run:
  "activation_rejected l b e env w =
    (Inl e, snd (service_capture (rejected_event License_activation_rejected e l b) env w))"
proof -
  obtain u where "service_capture (rejected_event License_activation_rejected e l b) env w = (Inr (), u)"
    using best_effort_total unfolding service_capture_def by metis
  then show ?thesis by (simp add: activation_rejected_def bindIO_def)
qed

lemma service_capture_kept:
  "quiet env \<Longrightarrow> same_redis w (snd (service_capture e env w)) \<and> same_tables w (snd (service_capture e env w))"
  using service_capture_steps by (auto simp: steps_def)

section \<open>A live session\<close>

lemma find_by_id_calm:
  "calm env \<Longrightarrow> find_by_id i env w =
    (Inr (findByIdWithAllowlists i (w_db w)),
     w\<lparr>w_tick := (if license_findById i (w_db w) = None then Suc (w_tick w) else w_tick w + 3)\<rparr>)"
  by (auto simp: find_by_id_def load_with_allowlists_def findById_io_def attach_allowlists_def
      bindIO_def findByIdWithAllowlists_def license_allowlists_def split: option.splits)

lemma refused_run [simp]:
  "bindIO (removeSessionBestEffort tok b) (\<lambda>_. throwIO e) env w \<noteq> (Inr x, w')"
  by (simp add: bindIO_Inr_iff)

lemma findById_id: "license_findById i d = Some l \<Longrightarrow> l_id l = i"
  by (auto simp: license_findById_def dest: first_row_SomeD)

lemma require_calm:
  assumes "calm env"
  shows "(\<exists>w'. requireActiveSessionLicense i rv tok b env w = (Inr la, w')) \<longleftrightarrow>
    findByIdWithAllowlists i (w_db w) = Some la \<and> l_sessionRevision la = rv \<and>
    usable la b (e_now env (4 + w_tick w))"
proof (cases "license_findById i (w_db w)")
  case None
  then have "requireActiveSessionLicense i rv tok b env w =
      bindIO (removeSessionBestEffort tok b) (\<lambda>_. throwIO invalidSession) env
        (w\<lparr>w_tick := Suc (w_tick w)\<rparr>)"
    using assms by (simp add: requireActiveSessionLicense_def findById_io_def bindIO_run Let_def)
  then show ?thesis using None by (simp add: findByIdWithAllowlists_def)
next
  case (Some l)
  let ?la = "license_allowlists (w_db w) l"
  let ?w = "w\<lparr>w_tick := 4 + w_tick w\<rparr>"
  have la: "findByIdWithAllowlists i (w_db w) = Some ?la"
    using Some by (simp add: findByIdWithAllowlists_def)
  have run: "requireActiveSessionLicense i rv tok b env w =
    (if l_sessionRevision ?la \<noteq> rv
     then bindIO (removeSessionBestEffort tok b) (\<lambda>_. throwIO invalidSession)
     else bindIO (catchIO (assert_usable ?la b) (\<lambda>error.
        bindIO (removeSessionBestEffort tok b) (\<lambda>_. throwIO error))) (\<lambda>_. returnIO ?la)) env ?w"
    using assms Some la findById_id[OF Some]
    by (simp add: requireActiveSessionLicense_def findById_io_def bindIO_run find_by_id_calm Let_def)
  show ?thesis
  proof (cases "l_sessionRevision ?la = rv")
    case False
    then show ?thesis
      using run la by auto
  next
    case rv: True
    obtain res where us: "assert_usable ?la b env ?w = (res, ?w)"
      using assert_usable_world by (metis surj_pair)
    show ?thesis
    proof (cases res)
      case (Inl e)
      have "\<not> usable ?la b (e_now env (4 + w_tick w))"
        using us Inl assert_usable_Inr[of ?la b env ?w "()" ?w] by auto
      then show ?thesis
        using run rv la us Inl by (auto simp: catchIO_fail bindIO_Inr_iff)
    next
      case (Inr u)
      then have "usable ?la b (e_now env (4 + w_tick w))"
        using us assert_usable_Inr[of ?la b env ?w u ?w] by simp
      then show ?thesis
        using run rv la us Inr by (auto simp: catchIO_run bindIO_run)
    qed
  qed
qed

lemma live_license_calm:
  assumes "calm env"
    and "session_inv SESSION_TTL_SECONDS (e_redisNow env (w_tick w)) (w_redis w)"
  shows "(\<exists>w'. live_license tok b env w = (Inr la, w')) \<longleftrightarrow>
    (\<exists>i rv. session_of tok (e_redisNow env (w_tick w)) (w_redis w) =
        Some (i, rv, hashBinding (e_sha256 env) b) \<and>
      findByIdWithAllowlists i (w_db w) = Some la \<and> l_sessionRevision la = rv \<and>
      usable la b (e_now env (5 + w_tick w)))"
proof -
  let ?t = "e_redisNow env (w_tick w)"
  obtain res r' where ref: "refreshSession (e_sha256 env) ?t tok b SESSION_TTL_SECONDS (w_redis w) = (res, r')"
    by fastforce
  let ?w1 = "w\<lparr>w_tick := Suc (w_tick w), w_redis := r'\<rparr>"
  have call: "refresh_session tok b env w = (res, ?w1)"
    using assms(1) ref by (simp add: refresh_session_def calm_redis_call)
  have "0 < SESSION_TTL_SECONDS" by (simp add: SESSION_TTL_SECONDS_def)
  note ref' = refreshSession_cases[OF assms(2) this ref]
  show ?thesis
  proof (cases "\<exists>i rv. session_of tok ?t (w_redis w) = Some (i, rv, hashBinding (e_sha256 env) b)")
    case True
    then obtain i rv where s: "session_of tok ?t (w_redis w) = Some (i, rv, hashBinding (e_sha256 env) b)"
      by blast
    then have "res = Inr (Some \<lparr>rs_licenseId = i, rs_sessionRevision = rv, rs_token = tok\<rparr>)"
      using ref' by simp
    then have "live_license tok b env w = requireActiveSessionLicense i rv tok b env ?w1"
      using call by (simp add: live_license_def bindIO_run)
    then show ?thesis using require_calm[OF assms(1), of i rv tok b ?w1 la] s by auto
  next
    case False
    then have "res = Inr None" using ref' by (auto split: option.splits if_splits)
    then show ?thesis using call False by (simp add: live_license_def bindIO_run)
  qed
qed

lemma heartbeat_tail:
  "\<exists>w'. bindIO (touch_seen i b) (\<lambda>_. bindIO (service_capture ev) (\<lambda>_. returnIO x)) env w = (Inr x, w')"
proof -
  obtain w1 where "touch_seen i b env w = (Inr (), w1)"
    using best_effort_total unfolding touch_seen_def by metis
  moreover obtain w2 where "service_capture ev env w1 = (Inr (), w2)"
    using best_effort_total unfolding service_capture_def by metis
  ultimately show ?thesis by (simp add: bindIO_run)
qed

lemma heartbeat_result:
  "(\<exists>w'. heartbeat tok deviceId ip env w = (Inr res, w')) \<longleftrightarrow>
    (\<exists>b la. binding ip deviceId = Inr b \<and> (\<exists>w1. live_license tok b env w = (Inr la, w1)) \<and>
      res = sessionResult la tok)"
proof
  assume "\<exists>w'. heartbeat tok deviceId ip env w = (Inr res, w')"
  then obtain b la w1 w' where "binding ip deviceId = Inr b" "live_license tok b env w = (Inr la, w1)"
    "bindIO (touch_seen (l_id la) b) (\<lambda>_. bindIO (service_capture (client_event License_heartbeat (Some la) b))
      (\<lambda>_. returnIO (sessionResult la tok))) env w1 = (Inr res, w')"
    by (auto simp: heartbeat_def bindIO_Inr_iff)
  then show "\<exists>b la. binding ip deviceId = Inr b \<and> (\<exists>w1. live_license tok b env w = (Inr la, w1)) \<and>
      res = sessionResult la tok"
    by (auto simp: bindIO_Inr_iff)
next
  assume "\<exists>b la. binding ip deviceId = Inr b \<and> (\<exists>w1. live_license tok b env w = (Inr la, w1)) \<and>
      res = sessionResult la tok"
  then obtain b la w1 where "binding ip deviceId = Inr b" "live_license tok b env w = (Inr la, w1)"
    "res = sessionResult la tok" by blast
  then show "\<exists>w'. heartbeat tok deviceId ip env w = (Inr res, w')"
    using heartbeat_tail[of "l_id la" b "client_event License_heartbeat (Some la) b" "sessionResult la tok" env w1]
    by (simp add: heartbeat_def bindIO_run)
qed

section \<open>Charging\<close>

lemma validateUsageInput_Inr:
  "validateUsageInput input = Inr n \<longleftrightarrow>
    ci_units input = Integral n \<and> 1 \<le> n \<and> n \<le> MAX_LICENSE_LIMIT \<and>
    0 < length (ci_meter input) \<and> length (ci_meter input) \<le> 128 \<and>
    0 < length (ci_eventId input) \<and> length (ci_eventId input) \<le> 128"
  by (auto simp: validateUsageInput_def split: jsnum.splits if_splits)

lemma usage_rejected_never: "usage_rejected input l b e env w \<noteq> (Inr x, w')"
  by (simp add: usage_rejected_def bindIO_Inr_iff)

lemma charge_Inr:
  assumes "charge license b input units env w = (Inr res, w')"
  obtains outcome m e d d' where "l_type license = Metered" "d = w_db (interfere env w)"
    "consume (e_sha256 env) (e_uuid env (w_tick w) 0) (e_now env (w_tick w)) (l_id license)
      (ci_meter input) units (ci_eventId input) d = Inr (outcome, d')"
    "outcome = Consumed m e \<or> outcome = Replayed m e"
    "res = \<lparr>cr_meter = m_name m, cr_units = units, cr_eventId = ci_eventId input,
      cr_remaining = m_balance m\<rparr>"
    "quiet env \<longrightarrow> but_activity d' (w_db w')"
proof -
  from assms obtain outcome w1 where met: "l_type license = Metered"
    and call: "db_call (\<lambda>env k. consume (e_sha256 env) (e_uuid env k 0) (e_now env k)
         (l_id license) (ci_meter input) units (ci_eventId input)) env w = (Inr outcome, w1)"
    and rest: "(let receipt = (\<lambda>meter. \<lparr>cr_meter = m_name meter, cr_units = units,
             cr_eventId = ci_eventId input, cr_remaining = m_balance meter\<rparr>) in
       case outcome of
         Conflict \<Rightarrow> throwIO (DomainError
           ''eventId was already used with a different usage request'' 409 USAGE_EVENT_CONFLICT)
       | Not_found \<Rightarrow> throwIO (DomainError ''Meter not found'' 404 METER_NOT_FOUND)
       | Archived \<Rightarrow> throwIO (DomainError ''Meter is archived'' 409 METER_ARCHIVED)
       | Exhausted \<Rightarrow> throwIO (DomainError ''Meter balance is exhausted'' 403 METER_EXHAUSTED)
       | Consumed meter _ \<Rightarrow>
           bindIO (askIO e_sha256) (\<lambda>sha256.
           bindIO (service_capture ((client_event Usage_consumed (Some license) b)
               \<lparr>na_details := Some (usage_details sha256 (m_name meter) (Integral units) (ci_eventId input)
                 @ [(''remaining'', JNum (Integral (m_balance meter)))])\<rparr>)) (\<lambda>_.
           returnIO (receipt meter)))
       | Replayed meter _ \<Rightarrow> returnIO (receipt meter)) env w1 = (Inr res, w')"
    by (auto simp: charge_def bindIO_Inr_iff split: if_splits)
  from call obtain d' where run: "consume (e_sha256 env) (e_uuid env (w_tick w) 0) (e_now env (w_tick w))
      (l_id license) (ci_meter input) units (ci_eventId input) (w_db (interfere env w)) = Inr (outcome, d')"
    and w1: "w_db w1 = d'"
    by (auto simp: db_call_Inr)
  have "\<exists>m e. (outcome = Consumed m e \<or> outcome = Replayed m e) \<and>
      res = \<lparr>cr_meter = m_name m, cr_units = units, cr_eventId = ci_eventId input,
        cr_remaining = m_balance m\<rparr> \<and> (quiet env \<longrightarrow> but_activity d' (w_db w'))"
    using rest w1 stepsD[OF service_capture_steps(2)]
    by (cases outcome) (auto simp: bindIO_Inr_iff same_tables_def)
  then show thesis using that met run by blast
qed

section \<open>A small world\<close>

definition sample_env :: env where
  "sample_env = \<lparr>e_now = (\<lambda>k. 1000 + int k), e_dbNow = (\<lambda>k. 1000 + int k),
    e_redisNow = (\<lambda>k. 1000 + int k),
    e_uuid = (\<lambda>k j. CHR ''u'' # show_nat k @ CHR ''.'' # show_nat j),
    e_dbOutcome = (\<lambda>_. Done), e_redisOutcome = (\<lambda>_. Done), e_others = (\<lambda>_ s. s),
    e_sha256 = (\<lambda>s. s), e_toISO = show_int, e_parseDate = (\<lambda>_. None),
    e_random = (\<lambda>k. CHR ''r'' # show_nat k)\<rparr>"

definition sample_world :: "license_type \<Rightarrow> world" where
  "sample_world ty = \<lparr>w_db = sample_db ty, w_redis = empty_redis, w_tick = 0, w_local = None\<rparr>"

text \<open>A world in which the licence has the meter of the small database and a live session.\<close>

definition session_world :: "license_type \<Rightarrow> world" where
  "session_world ty = (sample_world ty)
    \<lparr>w_db := (sample_db ty)\<lparr>meters := meters sample_meter_db, ledger := ledger sample_meter_db\<rparr>,
     w_redis := snd (registerSession id ''tok'' 900 ''L'' 0 \<lparr>sb_ip = ''1.2.3.4'', sb_deviceId = ''dev''\<rparr>
       SESSION_TTL_SECONDS 1 empty_redis)\<rparr>"

lemma sample_calm: "calm sample_env"
  by (simp add: calm_def quiet_def sample_env_def)

lemma run_Inr:
  "(case fst (m env w) of Inr r \<Rightarrow> P r | Inl _ \<Rightarrow> False) \<Longrightarrow> \<exists>r w'. m env w = (Inr r, w') \<and> P r"
  by (cases "m env w") (auto split: sum.splits)

lemma run_Inl:
  "(case fst (m env w) of Inl e \<Rightarrow> P e | Inr _ \<Rightarrow> False) \<Longrightarrow> \<exists>e w'. m env w = (Inl e, w') \<and> P e"
  by (cases "m env w") (auto split: sum.splits)

definition locked_db :: "string \<Rightarrow> session_binding \<Rightarrow> env \<Rightarrow> world \<Rightarrow> db" where
  "locked_db licenseKey b env w = w_db (interfere env (world_at_lock licenseKey b env w))"

text \<open>The world in which the transaction of an activation runs.\<close>

definition locked_world :: "string \<Rightarrow> session_binding \<Rightarrow> env \<Rightarrow> world \<Rightarrow> world" where
  "locked_world licenseKey b env w = interfere env (world_at_lock licenseKey b env w)"

lemma locked_world_quiet:
  assumes q: "quiet env"
  shows "w_redis (locked_world licenseKey b env w) = w_redis w"
    and "w_tick w \<le> w_tick (locked_world licenseKey b env w)"
    and "licenses (w_db (locked_world licenseKey b env w)) = licenses (w_db w)"
proof -
  let ?m = "bindIO (find_by_key licenseKey)
      (\<lambda>license. service_capture (client_event License_activation_attempted license b))"
  have "steps quiet same_redis ?m" "steps quiet same_tables ?m"
    by (intro redis_kept.steps_rules find_by_key_steps service_capture_steps)
      (intro tables_kept.steps_rules find_by_key_steps service_capture_steps)
  then have "same_redis w (snd (?m env w))" "same_tables w (snd (?m env w))"
    using q by (simp_all add: steps_def)
  then show "w_redis (locked_world licenseKey b env w) = w_redis w"
    "w_tick w \<le> w_tick (locked_world licenseKey b env w)"
    "licenses (w_db (locked_world licenseKey b env w)) = licenses (w_db w)"
    using q by (simp_all add: locked_world_def world_at_lock_def same_redis_def same_tables_def but_activity_def)
qed

lemma opened_live:
  assumes q: "quiet env" and ready: "session_ready env w"
    and lock: "w_redis v = w_redis w" "w_tick w \<le> w_tick v" "licenses (w_db v) = licenses (w_db w)"
    and chk: "admission_checks l b (isolated env) v = (Inr (current, existing), w3)"
    and op: "session_opened env b current w3 w4 token" and after: "w_redis w' = w_redis w4"
  shows "session_live env b current (w_tick w3) (w_redis w) (w_redis w') token"
proof -
  have chk': "admission_checks l b env v = (Inr (current, existing), w3)" using chk q by simp
  have w3: "w_redis w3 = w_redis w" "w_tick w \<le> w_tick w3"
    using stepsD[OF admission_checks_steps q chk'] lock by (auto simp: same_redis_def)
  have "session_inv SESSION_TTL_SECONDS (e_redisNow env (w_tick w3)) (w_redis w)"
    using ready w3 by (auto simp: session_ready_def intro: session_inv_later)
  moreover have "valid_session (l_id current) (l_sessionRevision current)"
    using admission_checks_found[OF q chk'] ready lock(3) by (auto simp: session_ready_def)
  ultimately show ?thesis
    using op q w3(1) unfolding after by (auto simp: session_opened_def Let_def)
qed

lemma activate_admitted:
  assumes "activate licenseKey deviceId ip env w = (Inr res, w')"
  shows "\<exists>b l current existing a w2 w3 w4. binding ip deviceId = Inr b \<and>
    fst (find_by_key licenseKey env w) = Inr (Some l) \<and>
    transaction (admission l b) env (world_at_lock licenseKey b env w) = (Inr a, w2) \<and>
    l_id current = l_id l \<and> l_sessionRevision current = l_sessionRevision l \<and>
    admission_checks l b (isolated env) (locked_world licenseKey b env w) =
      (Inr (current, existing), w3) \<and>
    open_session current b (isolated env) w3 = (Inr (), w4) \<and>
    session_opened env b current w3 w4 (sr_sessionToken res) \<and>
    admitted env b current (Suc (w_tick (locked_world licenseKey b env w))) (w_tick w4)
      (locked_db licenseKey b env w) (w_db w2) \<and>
    (quiet env \<and> session_ready env w \<longrightarrow>
      session_live env b current (w_tick w3) (w_redis w) (w_redis w') (sr_sessionToken res)) \<and>
    sr_licenseType res = l_type current \<and> sr_metadata res = l_metadata current"
proof -
  obtain b l a token w2 where b: "binding ip deviceId = Inr b"
    and l: "fst (find_by_key licenseKey env w) = Inr (Some l)"
    and t: "transaction (admission l b) env (world_at_lock licenseKey b env w) = (Inr a, w2)"
    and tok: "w_local w2 = Some token" and res: "res = sessionResult a token"
    and q: "quiet env \<longrightarrow> w_redis w' = w_redis w2"
    by (rule activate_Inr[OF assms])
  let ?v = "locked_world licenseKey b env w"
  from t obtain w5 where adm: "admission l b (isolated env) ?v = (Inr a, w5)"
    and w2: "w_db w2 = w_db w5" "w_local w2 = w_local w5" "w_redis w2 = w_redis w5"
    by (auto simp: transaction_Inr locked_world_def)
  obtain current existing token' w3 w4 where
    chk: "admission_checks l b (isolated env) ?v = (Inr (current, existing), w3)"
    and ses: "open_session current b (isolated env) w3 = (Inr (), w4)"
    and op: "session_opened env b current w3 w4 token'" and loc: "w_local w5 = Some token'"
    and ad: "admitted env b current (Suc (w_tick ?v)) (w_tick w4) (w_db ?v) (w_db w5)"
    and a: "l_id a = l_id current" "l_type a = l_type current" "l_metadata a = l_metadata current"
    and redis: "quiet env \<longrightarrow> w_redis w5 = w_redis w4"
    by (rule admission_Inr[OF adm])
  have token: "token' = sr_sessionToken res" using tok w2 loc res by (simp add: sessionResult_def)
  have "session_live env b current (w_tick w3) (w_redis w) (w_redis w') (sr_sessionToken res)"
    if "quiet env" "session_ready env w"
    using opened_live[OF that locked_world_quiet[OF that(1)] chk op[unfolded token], of w'] q redis w2(3) that(1)
    by simp
  moreover have "w_db ?v = locked_db licenseKey b env w" by (simp add: locked_db_def locked_world_def)
  ultimately show ?thesis
    using b l t admission_checks_Inr(2,3)[OF chk] chk ses op[unfolded token] ad a w2(1) res
    by (intro exI[of _ b] exI[of _ l] exI[of _ current] exI[of _ existing] exI[of _ a] exI[of _ w2]
        exI[of _ w3] exI[of _ w4]) (simp add: sessionResult_def)
qed

lemma sample_activation:
  "\<exists>r w'. activate ''H'' ''dev'' ''1.2.3.4'' sample_env (sample_world Trial) = (Inr r, w') \<and>
    sr_sessionToken r = ''u8.0''"
  by (rule run_Inr) code_simp

lemma activate_Inl:
  assumes q: "quiet env" "redis_answers env" and ready: "session_ready env w"
    and run: "activate licenseKey deviceId ip env w = (Inl e, w')"
  shows "no_new_session env w w' \<and> (e \<noteq> Unavailable \<longrightarrow> but_activity (w_db w) (w_db w'))"
proof (cases "binding ip deviceId")
  case (Inl e')
  then show ?thesis using run by (auto simp: activate_def bindIO_def no_new_session_def)
next
  case b: (Inr b)
  obtain f w1 where find: "find_by_key licenseKey env w = (f, w1)" by fastforce
  have s1: "same_redis w w1" "same_tables w w1"
    using stepsD[OF find_by_key_steps(1) q(1) find] stepsD[OF find_by_key_steps(2) q(1) find] by auto
  have rejected: ?thesis
    if "same_redis w u" "same_tables w u" "w' = snd (service_capture ev env u)" for ev u
    using no_new_session_extend[OF ready that(1), of u w'] service_capture_kept[OF q(1), of u ev] that
    by (auto simp: same_tables_def no_new_session_def intro: but_activity_trans)
  show ?thesis
  proof (cases f)
    case (Inl e')
    then have "w' = snd (service_capture (rejected_event License_activation_rejected e' (None :: license_with_allowlists option) b) env w1)"
      using run b find by (auto simp: activate_def bindIO_def catchIO_fail rejected_run)
    then show ?thesis by (rule rejected[OF s1])
  next
    case (Inr l)
    obtain w2 where cap: "service_capture (client_event License_activation_attempted l b) env w1 = (Inr (), w2)"
      using best_effort_total unfolding service_capture_def by metis
    have s2: "same_redis w w2" "same_tables w w2"
      using s1 stepsD[OF service_capture_steps(1) q(1) cap] stepsD[OF service_capture_steps(2) q(1) cap]
        redis_kept.trans tables_kept.trans by blast+
    show ?thesis
    proof (cases l)
      case None
      then show ?thesis
        using run b find Inr cap
        by (intro rejected[OF s2, where ev = "rejected_event License_activation_rejected
              (DomainError ''Invalid license key'' 403 LICENSE_INVALID) (None :: license_with_allowlists option) b"])
          (auto simp: activate_def bindIO_run catchIO_run rejected_run)
    next
      case (Some la)
      obtain adm w3 where adm: "admitActivation la b env w2 = (adm, w3)" by fastforce
      show ?thesis
      proof (cases adm)
        case (Inr x)
        obtain a tok where x: "x = (a, tok)" by (cases x)
        obtain w4 where "service_capture (client_event License_activation_succeeded (Some a) b) env w3 = (Inr (), w4)"
          using best_effort_total unfolding service_capture_def by metis
        then show ?thesis
          using run b find \<open>f = Inr l\<close> cap Some adm Inr x
          by (simp add: activate_def bindIO_run catchIO_run)
      next
        case (Inl e')
        then have rej: "e = e'" "w' = snd (service_capture (rejected_event License_activation_rejected e' (Some la) b) env w3)"
          using run b find \<open>f = Inr l\<close> cap Some adm
          by (auto simp: activate_def bindIO_run bindIO_fail catchIO_run catchIO_fail rejected_run)
        note inl = admitActivation_Inl[OF q session_ready_later[OF ready s2] adm[unfolded Inl]]
        show ?thesis
          using inl rej service_capture_kept[OF q(1), of w3] s2 no_new_session_extend[OF ready s2(1), of w3 w']
          by (auto simp: same_tables_def intro: but_activity_trans)
      qed
    qed
  qed
qed

lemma live_license_steps: "steps quiet same_db (live_license tok b)"
  unfolding live_license_def refresh_session_def requireActiveSessionLicense_def findById_io_def
    find_by_id_def load_with_allowlists_def attach_allowlists_def removeSessionBestEffort_def
    best_effort_def remove_session_def assert_usable_def Let_def
  by (intro db_kept.steps_rules steps_same_db_redis)

lemma service_consume_Inr:
  assumes calm: "calm env"
    and inv: "session_inv SESSION_TTL_SECONDS (e_redisNow env (w_tick w)) (w_redis w)"
    and run: "service_consume tok deviceId ip input env w = (Inr res, w')"
  shows "\<exists>b la entryId now outcome m e d' n. binding ip deviceId = Inr b \<and>
    session_of tok (e_redisNow env (w_tick w)) (w_redis w) =
      Some (l_id la, l_sessionRevision la, hashBinding (e_sha256 env) b) \<and>
    findByIdWithAllowlists (l_id la) (w_db w) = Some la \<and> usable la b (e_now env (5 + w_tick w)) \<and>
    l_type la = Metered \<and> ci_units input = Integral n \<and> 1 \<le> n \<and> n \<le> MAX_LICENSE_LIMIT \<and>
    consume (e_sha256 env) entryId now (l_id la) (trim (ci_meter input)) n (trim (ci_eventId input))
      (w_db w) = Inr (outcome, d') \<and>
    (outcome = Consumed m e \<or> outcome = Replayed m e) \<and> but_activity d' (w_db w') \<and>
    cr_units res = n \<and> cr_remaining res = m_balance m"
proof -
  let ?input = "input\<lparr>ci_meter := trim (ci_meter input), ci_eventId := trim (ci_eventId input)\<rparr>"
  from run obtain b n la w1 where b: "binding ip deviceId = Inr b"
    and n: "validateUsageInput ?input = Inr n"
    and live: "live_license tok b env w = (Inr la, w1)"
    and ch: "charge la b ?input n env w1 = (Inr res, w')"
    by (auto simp: service_consume_def bindIO_Inr_iff catchIO_Inr_iff usage_rejected_never Let_def)
  from live live_license_calm[OF calm inv, of tok b la] obtain i where
    s: "session_of tok (e_redisNow env (w_tick w)) (w_redis w) =
        Some (i, l_sessionRevision la, hashBinding (e_sha256 env) b)"
    and la: "findByIdWithAllowlists i (w_db w) = Some la" and us: "usable la b (e_now env (5 + w_tick w))"
    by blast
  have i: "l_id la = i"
    using la findById_id by (auto simp: findByIdWithAllowlists_def license_allowlists_def)
  have db: "w_db w1 = w_db w"
    using stepsD[OF live_license_steps calm_quiet[OF calm] live] by (simp add: same_db_def)
  obtain outcome m e d d' where met: "l_type la = Metered" and d: "d = w_db (interfere env w1)"
    and con: "consume (e_sha256 env) (e_uuid env (w_tick w1) 0) (e_now env (w_tick w1)) (l_id la)
      (ci_meter ?input) n (ci_eventId ?input) d = Inr (outcome, d')"
    and out: "outcome = Consumed m e \<or> outcome = Replayed m e"
    and res: "res = \<lparr>cr_meter = m_name m, cr_units = n, cr_eventId = ci_eventId ?input,
      cr_remaining = m_balance m\<rparr>"
    and act: "quiet env \<longrightarrow> but_activity d' (w_db w')"
    by (rule charge_Inr[OF ch])
  have "consume (e_sha256 env) (e_uuid env (w_tick w1) 0) (e_now env (w_tick w1)) (l_id la)
      (trim (ci_meter input)) n (trim (ci_eventId input)) (w_db w) = Inr (outcome, d')"
    using con d db calm_quiet[OF calm] by simp
  moreover have "ci_units input = Integral n \<and> 1 \<le> n \<and> n \<le> MAX_LICENSE_LIMIT"
    using n by (simp add: validateUsageInput_Inr)
  moreover have "but_activity d' (w_db w')" using act calm_quiet[OF calm] by blast
  moreover have "cr_units res = n \<and> cr_remaining res = m_balance m" using res by simp
  ultimately show ?thesis using b s la us met out i by blast
qed

lemma sample_rejection:
  "\<exists>e w'. activate ''wrong'' ''dev'' ''1.2.3.4'' sample_env (sample_world Lifetime) = (Inl e, w') \<and>
    (case e of Domain_error _ \<Rightarrow> True | _ \<Rightarrow> False)"
  by (rule run_Inl) code_simp

lemma empty_redis_inv: "session_inv ttl t empty_redis"
  by (simp add: session_inv_def session_of_def redis_get_def smembers_def empty_redis_def)

lemma smembers_empty: "smembers k t empty_redis = []"
  by (simp add: smembers_def empty_redis_def)

lemma sample_ready: "session_ready sample_env (sample_world ty)"
  unfolding session_ready_def
  by (auto simp: sample_world_def empty_redis_inv sample_env_def sample_defs valid_session_def
      MAX_SAFE_INTEGER_def fresh_token_def smembers_empty)

lemma session_world_tick: "w_tick (session_world ty) = 0"
  by (simp add: session_world_def sample_world_def)

lemma sample_env_tick: "e_redisNow sample_env 0 = 1000"
  by (simp add: sample_env_def)

lemma session_world_inv:
  "session_inv SESSION_TTL_SECONDS (e_redisNow sample_env (w_tick (session_world ty))) (w_redis (session_world ty))"
proof -
  let ?b = "\<lparr>sb_ip = ''1.2.3.4'', sb_deviceId = ''dev''\<rparr>"
  obtain res r' where reg: "registerSession id ''tok'' 900 ''L'' 0 ?b SESSION_TTL_SECONDS 1 empty_redis = (res, r')"
    by fastforce
  have "session_inv SESSION_TTL_SECONDS 900 r'"
    by (rule registerSession_inv[OF empty_redis_inv _ _ _ reg])
      (simp_all add: valid_session_def MAX_SAFE_INTEGER_def SESSION_TTL_SECONDS_def fresh_token_def
        smembers_def empty_redis_def)
  then have "session_inv SESSION_TTL_SECONDS 1000 r'" by (rule session_inv_later) simp
  then show ?thesis by (simp add: session_world_def reg sample_env_def sample_world_def)
qed

section \<open>Properties\<close>

text \<open>
  C13: an activation enforces the policy. Whatever other requests do in between and whatever
  calls are lost, if \<open>activate\<close> answers with a session, then the presented key was a licence's,
  and in the transaction that held the registration lock the licence still had the revision
  it was found with, was active, allowed the address and the device and had room for the
  registration. In that transaction Redis, from the state it had by then, registered the answered
  token for this licence, revision and binding under the licence's session limit: there were
  fewer live sessions than a positive limit, and right after it the new one resolves. The device
  is registered and an unstarted trial was started in the state that transaction committed. When
  no other request interferes, the session is live in the state the activation leaves. The answer
  carries the licence's type and metadata.
\<close>

theorem activation_enforces_policy:
  assumes "activate licenseKey deviceId ip env w = (Inr res, w')"
  shows "\<exists>b l current existing a w2 w3 w4. binding ip deviceId = Inr b \<and>
    fst (find_by_key licenseKey env w) = Inr (Some l) \<and>
    transaction (admission l b) env (world_at_lock licenseKey b env w) = (Inr a, w2) \<and>
    l_id current = l_id l \<and> l_sessionRevision current = l_sessionRevision l \<and>
    admission_checks l b (isolated env) (locked_world licenseKey b env w) =
      (Inr (current, existing), w3) \<and>
    open_session current b (isolated env) w3 = (Inr (), w4) \<and>
    session_opened env b current w3 w4 (sr_sessionToken res) \<and>
    admitted env b current (Suc (w_tick (locked_world licenseKey b env w))) (w_tick w4)
      (locked_db licenseKey b env w) (w_db w2) \<and>
    (quiet env \<and> session_ready env w \<longrightarrow>
      session_live env b current (w_tick w3) (w_redis w) (w_redis w') (sr_sessionToken res)) \<and>
    sr_licenseType res = l_type current \<and> sr_metadata res = l_metadata current"
  using activate_admitted[OF assms] by blast

theorem activation_enforces_policy_witness:
  "\<exists>r w' i rv h t. activate ''H'' ''dev'' ''1.2.3.4'' sample_env (sample_world Trial) = (Inr r, w') \<and>
    sr_sessionToken r = ''u8.0'' \<and> session_of ''u8.0'' t (w_redis w') = Some (i, rv, h) \<and>
    live_sessions i t (w_redis w') = {''u8.0''}"
proof -
  obtain r w' where run: "activate ''H'' ''dev'' ''1.2.3.4'' sample_env (sample_world Trial) = (Inr r, w')"
    and tok: "sr_sessionToken r = ''u8.0''"
    using sample_activation by blast
  have "revision_sessions i rv t (w_redis (sample_world Trial)) = {}" for i rv t
    by (simp add: revision_sessions_def session_of_def redis_get_def empty_redis_def sample_world_def)
  with activation_enforces_policy[OF run] obtain b current k where
    "session_live sample_env b current k (w_redis (sample_world Trial)) (w_redis w') ''u8.0''"
    using tok sample_ready[of Trial] calm_quiet[OF sample_calm] by auto
  then have "session_of ''u8.0'' (e_redisNow sample_env k) (w_redis w') =
      Some (l_id current, l_sessionRevision current, hashBinding (e_sha256 sample_env) b)"
    "live_sessions (l_id current) (e_redisNow sample_env k) (w_redis w') = {''u8.0''}"
    using \<open>\<And>i rv t. revision_sessions i rv t (w_redis (sample_world Trial)) = {}\<close>
    by (simp_all add: session_live_def Let_def SESSION_TTL_SECONDS_def)
  then show ?thesis using run tok by blast
qed

text \<open>
  C14: registrations respect the limits. When \<open>activate\<close> answers with a session, the device is
  registered, and where the licence has a positive limit on addresses or devices, the
  transaction left at most that many different ones registered, or no more than there were.
\<close>

theorem activation_respects_limits:
  assumes "activate licenseKey deviceId ip env w = (Inr res, w')"
  shows "\<exists>b l current a w2. binding ip deviceId = Inr b \<and>
    transaction (admission l b) env (world_at_lock licenseKey b env w) = (Inr a, w2) \<and>
    findLicenseAdmissionPolicy (l_id l) (locked_db licenseKey b env w) = Some current \<and>
    findRegisteredDevice (l_id l) (sb_ip b) (sb_deviceId b) (w_db w2) \<noteq> None \<and>
    (l_maxIps current > 0 \<longrightarrow> int (card (registered_ips (l_id l) (w_db w2))) \<le>
      max (l_maxIps current) (int (card (registered_ips (l_id l) (locked_db licenseKey b env w))))) \<and>
    (l_maxDevices current > 0 \<longrightarrow> int (card (registered_ids (l_id l) (w_db w2))) \<le>
      max (l_maxDevices current) (int (card (registered_ids (l_id l) (locked_db licenseKey b env w)))))"
proof -
  from activate_admitted[OF assms] obtain b l current a w2 where b: "binding ip deviceId = Inr b"
    and t: "transaction (admission l b) env (world_at_lock licenseKey b env w) = (Inr a, w2)"
    and id: "l_id current = l_id l"
    and adm: "\<exists>k k1. admitted env b current k k1 (locked_db licenseKey b env w) (w_db w2)"
    by blast
  from adm obtain k k1 where adm: "admitted env b current k k1 (locked_db licenseKey b env w) (w_db w2)"
    by blast
  note reg = admitted_registers[OF adm, unfolded id]
  have "findLicenseAdmissionPolicy (l_id l) (locked_db licenseKey b env w) = Some current"
    using adm id by (simp add: admitted_def)
  with b t reg show ?thesis by (intro exI[of _ b] exI[of _ l] exI[of _ current] exI[of _ a] exI[of _ w2]) blast
qed

theorem activation_respects_limits_witness:
  "\<exists>r w' b l a w2. activate ''H'' ''dev'' ''1.2.3.4'' sample_env (sample_world Trial) = (Inr r, w') \<and>
    binding ''1.2.3.4'' ''dev'' = Inr b \<and>
    transaction (admission l b) sample_env (world_at_lock ''H'' b sample_env (sample_world Trial)) = (Inr a, w2) \<and>
    findRegisteredDevice (l_id l) (sb_ip b) (sb_deviceId b) (w_db w2) \<noteq> None"
proof -
  obtain r w' where run: "activate ''H'' ''dev'' ''1.2.3.4'' sample_env (sample_world Trial) = (Inr r, w')"
    using sample_activation by blast
  from activation_respects_limits[OF run] run show ?thesis by blast
qed

text \<open>
  C15: a rejected activation leaves nothing behind. In a run no other request disturbs and in
  which Redis answers, whatever PostgreSQL calls are lost (the commit included): when
  \<open>activate\<close> raises, no session is live afterwards that was not live before, and when it raises
  anything but a lost connection, every table but the audit trail is as it was.
\<close>

theorem rejected_activation_leaves_nothing:
  assumes "quiet env" and "redis_answers env" and "session_ready env w"
    and "activate licenseKey deviceId ip env w = (Inl e, w')"
  shows "no_new_session env w w' \<and> (e \<noteq> Unavailable \<longrightarrow> but_activity (w_db w) (w_db w'))"
  using assms by (rule activate_Inl)

theorem rejected_activation_leaves_nothing_witness:
  "\<exists>e w'. activate ''wrong'' ''dev'' ''1.2.3.4'' sample_env (sample_world Lifetime) = (Inl e, w') \<and>
    e \<noteq> Unavailable \<and> no_new_session sample_env (sample_world Lifetime) w' \<and>
    but_activity (w_db (sample_world Lifetime)) (w_db w')"
proof -
  obtain e w' where run: "activate ''wrong'' ''dev'' ''1.2.3.4'' sample_env (sample_world Lifetime) = (Inl e, w')"
    and e: "case e of Domain_error _ \<Rightarrow> True | _ \<Rightarrow> False"
    using sample_rejection by blast
  have "quiet sample_env" "redis_answers sample_env"
    using sample_calm by (auto simp: calm_def redis_answers_def)
  from rejected_activation_leaves_nothing[OF this sample_ready run] run e show ?thesis by auto
qed

text \<open>
  C16: a heartbeat is answered exactly for a live session. When nothing interferes and no call
  is lost, \<open>heartbeat\<close> answers with the licence \<open>la\<close> if and only if the token is a live session
  that was issued to this address and device for the current revision of \<open>la\<close>, and \<open>la\<close> is
  active and still allows them.
\<close>

theorem heartbeat_answers_live_sessions:
  assumes "calm env"
    and "session_inv SESSION_TTL_SECONDS (e_redisNow env (w_tick w)) (w_redis w)"
  shows "(\<exists>w'. heartbeat tok deviceId ip env w = (Inr res, w')) \<longleftrightarrow>
    (\<exists>b i la. binding ip deviceId = Inr b \<and>
      session_of tok (e_redisNow env (w_tick w)) (w_redis w) =
        Some (i, l_sessionRevision la, hashBinding (e_sha256 env) b) \<and>
      findByIdWithAllowlists i (w_db w) = Some la \<and> usable la b (e_now env (5 + w_tick w)) \<and>
      res = sessionResult la tok)"
  unfolding heartbeat_result live_license_calm[OF assms] by blast

theorem heartbeat_answers_live_sessions_witness:
  "\<exists>res b i la. session_of ''tok'' 1000 (w_redis (session_world Lifetime)) =
      Some (i, l_sessionRevision la, hashBinding (e_sha256 sample_env) b) \<and>
    usable la b (e_now sample_env 5) \<and>
    res = sessionResult la ''tok''"
proof -
  have "\<exists>r w'. heartbeat ''tok'' ''dev'' ''1.2.3.4'' sample_env (session_world Lifetime) = (Inr r, w') \<and> True"
    by (rule run_Inr) code_simp
  then obtain res where "\<exists>w'. heartbeat ''tok'' ''dev'' ''1.2.3.4'' sample_env (session_world Lifetime) = (Inr res, w')"
    by blast
  from this[unfolded heartbeat_answers_live_sessions[OF sample_calm session_world_inv]]
  show ?thesis by (auto simp: session_world_tick sample_env_tick)
qed

text \<open>
  C17: usage is charged as the meter repository says. When nothing interferes and no call is
  lost, an answered \<open>consume\<close> is for valid units, a live session and an active metered licence;
  the database, the audit trail aside, is the one the repository's transaction left, and the
  remaining balance is the one it returned.
\<close>

theorem answered_usage_is_charged:
  assumes "calm env"
    and "session_inv SESSION_TTL_SECONDS (e_redisNow env (w_tick w)) (w_redis w)"
    and "service_consume tok deviceId ip input env w = (Inr res, w')"
  shows "\<exists>b la entryId now outcome m e d' n. binding ip deviceId = Inr b \<and>
    session_of tok (e_redisNow env (w_tick w)) (w_redis w) =
      Some (l_id la, l_sessionRevision la, hashBinding (e_sha256 env) b) \<and>
    findByIdWithAllowlists (l_id la) (w_db w) = Some la \<and> usable la b (e_now env (5 + w_tick w)) \<and>
    l_type la = Metered \<and> ci_units input = Integral n \<and> 1 \<le> n \<and> n \<le> MAX_LICENSE_LIMIT \<and>
    consume (e_sha256 env) entryId now (l_id la) (trim (ci_meter input)) n (trim (ci_eventId input))
      (w_db w) = Inr (outcome, d') \<and>
    (outcome = Consumed m e \<or> outcome = Replayed m e) \<and> but_activity d' (w_db w') \<and>
    cr_units res = n \<and> cr_remaining res = m_balance m"
  using assms by (rule service_consume_Inr)

theorem answered_usage_is_charged_witness:
  "\<exists>m e d' entryId now outcome. consume (e_sha256 sample_env) entryId now ''L'' ''api'' 4 ''ev''
      (w_db (session_world Metered)) = Inr (outcome, d') \<and> (outcome = Consumed m e \<or> outcome = Replayed m e)"
proof -
  let ?in = "\<lparr>ci_meter = ''api'', ci_units = Integral 4, ci_eventId = ''ev''\<rparr>"
  have "\<exists>r w'. service_consume ''tok'' ''dev'' ''1.2.3.4'' ?in sample_env (session_world Metered) = (Inr r, w') \<and> True"
    by (rule run_Inr) code_simp
  then obtain res w' where run: "service_consume ''tok'' ''dev'' ''1.2.3.4'' ?in sample_env (session_world Metered) =
      (Inr res, w')" by blast
  have tr: "trim ''api'' = ''api''" "trim ''ev'' = ''ev''" by code_simp+
  have "case session_of ''tok'' 1000 (w_redis (session_world Metered)) of
      Some (i, _) \<Rightarrow> i = ''L'' | None \<Rightarrow> False" by code_simp
  then show ?thesis
    using answered_usage_is_charged[OF sample_calm session_world_inv run] tr
    by (auto simp: session_world_tick sample_env_tick) (metis, metis)
qed

end
