(* ===== verification/AdminRules.thy ===== *)
theory AdminRules
  imports LicenseRepository
begin

text \<open>
  The rules of \<open>application/services/AdminService.ts\<close> that touch no store: what an operator may
  type for an address, a name, a reason, a limit or a meter, and what the four licence types
  require of the expiry, the trial length and the meters, with the drafts that remember the
  settings of the other types.

  \<open>Date.now()\<close>, \<open>new Date(text)\<close> and \<open>toISOString\<close> are the arguments \<open>now\<close>, \<open>parseDate\<close> and
  \<open>toISO\<close>. An input field that may be left out is an option; \<open>expiresAt\<close> of an update may also be
  \<open>null\<close>. The theory shows that what the rules accept satisfies the checks of the \<open>licenses\<close>
  table, and that accepted text is a fixed point of its normalisation.
\<close>

section \<open>Inputs\<close>

record create_meter_input =
  cm_name :: string
  cm_balance :: jsnum
  cm_reason :: string

record create_license_input =
  cl_customerId :: string
  cl_type :: license_type
  cl_maxIps :: "jsnum option"
  cl_maxDevices :: "jsnum option"
  cl_maxSessions :: "jsnum option"
  cl_trialDurationMinutes :: "jsnum option"
  cl_metadata :: "json_object option"
  cl_expiresAt :: "string option"
  cl_meters :: "create_meter_input list option"

record update_license_input =
  ul_customerId :: "string option"
  ul_type :: "license_type option"
  ul_maxIps :: "jsnum option"
  ul_maxDevices :: "jsnum option"
  ul_maxSessions :: "jsnum option"
  ul_trialDurationMinutes :: "jsnum option"
  ul_metadata :: "json_object option"
  ul_expiresAt :: "string option option"
  ul_meters :: "create_meter_input list option"
  ul_unlinkStripe :: "bool option"

record update_customer_input =
  uc_email :: "string option"
  uc_name :: "string option"
  uc_metadata :: "json_object option"

text \<open>\<open>Object.keys(data)\<close>: the fields that are there, in the order of the declaration.\<close>

definition present :: "(string \<times> bool) list \<Rightarrow> string list" where
  "present fs = map fst (filter snd fs)"

definition update_fields :: "update_license_input \<Rightarrow> string list" where
  "update_fields data = present
    [(''customerId'', ul_customerId data \<noteq> None), (''type'', ul_type data \<noteq> None),
     (''maxIps'', ul_maxIps data \<noteq> None), (''maxDevices'', ul_maxDevices data \<noteq> None),
     (''maxSessions'', ul_maxSessions data \<noteq> None),
     (''trialDurationMinutes'', ul_trialDurationMinutes data \<noteq> None),
     (''metadata'', ul_metadata data \<noteq> None), (''expiresAt'', ul_expiresAt data \<noteq> None),
     (''meters'', ul_meters data \<noteq> None), (''unlinkStripe'', ul_unlinkStripe data \<noteq> None)]"

definition customer_fields :: "update_customer_input \<Rightarrow> string list" where
  "customer_fields data = present
    [(''email'', uc_email data \<noteq> None), (''name'', uc_name data \<noteq> None),
     (''metadata'', uc_metadata data \<noteq> None)]"

section \<open>Text and numbers\<close>

text \<open>The pattern \<open>^[^\s@]+@[^\s@]+\.[^\s@]+$\<close>.\<close>

definition email_pattern :: "string \<Rightarrow> bool" where
  "email_pattern s \<longleftrightarrow>
    list_all (\<lambda>c. \<not> js_space c) s \<and>
    (case split_on (CHR ''@'') s of
      [name, domain] \<Rightarrow> name \<noteq> [] \<and> CHR ''.'' \<in> set (butlast (tl domain))
    | _ \<Rightarrow> False)"

definition not_in_range :: "string \<Rightarrow> int \<Rightarrow> failure" where
  "not_in_range label minimum =
    InvalidRequest (label @ '' must be an integer from '' @ show_int minimum @ '' to '' @
      show_int MAX_LICENSE_LIMIT)"

definition validateInteger :: "jsnum \<Rightarrow> string \<Rightarrow> int \<Rightarrow> int result" where
  "validateInteger v label minimum =
    (case v of
      Integral n \<Rightarrow>
        if n < minimum \<or> n > MAX_LICENSE_LIMIT then Inl (not_in_range label minimum) else Inr n
    | _ \<Rightarrow> Inl (not_in_range label minimum))"

definition customerEmail :: "string \<Rightarrow> string result" where
  "customerEmail v =
    (let email = toLowerCase (trim v) in
     if email = [] \<or> length email > 254 \<or> \<not> email_pattern email
     then Inl (InvalidRequest ''Customer email must be a valid address'') else Inr email)"

definition bounded_text :: "nat \<Rightarrow> string \<Rightarrow> string \<Rightarrow> string result" where
  "bounded_text limit message v =
    (let text = trim v in
     if text = [] \<or> length text > limit then Inl (InvalidRequest message) else Inr text)"

definition customerName :: "string \<Rightarrow> string result" where
  "customerName = bounded_text 200 ''Customer name must contain between 1 and 200 characters''"

definition meterName :: "string \<Rightarrow> string result" where
  "meterName = bounded_text 128 ''Meter name must contain between 1 and 128 characters''"

definition admin_deviceId :: "string \<Rightarrow> string result" where
  "admin_deviceId = bounded_text 128 ''deviceId must contain between 1 and 128 characters''"

definition reason :: "string \<Rightarrow> string result" where
  "reason = bounded_text 500 ''reason must contain between 1 and 500 characters''"

definition parseFutureDate :: "(string \<Rightarrow> int option) \<Rightarrow> int \<Rightarrow> string \<Rightarrow> string \<Rightarrow> int result" where
  "parseFutureDate parseDate now v label =
    (let e = Inl (InvalidRequest (label @ '' must be a valid future date'')) in
     case parseDate v of
       None \<Rightarrow> e
     | Some date \<Rightarrow> if date \<le> now then e else Inr date)"

section \<open>Meters\<close>

fun validate_meters_from ::
    "string list \<Rightarrow> create_meter_input list \<Rightarrow> new_license_meter list result" where
  "validate_meters_from names [] = Inr []"
| "validate_meters_from names (m # ms) =
    bindR (meterName (cm_name m)) (\<lambda>name.
    bindR (checkR (name \<notin> set names) (ConflictError (''Duplicate meter '' @ name) INVALID_REQUEST)) (\<lambda>_.
    bindR (validateInteger (cm_balance m) ''meter balance'' 0) (\<lambda>balance.
    bindR (reason (cm_reason m)) (\<lambda>r.
    bindR (validate_meters_from (name # names) ms) (\<lambda>rest.
    Inr (\<lparr>nm_name = name, nm_balance = balance, nm_reason = r\<rparr> # rest))))))"

definition validateMeters :: "create_meter_input list \<Rightarrow> new_license_meter list result" where
  "validateMeters ms = validate_meters_from [] ms"

section \<open>Type settings\<close>

record type_config =
  tc_expiresAt :: "int option"
  tc_trialDurationMinutes :: int
  tc_typeDrafts :: type_drafts

record update_config = type_config +
  tc_trialStartedAt :: "int option"

definition empty_drafts :: type_drafts where
  "empty_drafts = \<lparr>d_lifetime = None, d_subscription = None, d_metered = None, d_trial = None\<rparr>"

text \<open>A string is truthy when it is there and not empty.\<close>

fun truthy :: "string option \<Rightarrow> bool" where
  "truthy None \<longleftrightarrow> False"
| "truthy (Some s) \<longleftrightarrow> s \<noteq> []"

definition only_trials :: failure where
  "only_trials = InvalidRequest ''trialDurationMinutes is only valid for trial licenses''"

definition only_metered :: failure where
  "only_metered = InvalidRequest ''meters are only valid for metered licenses''"

definition only_subscriptions :: failure where
  "only_subscriptions = InvalidRequest ''expiresAt is only valid for subscription licenses''"

definition needs_expiry :: failure where
  "needs_expiry = InvalidRequest ''Subscription licenses require expiresAt''"

definition createTypeConfig ::
    "(string \<Rightarrow> int option) \<Rightarrow> (int \<Rightarrow> string) \<Rightarrow> int \<Rightarrow> create_license_input
      \<Rightarrow> new_license_meter list \<Rightarrow> type_config result" where
  "createTypeConfig parseDate toISO now data ms =
    (case cl_type data of
      Subscription \<Rightarrow>
        bindR (checkR (truthy (cl_expiresAt data)) needs_expiry) (\<lambda>_.
        bindR (checkR (cl_trialDurationMinutes data = None) only_trials) (\<lambda>_.
        bindR (checkR (ms = []) only_metered) (\<lambda>_.
        bindR (parseFutureDate parseDate now (the (cl_expiresAt data)) ''expiresAt'') (\<lambda>expiresAt.
        Inr \<lparr>tc_expiresAt = Some expiresAt, tc_trialDurationMinutes = 0,
          tc_typeDrafts = empty_drafts\<lparr>d_subscription := Some (Some (toISO expiresAt))\<rparr>\<rparr>))))
    | Trial \<Rightarrow>
        bindR (validateInteger (case_option (Integral 0) id (cl_trialDurationMinutes data))
          ''trialDurationMinutes'' 1) (\<lambda>duration.
        bindR (checkR (\<not> truthy (cl_expiresAt data)) only_subscriptions) (\<lambda>_.
        bindR (checkR (ms = []) only_metered) (\<lambda>_.
        Inr \<lparr>tc_expiresAt = None, tc_trialDurationMinutes = duration,
          tc_typeDrafts = empty_drafts\<lparr>d_trial := Some duration\<rparr>\<rparr>)))
    | Metered \<Rightarrow>
        bindR (checkR (ms \<noteq> [])
          (InvalidRequest ''Metered licenses require at least one meter'')) (\<lambda>_.
        bindR (checkR (\<not> truthy (cl_expiresAt data) \<and> cl_trialDurationMinutes data = None)
          (InvalidRequest ''expiresAt and trialDurationMinutes are not valid for metered licenses'')) (\<lambda>_.
        Inr \<lparr>tc_expiresAt = None, tc_trialDurationMinutes = 0,
          tc_typeDrafts = empty_drafts\<lparr>d_metered := Some (sort (map nm_name ms))\<rparr>\<rparr>))
    | Lifetime \<Rightarrow>
        bindR (checkR (\<not> truthy (cl_expiresAt data) \<and> cl_trialDurationMinutes data = None \<and> ms = [])
          (InvalidRequest ''Lifetime licenses do not accept expiry, trial, or meter settings'')) (\<lambda>_.
        Inr \<lparr>tc_expiresAt = None, tc_trialDurationMinutes = 0,
          tc_typeDrafts = empty_drafts\<lparr>d_lifetime := Some []\<rparr>\<rparr>))"

definition subscription_expiry ::
    "(string \<Rightarrow> int option) \<Rightarrow> int \<Rightarrow> 'a license_base_scheme \<Rightarrow> string option option \<Rightarrow> bool
      \<Rightarrow> type_drafts \<Rightarrow> int option result" where
  "subscription_expiry parseDate now current given typeChanged drafts =
    (let future = (\<lambda>text. map_sum id Some (parseFutureDate parseDate now text ''expiresAt'')) in
     case given of
       Some None \<Rightarrow> Inl needs_expiry
     | _ \<Rightarrow>
         if truthy (case_option None id given) then future (the (the given))
         else if \<not> typeChanged then Inr (l_expiresAt current)
         else (let draft = case_option None id (d_subscription drafts) in
           if truthy draft then future (the draft) else Inr None))"

definition updateTypeConfig ::
    "(string \<Rightarrow> int option) \<Rightarrow> (int \<Rightarrow> string) \<Rightarrow> int \<Rightarrow> 'a license_base_scheme \<Rightarrow> update_license_input
      \<Rightarrow> license_type \<Rightarrow> bool \<Rightarrow> type_drafts \<Rightarrow> update_config result" where
  "updateTypeConfig parseDate toISO now current data targetType typeChanged drafts =
    (case targetType of
      Subscription \<Rightarrow>
        bindR (subscription_expiry parseDate now current (ul_expiresAt data) typeChanged drafts) (\<lambda>found.
        (case found of
          None \<Rightarrow> Inl needs_expiry
        | Some expiresAt \<Rightarrow>
            Inr \<lparr>tc_expiresAt = Some expiresAt, tc_trialDurationMinutes = 0,
              tc_typeDrafts = drafts\<lparr>d_subscription := Some (Some (toISO expiresAt))\<rparr>,
              tc_trialStartedAt = None\<rparr>))
    | Trial \<Rightarrow>
        (case (case ul_trialDurationMinutes data of
            Some n \<Rightarrow> Some n
          | None \<Rightarrow> if typeChanged then map_option Integral (d_trial drafts)
              else Some (Integral (l_trialDurationMinutes current))) of
          None \<Rightarrow> Inl (InvalidRequest ''Trial licenses require trialDurationMinutes'')
        | Some given \<Rightarrow>
            bindR (validateInteger given ''trialDurationMinutes'' 1) (\<lambda>duration.
            Inr \<lparr>tc_expiresAt = None, tc_trialDurationMinutes = duration,
              tc_typeDrafts = drafts\<lparr>d_trial := Some duration\<rparr>,
              tc_trialStartedAt = (if typeChanged then Some now else l_trialStartedAt current)\<rparr>))
    | Lifetime \<Rightarrow>
        Inr \<lparr>tc_expiresAt = None, tc_trialDurationMinutes = 0,
          tc_typeDrafts = drafts\<lparr>d_lifetime := Some (case_option [] id (d_lifetime drafts))\<rparr>,
          tc_trialStartedAt = None\<rparr>
    | Metered \<Rightarrow>
        Inr \<lparr>tc_expiresAt = None, tc_trialDurationMinutes = 0,
          tc_typeDrafts = drafts\<lparr>d_metered := Some (case_option [] id (d_metered drafts))\<rparr>,
          tc_trialStartedAt = None\<rparr>)"

definition withCurrentDraft ::
    "(int \<Rightarrow> string) \<Rightarrow> 'a license_base_scheme \<Rightarrow> string list \<Rightarrow> type_drafts" where
  "withCurrentDraft toISO license meterNames =
    (let drafts = l_typeDrafts license in
     case l_type license of
       Subscription \<Rightarrow> drafts\<lparr>d_subscription := Some (map_option toISO (l_expiresAt license))\<rparr>
     | Trial \<Rightarrow> drafts\<lparr>d_trial := Some (l_trialDurationMinutes license)\<rparr>
     | Metered \<Rightarrow> drafts\<lparr>d_metered := Some (sort meterNames)\<rparr>
     | Lifetime \<Rightarrow> drafts\<lparr>d_lifetime := Some []\<rparr>)"

section \<open>What the client of a licence may see\<close>

record managed_license =
  ml_id :: string
  ml_keyPrefix :: string
  ml_customerId :: string
  ml_type :: license_type
  ml_maxIps :: int
  ml_maxDevices :: int
  ml_maxSessions :: int
  ml_trialDurationMinutes :: int
  ml_trialStartedAt :: "int option"
  ml_metadata :: json_object
  ml_expiresAt :: "int option"
  ml_typeDrafts :: type_drafts
  ml_manualRevokedAt :: "int option"
  ml_manualRevocationReason :: "string option"
  ml_createdAt :: int
  ml_updatedAt :: int
  ml_billingRevokedAt :: "int option"
  ml_status :: license_status
  ml_statusReason :: "license_status_reason option"

record managed_revealed_license = managed_license +
  ml_licenseKey :: string

definition managed :: "int \<Rightarrow> 'a license_scheme \<Rightarrow> managed_license" where
  "managed now l =
    (let effective = deriveLicenseStatus l now in
     \<lparr>ml_id = l_id l, ml_keyPrefix = l_keyPrefix l, ml_customerId = l_customerId l,
      ml_type = l_type l, ml_maxIps = l_maxIps l, ml_maxDevices = l_maxDevices l,
      ml_maxSessions = l_maxSessions l, ml_trialDurationMinutes = l_trialDurationMinutes l,
      ml_trialStartedAt = l_trialStartedAt l, ml_metadata = l_metadata l,
      ml_expiresAt = l_expiresAt l, ml_typeDrafts = l_typeDrafts l,
      ml_manualRevokedAt = l_manualRevokedAt l,
      ml_manualRevocationReason = l_manualRevocationReason l, ml_createdAt = l_createdAt l,
      ml_updatedAt = l_updatedAt l, ml_billingRevokedAt = l_billingRevokedAt l,
      ml_status = es_status effective, ml_statusReason = es_reason effective\<rparr>)"

definition managed_revealed :: "int \<Rightarrow> revealed_license \<Rightarrow> managed_revealed_license" where
  "managed_revealed now l =
    managed_license.extend (managed now l) (managed_revealed_license.fields (l_licenseKey l))"

section \<open>Accepted text and numbers\<close>

lemma validateInteger_Inr_iff [simp]:
  "validateInteger v label minimum = Inr n \<longleftrightarrow>
    v = Integral n \<and> minimum \<le> n \<and> n \<le> MAX_LICENSE_LIMIT"
  by (cases v) (auto simp: validateInteger_def Let_def)

lemma bounded_text_Inr_iff [simp]:
  "bounded_text limit message v = Inr t \<longleftrightarrow> t = trim v \<and> t \<noteq> [] \<and> length t \<le> limit"
  by (auto simp: bounded_text_def Let_def)

lemmas text_defs = customerName_def meterName_def admin_deviceId_def reason_def

lemma trim_id_iff: "trim s = s \<longleftrightarrow> s = [] \<or> \<not> js_space (hd s) \<and> \<not> js_space (last s)"
proof
  assume "trim s = s"
  then show "s = [] \<or> \<not> js_space (hd s) \<and> \<not> js_space (last s)"
    using trim_no_leading[of s] trim_no_trailing[of s] by auto
next
  assume s: "s = [] \<or> \<not> js_space (hd s) \<and> \<not> js_space (last s)"
  then have "dropWhile js_space s = s" by (intro dropWhile_hd_id) auto
  moreover have "dropWhile js_space (rev s) = rev s"
    using s by (intro dropWhile_hd_id) (auto simp: hd_rev)
  ultimately show "trim s = s" by (simp add: trim_def)
qed

lemma trim_toLowerCase_trim [simp]: "trim (toLowerCase (trim s)) = toLowerCase (trim s)"
  using trim_no_leading[of s] trim_no_trailing[of s]
  by (auto simp: trim_id_iff toLowerCase_def hd_map last_map)

lemma customerEmail_Inr_iff:
  "customerEmail v = Inr e \<longleftrightarrow>
    e = toLowerCase (trim v) \<and> e \<noteq> [] \<and> length e \<le> 254 \<and> email_pattern e"
  by (auto simp: customerEmail_def Let_def)

section \<open>Accepted meters\<close>

definition accepted_meter :: "create_meter_input \<Rightarrow> new_license_meter \<Rightarrow> bool" where
  "accepted_meter c m \<longleftrightarrow>
    nm_name m = trim (cm_name c) \<and> nm_name m \<noteq> [] \<and> length (nm_name m) \<le> 128 \<and>
    cm_balance c = Integral (nm_balance m) \<and> 0 \<le> nm_balance m \<and> nm_balance m \<le> MAX_LICENSE_LIMIT \<and>
    nm_reason m = trim (cm_reason c) \<and> nm_reason m \<noteq> [] \<and> length (nm_reason m) \<le> 500"

lemma validate_meters_from_Inr_iff:
  "validate_meters_from names cs = Inr ms \<longleftrightarrow>
    list_all2 accepted_meter cs ms \<and> distinct (map nm_name ms) \<and>
    set (map nm_name ms) \<inter> set names = {}"
proof (induction names cs arbitrary: ms rule: validate_meters_from.induct)
  case (1 names)
  then show ?case by auto
next
  case (2 names c cs)
  show ?case
  proof (cases ms)
    case Nil
    then show ?thesis by auto
  next
    case (Cons m rest)
    have "validate_meters_from names (c # cs) = Inr (m # rest) \<longleftrightarrow>
        accepted_meter c m \<and> nm_name m \<notin> set names \<and>
        validate_meters_from (nm_name m # names) cs = Inr rest"
      by (cases m) (auto simp: text_defs accepted_meter_def)
    moreover have "validate_meters_from (nm_name m # names) cs = Inr rest \<longleftrightarrow>
        list_all2 accepted_meter cs rest \<and> distinct (map nm_name rest) \<and>
        set (map nm_name rest) \<inter> set (nm_name m # names) = {}"
      if "accepted_meter c m" "nm_name m \<notin> set names"
      using that by (intro 2)
    ultimately show ?thesis using Cons by auto
  qed
qed

section \<open>Settings that fit a type\<close>

definition config_fits :: "license_type \<Rightarrow> 'a type_config_scheme \<Rightarrow> bool" where
  "config_fits ty cfg \<longleftrightarrow>
    (tc_expiresAt cfg \<noteq> None \<longleftrightarrow> ty = Subscription) \<and>
    (if ty = Trial then 1 \<le> tc_trialDurationMinutes cfg \<and> tc_trialDurationMinutes cfg \<le> MAX_LICENSE_LIMIT
     else tc_trialDurationMinutes cfg = 0)"

lemma parseFutureDate_Inr_iff [simp]:
  "parseFutureDate parseDate now v label = Inr t \<longleftrightarrow> parseDate v = Some t \<and> now < t"
  by (auto simp: parseFutureDate_def Let_def split: option.splits)

lemma createTypeConfig_fits:
  assumes "createTypeConfig parseDate toISO now data ms = Inr cfg"
  shows "config_fits (cl_type data) cfg"
    and "cl_type data = Metered \<longleftrightarrow> ms \<noteq> []"
    and "\<And>t. tc_expiresAt cfg = Some t \<Longrightarrow> now < t"
  using assms by (auto simp: createTypeConfig_def config_fits_def split: license_type.splits)

lemma updateTypeConfig_fits:
  assumes "updateTypeConfig parseDate toISO now current data ty changed drafts = Inr cfg"
  shows "config_fits ty cfg"
  using assms
  by (auto simp: updateTypeConfig_def config_fits_def split: license_type.splits option.splits if_splits)

section \<open>Properties\<close>

text \<open>
  The rules for an operator's text are idempotent. An address, a name, a meter name, a
  device identifier or a reason that was accepted is accepted again as it is, so what is stored
  can be compared with what is typed later; an accepted address is lower case, without
  surrounding space, matches the pattern and has at most 254 code units.
\<close>

theorem accepted_text_is_stable:
  "(customerEmail v = Inr e \<longrightarrow>
      customerEmail e = Inr e \<and> toLowerCase e = e \<and> trim e = e \<and> email_pattern e \<and>
      0 < length e \<and> length e \<le> 254) \<and>
   (\<forall>rule \<in> {customerName, meterName, admin_deviceId, reason}.
      rule v = Inr t \<longrightarrow> rule t = Inr t \<and> trim t = t \<and> t \<noteq> [])"
proof -
  have "customerEmail v = Inr e \<Longrightarrow> customerEmail e = Inr e \<and> toLowerCase e = e \<and> trim e = e"
    unfolding customerEmail_Inr_iff by (metis toLowerCase_idem trim_toLowerCase_trim)
  moreover have "customerEmail v = Inr e \<Longrightarrow> email_pattern e \<and> 0 < length e \<and> length e \<le> 254"
    by (metis customerEmail_Inr_iff length_greater_0_conv)
  moreover have "rule v = Inr t \<Longrightarrow> rule t = Inr t \<and> trim t = t \<and> t \<noteq> []"
    if "rule \<in> {customerName, meterName, admin_deviceId, reason}" for rule
    using that by (auto simp: text_defs)
  ultimately show ?thesis by blast
qed

theorem accepted_text_is_stable_witness:
  "customerEmail '' Ada@Example.ORG '' = Inr ''ada@example.org'' \<and>
   customerEmail ''ada@example.org'' = Inr ''ada@example.org'' \<and>
   reason '' ok '' = Inr ''ok'' \<and> reason ''ok'' = Inr ''ok''"
proof -
  have e: "customerEmail '' Ada@Example.ORG '' = Inr ''ada@example.org''" by code_simp
  have r: "reason '' ok '' = Inr ''ok''" by code_simp
  show ?thesis
    using e r accepted_text_is_stable[of "'' Ada@Example.ORG ''" "''ada@example.org''" "''ok''"]
      accepted_text_is_stable[of "'' ok ''" "''ada@example.org''" "''ok''"] by simp
qed

text \<open>
  The meters of a licence are validated all or nothing. \<open>validateMeters\<close> accepts a list
  exactly when every meter has a trimmed name of 1 to 128 code units, a reason of 1 to 500 and
  an integer balance between 0 and 2147483647, and no two names are equal after trimming; the
  accepted meters are then the given ones in their order.
\<close>

theorem meters_accepted_iff:
  "validateMeters cs = Inr ms \<longleftrightarrow> list_all2 accepted_meter cs ms \<and> distinct (map nm_name ms)"
  by (simp add: validateMeters_def validate_meters_from_Inr_iff)

definition no_input :: update_license_input where
  "no_input = \<lparr>ul_customerId = None, ul_type = None, ul_maxIps = None, ul_maxDevices = None,
    ul_maxSessions = None, ul_trialDurationMinutes = None, ul_metadata = None,
    ul_expiresAt = None, ul_meters = None, ul_unlinkStripe = None\<rparr>"

end
