(* ===== verification/AccessRepository.thy ===== *)
theory AccessRepository
  imports DeviceRepository "HOL-Library.Multiset"
begin

text \<open>
  \<open>infrastructure/repositories/DrizzleAccessRepository.ts\<close>: the allowlists of a licence and
  the summary of the activation attempts recorded for it. \<open>new Date(text)\<close> is a parameter,
  \<open>None\<close> standing for an invalid date. The theory shows what the summary says of the recorded
  attempts, that adding to an allowlist is idempotent, and that the constraints are kept.
\<close>

section \<open>The summary of attempts\<close>

definition attempt_count :: "activity_event \<Rightarrow> int" where
  "attempt_count row =
    (case map_of (a_details row) ''attemptCount'' of
      Some (JNum (Integral storedCount)) \<Rightarrow> max 1 storedCount
    | _ \<Rightarrow> 1)"

definition first_attempt :: "(string \<Rightarrow> int option) \<Rightarrow> activity_event \<Rightarrow> int" where
  "first_attempt parseDate row =
    (case map_of (a_details row) ''firstAttemptedAt'' of
      Some (JStr storedFirstAttempt) \<Rightarrow>
        (case parseDate storedFirstAttempt of None \<Rightarrow> a_createdAt row | Some t \<Rightarrow> t)
    | _ \<Rightarrow> a_createdAt row)"

definition note_attempt ::
    "(string \<Rightarrow> int option) \<Rightarrow> (activity_event \<Rightarrow> string option) \<Rightarrow> activity_event
      \<Rightarrow> access_attempt list \<Rightarrow> access_attempt list" where
  "note_attempt parseDate field row summaries =
    (case field row of
      None \<Rightarrow> summaries
    | Some value \<Rightarrow>
        if value = [] then summaries
        else if value \<in> set (map aa_value summaries) then
          update_where (\<lambda>s. aa_value s = value)
            (\<lambda>existing. existing
              \<lparr>aa_attemptCount := aa_attemptCount existing + attempt_count row,
               aa_lastAttemptedAt := a_createdAt row,
               aa_firstAttemptedAt :=
                 (if first_attempt parseDate row < aa_firstAttemptedAt existing
                  then first_attempt parseDate row else aa_firstAttemptedAt existing)\<rparr>) summaries
        else summaries @
          [\<lparr>aa_value = value, aa_attemptCount = attempt_count row,
            aa_firstAttemptedAt = first_attempt parseDate row,
            aa_lastAttemptedAt = a_createdAt row\<rparr>])"

definition summarizeAttempts ::
    "(string \<Rightarrow> int option) \<Rightarrow> (activity_event \<Rightarrow> string option) \<Rightarrow> activity_event list
      \<Rightarrow> access_attempt list" where
  "summarizeAttempts parseDate field rws =
    sort_key (\<lambda>s. - aa_lastAttemptedAt s) (fold (note_attempt parseDate field) rws [])"

section \<open>The methods\<close>

definition AccessRepository_ctor :: "jsnum \<Rightarrow> failure + unit" where
  "AccessRepository_ctor retentionDays =
    (case retentionDays of
      Integral n \<Rightarrow>
        if n < 1 then Inl (Plain_error ''Access activity retention days must be positive.'')
        else Inr ()
    | _ \<Rightarrow> Inl (Plain_error ''Access activity retention days must be positive.''))"

definition getAccessRecords ::
    "(string \<Rightarrow> int option) \<Rightarrow> int \<Rightarrow> int \<Rightarrow> string \<Rightarrow> db \<Rightarrow> access_records" where
  "getAccessRecords parseDate retentionDays now licenseId d =
    (let retentionStart = now - retentionDays * 24 * 60 * 60 * 1000;
         attempts = sort_key a_createdAt (rows (\<lambda>a. a_licenseId a = Some licenseId \<and>
           a_type a = License_activation_attempted \<and> a_createdAt a \<ge> retentionStart)
           (activityEvents d)) in
     \<lparr>ar_allowedIps = rows (\<lambda>r. ia_licenseId r = licenseId) (ipAllowlist d),
      ar_allowedDevices = rows (\<lambda>r. da_licenseId r = licenseId) (deviceAllowlist d),
      ar_registeredDevices = rows (\<lambda>r. rd_licenseId r = licenseId) (devices d),
      ar_attemptedIps = summarizeAttempts parseDate a_ip attempts,
      ar_attemptedDevices = summarizeAttempts parseDate a_deviceId attempts\<rparr>)"

definition addAllowedIp :: "string \<Rightarrow> int \<Rightarrow> string \<Rightarrow> string \<Rightarrow> ip_allow txn" where
  "addAllowedIp uuid dbNow licenseId ip d =
    (let r = \<lparr>ia_id = uuid, ia_licenseId = licenseId, ia_ip = ip, ia_createdAt = dbNow\<rparr> in
     if taken ia_id r (ipAllowlist d) \<or> taken (\<lambda>r. (ia_licenseId r, ia_ip r)) r (ipAllowlist d) then
       (case first_row (\<lambda>r. ia_licenseId r = licenseId \<and> ia_ip r = ip) (ipAllowlist d) of
         Some entry \<Rightarrow> Inr (entry, d)
       | None \<Rightarrow> Inl (Plain_error ''Allowed IP could not be stored.''))
     else if \<not> license_exists licenseId d then
       Inl (Db_error (Foreign_key_violation ''license_ip_allowlist_license_id_fkey''))
     else Inr (r, d\<lparr>ipAllowlist := ipAllowlist d @ [r]\<rparr>))"

definition removeAllowedIp :: "string \<Rightarrow> string \<Rightarrow> bool txn" where
  "removeAllowedIp licenseId ip d =
    (let P = (\<lambda>r. ia_licenseId r = licenseId \<and> ia_ip r = ip) in
     Inr (rows P (ipAllowlist d) \<noteq> [], d\<lparr>ipAllowlist := delete_where P (ipAllowlist d)\<rparr>))"

definition addAllowedDevice :: "string \<Rightarrow> int \<Rightarrow> string \<Rightarrow> string \<Rightarrow> device_allow txn" where
  "addAllowedDevice uuid dbNow licenseId deviceId d =
    (let r = \<lparr>da_id = uuid, da_licenseId = licenseId, da_deviceId = deviceId, da_createdAt = dbNow\<rparr> in
     if taken da_id r (deviceAllowlist d) \<or>
        taken (\<lambda>r. (da_licenseId r, da_deviceId r)) r (deviceAllowlist d) then
       (case first_row (\<lambda>r. da_licenseId r = licenseId \<and> da_deviceId r = deviceId) (deviceAllowlist d) of
         Some entry \<Rightarrow> Inr (entry, d)
       | None \<Rightarrow> Inl (Plain_error ''Allowed device could not be stored.''))
     else if \<not> license_exists licenseId d then
       Inl (Db_error (Foreign_key_violation ''license_device_allowlist_license_id_fkey''))
     else Inr (r, d\<lparr>deviceAllowlist := deviceAllowlist d @ [r]\<rparr>))"

definition removeAllowedDevice :: "string \<Rightarrow> string \<Rightarrow> bool txn" where
  "removeAllowedDevice licenseId deviceId d =
    (let P = (\<lambda>r. da_licenseId r = licenseId \<and> da_deviceId r = deviceId) in
     Inr (rows P (deviceAllowlist d) \<noteq> [], d\<lparr>deviceAllowlist := delete_where P (deviceAllowlist d)\<rparr>))"

section \<open>What the summary says\<close>

definition attempts_of ::
    "(activity_event \<Rightarrow> string option) \<Rightarrow> string \<Rightarrow> activity_event list \<Rightarrow> activity_event list" where
  "attempts_of field v rws = filter (\<lambda>row. field row = Some v) rws"

definition summarizes ::
    "(string \<Rightarrow> int option) \<Rightarrow> (activity_event \<Rightarrow> string option) \<Rightarrow> activity_event list
      \<Rightarrow> access_attempt \<Rightarrow> bool" where
  "summarizes parseDate field rws s \<longleftrightarrow>
    (let mine = attempts_of field (aa_value s) rws in
     mine \<noteq> [] \<and> aa_value s \<noteq> [] \<and>
     aa_attemptCount s = sum_list (map attempt_count mine) \<and>
     aa_lastAttemptedAt s = a_createdAt (last mine) \<and>
     aa_firstAttemptedAt s = Min (set (map (first_attempt parseDate) mine)))"

lemma note_attempt_values:
  "map aa_value (note_attempt parseDate field row ss) =
    (case field row of
      None \<Rightarrow> map aa_value ss
    | Some v \<Rightarrow> if v = [] \<or> v \<in> set (map aa_value ss) then map aa_value ss
        else map aa_value ss @ [v])"
  by (simp add: note_attempt_def map_update_where split: option.splits)

definition summary_ok ::
    "(string \<Rightarrow> int option) \<Rightarrow> (activity_event \<Rightarrow> string option) \<Rightarrow> activity_event list
      \<Rightarrow> access_attempt list \<Rightarrow> bool" where
  "summary_ok parseDate field rws ss \<longleftrightarrow>
    distinct (map aa_value ss) \<and>
    set (map aa_value ss) = {v. v \<noteq> [] \<and> attempts_of field v rws \<noteq> []} \<and>
    (\<forall>s \<in> set ss. summarizes parseDate field rws s)"

lemma attempts_of_snoc:
  "attempts_of field v (rws @ [row]) =
    attempts_of field v rws @ (if field row = Some v then [row] else [])"
  by (simp add: attempts_of_def)

lemma summary_ok_snoc:
  assumes ok: "summary_ok parseDate field rws ss"
  shows "summary_ok parseDate field (rws @ [row]) (note_attempt parseDate field row ss)"
proof (cases "field row = None \<or> field row = Some []")
  case True
  then have same: "note_attempt parseDate field row ss = ss"
    by (auto simp: note_attempt_def)
  have att: "attempts_of field v (rws @ [row]) = attempts_of field v rws" if "v \<noteq> []" for v
    using True that by (auto simp: attempts_of_snoc)
  have vals: "aa_value s \<noteq> []" if "s \<in> set ss" for s
    using ok that by (auto simp: summary_ok_def)
  have "{v. v \<noteq> [] \<and> attempts_of field v (rws @ [row]) \<noteq> []} =
      {v. v \<noteq> [] \<and> attempts_of field v rws \<noteq> []}"
    using att by auto
  then show ?thesis
    using ok att vals by (simp add: summary_ok_def same summarizes_def Let_def)
next
  case False
  then obtain v where v: "field row = Some v" "v \<noteq> []" by auto
  have other: "attempts_of field w (rws @ [row]) = attempts_of field w rws" if "w \<noteq> v" for w
    using v that by (simp add: attempts_of_snoc)
  have mine: "attempts_of field v (rws @ [row]) = attempts_of field v rws @ [row]"
    using v by (simp add: attempts_of_snoc)
  have vals: "set (map aa_value (note_attempt parseDate field row ss)) = insert v (set (map aa_value ss))"
    unfolding note_attempt_values using v by auto
  have "{w. w \<noteq> [] \<and> attempts_of field w (rws @ [row]) \<noteq> []} =
      insert v {w. w \<noteq> [] \<and> attempts_of field w rws \<noteq> []}"
    (is "?l = ?r")
  proof (rule set_eqI)
    show "w \<in> ?l \<longleftrightarrow> w \<in> ?r" for w by (cases "w = v") (simp_all add: other mine v)
  qed
  then have set_ok: "set (map aa_value (note_attempt parseDate field row ss)) =
      {w. w \<noteq> [] \<and> attempts_of field w (rws @ [row]) \<noteq> []}"
    using vals ok by (simp add: summary_ok_def)
  have dist: "distinct (map aa_value (note_attempt parseDate field row ss))"
    unfolding note_attempt_values using v ok by (simp add: summary_ok_def)
  have keep: "summarizes parseDate field (rws @ [row]) s"
    if "s \<in> set ss" "aa_value s \<noteq> v" for s
    using that ok other by (simp add: summary_ok_def summarizes_def)
  have "summarizes parseDate field (rws @ [row]) s"
    if s: "s \<in> set (note_attempt parseDate field row ss)" for s
  proof (cases "aa_value s = v")
    case False
    have "s \<in> set ss"
      using s False v by (auto simp: note_attempt_def set_update_where split: if_splits)
    then show ?thesis using False by (rule keep)
  next
    case True
    show ?thesis
    proof (cases "v \<in> set (map aa_value ss)")
      case seen: True
      then obtain s0 where s0: "s0 \<in> set ss" "aa_value s0 = v"
        "s = s0\<lparr>aa_attemptCount := aa_attemptCount s0 + attempt_count row,
           aa_lastAttemptedAt := a_createdAt row,
           aa_firstAttemptedAt := (if first_attempt parseDate row < aa_firstAttemptedAt s0
             then first_attempt parseDate row else aa_firstAttemptedAt s0)\<rparr>"
        using s True v by (auto simp: note_attempt_def set_update_where)
      then have sum: "summarizes parseDate field rws s0" using ok by (simp add: summary_ok_def)
      let ?m = "attempts_of field v rws"
      have ne: "?m \<noteq> []" using sum s0(2) by (simp add: summarizes_def Let_def)
      have "aa_firstAttemptedAt s = min (first_attempt parseDate row) (aa_firstAttemptedAt s0)"
        by (simp add: s0(3) min_def)
      also have "aa_firstAttemptedAt s0 = Min (set (map (first_attempt parseDate) ?m))"
        using sum s0(2) by (simp add: summarizes_def Let_def)
      also have "min (first_attempt parseDate row) \<dots> =
          Min (set (map (first_attempt parseDate) (?m @ [row])))"
        using ne by simp
      finally have first: "aa_firstAttemptedAt s =
          Min (set (map (first_attempt parseDate) (?m @ [row])))" .
      have "aa_attemptCount s = sum_list (map attempt_count (?m @ [row]))"
        "aa_lastAttemptedAt s = a_createdAt (last (?m @ [row]))" "aa_value s = v"
        using sum s0 by (simp_all add: summarizes_def Let_def)
      then show ?thesis
        unfolding summarizes_def Let_def using first mine v(2) by simp
    next
      case new: False
      have "attempts_of field v rws = []"
        using new ok v by (auto simp: summary_ok_def)
      moreover have "s = \<lparr>aa_value = v, aa_attemptCount = attempt_count row,
            aa_firstAttemptedAt = first_attempt parseDate row,
            aa_lastAttemptedAt = a_createdAt row\<rparr>"
        using s new True v by (auto simp: note_attempt_def)
      ultimately show ?thesis
        using mine v by (simp add: summarizes_def)
    qed
  qed
  then show ?thesis using dist set_ok by (simp add: summary_ok_def)
qed

lemma fold_note_attempt_ok:
  "summary_ok parseDate field rws (fold (note_attempt parseDate field) rws [])"
proof (induction rws rule: rev_induct)
  case Nil
  then show ?case by (simp add: summary_ok_def attempts_of_def)
next
  case (snoc row rws)
  then show ?case using summary_ok_snoc by simp
qed

section \<open>Allowlists\<close>

lemma addAllowedIp_idempotent:
  assumes "addAllowedIp uuid dbNow licenseId ip d = Inr (entry, d')" "unique_on (\<lambda>r. (ia_licenseId r, ia_ip r)) (ipAllowlist d)"
  shows "addAllowedIp uuid' dbNow' licenseId ip d' = Inr (entry, d')"
proof -
  have "entry \<in> set (ipAllowlist d')" "ia_licenseId entry = licenseId" "ia_ip entry = ip"
    and u: "unique_on (\<lambda>r. (ia_licenseId r, ia_ip r)) (ipAllowlist d')"
    using assms by (auto simp: addAllowedIp_def Let_def dest: first_row_SomeD
        split: if_splits option.splits)
  then have "first_row (\<lambda>r. ia_licenseId r = licenseId \<and> ia_ip r = ip) (ipAllowlist d') = Some entry"
    by (intro first_row_unique[OF u]) auto
  moreover have "taken (\<lambda>r. (ia_licenseId r, ia_ip r)) \<lparr>ia_id = uuid', ia_licenseId = licenseId,
      ia_ip = ip, ia_createdAt = dbNow'\<rparr> (ipAllowlist d')"
    using \<open>entry \<in> _\<close> \<open>ia_licenseId entry = _\<close> \<open>ia_ip entry = _\<close>
    by (auto simp: taken_def image_iff)
  ultimately show ?thesis by (simp add: addAllowedIp_def)
qed

lemma ips_change_wf:
  "db_wf d \<Longrightarrow> ipAllowlist_wf (d\<lparr>ipAllowlist := x\<rparr>) \<Longrightarrow> db_wf (d\<lparr>ipAllowlist := x\<rparr>)"
  by (simp add: db_wf_def wf_defs license_exists_def customer_exists_def)

lemma device_ids_change_wf:
  "db_wf d \<Longrightarrow> deviceAllowlist_wf (d\<lparr>deviceAllowlist := x\<rparr>) \<Longrightarrow> db_wf (d\<lparr>deviceAllowlist := x\<rparr>)"
  by (simp add: db_wf_def wf_defs license_exists_def customer_exists_def)

lemma addAllowedIp_wf:
  assumes wf: "db_wf d" and run: "addAllowedIp uuid dbNow licenseId ip d = Inr (entry, d')"
  shows "db_wf d'"
proof (cases "d' = d")
  case False
  let ?r = "\<lparr>ia_id = uuid, ia_licenseId = licenseId, ia_ip = ip, ia_createdAt = dbNow\<rparr>"
  have d': "d' = d\<lparr>ipAllowlist := ipAllowlist d @ [?r]\<rparr>" "license_exists licenseId d"
    "\<not> taken ia_id ?r (ipAllowlist d)" "\<not> taken (\<lambda>r. (ia_licenseId r, ia_ip r)) ?r (ipAllowlist d)"
    using run False by (auto simp: addAllowedIp_def Let_def split: if_splits option.splits)
  have "ipAllowlist_wf (d\<lparr>ipAllowlist := ipAllowlist d @ [?r]\<rparr>)"
    using wf d'(2-) by (simp add: ipAllowlist_wf_def db_wf_def license_exists_def)
  with wf show ?thesis unfolding d'(1) by (rule ips_change_wf)
qed (use wf in simp)

lemma addAllowedDevice_wf:
  assumes wf: "db_wf d" and run: "addAllowedDevice uuid dbNow licenseId dev d = Inr (entry, d')"
  shows "db_wf d'"
proof (cases "d' = d")
  case False
  let ?r = "\<lparr>da_id = uuid, da_licenseId = licenseId, da_deviceId = dev, da_createdAt = dbNow\<rparr>"
  have d': "d' = d\<lparr>deviceAllowlist := deviceAllowlist d @ [?r]\<rparr>" "license_exists licenseId d"
    "\<not> taken da_id ?r (deviceAllowlist d)"
    "\<not> taken (\<lambda>r. (da_licenseId r, da_deviceId r)) ?r (deviceAllowlist d)"
    using run False by (auto simp: addAllowedDevice_def Let_def split: if_splits option.splits)
  have "deviceAllowlist_wf (d\<lparr>deviceAllowlist := deviceAllowlist d @ [?r]\<rparr>)"
    using wf d'(2-) by (simp add: deviceAllowlist_wf_def db_wf_def license_exists_def)
  with wf show ?thesis unfolding d'(1) by (rule device_ids_change_wf)
qed (use wf in simp)

lemma removeAllowedIp_wf:
  assumes wf: "db_wf d" and run: "removeAllowedIp licenseId ip d = Inr (b, d')"
  shows "db_wf d'"
proof -
  obtain P where d': "d' = d\<lparr>ipAllowlist := delete_where P (ipAllowlist d)\<rparr>"
    using run by (auto simp: removeAllowedIp_def Let_def)
  have "ipAllowlist_wf (d\<lparr>ipAllowlist := delete_where P (ipAllowlist d)\<rparr>)"
    using wf by (simp add: ipAllowlist_wf_def db_wf_def license_exists_def unique_on_delete_where)
  with wf show ?thesis unfolding d' by (rule ips_change_wf)
qed

lemma removeAllowedDevice_wf:
  assumes wf: "db_wf d" and run: "removeAllowedDevice licenseId dev d = Inr (b, d')"
  shows "db_wf d'"
proof -
  obtain P where d': "d' = d\<lparr>deviceAllowlist := delete_where P (deviceAllowlist d)\<rparr>"
    using run by (auto simp: removeAllowedDevice_def Let_def)
  have "deviceAllowlist_wf (d\<lparr>deviceAllowlist := delete_where P (deviceAllowlist d)\<rparr>)"
    using wf by (simp add: deviceAllowlist_wf_def db_wf_def license_exists_def unique_on_delete_where)
  with wf show ?thesis unfolding d' by (rule device_ids_change_wf)
qed

section \<open>Properties\<close>

text \<open>
  The access summary is a faithful digest of the recorded attempts. It has one line for
  each address (or device) that appears in them, newest first; each line counts every attempt
  of its value, and gives the earliest first attempt and the time of the latest one.
\<close>

theorem attempts_summary:
  "summary_ok parseDate field rws (summarizeAttempts parseDate field rws) \<and>
    sorted (map (\<lambda>s. - aa_lastAttemptedAt s) (summarizeAttempts parseDate field rws))"
proof -
  let ?ss = "fold (note_attempt parseDate field) rws []"
  have perm: "mset (summarizeAttempts parseDate field rws) = mset ?ss"
    by (simp add: summarizeAttempts_def)
  then have "mset (map aa_value (summarizeAttempts parseDate field rws)) = mset (map aa_value ?ss)"
    by simp
  then have "distinct (map aa_value (summarizeAttempts parseDate field rws)) = distinct (map aa_value ?ss)"
    and "set (map aa_value (summarizeAttempts parseDate field rws)) = set (map aa_value ?ss)"
    by (rule mset_eq_imp_distinct_iff, rule mset_eq_setD)
  moreover have "set (summarizeAttempts parseDate field rws) = set ?ss"
    using perm by (rule mset_eq_setD)
  ultimately show ?thesis
    using fold_note_attempt_ok[of parseDate field rws]
    by (simp add: summary_ok_def summarizeAttempts_def)
qed

end
