(* ===== verification/ClientIp.thy ===== *)
theory ClientIp
  imports Entities "HOL-Library.Word"
begin

text \<open>
  \<open>domain/ipAddress.ts\<close> and \<open>controllers/clientIp.ts\<close>: the canonical form of an address and
  the client a request is attributed to. What the source takes from the platform is the record
  \<open>host\<close>: \<open>isIP\<close> and \<open>BlockList.check\<close> of \<open>node:net\<close>, and the host name the WHATWG URL parser
  gives a bracketed IPv6 address (\<open>None\<close> when it throws). \<open>BlockList.addSubnet\<close> throws on a prefix
  longer than its family allows; that is not modelled, because \<open>loadServerConfig\<close> accepts no such
  range (theory \<open>Config\<close> proves it).

  The theory shows that normalising is idempotent under the documented behaviour of the
  platform, that headers cannot move a request away from an untrusted peer, and that of a
  forwarded chain only the part behind the nearest untrusted address is ignored.
\<close>

record host =
  h_isIP :: "string \<Rightarrow> nat"
  h_urlHostname :: "string \<Rightarrow> string option"
  h_inSubnets :: "(string \<times> string \<times> nat) list \<Rightarrow> string \<Rightarrow> nat \<Rightarrow> bool"

section \<open>Canonical addresses\<close>

definition join :: "char \<Rightarrow> string list \<Rightarrow> string" where
  "join c parts = (case parts of [] \<Rightarrow> [] | p # ps \<Rightarrow> p @ concat (map (\<lambda>q. c # q) ps))"

definition lower_hex :: "char \<Rightarrow> bool" where
  "lower_hex c \<longleftrightarrow> is_digit c \<or> (97 \<le> (of_char c :: nat) \<and> (of_char c :: nat) \<le> 102)"

definition hex_val :: "char \<Rightarrow> nat" where
  "hex_val c = (if is_digit c then digit_val c else of_char c - 87)"

definition parse_hex :: "string \<Rightarrow> nat" where
  "parse_hex s = foldl (\<lambda>a c. 16 * a + hex_val c) 0 s"

definition hex_group :: "string \<Rightarrow> bool" where
  "hex_group s \<longleftrightarrow> 1 \<le> length s \<and> length s \<le> 4 \<and> list_all lower_hex s"

definition ascii_lower :: "char \<Rightarrow> char" where
  "ascii_lower c = (let n = (of_char c :: nat) in if 65 \<le> n \<and> n \<le> 90 then char_of (n + 32) else c)"

definition mapped_groups :: "string \<Rightarrow> (string \<times> string) option" where
  "mapped_groups normalized =
    (if take 7 normalized = ''::ffff:'' then
       (case split_on (CHR '':'') (drop 7 normalized) of
         [h, l] \<Rightarrow> if hex_group h \<and> hex_group l then Some (h, l) else None
       | _ \<Rightarrow> None)
     else None)"

definition high_byte :: "32 word \<Rightarrow> nat" where
  "high_byte w = unat (drop_bit 8 w)"

definition low_byte :: "32 word \<Rightarrow> nat" where
  "low_byte w = unat (and w 255)"

definition dotted :: "nat list \<Rightarrow> string" where
  "dotted bytes = join (CHR ''.'') (map show_nat bytes)"

definition normalizeIpAddress :: "host \<Rightarrow> string \<Rightarrow> string option" where
  "normalizeIpAddress h value =
    (let address = trim value; family = h_isIP h address in
     if family = 4 then
       Some (join (CHR ''.'') (map (\<lambda>part. show_nat (digits_val part)) (split_on (CHR ''.'') address)))
     else if family \<noteq> 6 then None
     else
       (case h_urlHostname h address of
         None \<Rightarrow> None
       | Some hostname \<Rightarrow>
           (let normalized = map ascii_lower (butlast (tl hostname)) in
            case mapped_groups normalized of
              None \<Rightarrow> Some normalized
            | Some (a, b) \<Rightarrow>
                (let high = word_of_nat (parse_hex a); low = word_of_nat (parse_hex b) in
                 Some (''::ffff:'' @
                   dotted [high_byte high, low_byte high, high_byte low, low_byte low])))))"

section \<open>The client of a request\<close>

datatype proxy_header = X_forwarded_for | Cf_connecting_ip | X_real_ip | Any_header

record client_ip_options =
  co_trustProxyHeaders :: bool
  co_trustedProxyCidrs :: "string list"
  co_trustedProxyHeader :: "proxy_header option"

record resolver =
  cr_trusted :: "(string \<times> string \<times> nat) list"
  cr_header :: proxy_header
  cr_trustAll :: bool
  cr_trustHeaders :: bool

record request_headers =
  rh_cloudflare :: "string option"
  rh_forwarded :: "string option"
  rh_realIp :: "string option"

definition FALLBACK_IP :: string where
  "FALLBACK_IP = ''127.0.0.1''"

definition MAX_FORWARDED_CHAIN_LENGTH :: nat where
  "MAX_FORWARDED_CHAIN_LENGTH = 32"

definition subnet_of :: "host \<Rightarrow> string \<Rightarrow> (string \<times> string \<times> nat) option" where
  "subnet_of h cidr =
    (if cidr = ''*'' then None
     else
       (case split_on (CHR ''/'') cidr of
         address # prefixText # _ \<Rightarrow>
           if address = [] \<or> prefixText = [] \<or> h_isIP h address = 0 then None
           else Some (address, prefixText, h_isIP h address)
       | _ \<Rightarrow> None))"

definition ClientIpResolver :: "host \<Rightarrow> client_ip_options \<Rightarrow> resolver" where
  "ClientIpResolver h options =
    \<lparr>cr_trusted = List.map_filter (subnet_of h) (co_trustedProxyCidrs options),
     cr_header = (case co_trustedProxyHeader options of None \<Rightarrow> X_forwarded_for | Some x \<Rightarrow> x),
     cr_trustAll = (''*'' \<in> set (co_trustedProxyCidrs options)),
     cr_trustHeaders = co_trustProxyHeaders options\<rparr>"

definition isTrusted :: "host \<Rightarrow> resolver \<Rightarrow> string \<Rightarrow> bool" where
  "isTrusted h c address \<longleftrightarrow>
    h_isIP h address > 0 \<and>
    (cr_trustAll c \<or> h_inSubnets h (cr_trusted c) address (h_isIP h address))"

definition or_else :: "'a option \<Rightarrow> 'a \<Rightarrow> 'a" where
  "or_else x d = (case x of None \<Rightarrow> d | Some v \<Rightarrow> v)"

fun walk_chain :: "host \<Rightarrow> resolver \<Rightarrow> string \<Rightarrow> string \<Rightarrow> string list \<Rightarrow> string" where
  "walk_chain h c socketIp current [] = current"
| "walk_chain h c socketIp current (entry # entries) =
    (if \<not> isTrusted h c current then current
     else walk_chain h c socketIp (or_else (normalizeIpAddress h entry) socketIp) entries)"

definition resolveForwardedChain :: "host \<Rightarrow> resolver \<Rightarrow> string option \<Rightarrow> string \<Rightarrow> string" where
  "resolveForwardedChain h c forwarded socketIp =
    (case forwarded of
      None \<Rightarrow> socketIp
    | Some f \<Rightarrow>
        if f = [] then socketIp
        else
          (let chain = split_on (CHR '','') f in
           if length chain > MAX_FORWARDED_CHAIN_LENGTH \<or>
              list_ex (\<lambda>entry. normalizeIpAddress h entry = None) chain
           then socketIp
           else walk_chain h c socketIp socketIp (rev chain)))"

fun normalize_all :: "host \<Rightarrow> string option list \<Rightarrow> string list option" where
  "normalize_all h [] = Some []"
| "normalize_all h (None # vs) = normalize_all h vs"
| "normalize_all h (Some v # vs) =
    (case normalizeIpAddress h v of
      None \<Rightarrow> None
    | Some a \<Rightarrow> map_option (\<lambda>as. a # as) (normalize_all h vs))"

definition resolve :: "host \<Rightarrow> resolver \<Rightarrow> string option \<Rightarrow> request_headers \<Rightarrow> string" where
  "resolve h c peer headers =
    (let socketIp = or_else (normalizeIpAddress h (or_else peer FALLBACK_IP)) FALLBACK_IP in
     if \<not> cr_trustHeaders c \<or> \<not> isTrusted h c socketIp then socketIp
     else
       (case cr_header c of
         Any_header \<Rightarrow>
           (case normalize_all h [rh_cloudflare headers, rh_realIp headers] of
             None \<Rightarrow> socketIp
           | Some resolved \<Rightarrow>
               (let all = resolved @ (case rh_forwarded headers of None \<Rightarrow> []
                      | Some f \<Rightarrow> [resolveForwardedChain h c (Some f) socketIp]) in
                if length (remdups all) \<noteq> 1 then socketIp else hd all))
       | Cf_connecting_ip \<Rightarrow> or_else (normalizeIpAddress h (or_else (rh_cloudflare headers) [])) socketIp
       | X_real_ip \<Rightarrow> or_else (normalizeIpAddress h (or_else (rh_realIp headers) [])) socketIp
       | X_forwarded_for \<Rightarrow> resolveForwardedChain h c (rh_forwarded headers) socketIp))"

definition getClientIp ::
    "host \<Rightarrow> string option \<Rightarrow> request_headers \<Rightarrow> client_ip_options \<Rightarrow> string" where
  "getClientIp h peer headers options = resolve h (ClientIpResolver h options) peer headers"

section \<open>Lists in strings\<close>

lemma split_on_append [simp]: "split_on c (a @ c # b) = split_on c a @ split_on c b"
  by (induction a) (auto split: list.splits)

lemma split_on_single: "c \<notin> set a \<Longrightarrow> split_on c a = [a]"
  by (induction a) auto

lemma split_on_join:
  "ps \<noteq> [] \<Longrightarrow> \<forall>p \<in> set ps. c \<notin> set p \<Longrightarrow> split_on c (join c ps) = ps"
proof (induction ps)
  case (Cons p ps)
  show ?case
  proof (cases ps)
    case Nil
    then show ?thesis using Cons.prems by (simp add: join_def split_on_single)
  next
    case (Cons q qs)
    then have "join c (p # ps) = p @ c # join c ps" by (simp add: join_def)
    then show ?thesis using Cons.IH Cons.prems Cons by (simp add: split_on_single)
  qed
qed simp

lemma split_on_parts: "p \<in> set (split_on c s) \<Longrightarrow> c \<notin> set p"
  by (induction s arbitrary: p) (auto split: if_splits list.splits)

section \<open>The walk\<close>

lemma walk_chain_append:
  "walk_chain h c s cur (xs @ ys) =
    (if list_all (isTrusted h c) (butlast (cur # map (\<lambda>e. or_else (normalizeIpAddress h e) s) xs))
     then walk_chain h c s (last (cur # map (\<lambda>e. or_else (normalizeIpAddress h e) s) xs)) ys
     else walk_chain h c s cur xs)"
  by (induction xs arbitrary: cur) auto

lemma walk_chain_stops:
  assumes "\<not> isTrusted h c (walk_chain h c s cur xs)"
  shows "walk_chain h c s cur (xs @ ys) = walk_chain h c s cur xs"
  using assms
proof (induction xs arbitrary: cur)
  case Nil
  then show ?case by (cases ys) auto
qed auto

lemma resolve_ignores_headers:
  assumes "\<not> cr_trustHeaders c \<or>
    \<not> isTrusted h c (or_else (normalizeIpAddress h (or_else peer FALLBACK_IP)) FALLBACK_IP)"
  shows "resolve h c peer headers = or_else (normalizeIpAddress h (or_else peer FALLBACK_IP)) FALLBACK_IP"
  using assms by (auto simp: resolve_def Let_def)

lemma forwarded_prefix:
  assumes "r = resolveForwardedChain h c (Some suffix) s" "r \<noteq> s" "\<not> isTrusted h c r"
  shows "resolveForwardedChain h c (Some (prefix @ CHR '','' # suffix)) s \<in> {s, r}"
proof -
  let ?chain = "split_on (CHR '','') suffix"
  have walk: "r = walk_chain h c s s (rev ?chain)"
    using assms(1,2) by (auto simp: resolveForwardedChain_def Let_def split: if_splits)
  then have "walk_chain h c s s (rev ?chain @ ys) = r" for ys
    using walk_chain_stops[of h c s s "rev ?chain"] assms(3) by simp
  then show ?thesis by (simp add: resolveForwardedChain_def Let_def)
qed

section \<open>Normalising\<close>

text \<open>
  \<open>host_ok\<close>: the documented behaviour of the platform. \<open>isIP\<close> answers 4 exactly for four decimal
  numbers below 256 without leading zeros, accepts no surrounding white space, and the URL
  parser serialises every IPv6 address in brackets, in lower case, in one canonical form that
  it leaves alone; the canonical form of an IPv4-mapped address ends in two hexadecimal groups.
\<close>

definition hex_digit_char :: "nat \<Rightarrow> char" where
  "hex_digit_char k = (if k < 10 then char_of (48 + k) else char_of (87 + k))"

fun show_hex :: "nat \<Rightarrow> string" where
  "show_hex n =
    (if n < 16 then [hex_digit_char n] else show_hex (n div 16) @ [hex_digit_char (n mod 16)])"

definition is_quad :: "string \<Rightarrow> bool" where
  "is_quad s \<longleftrightarrow> (\<exists>a b c d. a < 256 \<and> b < 256 \<and> c < 256 \<and> d < 256 \<and> s = dotted [a, b, c, d])"

definition host_ok :: "host \<Rightarrow> bool" where
  "host_ok h \<longleftrightarrow>
    (\<forall>s. h_isIP h s = 4 \<longleftrightarrow> is_quad s) \<and>
    (\<forall>s. h_isIP h s \<noteq> 0 \<longrightarrow> trim s = s) \<and>
    (\<forall>s t. h_isIP h s = 6 \<longrightarrow> h_urlHostname h s = Some t \<longrightarrow>
      (\<exists>u. t = CHR ''['' # u @ '']'' \<and> map ascii_lower u = u \<and> h_isIP h u = 6 \<and>
        h_urlHostname h u = Some t)) \<and>
    (\<forall>a b c d. a < 256 \<longrightarrow> b < 256 \<longrightarrow> c < 256 \<longrightarrow> d < 256 \<longrightarrow>
      h_isIP h (''::ffff:'' @ dotted [a, b, c, d]) = 6 \<and>
      h_urlHostname h (''::ffff:'' @ dotted [a, b, c, d]) =
        Some (''[::ffff:'' @ show_hex (256 * a + b) @ '':'' @ show_hex (256 * c + d) @ '']''))"

lemma host_ok_quad: "host_ok h \<Longrightarrow> h_isIP h s = 4 \<longleftrightarrow> is_quad s"
  and host_ok_trim: "host_ok h \<Longrightarrow> h_isIP h s \<noteq> 0 \<Longrightarrow> trim s = s"
  unfolding host_ok_def by blast+

declare show_hex.simps [simp del]

lemma hex_digit_lower: "k < 16 \<Longrightarrow> lower_hex (hex_digit_char k)"
  by (auto simp: lower_hex_def is_digit_def hex_digit_char_def)

lemma hex_digit_val: "k < 16 \<Longrightarrow> hex_val (hex_digit_char k) = k"
  by (auto simp: hex_val_def digit_val_def is_digit_def hex_digit_char_def)

lemma show_hex_lower: "list_all lower_hex (show_hex n)"
  by (induction n rule: show_hex.induct) (subst show_hex.simps, simp add: hex_digit_lower)

lemma parse_hex_snoc: "parse_hex (s @ [c]) = 16 * parse_hex s + hex_val c"
  by (simp add: parse_hex_def)

lemma parse_show_hex: "parse_hex (show_hex n) = n"
proof (induction n rule: show_hex.induct)
  case (1 n)
  show ?case
  proof (cases "n < 16")
    case True
    then show ?thesis by (subst show_hex.simps) (simp add: parse_hex_def hex_digit_val)
  next
    case False
    with 1 have "parse_hex (show_hex (n div 16)) = n div 16" by simp
    with False show ?thesis by (subst show_hex.simps) (simp add: parse_hex_snoc hex_digit_val)
  qed
qed

lemma show_hex_length: "n < 16 ^ Suc k \<Longrightarrow> 1 \<le> length (show_hex n) \<and> length (show_hex n) \<le> Suc k"
proof (induction k arbitrary: n)
  case 0
  then show ?case by (subst (1 2) show_hex.simps) simp
next
  case (Suc k)
  show ?case
  proof (cases "n < 16")
    case True
    then show ?thesis by (subst (1 2) show_hex.simps) simp
  next
    case False
    have "n div 16 < 16 ^ Suc k" using Suc.prems by (simp add: less_mult_imp_div_less)
    from Suc.IH[OF this] False show ?thesis by (subst (1 2) show_hex.simps) simp
  qed
qed

lemma hex_group_show: "n < 65536 \<Longrightarrow> hex_group (show_hex n)"
  using show_hex_length[of n 3] show_hex_lower[of n] by (simp add: hex_group_def)

lemma parse_hex_bound:
  "list_all lower_hex s \<Longrightarrow> parse_hex s < 16 ^ length s"
proof (induction s rule: rev_induct)
  case Nil
  then show ?case by (simp add: parse_hex_def)
next
  case (snoc c s)
  then have "hex_val c < 16" by (auto simp: lower_hex_def hex_val_def digit_val_def is_digit_def)
  with snoc show ?case by (simp add: parse_hex_snoc)
qed

lemma hex_group_bound: "hex_group s \<Longrightarrow> parse_hex s < 65536"
proof -
  assume g: "hex_group s"
  then have "parse_hex s < 16 ^ length s" by (intro parse_hex_bound) (simp add: hex_group_def)
  also have "(16 :: nat) ^ length s \<le> 16 ^ 4" using g by (intro power_increasing) (simp_all add: hex_group_def)
  finally show ?thesis by simp
qed

lemma word_bytes:
  assumes "n < 65536"
  shows "high_byte (word_of_nat n) = n div 256" "low_byte (word_of_nat n) = n mod 256"
proof -
  have n: "unat (word_of_nat n :: 32 word) = n"
    using assms by (simp add: unsigned_of_nat take_bit_eq_mod)
  show "high_byte (word_of_nat n) = n div 256"
    unfolding high_byte_def unat_drop_bit_eq n by (simp add: drop_bit_eq_div)
  have "and (word_of_nat n :: 32 word) 255 = take_bit 8 (word_of_nat n)"
    by (simp add: take_bit_eq_mask mask_eq_exp_minus_1)
  then have "low_byte (word_of_nat n) = take_bit 8 (unat (word_of_nat n :: 32 word))"
    unfolding low_byte_def by (simp only: unsigned_take_bit_eq)
  then show "low_byte (word_of_nat n) = n mod 256" unfolding n by (simp add: take_bit_eq_mod)
qed

lemma lower_hex_id: "list_all lower_hex s \<Longrightarrow> map ascii_lower s = s"
  by (induction s) (auto simp: lower_hex_def is_digit_def ascii_lower_def Let_def)

lemma show_nat_no_dot: "CHR ''.'' \<notin> set (show_nat n)"
  using show_nat_set[of "CHR ''.''"] by (auto simp: is_digit_def)

lemma split_dotted: "bs \<noteq> [] \<Longrightarrow> split_on (CHR ''.'') (dotted bs) = map show_nat bs"
  unfolding dotted_def by (rule split_on_join) (auto simp: show_nat_no_dot)

lemma normalize_quad:
  assumes "host_ok h" "is_quad s"
  shows "normalizeIpAddress h s = Some s"
proof -
  have four: "h_isIP h s = 4" "trim s = s"
    using host_ok_quad[OF assms(1), of s] host_ok_trim[OF assms(1), of s] assms(2) by simp_all
  obtain a b c d where s: "s = dotted [a, b, c, d]" using assms(2) by (auto simp: is_quad_def)
  have "map (\<lambda>part. show_nat (digits_val part)) (split_on (CHR ''.'') s) = map show_nat [a, b, c, d]"
    by (simp add: s split_dotted digits_val_show_nat)
  then show ?thesis using four by (simp add: normalizeIpAddress_def Let_def) (simp add: s dotted_def)
qed

lemma lower_hex_no_colon: "list_all lower_hex s \<Longrightarrow> CHR '':'' \<notin> set s"
  by (induction s) (auto simp: lower_hex_def is_digit_def)

lemma mapped_groups_shown:
  assumes "m < 65536" "n < 65536"
  shows "mapped_groups (''::ffff:'' @ show_hex m @ '':'' @ show_hex n) = Some (show_hex m, show_hex n)"
proof -
  have "split_on (CHR '':'') (show_hex m @ CHR '':'' # show_hex n) = [show_hex m, show_hex n]"
    using lower_hex_no_colon[OF show_hex_lower] by (simp add: split_on_single)
  then show ?thesis using assms by (simp add: mapped_groups_def hex_group_show)
qed

lemma normalize_mapped:
  assumes ok: "host_ok h" and m: "m < 65536" "n < 65536"
  defines "s \<equiv> ''::ffff:'' @ dotted [m div 256, m mod 256, n div 256, n mod 256]"
  shows "normalizeIpAddress h s = Some s"
proof -
  have six: "h_isIP h s = 6" and url: "h_urlHostname h s = Some (''[::ffff:'' @ show_hex m @ '':'' @ show_hex n @ '']'')"
    using ok m unfolding host_ok_def s_def by (auto simp: less_mult_imp_div_less)
  have tr: "trim s = s" using host_ok_trim[OF ok, of s] six by simp
  have low: "map ascii_lower (''::ffff:'' @ show_hex m @ '':'' @ show_hex n) =
      ''::ffff:'' @ show_hex m @ '':'' @ show_hex n"
    using lower_hex_id[OF show_hex_lower] by (simp add: ascii_lower_def)
  have "butlast (tl (''[::ffff:'' @ show_hex m @ '':'' @ show_hex n @ '']'')) =
      ''::ffff:'' @ show_hex m @ '':'' @ show_hex n"
    by (simp add: butlast_append)
  then show ?thesis
    using six url tr low mapped_groups_shown[OF m] word_bytes[OF m(1)] word_bytes[OF m(2)]
    by (simp add: normalizeIpAddress_def Let_def parse_show_hex) (simp add: s_def)
qed

lemma normalize_idempotent:
  assumes ok: "host_ok h" and a: "normalizeIpAddress h value = Some a"
  shows "normalizeIpAddress h a = Some a"
proof -
  let ?v = "trim value"
  have fam: "h_isIP h ?v = 4 \<or> h_isIP h ?v = 6"
    using a by (auto simp: normalizeIpAddress_def Let_def split: if_splits)
  then show ?thesis
  proof
    assume "h_isIP h ?v = 4"
    then have q: "is_quad ?v" using host_ok_quad[OF ok] by simp
    have "normalizeIpAddress h ?v = normalizeIpAddress h value" by (simp add: normalizeIpAddress_def)
    with normalize_quad[OF ok q] a show ?thesis by simp
  next
    assume six: "h_isIP h ?v = 6"
    then obtain t where t: "h_urlHostname h ?v = Some t"
      using a by (auto simp: normalizeIpAddress_def Let_def split: option.splits)
    with six ok obtain u where u: "t = CHR ''['' # u @ '']''" "map ascii_lower u = u" "h_isIP h u = 6"
      "h_urlHostname h u = Some t"
      unfolding host_ok_def by blast
    have tr: "trim u = u" using host_ok_trim[OF ok, of u] u(3) by simp
    show ?thesis
    proof (cases "mapped_groups u")
      case None
      then have "a = u" using a six t u by (simp add: normalizeIpAddress_def Let_def)
      then show ?thesis using None u tr by (simp add: normalizeIpAddress_def Let_def)
    next
      case (Some g)
      obtain x y where g: "g = (x, y)" by (cases g)
      have "hex_group x" "hex_group y"
        using Some g by (auto simp: mapped_groups_def split: list.splits if_splits)
      then have b: "parse_hex x < 65536" "parse_hex y < 65536" by (simp_all add: hex_group_bound)
      have "a = ''::ffff:'' @ dotted [parse_hex x div 256, parse_hex x mod 256,
          parse_hex y div 256, parse_hex y mod 256]"
        using a six t u Some g word_bytes[OF b(1)] word_bytes[OF b(2)]
        by (simp add: normalizeIpAddress_def Let_def)
      then show ?thesis using normalize_mapped[OF ok b] by simp
    qed
  qed
qed

section \<open>A platform that knows IPv4 and mapped addresses\<close>

definition quad_of :: "string \<Rightarrow> (nat \<times> nat \<times> nat \<times> nat) option" where
  "quad_of s =
    (case map digits_val (split_on (CHR ''.'') s) of
      [a, b, c, d] \<Rightarrow>
        if a < 256 \<and> b < 256 \<and> c < 256 \<and> d < 256 \<and> dotted [a, b, c, d] = s then Some (a, b, c, d)
        else None
    | _ \<Rightarrow> None)"

definition canonical6 :: "nat \<Rightarrow> nat \<Rightarrow> string" where
  "canonical6 m n = ''::ffff:'' @ show_hex m @ '':'' @ show_hex n"

definition mapped6 :: "string \<Rightarrow> (nat \<times> nat) option" where
  "mapped6 s =
    (if take 7 s \<noteq> ''::ffff:'' then None
     else
       (case quad_of (drop 7 s) of
         Some (a, b, c, d) \<Rightarrow> Some (256 * a + b, 256 * c + d)
       | None \<Rightarrow>
           (case map parse_hex (split_on (CHR '':'') (drop 7 s)) of
             [m, n] \<Rightarrow> if m < 65536 \<and> n < 65536 \<and> canonical6 m n = s then Some (m, n) else None
           | _ \<Rightarrow> None)))"

definition mapped_host :: host where
  "mapped_host = \<lparr>h_isIP = (\<lambda>s. if quad_of s \<noteq> None then 4 else if mapped6 s \<noteq> None then 6 else 0),
    h_urlHostname = (\<lambda>s. map_option (\<lambda>(m, n). CHR ''['' # canonical6 m n @ '']'') (mapped6 s)),
    h_inSubnets = (\<lambda>_ _ _. False)\<rparr>"

lemma quad_of_dotted:
  "a < 256 \<Longrightarrow> b < 256 \<Longrightarrow> c < 256 \<Longrightarrow> d < 256 \<Longrightarrow> quad_of (dotted [a, b, c, d]) = Some (a, b, c, d)"
  by (simp add: quad_of_def split_dotted digits_val_show_nat)

lemma quad_of_iff: "quad_of s \<noteq> None \<longleftrightarrow> is_quad s"
proof
  assume "quad_of s \<noteq> None"
  then show "is_quad s"
    by (auto simp: quad_of_def is_quad_def split: list.splits if_splits)
next
  assume "is_quad s"
  then show "quad_of s \<noteq> None" by (auto simp: is_quad_def quad_of_dotted)
qed

lemma mapped6_canonical: "m < 65536 \<Longrightarrow> n < 65536 \<Longrightarrow> mapped6 (canonical6 m n) = Some (m, n)"
proof -
  assume b: "m < 65536" "n < 65536"
  let ?t = "show_hex m @ CHR '':'' # show_hex n"
  have dots: "CHR ''.'' \<notin> set ?t"
    using show_hex_lower[of m] show_hex_lower[of n]
    by (auto simp: list_all_iff lower_hex_def is_digit_def)
  have "quad_of ?t = None"
    using split_on_single[OF dots] by (simp add: quad_of_def)
  moreover have "split_on (CHR '':'') ?t = [show_hex m, show_hex n]"
    using lower_hex_no_colon[OF show_hex_lower] by (simp add: split_on_single)
  ultimately show ?thesis using b by (simp add: mapped6_def canonical6_def parse_show_hex)
qed

lemma mapped6_bound: "mapped6 s = Some (m, n) \<Longrightarrow> m < 65536 \<and> n < 65536"
  by (auto simp: mapped6_def quad_of_def split: if_splits option.splits list.splits)

lemma mapped6_dotted:
  "a < 256 \<Longrightarrow> b < 256 \<Longrightarrow> c < 256 \<Longrightarrow> d < 256 \<Longrightarrow>
    mapped6 (''::ffff:'' @ dotted [a, b, c, d]) = Some (256 * a + b, 256 * c + d)"
  by (simp add: mapped6_def quad_of_dotted)

lemma trim_id: "list_all (\<lambda>c. \<not> js_space c) s \<Longrightarrow> trim s = s"
proof -
  assume a: "list_all (\<lambda>c. \<not> js_space c) s"
  have "dropWhile js_space u = u" if "list_all (\<lambda>c. \<not> js_space c) u" for u
    using that by (cases u) auto
  from this[OF a] this[of "rev s"] a have "dropWhile js_space s = s" "dropWhile js_space (rev s) = rev s"
    by (simp_all add: list_all_iff)
  then show ?thesis by (simp add: trim_def)
qed

lemma dotted_no_space: "list_all (\<lambda>c. \<not> js_space c) (dotted [a, b, c, d])"
proof -
  have "\<not> js_space x" if "x \<in> set (show_nat n)" for x n
    using show_nat_set[OF that] by (auto simp: js_space_def is_digit_def)
  then show ?thesis by (auto simp: dotted_def join_def list_all_iff js_space_def)
qed

lemma canonical_no_space: "list_all (\<lambda>c. \<not> js_space c) (canonical6 m n)"
proof -
  have "\<not> js_space x" if "x \<in> set (show_hex n)" for x n
    using show_hex_lower[of n] that by (auto simp: list_all_iff js_space_def lower_hex_def is_digit_def)
  then show ?thesis by (auto simp: canonical6_def list_all_iff js_space_def)
qed

lemma mapped6_trim: "mapped6 s = Some (m, n) \<Longrightarrow> trim s = s"
proof -
  assume a: "mapped6 s = Some (m, n)"
  then have "take 7 s = ''::ffff:''" by (simp add: mapped6_def split: if_splits)
  then have s: "s = ''::ffff:'' @ drop 7 s" using append_take_drop_id[of 7 s] by simp
  show ?thesis
  proof (cases "quad_of (drop 7 s)")
    case None
    then have "s = canonical6 m n"
      using a by (auto simp: mapped6_def split: if_splits list.splits)
    then show ?thesis using canonical_no_space trim_id by metis
  next
    case (Some q)
    then have "quad_of (drop 7 s) \<noteq> None" by simp
    then have "is_quad (drop 7 s)" using quad_of_iff by blast
    then obtain a b c d where "drop 7 s = dotted [a, b, c, d]" by (auto simp: is_quad_def)
    then have "s = ''::ffff:'' @ dotted [a, b, c, d]" using s by simp
    moreover have "list_all (\<lambda>c. \<not> js_space c) (''::ffff:'' @ dotted [a, b, c, d])"
      using dotted_no_space[of a b c d] by (simp add: js_space_def)
    ultimately show ?thesis using trim_id by metis
  qed
qed

lemma mapped_host_ok: "host_ok mapped_host"
proof -
  have "h_isIP mapped_host s = 4 \<longleftrightarrow> is_quad s" for s
    using quad_of_iff[of s] by (simp add: mapped_host_def)
  moreover have "trim s = s" if "h_isIP mapped_host s \<noteq> 0" for s
  proof (cases "quad_of s")
    case None
    then show ?thesis using that mapped6_trim[of s] by (auto simp: mapped_host_def split: if_splits)
  next
    case (Some q)
    then have "quad_of s \<noteq> None" by simp
    then have "is_quad s" using quad_of_iff by blast
    then show ?thesis using dotted_no_space trim_id by (auto simp: is_quad_def)
  qed
  moreover have "\<exists>u. t = CHR ''['' # u @ '']'' \<and> map ascii_lower u = u \<and> h_isIP mapped_host u = 6 \<and>
      h_urlHostname mapped_host u = Some t" if url: "h_urlHostname mapped_host s = Some t" for s t
  proof -
    from url obtain m n where m: "mapped6 s = Some (m, n)" and t: "t = CHR ''['' # canonical6 m n @ '']''"
      by (auto simp: mapped_host_def)
    have b: "m < 65536" "n < 65536" using mapped6_bound[OF m] by auto
    have "split_on (CHR ''.'') (canonical6 m n) = [canonical6 m n]"
      using show_hex_lower[of m] show_hex_lower[of n]
      by (intro split_on_single) (auto simp: canonical6_def list_all_iff lower_hex_def is_digit_def)
    then have "quad_of (canonical6 m n) = None" by (simp add: quad_of_def)
    moreover have "map ascii_lower (canonical6 m n) = canonical6 m n"
      using lower_hex_id[OF show_hex_lower] by (simp add: canonical6_def ascii_lower_def)
    ultimately show ?thesis
      using t mapped6_canonical[OF b] by (intro exI[of _ "canonical6 m n"]) (simp add: mapped_host_def)
  qed
  moreover have "h_isIP mapped_host (''::ffff:'' @ dotted [a, b, c, d]) = 6 \<and>
      h_urlHostname mapped_host (''::ffff:'' @ dotted [a, b, c, d]) =
        Some (''[::ffff:'' @ show_hex (256 * a + b) @ '':'' @ show_hex (256 * c + d) @ '']'')"
    if "a < 256" "b < 256" "c < 256" "d < 256" for a b c d
  proof -
    have "CHR '':'' \<notin> set (dotted [x, y, z, u])" for x y z u
      using show_nat_set[of "CHR '':''"] by (auto simp: dotted_def join_def is_digit_def)
    then have "\<not> is_quad (''::ffff:'' @ dotted [a, b, c, d])"
      unfolding is_quad_def by (metis append_Cons list.set_intros(1))
    then have "quad_of (''::ffff:'' @ dotted [a, b, c, d]) = None" using quad_of_iff by blast
    then show ?thesis
      using mapped6_dotted[OF that] by (simp add: mapped_host_def canonical6_def)
  qed
  ultimately show ?thesis unfolding host_ok_def by blast
qed

section \<open>Properties\<close>

text \<open>
  C20: headers cannot move a request away from an untrusted peer. When proxy headers are not
  trusted, or the socket's peer is not a trusted proxy, the client is the peer, whatever the
  headers say; and behind a trusted proxy that forwards the chain, whoever writes the part of
  \<open>X-Forwarded-For\<close> in front of an untrusted address the chain resolves to can only make the
  resolver fall back to the peer, never choose another address.
\<close>

theorem headers_cannot_spoof:
  assumes "socketIp = or_else (normalizeIpAddress h (or_else peer FALLBACK_IP)) FALLBACK_IP"
  shows "(\<not> cr_trustHeaders c \<or> \<not> isTrusted h c socketIp \<longrightarrow> resolve h c peer headers = socketIp) \<and>
    (cr_header c = X_forwarded_for \<and> rh_forwarded headers = Some suffix \<and>
      rh_forwarded headers' = Some (prefix @ CHR '','' # suffix) \<and>
      resolve h c peer headers \<noteq> socketIp \<and> \<not> isTrusted h c (resolve h c peer headers) \<longrightarrow>
      resolve h c peer headers' \<in> {socketIp, resolve h c peer headers})"
  using resolve_ignores_headers[of c h peer headers] forwarded_prefix[OF refl, of h c suffix socketIp prefix]
    assms by (auto simp: resolve_def Let_def)

definition sample_host :: host where
  "sample_host = \<lparr>h_isIP = (\<lambda>s. if length (split_on (CHR ''.'') s) = 4 then 4 else 0),
    h_urlHostname = (\<lambda>_. None),
    h_inSubnets = (\<lambda>nets s _. list_ex (\<lambda>(a, _). take 3 a = take 3 s) nets)\<rparr>"

theorem headers_cannot_spoof_witness:
  "getClientIp sample_host (Some ''10.0.0.1'')
      \<lparr>rh_cloudflare = None, rh_forwarded = Some ''1.1.1.1,9.9.9.9,10.0.0.2'', rh_realIp = None\<rparr>
      \<lparr>co_trustProxyHeaders = True, co_trustedProxyCidrs = [''10.0.0.0/8''], co_trustedProxyHeader = None\<rparr> =
    ''9.9.9.9'' \<and>
    resolve sample_host (ClientIpResolver sample_host \<lparr>co_trustProxyHeaders = True,
        co_trustedProxyCidrs = [''10.0.0.0/8''], co_trustedProxyHeader = None\<rparr>) (Some ''8.8.8.8'')
      \<lparr>rh_cloudflare = None, rh_forwarded = Some ''1.1.1.1'', rh_realIp = None\<rparr> = ''8.8.8.8''"
proof -
  let ?o = "\<lparr>co_trustProxyHeaders = True, co_trustedProxyCidrs = [''10.0.0.0/8''],
    co_trustedProxyHeader = None\<rparr>"
  let ?c = "ClientIpResolver sample_host ?o"
  have s: "or_else (normalizeIpAddress sample_host (or_else (Some ''8.8.8.8'') FALLBACK_IP)) FALLBACK_IP =
    ''8.8.8.8''" by code_simp
  have "\<not> isTrusted sample_host ?c ''8.8.8.8''" by code_simp
  with headers_cannot_spoof[OF s[symmetric], of ?c] have
    "resolve sample_host ?c (Some ''8.8.8.8'')
      \<lparr>rh_cloudflare = None, rh_forwarded = Some ''1.1.1.1'', rh_realIp = None\<rparr> = ''8.8.8.8''"
    by blast
  moreover have "getClientIp sample_host (Some ''10.0.0.1'')
      \<lparr>rh_cloudflare = None, rh_forwarded = Some ''1.1.1.1,9.9.9.9,10.0.0.2'', rh_realIp = None\<rparr> ?o = ''9.9.9.9''"
    by code_simp
  ultimately show ?thesis by blast
qed

text \<open>
  C21: an address has one canonical form. Under the documented behaviour of \<open>isIP\<close> and of the URL
  parser, normalising what \<open>normalizeIpAddress\<close> returned gives it back, so that the stored
  allowlists and registrations compare equal to the addresses of later requests.
\<close>

theorem normalizing_is_idempotent:
  assumes "host_ok h" and "normalizeIpAddress h value = Some a"
  shows "normalizeIpAddress h a = Some a"
  using assms by (rule normalize_idempotent)

theorem normalizing_is_idempotent_witness:
  "normalizeIpAddress mapped_host '' 10.0.0.1 '' = Some ''10.0.0.1'' \<and>
    normalizeIpAddress mapped_host ''10.0.0.1'' = Some ''10.0.0.1''"
proof -
  have a: "normalizeIpAddress mapped_host '' 10.0.0.1 '' = Some ''10.0.0.1''" by code_simp
  with normalizing_is_idempotent[OF mapped_host_ok a] show ?thesis by blast
qed

end
