(* ===== verification/AdminService.thy ===== *)
theory AdminService
  imports LicenseService AdminRules StripeRepository AccessRepository CustomerRepository ClientIp
begin

text \<open>
  \<open>application/services/AdminService.ts\<close>: what an operator does with customers, licences, their
  access lists, registrations, sessions and meters. Each method is an operation of the world of
  theory \<open>Io\<close>, its calls in the order of the source. The constructor's arguments that are not
  the repositories themselves are the record \<open>admin\<close>: the host's address functions, the number
  of days the access repository reports, and whether the optional Stripe repository is there.
  The concurrent calls of \<open>Promise.all\<close> are made in the order of the list.
\<close>

record admin =
  ad_host :: host
  ad_retentionDays :: int
  ad_stripe :: bool

section \<open>Events and shared steps\<close>

definition operator_activity ::
    "activity_event_type \<Rightarrow> string option \<Rightarrow> string option \<Rightarrow> string option \<Rightarrow> json_object option
      \<Rightarrow> new_activity_event" where
  "operator_activity ty licenseId customerId keyPrefix details =
    \<lparr>na_type = ty, na_source = Operator, na_outcome = None, na_reason = None,
     na_licenseId = licenseId, na_customerId = customerId, na_keyPrefix = keyPrefix, na_ip = None,
     na_deviceId = None, na_details = details, na_createdAt = None\<rparr>"

definition license_activity ::
    "activity_event_type \<Rightarrow> 'a license_base_scheme \<Rightarrow> json_object \<Rightarrow> new_activity_event" where
  "license_activity ty l details =
    operator_activity ty (Some (l_id l)) (Some (l_customerId l)) (Some (l_keyPrefix l)) (Some details)"

definition admin_capture :: "new_activity_event \<Rightarrow> unit io" where
  "admin_capture event = best_effort (capture event)"

definition licenseKey :: "string io" where
  "licenseKey = bindIO randomIO (\<lambda>bytes. returnIO (''lic_'' @ bytes))"

definition managed_io :: "'a license_scheme \<Rightarrow> managed_license io" where
  "managed_io l = bindIO nowIO (\<lambda>now. returnIO (managed now l))"

definition managed_revealed_io :: "revealed_license \<Rightarrow> managed_revealed_license io" where
  "managed_revealed_io l = bindIO nowIO (\<lambda>now. returnIO (managed_revealed now l))"

definition found_or :: "'a option \<Rightarrow> failure \<Rightarrow> 'a io" where
  "found_or v e = (case v of None \<Rightarrow> throwIO e | Some x \<Rightarrow> returnIO x)"

definition requireLicense :: "string \<Rightarrow> license io" where
  "requireLicense i =
    bindIO (findById_io i) (\<lambda>license. found_or license (NotFoundError ''License'' LICENSE_INVALID))"

definition removeSessionsBestEffort :: "string \<Rightarrow> int option \<Rightarrow> (int \<times> bool) io" where
  "removeSessionsBestEffort licenseId preserveFromRevision =
    catchIO
      (bindIO (redis_call (\<lambda>env k r. map_prod Inr id
          (removeAllSessions (e_redisNow env k) licenseId preserveFromRevision r)))
        (\<lambda>removed. returnIO (removed, False)))
      (\<lambda>_. returnIO (0, True))"

definition updateMeterDraft_io :: "license \<Rightarrow> unit io" where
  "updateMeterDraft_io license =
    bindIO (db_read (\<lambda>_. listMeters (l_id license) False)) (\<lambda>ms.
    bindIO (db_call (\<lambda>env k. updateMeterDraft (e_dbNow env k) (l_id license) (map m_name ms))) (\<lambda>_.
    returnIO ()))"

definition captureLicenseUpdate :: "license \<Rightarrow> string \<Rightarrow> json_object \<Rightarrow> unit io" where
  "captureLicenseUpdate license action details =
    admin_capture (license_activity License_updated license ((''action'', JStr action) # details))"

section \<open>Customers\<close>

definition createCustomer :: "string \<Rightarrow> string \<Rightarrow> json_object \<Rightarrow> customer io" where
  "createCustomer email name metadata =
    bindIO (liftIO (customerEmail email)) (\<lambda>normalizedEmail.
    bindIO (liftIO (customerName name)) (\<lambda>normalizedName.
    bindIO (db_call (\<lambda>env k. customer_create (e_uuid env k 0) (e_dbNow env k)
      normalizedEmail normalizedName metadata)) (\<lambda>customer.
    bindIO (admin_capture (operator_activity Customer_created None (Some (c_id customer)) None None)) (\<lambda>_.
    returnIO customer))))"

definition listCustomers :: "customer list io" where
  "listCustomers = db_read (\<lambda>_. customer_findAll)"

definition getCustomer :: "string \<Rightarrow> customer io" where
  "getCustomer i =
    bindIO (db_read (\<lambda>_. customer_findById i)) (\<lambda>customer.
      found_or customer (NotFoundError ''Customer'' INVALID_REQUEST))"

definition optionalR :: "('a \<Rightarrow> 'b result) \<Rightarrow> 'a option \<Rightarrow> 'b option result" where
  "optionalR f v = (case v of None \<Rightarrow> Inr None | Some x \<Rightarrow> map_sum id Some (f x))"

definition updateCustomer :: "string \<Rightarrow> update_customer_input \<Rightarrow> customer io" where
  "updateCustomer i data =
    bindIO (getCustomer i) (\<lambda>_.
    bindIO (liftIO (checkR (customer_fields data \<noteq> [])
      (InvalidRequest ''At least one customer field is required''))) (\<lambda>_.
    bindIO (liftIO (optionalR customerEmail (uc_email data))) (\<lambda>email.
    bindIO (liftIO (optionalR customerName (uc_name data))) (\<lambda>name.
    bindIO (db_call (\<lambda>env k. customerRepo_update (e_now env k) i
      \<lparr>cu_email = email, cu_name = name, cu_metadata = uc_metadata data\<rparr>)) (\<lambda>customer.
    bindIO (admin_capture (operator_activity Customer_updated None (Some i) None
      (Some [(''fields'', JArr (map JStr (customer_fields data)))]))) (\<lambda>_.
    returnIO customer))))))"

definition deleteCustomer :: "string \<Rightarrow> unit io" where
  "deleteCustomer i =
    bindIO (getCustomer i) (\<lambda>_.
    bindIO (db_read (\<lambda>_. license_findAll)) (\<lambda>found.
    let owned = filter (\<lambda>l. l_customerId l = i) found in
    bindIO (db_call (\<lambda>_ _. customer_delete i)) (\<lambda>_.
    bindIO (mapIO (\<lambda>l. removeSessionsBestEffort (l_id l) None) owned) (\<lambda>cleanup.
    admin_capture (operator_activity Customer_deleted None (Some i) None
      (Some [(''cleanupFailures'', JNum (Integral (int (length (filter snd cleanup)))))]))))))"

section \<open>Creating and reading licences\<close>

definition new_license_of ::
    "(string \<Rightarrow> int option) \<Rightarrow> (int \<Rightarrow> string) \<Rightarrow> int \<Rightarrow> create_license_input
      \<Rightarrow> (string \<Rightarrow> new_license) result" where
  "new_license_of parseDate toISO now data =
    (let limit = (\<lambda>v label. validateInteger (case_option (Integral 0) id v) label 0) in
    bindR (limit (cl_maxIps data) ''maxIps'') (\<lambda>maxIps.
    bindR (limit (cl_maxDevices data) ''maxDevices'') (\<lambda>maxDevices.
    bindR (limit (cl_maxSessions data) ''maxSessions'') (\<lambda>maxSessions.
    bindR (validateMeters (case_option [] id (cl_meters data))) (\<lambda>ms.
    bindR (createTypeConfig parseDate toISO now data ms) (\<lambda>typeConfig.
    Inr (\<lambda>key. \<lparr>nl_licenseKey = key, nl_customerId = cl_customerId data, nl_type = cl_type data,
      nl_maxIps = maxIps, nl_maxDevices = maxDevices, nl_maxSessions = maxSessions,
      nl_trialDurationMinutes = tc_trialDurationMinutes typeConfig, nl_trialStartedAt = None,
      nl_metadata = case_option [] id (cl_metadata data), nl_expiresAt = tc_expiresAt typeConfig,
      nl_typeDrafts = tc_typeDrafts typeConfig, nl_meters = ms\<rparr>)))))))"

definition prepare_license :: "create_license_input \<Rightarrow> (string \<Rightarrow> new_license) io" where
  "prepare_license data =
    bindIO (db_read (\<lambda>_. customer_findById (cl_customerId data))) (\<lambda>customer.
    bindIO (found_or customer (NotFoundError ''Customer'' INVALID_REQUEST)) (\<lambda>_.
    bindIO nowIO (\<lambda>now.
    bindIO (askIO e_parseDate) (\<lambda>parseDate.
    bindIO (askIO e_toISO) (\<lambda>toISO.
    liftIO (new_license_of parseDate toISO now data))))))"

definition createLicense :: "create_license_input \<Rightarrow> managed_revealed_license io" where
  "createLicense data =
    bindIO (prepare_license data) (\<lambda>newLicense.
    bindIO licenseKey (\<lambda>key.
    bindIO (db_call (\<lambda>env k. license_create (e_sha256 env) (e_uuid env k) (e_now env k) (e_dbNow env k)
      (newLicense key))) (\<lambda>license.
    bindIO (admin_capture (license_activity License_created license
      [(''licenseType'', JStr (license_type_name (l_type license)))])) (\<lambda>_.
    managed_revealed_io license))))"

definition listLicenses :: "managed_license list io" where
  "listLicenses = bindIO (db_read (\<lambda>_. license_findAll)) (\<lambda>ls. mapIO managed_io ls)"

definition getLicense :: "string \<Rightarrow> managed_license io" where
  "getLicense i = bindIO (requireLicense i) managed_io"

section \<open>Updating a licence\<close>

text \<open>The loop over the new meters, on the names and balances the licence has.\<close>

fun merge_meters ::
    "(string \<Rightarrow> (int option \<times> int) option) \<Rightarrow> new_license_meter list \<Rightarrow> unit result" where
  "merge_meters allMeters [] = Inr ()"
| "merge_meters allMeters (m # ms) =
    (case allMeters (nm_name m) of
      Some (archivedAt, balance) \<Rightarrow>
        if archivedAt \<noteq> None \<or> balance \<noteq> nm_balance m then
          Inl (ConflictError (''Meter '' @ nm_name m @ '' already exists'') INVALID_REQUEST)
        else merge_meters allMeters ms
    | None \<Rightarrow> merge_meters (allMeters(nm_name m \<mapsto> (None, nm_balance m))) ms)"

definition meter_draft ::
    "license_meter list \<Rightarrow> license_meter list \<Rightarrow> new_license_meter list \<Rightarrow> type_drafts \<Rightarrow> type_drafts result" where
  "meter_draft currentMeters allMeters newMeters drafts =
    bindR (merge_meters (map_of (rev (map (\<lambda>m. (m_name m, (m_archivedAt m, m_balance m))) allMeters)))
      newMeters) (\<lambda>_.
    let activeNames = remdups (map m_name currentMeters @ map nm_name newMeters) in
    bindR (checkR (activeNames \<noteq> []) (InvalidRequest ''Metered licenses require at least one meter''))
      (\<lambda>_. Inr (drafts\<lparr>d_metered := Some (sort activeNames)\<rparr>)))"

definition settings_allowed :: "license_type \<Rightarrow> update_license_input \<Rightarrow> unit result" where
  "settings_allowed targetType data =
    bindR (checkR (targetType = Subscription \<or> ul_expiresAt data = None) only_subscriptions) (\<lambda>_.
    checkR (targetType = Trial \<or> ul_trialDurationMinutes data = None) only_trials)"

definition validate_limits ::
    "update_license_input \<Rightarrow> (int option \<times> int option \<times> int option) result" where
  "validate_limits data =
    (let limit = (\<lambda>v label. optionalR (\<lambda>n. validateInteger n label 0) v) in
    bindR (limit (ul_maxIps data) ''maxIps'') (\<lambda>maxIps.
    bindR (limit (ul_maxDevices data) ''maxDevices'') (\<lambda>maxDevices.
    bindR (limit (ul_maxSessions data) ''maxSessions'') (\<lambda>maxSessions.
    Inr (maxIps, maxDevices, maxSessions)))))"

definition stripe_conflict ::
    "admin \<Rightarrow> string \<Rightarrow> license_type \<Rightarrow> update_license_input \<Rightarrow> stripe_link option io" where
  "stripe_conflict ad i targetType data =
    (if ad_stripe ad \<and> (targetType \<noteq> Subscription \<or> ul_expiresAt data \<noteq> None) then
       bindIO (db_read (\<lambda>_. link_of i)) (\<lambda>stripeLink.
       if stripeLink \<noteq> None \<and> targetType = Subscription \<and> ul_expiresAt data \<noteq> None then
         throwIO (ConflictError
           ''Stripe-managed subscriptions cannot be renewed manually; sync or unlink Stripe first''
           INVALID_REQUEST)
       else if stripeLink \<noteq> None \<and> ul_unlinkStripe data \<noteq> Some True then
         throwIO (ConflictError
           ''Confirm unlinkStripe when changing a Stripe-linked subscription license'' INVALID_REQUEST)
       else returnIO stripeLink)
     else returnIO None)"

definition license_update_of ::
    "license \<Rightarrow> update_license_input \<Rightarrow> license_type \<Rightarrow> (int option \<times> int option \<times> int option)
      \<Rightarrow> update_config \<Rightarrow> type_drafts \<Rightarrow> license_update" where
  "license_update_of current data targetType limits active drafts =
    (case limits of (maxIps, maxDevices, maxSessions) \<Rightarrow>
     \<lparr>lu_customerId = Some (set_or (ul_customerId data) (l_customerId current)),
      lu_type = Some targetType, lu_maxIps = Some (set_or maxIps (l_maxIps current)),
      lu_maxDevices = Some (set_or maxDevices (l_maxDevices current)),
      lu_maxSessions = Some (set_or maxSessions (l_maxSessions current)),
      lu_trialDurationMinutes = Some (tc_trialDurationMinutes active),
      lu_trialStartedAt =
        (if targetType \<noteq> l_type current then Some (tc_trialStartedAt active) else None),
      lu_metadata = Some (set_or (ul_metadata data) (l_metadata current)),
      lu_expiresAt = Some (tc_expiresAt active), lu_typeDrafts = Some drafts,
      lu_manualRevokedAt = None, lu_manualRevocationReason = None\<rparr>)"

definition license_update_options_of ::
    "license \<Rightarrow> update_license_input \<Rightarrow> license_meter list \<Rightarrow> new_license_meter list
      \<Rightarrow> license_update_options" where
  "license_update_options_of current data currentMeters newMeters =
    \<lparr>luo_confirmStripeUnlink = (ul_unlinkStripe data = Some True),
     luo_expectedUpdatedAt = Some (l_updatedAt current),
     luo_manualExpiresAtUpdate = (ul_expiresAt data \<noteq> None),
     luo_newMeters = filter (\<lambda>m. \<not> list_ex (\<lambda>existing. m_name existing = nm_name m) currentMeters) newMeters\<rparr>"

definition plan_update ::
    "admin \<Rightarrow> string \<Rightarrow> update_license_input
      \<Rightarrow> (license \<times> license_update \<times> license_update_options \<times> stripe_link option) io" where
  "plan_update ad i data =
    bindIO (liftIO (checkR (filter (\<lambda>f. f \<noteq> ''unlinkStripe'') (update_fields data) \<noteq> [])
      (InvalidRequest ''At least one license field is required''))) (\<lambda>_.
    bindIO (requireLicense i) (\<lambda>current.
    bindIO (liftIO (validate_limits data)) (\<lambda>limits.
    bindIO
      (case ul_customerId data of
        None \<Rightarrow> returnIO ()
      | Some c \<Rightarrow>
          bindIO (db_read (\<lambda>_. customer_findById c)) (\<lambda>customer.
          bindIO (found_or customer (NotFoundError ''Customer'' INVALID_REQUEST)) (\<lambda>_. returnIO ()))) (\<lambda>_.
    let targetType = set_or (ul_type data) (l_type current);
        typeChanged = (targetType \<noteq> l_type current) in
    bindIO (liftIO (settings_allowed targetType data)) (\<lambda>_.
    bindIO (liftIO (validateMeters (case_option [] id (ul_meters data)))) (\<lambda>newMeters.
    bindIO (liftIO (checkR (targetType = Metered \<or> newMeters = []) only_metered)) (\<lambda>_.
    bindIO (db_read (\<lambda>_. listMeters i False)) (\<lambda>currentMeters.
    bindIO nowIO (\<lambda>now.
    bindIO (askIO e_parseDate) (\<lambda>parseDate.
    bindIO (askIO e_toISO) (\<lambda>toISO.
    let drafts = withCurrentDraft toISO current
          (if l_type current = Metered then map m_name currentMeters else []) in
    bindIO (liftIO (updateTypeConfig parseDate toISO now current data targetType typeChanged drafts)) (\<lambda>active.
    bindIO
      (if targetType = Metered then
         bindIO (db_read (\<lambda>_. listMeters i True)) (\<lambda>allMeters.
           liftIO (meter_draft currentMeters allMeters newMeters (tc_typeDrafts active)))
       else returnIO (tc_typeDrafts active)) (\<lambda>finalDrafts.
    bindIO (stripe_conflict ad i targetType data) (\<lambda>stripeLink.
    returnIO (current, license_update_of current data targetType limits active finalDrafts,
      license_update_options_of current data currentMeters newMeters, stripeLink)))))))))))))))"

definition updateLicense :: "admin \<Rightarrow> string \<Rightarrow> update_license_input \<Rightarrow> managed_license io" where
  "updateLicense ad i data =
    bindIO (plan_update ad i data) (\<lambda>(current, update, options, stripeLink).
    bindIO (db_call (\<lambda>env k. licenseRepo_update (e_toISO env) (e_uuid env k) (e_now env k)
      (e_dbNow env k) i update options)) (\<lambda>updated.
    bindIO
      (case stripeLink of
        None \<Rightarrow> returnIO ()
      | Some link \<Rightarrow>
          bindIO (db_call (\<lambda>_ _. deleteByLicenseId i)) (\<lambda>_.
          admin_capture (license_activity Stripe_unlinked updated
            [(''subscriptionId'', JStr (s_subscriptionId link))]))) (\<lambda>_.
    let typeChanged = (set_or (ul_type data) (l_type current) \<noteq> l_type current) in
    bindIO (admin_capture
      (if typeChanged then license_activity License_type_changed updated
         [(''from'', JStr (license_type_name (l_type current))),
          (''to'', JStr (license_type_name (l_type updated)))]
       else license_activity License_updated updated
         [(''fields'', JArr (map JStr
            (filter (\<lambda>f. f \<noteq> ''unlinkStripe'') (update_fields data))))])) (\<lambda>_.
    managed_io updated))))"

definition renewSubscription :: "admin \<Rightarrow> string \<Rightarrow> string \<Rightarrow> managed_license io" where
  "renewSubscription ad i expiresAt =
    bindIO (requireLicense i) (\<lambda>current.
    bindIO (liftIO (checkR (l_type current = Subscription)
      (InvalidRequest ''Only subscription licenses can be renewed''))) (\<lambda>_.
    updateLicense ad i (no_input\<lparr>ul_expiresAt := Some (Some expiresAt)\<rparr>)))"

section \<open>The life of a licence\<close>

definition deleteLicense :: "string \<Rightarrow> unit io" where
  "deleteLicense i =
    bindIO (requireLicense i) (\<lambda>license.
    bindIO (db_call (\<lambda>_ _. license_delete i)) (\<lambda>_.
    bindIO (removeSessionsBestEffort i None) (\<lambda>cleanup.
    admin_capture (license_activity License_deleted license
      [(''cleanupFailed'', JBool (snd cleanup))]))))"

definition revokeLicense :: "string \<Rightarrow> string \<Rightarrow> managed_license io" where
  "revokeLicense i given =
    bindIO (requireLicense i) (\<lambda>license.
    bindIO (liftIO (reason given)) (\<lambda>normalizedReason.
    bindIO nowIO (\<lambda>now.
    bindIO (db_call (\<lambda>env k. updateWithSessionInvalidation (e_dbNow env k) i
      (no_update\<lparr>lu_manualRevokedAt := Some (Some (set_or (l_manualRevokedAt license) now)),
        lu_manualRevocationReason := Some (Some normalizedReason)\<rparr>))) (\<lambda>updated.
    bindIO (removeSessionsBestEffort i (Some (l_sessionRevision updated))) (\<lambda>cleanup.
    bindIO (admin_capture ((license_activity License_revoked updated
      [(''cleanupFailed'', JBool (snd cleanup))])\<lparr>na_reason := Some normalizedReason\<rparr>)) (\<lambda>_.
    managed_io updated))))))"

definition restoreLicense :: "string \<Rightarrow> managed_license io" where
  "restoreLicense i =
    bindIO (requireLicense i) (\<lambda>_.
    bindIO (db_call (\<lambda>env k. licenseRepo_update (e_toISO env) (e_uuid env k) (e_now env k)
      (e_dbNow env k) i
      (no_update\<lparr>lu_manualRevokedAt := Some None, lu_manualRevocationReason := Some None\<rparr>)
      \<lparr>luo_confirmStripeUnlink = False, luo_expectedUpdatedAt = None,
       luo_manualExpiresAtUpdate = False, luo_newMeters = []\<rparr>)) (\<lambda>updated.
    bindIO (admin_capture (operator_activity License_restored (Some i) (Some (l_customerId updated))
      (Some (l_keyPrefix updated)) None)) (\<lambda>_.
    managed_io updated)))"

definition rotateLicenseKey :: "string \<Rightarrow> managed_revealed_license io" where
  "rotateLicenseKey i =
    bindIO (requireLicense i) (\<lambda>current.
    bindIO licenseKey (\<lambda>key.
    bindIO (db_call (\<lambda>env k. rotateKey (e_sha256 env) (e_dbNow env k) i key
      (Some (l_updatedAt current)))) (\<lambda>rotated.
    bindIO (removeSessionsBestEffort i (Some (l_sessionRevision rotated))) (\<lambda>cleanup.
    bindIO (admin_capture (operator_activity License_key_rotated (Some i)
      (Some (l_customerId current)) (Some (l_keyPrefix rotated))
      (Some [(''cleanupFailed'', JBool (snd cleanup))]))) (\<lambda>_.
    managed_revealed_io rotated)))))"

section \<open>Access lists and registrations\<close>

record 'e allowlist_change =
  ac_entry :: 'e
  ac_restrictionEnabled :: bool
  ac_warning :: "string option"

definition read_access_records :: "admin \<Rightarrow> string \<Rightarrow> access_records io" where
  "read_access_records ad i =
    bindIO nowIO (\<lambda>now.
      db_read (\<lambda>env. getAccessRecords (e_parseDate env) (ad_retentionDays ad) now i))"

definition getLicenseAccess :: "admin \<Rightarrow> string \<Rightarrow> access_records io" where
  "getLicenseAccess ad i = bindIO (requireLicense i) (\<lambda>_. read_access_records ad i)"

definition valid_ip :: "admin \<Rightarrow> string \<Rightarrow> string result" where
  "valid_ip ad v =
    (let e = Inl (InvalidRequest ''A valid IPv4 or IPv6 address is required'') in
     case normalizeIpAddress (ad_host ad) v of
       None \<Rightarrow> e
     | Some ip \<Rightarrow> if ip = [] then e else Inr ip)"

definition allowLicenseIp :: "admin \<Rightarrow> string \<Rightarrow> string \<Rightarrow> ip_allow allowlist_change io" where
  "allowLicenseIp ad i v =
    bindIO (requireLicense i) (\<lambda>license.
    bindIO (liftIO (valid_ip ad v)) (\<lambda>ip.
    bindIO (read_access_records ad i) (\<lambda>before.
    bindIO (db_call (\<lambda>env k. addAllowedIp (e_uuid env k 0) (e_dbNow env k) i ip)) (\<lambda>entry.
    let restrictionEnabled = (ar_allowedIps before = []) in
    bindIO (captureLicenseUpdate license ''allow_ip'' [(''ip'', JStr ip)]) (\<lambda>_.
    returnIO \<lparr>ac_entry = entry, ac_restrictionEnabled = restrictionEnabled,
      ac_warning = (if restrictionEnabled then Some
        ''IP allowlisting is now restrictive; only listed IP addresses can activate or continue sessions.''
        else None)\<rparr>)))))"

definition removeLicenseAllowedIp :: "admin \<Rightarrow> string \<Rightarrow> string \<Rightarrow> bool io" where
  "removeLicenseAllowedIp ad i v =
    bindIO (requireLicense i) (\<lambda>license.
    bindIO (liftIO (valid_ip ad v)) (\<lambda>ip.
    bindIO (db_call (\<lambda>_ _. removeAllowedIp i ip)) (\<lambda>removed.
    bindIO (if removed then captureLicenseUpdate license ''remove_allowed_ip'' [] else returnIO ()) (\<lambda>_.
    returnIO removed))))"

definition allowLicenseDevice :: "admin \<Rightarrow> string \<Rightarrow> string \<Rightarrow> device_allow allowlist_change io" where
  "allowLicenseDevice ad i v =
    bindIO (requireLicense i) (\<lambda>license.
    bindIO (liftIO (admin_deviceId v)) (\<lambda>deviceId.
    bindIO (read_access_records ad i) (\<lambda>before.
    bindIO (db_call (\<lambda>env k. addAllowedDevice (e_uuid env k 0) (e_dbNow env k) i deviceId)) (\<lambda>entry.
    let restrictionEnabled = (ar_allowedDevices before = []) in
    bindIO (captureLicenseUpdate license ''allow_device'' [(''deviceId'', JStr deviceId)]) (\<lambda>_.
    returnIO \<lparr>ac_entry = entry, ac_restrictionEnabled = restrictionEnabled,
      ac_warning = (if restrictionEnabled then Some
        ''Device allowlisting is now restrictive; only listed device IDs can activate or continue sessions.''
        else None)\<rparr>)))))"

definition removeLicenseAllowedDevice :: "string \<Rightarrow> string \<Rightarrow> bool io" where
  "removeLicenseAllowedDevice i v =
    bindIO (requireLicense i) (\<lambda>license.
    bindIO (liftIO (admin_deviceId v)) (\<lambda>deviceId.
    bindIO (db_call (\<lambda>_ _. removeAllowedDevice i deviceId)) (\<lambda>removed.
    bindIO (if removed then captureLicenseUpdate license ''remove_allowed_device'' [] else returnIO ()) (\<lambda>_.
    returnIO removed))))"

text \<open>The body of a registration lock: remove registrations, and outdate the sessions.\<close>

definition unregister :: "string \<Rightarrow> int txn \<Rightarrow> bool \<Rightarrow> (int \<times> int option) io" where
  "unregister i remove always =
    transaction
      (bindIO (db_call (\<lambda>_ _. remove)) (\<lambda>count.
       bindIO (if always \<or> count > 0
         then db_call (\<lambda>env k. incrementLicenseSessionRevision (e_dbNow env k) i)
         else returnIO None) (\<lambda>sessionRevision.
       returnIO (count, sessionRevision))))"

definition end_registrations :: "license \<Rightarrow> string \<Rightarrow> string \<Rightarrow> int \<times> int option \<Rightarrow> int io" where
  "end_registrations license i action result =
    bindIO (removeSessionsBestEffort i (snd result)) (\<lambda>_.
    bindIO (captureLicenseUpdate license action [(''removed'', JNum (Integral (fst result)))]) (\<lambda>_.
    returnIO (fst result)))"

definition removeRegisteredIp :: "admin \<Rightarrow> string \<Rightarrow> string \<Rightarrow> int io" where
  "removeRegisteredIp ad i v =
    bindIO (requireLicense i) (\<lambda>license.
    bindIO (liftIO (valid_ip ad v)) (\<lambda>ip.
    bindIO (unregister i (removeRegistrationsByIp i ip) False) (\<lambda>result.
    if fst result > 0 then end_registrations license i ''remove_registered_ip'' result
    else returnIO (fst result))))"

definition admin_removeRegisteredDevice :: "string \<Rightarrow> string \<Rightarrow> int io" where
  "admin_removeRegisteredDevice i v =
    bindIO (requireLicense i) (\<lambda>license.
    bindIO (liftIO (admin_deviceId v)) (\<lambda>deviceId.
    bindIO (unregister i (removeRegistrationsByDevice i deviceId) False) (\<lambda>result.
    if fst result > 0 then end_registrations license i ''remove_registered_device'' result
    else returnIO (fst result))))"

definition admin_resetRegisteredDevices :: "string \<Rightarrow> int io" where
  "admin_resetRegisteredDevices i =
    bindIO (requireLicense i) (\<lambda>license.
    bindIO (unregister i (resetRegisteredDevices i) True) (\<lambda>result.
    end_registrations license i ''reset_registered_devices'' result))"

definition terminateLicenseSessions :: "string \<Rightarrow> int io" where
  "terminateLicenseSessions i =
    bindIO (requireLicense i) (\<lambda>license.
    bindIO (db_call (\<lambda>env k. incrementSessionRevision (e_dbNow env k) i)) (\<lambda>updated.
    bindIO (removeSessionsBestEffort i (Some (l_sessionRevision updated))) (\<lambda>cleanup.
    bindIO (captureLicenseUpdate license ''terminate_sessions''
      [(''removed'', JNum (Integral (fst cleanup)))]) (\<lambda>_.
    returnIO (fst cleanup)))))"

section \<open>Meters\<close>

definition listLicenseMeters :: "string \<Rightarrow> bool \<Rightarrow> license_meter list io" where
  "listLicenseMeters i includeArchived =
    bindIO (requireLicense i) (\<lambda>_. db_read (\<lambda>_. listMeters i includeArchived))"

definition createLicenseMeter :: "string \<Rightarrow> create_meter_input \<Rightarrow> license_meter io" where
  "createLicenseMeter i data =
    bindIO (requireLicense i) (\<lambda>license.
    bindIO (liftIO (validateMeters [data])) (\<lambda>meterInputs.
    case meterInputs of
      [] \<Rightarrow> throwIO (InvalidRequest ''Meter is required'')
    | m # _ \<Rightarrow>
        bindIO (db_call (\<lambda>env k. createMeter (e_uuid env k 0) (e_uuid env k 1) (e_uuid env k 2)
          (e_now env k) i (nm_name m) (nm_balance m) (nm_reason m))) (\<lambda>meter.
        bindIO (updateMeterDraft_io license) (\<lambda>_.
        bindIO (admin_capture ((license_activity Meter_created license
          [(''meter'', JStr (m_name meter)), (''balance'', JNum (Integral (m_balance meter)))])
            \<lparr>na_reason := Some (nm_reason m)\<rparr>)) (\<lambda>_.
        returnIO meter)))))"

definition archiveLicenseMeter :: "string \<Rightarrow> string \<Rightarrow> string \<Rightarrow> license_meter io" where
  "archiveLicenseMeter i name given =
    bindIO (requireLicense i) (\<lambda>license.
    bindIO (liftIO (meterName name)) (\<lambda>meterName.
    bindIO (liftIO (reason given)) (\<lambda>normalizedReason.
    bindIO (db_call (\<lambda>env k. archiveMeter (e_uuid env k 0) (e_uuid env k 1) (e_now env k) i
      meterName normalizedReason)) (\<lambda>archived.
    bindIO (found_or archived (NotFoundError ''Meter'' METER_NOT_FOUND)) (\<lambda>meter.
    if m_archivedAt meter = None then
      throwIO (ConflictError ''A metered license must keep at least one active meter'' INVALID_REQUEST)
    else
      bindIO (updateMeterDraft_io license) (\<lambda>_.
      bindIO (admin_capture ((license_activity Meter_archived license
        [(''meter'', JStr (m_name meter))])\<lparr>na_reason := Some normalizedReason\<rparr>)) (\<lambda>_.
      returnIO meter)))))))"

fun ledger_kind_name :: "meter_ledger_kind \<Rightarrow> string" where
  "ledger_kind_name Create = ''create''"
| "ledger_kind_name Consume = ''consume''"
| "ledger_kind_name Top_up = ''top_up''"
| "ledger_kind_name Adjustment = ''adjustment''"
| "ledger_kind_name Archive = ''archive''"

definition adjustMeter ::
    "string \<Rightarrow> string \<Rightarrow> int \<Rightarrow> string \<Rightarrow> meter_ledger_kind \<Rightarrow> license_meter io" where
  "adjustMeter i name delta given kind =
    bindIO (requireLicense i) (\<lambda>license.
    bindIO (liftIO (reason given)) (\<lambda>normalizedReason.
    bindIO (liftIO (meterName name)) (\<lambda>meterName.
    bindIO (db_call (\<lambda>env k. adjust (e_uuid env k 0) (e_uuid env k 1) (e_now env k) i meterName
      delta normalizedReason kind)) (\<lambda>result.
    case result of
      Adj_not_found \<Rightarrow> throwIO (NotFoundError ''Meter'' METER_NOT_FOUND)
    | Adj_archived \<Rightarrow> throwIO (ConflictError ''Meter is archived'' METER_ARCHIVED)
    | Adj_out_of_range \<Rightarrow>
        throwIO (InvalidRequest (''Adjustment would move balance outside 0 to '' @ show_int MAX_LICENSE_LIMIT))
    | Adjusted meter _ \<Rightarrow>
        bindIO (admin_capture ((license_activity Meter_adjusted license
          [(''meter'', JStr (m_name meter)), (''delta'', JNum (Integral delta)),
           (''balance'', JNum (Integral (m_balance meter))), (''kind'', JStr (ledger_kind_name kind))])
            \<lparr>na_reason := Some normalizedReason\<rparr>)) (\<lambda>_.
        returnIO meter)))))"

definition topUpLicenseMeter :: "string \<Rightarrow> string \<Rightarrow> jsnum \<Rightarrow> string \<Rightarrow> license_meter io" where
  "topUpLicenseMeter i name units given =
    bindIO (liftIO (validateInteger units ''units'' 1)) (\<lambda>n.
      adjustMeter i name n given Top_up)"

definition adjustLicenseMeter :: "string \<Rightarrow> string \<Rightarrow> jsnum \<Rightarrow> string \<Rightarrow> license_meter io" where
  "adjustLicenseMeter i name delta given =
    (let e = throwIO (InvalidRequest (''delta must be a non-zero integer between -'' @
           show_int MAX_LICENSE_LIMIT @ '' and '' @ show_int MAX_LICENSE_LIMIT)) in
     case delta of
       Integral n \<Rightarrow>
         if n = 0 \<or> \<bar>n\<bar> > MAX_LICENSE_LIMIT then e else adjustMeter i name n given Adjustment
     | _ \<Rightarrow> e)"

definition listLicenseUsageLedger :: "string \<Rightarrow> string option \<Rightarrow> usage_ledger_entry list io" where
  "listLicenseUsageLedger i name =
    bindIO (requireLicense i) (\<lambda>_.
    bindIO (liftIO (optionalR meterName name)) (\<lambda>meterName.
    db_read (\<lambda>_. listLedger i meterName)))"

section \<open>What the database accepts\<close>

lemma insert_all_Inl: "insert_all ins rs d = Inl e \<Longrightarrow> \<exists>r \<in> set rs. \<exists>d'. ins r d' = Inl e"
  by (induction rs arbitrary: d) (auto simp: bindT_Inl_iff)

definition schema_failure :: "failure \<Rightarrow> bool" where
  "schema_failure e \<longleftrightarrow> e = Db_error Numeric_out_of_range \<or> (\<exists>c. e = Db_error (Check_violation c))"

lemma new_license_row:
  assumes "new_license_of parseDate toISO now data = Inr mk"
    and "l_type l = nl_type (mk key)" "l_maxIps l = nl_maxIps (mk key)"
      "l_maxDevices l = nl_maxDevices (mk key)" "l_maxSessions l = nl_maxSessions (mk key)"
      "l_sessionRevision l = 0" "l_trialDurationMinutes l = nl_trialDurationMinutes (mk key)"
      "l_expiresAt l = nl_expiresAt (mk key)"
  shows "license_row_ok l \<and> license_row_int4 l"
proof -
  from assms(1) obtain ms cfg where cfg: "createTypeConfig parseDate toISO now data ms = Inr cfg"
    and mk: "nl_type (mk key) = cl_type data" "nl_expiresAt (mk key) = tc_expiresAt cfg"
      "nl_trialDurationMinutes (mk key) = tc_trialDurationMinutes cfg"
    and lims: "0 \<le> nl_maxIps (mk key)" "nl_maxIps (mk key) \<le> MAX_LICENSE_LIMIT"
      "0 \<le> nl_maxDevices (mk key)" "nl_maxDevices (mk key) \<le> MAX_LICENSE_LIMIT"
      "0 \<le> nl_maxSessions (mk key)" "nl_maxSessions (mk key) \<le> MAX_LICENSE_LIMIT"
    by (auto simp: new_license_of_def Let_def)
  from createTypeConfig_fits(1)[OF cfg] show ?thesis
    using assms(2-) mk lims
    by (auto simp: license_row_ok_def license_row_int4_def config_fits_def int4_def MAX_LICENSE_LIMIT_def
        split: if_splits)
qed

lemma new_license_meters:
  assumes "new_license_of parseDate toISO now data = Inr mk" and "m \<in> set (nl_meters (mk key))"
  shows "0 \<le> nm_balance m \<and> int4 (nm_balance m)"
proof -
  from assms obtain ms where "validateMeters (case_option [] id (cl_meters data)) = Inr ms" "m \<in> set ms"
    by (auto simp: new_license_of_def Let_def)
  then have "list_all2 accepted_meter (case_option [] id (cl_meters data)) ms"
    by (simp add: validateMeters_def validate_meters_from_Inr_iff)
  then obtain c where "accepted_meter c m"
    using \<open>m \<in> set ms\<close> by (metis in_set_conv_nth list_all2_conv_all_nth)
  then show ?thesis by (auto simp: accepted_meter_def int4_def MAX_LICENSE_LIMIT_def)
qed

lemma insert_row_failure:
  "insert_license l d = Inl e \<Longrightarrow> license_row_ok l \<and> license_row_int4 l \<Longrightarrow> \<not> schema_failure e"
  "insert_meter m d = Inl e \<Longrightarrow> 0 \<le> m_balance m \<and> int4 (m_balance m) \<Longrightarrow> \<not> schema_failure e"
  "insert_ledger x d = Inl e \<Longrightarrow> ledger_row_int4 x \<Longrightarrow> \<not> schema_failure e"
  by (auto simp: insert_license_def insert_meter_def insert_ledger_def schema_failure_def
      meter_row_ok_def split: if_splits)

text \<open>
  C26: input that the rules accept never runs into the checks of the database. When
  \<open>createLicense\<close> has accepted its input, the transaction that stores the licence, its meters and
  their first ledger entries can fail only on a unique index or a foreign key, never on a check
  constraint or a number out of range.
\<close>

theorem accepted_license_fits_schema:
  assumes "new_license_of parseDate toISO now data = Inr mk"
    and "license_create sha256 ids now' dbNow (mk key) d = Inl e"
  shows "\<not> schema_failure e"
proof -
  let ?n = "length (nl_meters (mk key))"
  note meter = new_license_meters[OF assms(1)]
  from assms(2) consider
      l where "insert_license l d = Inl e" "license_row_ok l \<and> license_row_int4 l"
    | l d1 where "insert_all insert_meter (map (\<lambda>(i, m). new_meter_row (ids (1 + i)) l now' m)
        (zip [0..<?n] (nl_meters (mk key)))) d1 = Inl e"
    | l d1 where "insert_all insert_ledger (map (\<lambda>(i, m). new_meter_entry (ids (1 + ?n + 2 * i))
        (ids (2 + ?n + 2 * i)) (ids (1 + i)) l now' m) (zip [0..<?n] (nl_meters (mk key)))) d1 = Inl e"
    unfolding license_create_def bindT_Inl_iff Let_def
    by (elim disjE exE conjE) (auto simp: new_license_row[OF assms(1)])
  then show ?thesis
  proof cases
    case 1
    then show ?thesis by (rule insert_row_failure(1))
  next
    case 2
    from insert_all_Inl[OF this] obtain i m d2 where "m \<in> set (nl_meters (mk key))"
      "insert_meter (new_meter_row (ids (1 + i)) l now' m) d2 = Inl e"
      by (auto dest: set_zip_rightD)
    then show ?thesis
      using meter by (intro insert_row_failure(2)) (auto simp: new_meter_row_def)
  next
    case 3
    from insert_all_Inl[OF this] obtain i m d2 where "m \<in> set (nl_meters (mk key))"
      "insert_ledger (new_meter_entry (ids (1 + ?n + 2 * i)) (ids (2 + ?n + 2 * i)) (ids (1 + i)) l now' m)
        d2 = Inl e"
      by (auto dest: set_zip_rightD)
    then show ?thesis
      using meter by (intro insert_row_failure(3))
        (auto simp: new_meter_entry_def ledger_row_int4_def int4_def)
  qed
qed

definition plain_input :: create_license_input where
  "plain_input = \<lparr>cl_customerId = ''C'', cl_type = Lifetime, cl_maxIps = None, cl_maxDevices = None,
    cl_maxSessions = Some (Integral 2), cl_trialDurationMinutes = None, cl_metadata = None,
    cl_expiresAt = None, cl_meters = None\<rparr>"

theorem accepted_license_fits_schema_witness:
  "\<exists>mk e. new_license_of (\<lambda>_. None) show_int 0 plain_input = Inr mk \<and>
    license_create id (\<lambda>_. ''i'') 0 0 (mk ''k'') empty_db = Inl e \<and> \<not> schema_failure e"
proof -
  obtain mk where mk: "new_license_of (\<lambda>_. None) show_int 0 plain_input = Inr mk"
    and "nl_customerId (mk ''k'') = ''C''"
    by (auto simp: new_license_of_def plain_input_def createTypeConfig_def Let_def MAX_LICENSE_LIMIT_def
        validateMeters_def)
  then have "\<exists>e. license_create id (\<lambda>_. ''i'') 0 0 (mk ''k'') empty_db = Inl e"
    by (auto simp: license_create_def bindT_Inl_iff insert_license_def empty_db_def customer_exists_def
        taken_def)
  then show ?thesis using accepted_license_fits_schema[OF mk] mk by blast
qed

section \<open>What a created licence looks like\<close>

lemma insert_all_meters:
  "insert_all insert_meter ms d = Inr (u, d') \<Longrightarrow> d' = d\<lparr>meters := meters d @ ms\<rparr>"
proof (induction ms arbitrary: d)
  case (Cons m ms)
  then have "insert_all insert_meter ms (d\<lparr>meters := meters d @ [m]\<rparr>) = Inr (u, d')"
    by (auto simp: bindT_Inr_iff insert_meter_Inr_iff)
  from Cons.IH[OF this] show ?case by simp
qed simp

lemma insert_all_ledger:
  "insert_all insert_ledger es d = Inr (u, d') \<Longrightarrow> d' = d\<lparr>ledger := ledger d @ es\<rparr>"
proof (induction es arbitrary: d)
  case (Cons e es)
  then have "insert_all insert_ledger es (d\<lparr>ledger := ledger d @ [e]\<rparr>) = Inr (u, d')"
    by (auto simp: bindT_Inr_iff insert_ledger_Inr_iff)
  from Cons.IH[OF this] show ?case by simp
qed simp

lemma license_create_Inr:
  assumes "license_create sha256 ids now dbNow data d = Inr (x, d')"
  obtains l where "l_id l = ids 0" "l_keyHash l = sha256 (nl_licenseKey data)" "l_type l = nl_type data"
    "l_customerId l = nl_customerId data" "l_sessionRevision l = 0" "l_manualRevokedAt l = None"
    "x = reveal (toDomainLicense None l) (nl_licenseKey data)"
    "ids 0 \<notin> set (map l_id (licenses d))" "l_keyHash l \<notin> set (map l_keyHash (licenses d))"
    "licenses d' = licenses d @ [l]" "stripeLinks d' = stripeLinks d"
    "ipAllowlist d' = ipAllowlist d" "deviceAllowlist d' = deviceAllowlist d"
    "meters d' = meters d @ map (\<lambda>(i, m). new_meter_row (ids (1 + i)) (ids 0) now m)
      (zip [0..<length (nl_meters data)] (nl_meters data))"
proof -
  let ?ms = "map (\<lambda>(i, m). new_meter_row (ids (1 + i)) (ids 0) now m)
      (zip [0..<length (nl_meters data)] (nl_meters data))"
  let ?l = "\<lparr>l_id = ids 0, l_keyPrefix = licenseKeyPrefix (nl_licenseKey data),
       l_customerId = nl_customerId data, l_type = nl_type data, l_maxIps = nl_maxIps data,
       l_maxDevices = nl_maxDevices data, l_maxSessions = nl_maxSessions data,
       l_sessionRevision = 0, l_trialDurationMinutes = nl_trialDurationMinutes data,
       l_trialStartedAt = nl_trialStartedAt data, l_metadata = nl_metadata data,
       l_expiresAt = nl_expiresAt data, l_typeDrafts = nl_typeDrafts data,
       l_manualRevokedAt = None, l_manualRevocationReason = None, l_createdAt = dbNow,
       l_updatedAt = dbNow, l_keyHash = hashLicenseKey sha256 (nl_licenseKey data)\<rparr>"
  obtain l' d1 where ins: "insert_license ?l d = Inr (l', d1)"
    using assms unfolding license_create_def bindT_Inr_iff by blast
  have d1: "l' = ?l" "d1 = d\<lparr>licenses := licenses d @ [?l]\<rparr>"
    "\<not> taken l_id ?l (licenses d)" "\<not> taken l_keyHash ?l (licenses d)"
    using ins by (auto simp: insert_license_def split: if_splits)
  from assms obtain d2 es where ms: "insert_all insert_meter ?ms d1 = Inr ((), d2)"
    and es: "insert_all insert_ledger es d2 = Inr ((), d')"
    and x: "x = reveal (toDomainLicense None ?l) (nl_licenseKey data)"
    unfolding license_create_def bindT_Inr_iff Let_def ins d1(1) by (auto simp: ins d1(1))
  show ?thesis
    using insert_all_meters[OF ms] insert_all_ledger[OF es] x d1(2-)
    by (intro that[of ?l]) (auto simp: taken_def hashLicenseKey_def)
qed

lemma prepare_license_Inr:
  assumes "prepare_license data env w = (Inr mk, w1)" "quiet env"
  shows "w1 = w\<lparr>w_tick := Suc (w_tick w)\<rparr> \<and>
    (\<exists>t. new_license_of (e_parseDate env) (e_toISO env) t data = Inr mk)"
  using assms
  by (auto simp: prepare_license_def bindIO_Inr_iff db_read_Inr found_or_def split: option.splits)

lemma createLicense_Inr:
  assumes "createLicense data env w = (Inr m, w')" "quiet env"
  obtains mk key k x d' t now where
    "new_license_of (e_parseDate env) (e_toISO env) t data = Inr mk"
    "license_create (e_sha256 env) (e_uuid env k) (e_now env k) (e_dbNow env k) (mk key) (w_db w) = Inr (x, d')"
    "but_activity d' (w_db w')" "m = managed_revealed now x"
proof -
  from assms(1) obtain mk w1 key w2 x w3 w4 where
    prep: "prepare_license data env w = (Inr mk, w1)" and key: "licenseKey env w1 = (Inr key, w2)"
    and call: "db_call (\<lambda>env k. license_create (e_sha256 env) (e_uuid env k) (e_now env k) (e_dbNow env k)
      (mk key)) env w2 = (Inr x, w3)"
    and cap: "admin_capture (license_activity License_created x
      [(''licenseType'', JStr (license_type_name (l_type x)))]) env w3 = (Inr (), w4)"
    and m: "managed_revealed_io x env w4 = (Inr m, w')"
    unfolding createLicense_def bindIO_Inr_iff by fastforce
  note prep = prepare_license_Inr[OF prep assms(2)]
  obtain t where mk: "new_license_of (e_parseDate env) (e_toISO env) t data = Inr mk" using prep by blast
  have "w_db w2 = w_db w" using key prep by (auto simp: licenseKey_def randomIO_def bindIO_Inr_iff)
  then have cr: "license_create (e_sha256 env) (e_uuid env (w_tick w2)) (e_now env (w_tick w2))
      (e_dbNow env (w_tick w2)) (mk key) (w_db w) = Inr (x, w_db w3)"
    using call assms(2) by (auto simp: db_call_Inr)
  have "but_activity (w_db w3) (w_db w4)"
    using stepsD[OF service_capture_steps(2)[unfolded service_capture_def, folded admin_capture_def]
        assms(2) cap] by (simp add: same_tables_def)
  moreover have "w' = w4" "m = managed_revealed (e_now env (w_tick w4)) x"
    using m by (auto simp: managed_revealed_io_def bindIO_Inr_iff)
  ultimately show ?thesis using that[OF mk cr] by blast
qed

lemma new_rows_active:
  "rows (\<lambda>m. m_licenseId m = i \<and> m_archivedAt m = None) (map (\<lambda>(j, m). new_meter_row (f j) i now m) zs) =
    map (\<lambda>(j, m). new_meter_row (f j) i now m) zs"
  by (induction zs) (auto simp: rows_Cons new_meter_row_def)

lemma reveal_simps [simp]:
  "l_id (reveal l key) = l_id l"
  "l_type (reveal l key) = l_type l"
  "l_keyPrefix (reveal l key) = l_keyPrefix l"
  "l_customerId (reveal l key) = l_customerId l"
  "l_trialDurationMinutes (reveal l key) = l_trialDurationMinutes l"
  "l_trialStartedAt (reveal l key) = l_trialStartedAt l"
  "l_expiresAt (reveal l key) = l_expiresAt l"
  "l_manualRevokedAt (reveal l key) = l_manualRevokedAt l"
  "l_billingRevokedAt (reveal l key) = l_billingRevokedAt l"
  "l_sessionRevision (reveal l key) = l_sessionRevision l"
  "l_licenseKey (reveal l key) = key"
  by (simp_all add: reveal_def license.defs revealed_license.defs)

lemma revealed_fields [simp]:
  "ml_id (managed_revealed now l) = l_id l"
  "ml_licenseKey (managed_revealed now l) = l_licenseKey l"
  "ml_status (managed_revealed now l) = es_status (deriveLicenseStatus l now)"
  by (simp_all add: managed_revealed_def managed_def managed_license.defs
      managed_revealed_license.defs Let_def)

lemma fresh_license:
  assumes "db_wf d" "i \<notin> set (map l_id (licenses d))"
  shows "\<forall>r \<in> set (ipAllowlist d). ia_licenseId r \<noteq> i"
    "\<forall>r \<in> set (deviceAllowlist d). da_licenseId r \<noteq> i"
    "\<forall>r \<in> set (meters d). m_licenseId r \<noteq> i"
    "\<forall>r \<in> set (stripeLinks d). s_licenseId r \<noteq> i"
  using assms unfolding db_wf_def ipAllowlist_wf_def deviceAllowlist_wf_def meters_wf_def
    stripeLinks_wf_def license_exists_def by metis+

lemma find_created:
  assumes "l_keyHash l = sha256 key" "l_keyHash l \<notin> set (map l_keyHash ls)"
    and "licenses d = ls @ [l]"
    and "\<forall>r \<in> set (ipAllowlist d). ia_licenseId r \<noteq> l_id l"
    and "\<forall>r \<in> set (deviceAllowlist d). da_licenseId r \<noteq> l_id l"
    and "\<forall>r \<in> set (stripeLinks d). s_licenseId r \<noteq> l_id l"
  shows "findByLicenseKeyWithAllowlists sha256 key d = Some (with_allowlists (toDomainLicense None l) [] [])"
proof -
  have "first_row (\<lambda>y. l_keyHash y = sha256 key) ls = None"
    using assms(1,2) by (force simp: first_row_None_iff)
  then have 1: "first_row (\<lambda>y. l_keyHash y = sha256 key) (licenses d) = Some l"
    using assms(1,3) by (simp add: first_row_append)
  have 2: "billing_of (l_id l) d = None"
    using assms(6) by (auto simp: billing_of_def dest!: first_row_SomeD split: option.splits)
  have 3: "rows (\<lambda>r. ia_licenseId r = l_id l) (ipAllowlist d) = []"
    "rows (\<lambda>r. da_licenseId r = l_id l) (deviceAllowlist d) = []"
    using assms(4,5) by (simp_all add: rows_def filter_empty_conv)
  show ?thesis
    by (simp add: findByLicenseKeyWithAllowlists_def hashLicenseKey_def license_allowlists_def 1 2 3)
qed

lemma new_meters_active:
  assumes "\<forall>r \<in> set old. m_licenseId r \<noteq> i"
    and "meters d = old @ map (\<lambda>(j, m). new_meter_row (ids j) i now m) (zip [0..<length ms] ms)"
  shows "active_meters i d = map (\<lambda>(j, m). new_meter_row (ids j) i now m) (zip [0..<length ms] ms)"
proof -
  have "rows (\<lambda>m. m_licenseId m = i \<and> m_archivedAt m = None) old = []"
    using assms(1) by (simp add: rows_def filter_empty_conv)
  then show ?thesis by (simp only: active_meters_def assms(2) rows_append append_Nil new_rows_active)
qed

text \<open>
  C25: a created licence works. When \<open>createLicense\<close> is answered and nothing interferes, the key it
  reveals finds a licence of the requested customer and type: its session revision is 0, it is not revoked, it has no allow list and no Stripe link, and it has an active
  meter exactly when it is metered, one for each meter that was asked for.
\<close>

theorem created_license_works:
  assumes "createLicense data env w = (Inr m, w')" and "quiet env" and "db_wf (w_db w)"
  shows "ml_status m \<noteq> Revoked \<and>
    (\<exists>l. findByLicenseKeyWithAllowlists (e_sha256 env) (ml_licenseKey m) (w_db w') = Some l \<and>
      l_id l = ml_id m \<and> l_type l = cl_type data \<and> l_customerId l = cl_customerId data \<and>
      l_sessionRevision l = 0 \<and> l_manualRevokedAt l = None \<and> l_billingRevokedAt l = None \<and>
      l_allowedIps l = [] \<and> l_allowedDevices l = []) \<and>
    (cl_type data = Metered \<longleftrightarrow> active_meters (ml_id m) (w_db w') \<noteq> []) \<and>
    length (active_meters (ml_id m) (w_db w')) = length (case_option [] id (cl_meters data))"
proof -
  from createLicense_Inr[OF assms(1,2)] obtain mk key k x d1 t now where
    mk: "new_license_of (e_parseDate env) (e_toISO env) t data = Inr mk"
    and cr: "license_create (e_sha256 env) (e_uuid env k) (e_now env k) (e_dbNow env k) (mk key) (w_db w) =
      Inr (x, d1)"
    and d1: "but_activity d1 (w_db w')" and m: "m = managed_revealed now x" .
  obtain ms cfg where cfg: "createTypeConfig (e_parseDate env) (e_toISO env) t data ms = Inr cfg"
    and ms: "validateMeters (case_option [] id (cl_meters data)) = Inr ms" "nl_meters (mk key) = ms"
    and nl: "nl_licenseKey (mk key) = key" "nl_type (mk key) = cl_type data" "nl_customerId (mk key) = cl_customerId data"
    using mk by (auto simp: new_license_of_def Let_def)
  from license_create_Inr[OF cr, unfolded nl ms(2)] obtain l where
    l: "l_id l = e_uuid env k 0" "l_keyHash l = e_sha256 env key" "l_type l = cl_type data"
      "l_customerId l = cl_customerId data" "l_sessionRevision l = 0" "l_manualRevokedAt l = None"
      "x = reveal (toDomainLicense None l) key"
    and new: "e_uuid env k 0 \<notin> set (map l_id (licenses (w_db w)))" "l_keyHash l \<notin> set (map l_keyHash (licenses (w_db w)))"
    and d': "licenses d1 = licenses (w_db w) @ [l]" "stripeLinks d1 = stripeLinks (w_db w)"
      "ipAllowlist d1 = ipAllowlist (w_db w)" "deviceAllowlist d1 = deviceAllowlist (w_db w)"
      "meters d1 = meters (w_db w) @ map (\<lambda>(i, m). new_meter_row (e_uuid env k (1 + i)) (e_uuid env k 0) (e_now env k) m)
        (zip [0..<length ms] ms)"
    .
  have fresh: "\<forall>r \<in> set (ipAllowlist (w_db w)). ia_licenseId r \<noteq> l_id l"
    "\<forall>r \<in> set (deviceAllowlist (w_db w)). da_licenseId r \<noteq> l_id l"
    "\<forall>r \<in> set (meters (w_db w)). m_licenseId r \<noteq> l_id l"
    "\<forall>r \<in> set (stripeLinks (w_db w)). s_licenseId r \<noteq> l_id l"
    using fresh_license[OF assms(3) new(1)] l(1) by simp_all
  have found: "findByLicenseKeyWithAllowlists (e_sha256 env) key (w_db w') =
      Some (with_allowlists (toDomainLicense None l) [] [])"
    by (rule find_created[where ?sha256.0 = "e_sha256 env", OF l(2) new(2)]) (use d1 d' fresh in \<open>simp_all add: but_activity_def\<close>)
  have act: "active_meters (l_id l) (w_db w') =
      map (\<lambda>(i, m). new_meter_row (e_uuid env k (1 + i)) (e_uuid env k 0) (e_now env k) m) (zip [0..<length ms] ms)"
    using fresh(3) d1 d'(5) unfolding l(1) by (intro new_meters_active) (simp_all add: but_activity_def)
  have "cl_type data = Metered \<longleftrightarrow> ms \<noteq> []" using createTypeConfig_fits(2)[OF cfg] .
  moreover have "length ms = length (case_option [] id (cl_meters data))"
    using ms(1) by (auto simp: validateMeters_def validate_meters_from_Inr_iff dest: list_all2_lengthD)
  moreover have "ml_status m \<noteq> Revoked"
    using m l by (simp add: status_revoked_iff)
  moreover have count: "length (active_meters (l_id l) (w_db w')) = length ms" using act by simp
  moreover have "active_meters (l_id l) (w_db w') \<noteq> [] \<longleftrightarrow> ms \<noteq> []"
    using count by (metis length_0_conv)
  ultimately show ?thesis
    using m l found by simp
qed

theorem created_license_works_witness:
  "\<exists>m w' l. createLicense plain_input sample_env (sample_world Lifetime) = (Inr m, w') \<and>
    findByLicenseKeyWithAllowlists (e_sha256 sample_env) (ml_licenseKey m) (w_db w') = Some l \<and>
    l_id l = ml_id m \<and> l_id l \<noteq> ''L''"
proof -
  have "\<exists>m w'. createLicense plain_input sample_env (sample_world Lifetime) = (Inr m, w') \<and> ml_id m \<noteq> ''L''"
    by (rule run_Inr) code_simp
  then obtain m w' where run: "createLicense plain_input sample_env (sample_world Lifetime) = (Inr m, w')"
    and "ml_id m \<noteq> ''L''" by blast
  moreover have "quiet sample_env" "db_wf (w_db (sample_world Lifetime))"
    by (simp_all add: calm_quiet sample_calm sample_world_def sample_db_wf)
  ultimately show ?thesis using created_license_works[OF run] by metis
qed

end
