(* ===== verification/SessionRevocation.thy ===== *)
theory SessionRevocation
  imports AdminService
begin

text \<open>
  How the administration and the client service work together when sessions are ended. Every
  operator action that must end sessions first raises the session revision of the licence in
  PostgreSQL and then removes the sessions in Redis, best effort. The theory shows that the
  first step is enough: once the revision is above the one a session was opened under, no
  heartbeat of that session is answered, whether or not Redis could be cleaned, and whatever the
  other requests do as long as they neither lower a revision nor give the token another session.
\<close>

section \<open>Sessions bound to a revision\<close>

definition revision_at_least :: "int \<Rightarrow> string \<Rightarrow> db \<Rightarrow> bool" where
  "revision_at_least m i d \<longleftrightarrow>
    unique_on l_id (licenses d) \<and> (\<forall>l \<in> set (licenses d). l_id l = i \<longrightarrow> m \<le> l_sessionRevision l)"

definition token_value :: "string \<Rightarrow> string \<Rightarrow> redis \<Rightarrow> bool" where
  "token_value tok v r \<longleftrightarrow> (\<forall>v' e. r_strings r (session_key tok) = Some (v', e) \<longrightarrow> v' = v)"

definition session_bound ::
    "int \<Rightarrow> string \<Rightarrow> string \<Rightarrow> int \<Rightarrow> string \<Rightarrow> db \<times> redis \<Rightarrow> bool" where
  "session_bound m tok i rv h s \<longleftrightarrow>
    revision_at_least m i (fst s) \<and> token_value tok (session_value i rv h) (snd s)"

definition monotone_others :: "string \<Rightarrow> string \<Rightarrow> int \<Rightarrow> string \<Rightarrow> env \<Rightarrow> bool" where
  "monotone_others tok i rv h env \<longleftrightarrow>
    (\<forall>m k s. session_bound m tok i rv h s \<longrightarrow> session_bound m tok i rv h (e_others env k s))"

abbreviation stores :: "world \<Rightarrow> db \<times> redis" where
  "stores w \<equiv> (w_db w, w_redis w)"

definition bound_rel ::
    "int \<Rightarrow> string \<Rightarrow> string \<Rightarrow> int \<Rightarrow> string \<Rightarrow> world \<Rightarrow> world \<Rightarrow> bool" where
  "bound_rel m tok i rv h w w' \<longleftrightarrow>
    (session_bound m tok i rv h (stores w) \<longrightarrow> session_bound m tok i rv h (stores w'))"

lemma interfere_stores: "stores (interfere env w) = e_others env (w_tick w) (stores w)"
  by (simp add: interfere_def split: prod.splits)

interpretation bound_kept: step_preorder "monotone_others tok i rv h" "bound_rel m tok i rv h"
  for m tok i rv h
proof
  show "bound_rel m tok i rv h w (interfere env w)" if "monotone_others tok i rv h env" for env w
    using that unfolding bound_rel_def monotone_others_def interfere_stores by blast
qed (auto simp: bound_rel_def)

lemma bound_by_activity:
  "but_activity d d' \<Longrightarrow> session_bound m tok i rv h (d, r) \<Longrightarrow> session_bound m tok i rv h (d', r)"
  by (simp add: session_bound_def revision_at_least_def but_activity_def)

lemma bound_steps_capture: "steps (monotone_others tok i rv h) (bound_rel m tok i rv h) (capture e)"
  unfolding capture_def record_activity_def
proof (intro bound_kept.steps_catchIO bound_kept.steps_bindIO bound_kept.steps_pure
    bound_kept.steps_db_call)
  fix env :: env and k and w :: world and x and d :: db
  assume "activity_record (e_uuid env k 0) (e_now env k) (sanitized e) (w_db w) = Inr (x, d)"
  from bound_by_activity[OF activity_record_rest[OF this]]
  show "bound_rel m tok i rv h w (w\<lparr>w_db := d\<rparr>)" by (simp add: bound_rel_def)
qed

lemma bound_steps_best_effort:
  "steps (monotone_others tok i rv h) (bound_rel m tok i rv h) f \<Longrightarrow>
    steps (monotone_others tok i rv h) (bound_rel m tok i rv h) (best_effort f)"
  unfolding best_effort_def by (intro bound_kept.steps_rules)

lemma bound_steps_admin_capture:
  "steps (monotone_others tok i rv h) (bound_rel m tok i rv h) (admin_capture e)"
  unfolding admin_capture_def by (intro bound_steps_best_effort bound_steps_capture)

section \<open>Redis only forgets\<close>

lemma fold_remove_keeps:
  "r_strings (snd (fold (remove_member key pf t) ms st)) k = Some x \<Longrightarrow> r_strings (snd st) k = Some x"
proof (induction ms arbitrary: st)
  case (Cons m ms)
  have "r_strings (snd (remove_member key pf t m st)) k = Some x"
    using Cons.IH[of "remove_member key pf t m st"] Cons.prems by simp
  then show ?case
    using remove_member_strings[of key pf t m "fst st" "snd st" k]
    by (metis option.distinct(1) prod.collapse)
qed simp

lemma removeAllSessions_strings:
  assumes "r_strings (snd (removeAllSessions t l pf r)) k = Some x"
  shows "r_strings r k = Some x"
proof -
  obtain n r1 where f: "fold (remove_member (session_set_key l) pf t) (smembers (session_set_key l) t r) (0, r) = (n, r1)"
    by fastforce
  have "r_strings r1 k = Some x"
    using assms by (simp add: removeAllSessions_def Let_def f redis_simps split: if_splits)
  then show ?thesis
    using fold_remove_keeps[of "session_set_key l" pf t "smembers (session_set_key l) t r" "(0, r)" k x] f
    by simp
qed

lemma removeSession_strings:
  "r_strings (snd (removeSession sha256 t tok b r)) k = Some x \<Longrightarrow> r_strings r k = Some x"
  by (auto simp: removeSession_def Let_def redis_simps split: option.splits prod.splits if_splits)

lemma refreshSession_strings:
  "r_strings (snd (refreshSession sha256 t tok b ttl r)) k = Some (v, e) \<Longrightarrow>
    \<exists>e'. r_strings r k = Some (v, e')"
  by (auto simp: refreshSession_def Let_def redis_simps redis_get_def redis_expire_def
      split: option.splits prod.splits if_splits)

lemma token_value_later:
  "token_value tok v r \<Longrightarrow>
    (\<And>v' e. r_strings r' (session_key tok) = Some (v', e) \<Longrightarrow> \<exists>e'. r_strings r (session_key tok) = Some (v', e')) \<Longrightarrow>
    token_value tok v r'"
  unfolding token_value_def by blast

lemma bound_redis_call:
  assumes "\<And>env k r v' e. r_strings (snd (f env k r)) (session_key tok) = Some (v', e) \<Longrightarrow>
    \<exists>e'. r_strings r (session_key tok) = Some (v', e')"
  shows "steps (monotone_others tok i rv h) (bound_rel m tok i rv h) (redis_call f)"
proof (rule bound_kept.steps_redis_call)
  fix env :: env and k and w :: world and x r
  assume run: "f env k (w_redis w) = (x, r)"
  show "bound_rel m tok i rv h w (w\<lparr>w_redis := r\<rparr>)"
    using token_value_later[of tok _ "w_redis w" r] assms[of env k "w_redis w"]
    by (auto simp: bound_rel_def session_bound_def run)
qed

lemma bound_steps_removeAll:
  "steps (monotone_others tok i rv h) (bound_rel m tok i rv h) (removeSessionsBestEffort l pf)"
  unfolding removeSessionsBestEffort_def
  by (intro bound_kept.steps_catchIO bound_kept.steps_bindIO bound_kept.steps_pure bound_redis_call)
    (auto dest: removeAllSessions_strings)

lemma bound_steps_refresh:
  "steps (monotone_others tok i rv h) (bound_rel m tok i rv h) (refresh_session tok' b)"
  unfolding refresh_session_def by (intro bound_redis_call) (rule refreshSession_strings)

lemma bound_steps_remove:
  "steps (monotone_others tok i rv h) (bound_rel m tok i rv h) (remove_session tok' b)"
  unfolding remove_session_def by (intro bound_redis_call) (blast dest: removeSession_strings)

section \<open>Raising the revision\<close>

lemma raise_revision:
  assumes "update_licenses P f d = Inr (us, d')" "us \<noteq> []" "revision_at_least m i d"
    and "\<And>l. P l \<Longrightarrow> l_id l = i" "\<And>l. l_id (f l) = l_id l"
    and "\<And>l. l_sessionRevision (f l) = l_sessionRevision l + 1"
  shows "revision_at_least (m + 1) i d'"
proof -
  have u: "unique_on l_id (licenses d)" using assms(3) by (simp add: revision_at_least_def)
  from update_one_license[OF u assms(1,4)] assms(2) obtain l where
    l: "P l" "replaces i l (f l) d d'" by auto
  have i: "l_id (f l) = i" "m \<le> l_sessionRevision l"
    using l assms(3-5) by (auto simp: replaces_def revision_at_least_def)
  have "m + 1 \<le> l_sessionRevision x" if x: "x \<in> set (licenses d')" "l_id x = i" for x
    using replaces_row[OF u l(2) i(1), of x] x i(2) assms(6)[of l] by simp
  then show ?thesis
    using replaces_unique[OF u l(2) i(1)] by (simp add: revision_at_least_def)
qed

lemma raising:
  "incrementSessionRevision dbNow i d = Inr (l, d') \<Longrightarrow> revision_at_least m i d \<Longrightarrow>
    revision_at_least (m + 1) i d'"
  "updateWithSessionInvalidation dbNow i data d = Inr (l, d') \<Longrightarrow> revision_at_least m i d \<Longrightarrow>
    revision_at_least (m + 1) i d'"
  "rotateKey sha256 dbNow i key expected d = Inr (x, d') \<Longrightarrow> revision_at_least m i d \<Longrightarrow>
    revision_at_least (m + 1) i d'"
  "incrementLicenseSessionRevision dbNow i d = Inr (n, d') \<Longrightarrow> revision_at_least m i d \<Longrightarrow>
    revision_at_least (m + 1) i d'"
proof -
  show "incrementSessionRevision dbNow i d = Inr (l, d') \<Longrightarrow> revision_at_least m i d \<Longrightarrow>
      revision_at_least (m + 1) i d'"
    by (auto simp: incrementSessionRevision_def bindT_Inr_iff liftE_Inr_iff firstOrThrow_Inr_iff
        reload_Inr_iff elim!: raise_revision)
  show "updateWithSessionInvalidation dbNow i data d = Inr (l, d') \<Longrightarrow> revision_at_least m i d \<Longrightarrow>
      revision_at_least (m + 1) i d'"
    by (auto simp: updateWithSessionInvalidation_def bindT_Inr_iff liftE_Inr_iff firstOrThrow_Inr_iff
        reload_Inr_iff apply_license_update_def elim!: raise_revision)
  show "rotateKey sha256 dbNow i key expected d = Inr (x, d') \<Longrightarrow> revision_at_least m i d \<Longrightarrow>
      revision_at_least (m + 1) i d'"
    by (auto simp: rotateKey_def bindT_Inr_iff liftE_Inr_iff firstOrThrow_Inr_iff
        elim!: raise_revision split: if_splits option.splits)
  assume inc: "incrementLicenseSessionRevision dbNow i d = Inr (n, d')" and r: "revision_at_least m i d"
  let ?f = "\<lambda>l. l\<lparr>l_sessionRevision := l_sessionRevision l + 1, l_updatedAt := next_updated_at dbNow l\<rparr>"
  obtain us where us: "update_licenses (\<lambda>l. l_id l = i) ?f d = Inr (us, d')"
    using inc by (auto simp: incrementLicenseSessionRevision_def bindT_Inr_iff)
  have "us = [] \<Longrightarrow> revision_at_least (m + 1) i d'"
    using update_one_license[OF _ us, of i] r by (auto simp: revision_at_least_def)
  moreover have "us \<noteq> [] \<Longrightarrow> revision_at_least (m + 1) i d'"
    using us r by (rule_tac raise_revision[OF us]) simp_all
  ultimately show "revision_at_least (m + 1) i d'" by blast
qed

lemma raising_call:
  assumes run: "db_call T env w = (Inr x, w')" and others: "monotone_others tok i rv h env"
    and bound: "session_bound m tok i rv h (stores w)"
    and raises: "\<And>k d d'. T env k d = Inr (x, d') \<Longrightarrow> revision_at_least m i d \<Longrightarrow>
      revision_at_least (m + 1) i d'"
  shows "session_bound (m + 1) tok i rv h (stores w')"
proof -
  have "session_bound m tok i rv h (stores (interfere env w))"
    using others bound unfolding interfere_stores monotone_others_def by blast
  with run raises show ?thesis
    unfolding db_call_Inr by (auto simp: session_bound_def)
qed

text \<open>
  \<open>raises\<close>: an operation that is answered leaves the revision above the bound. It is enough
  that one of its steps does and that the steps around it keep the bound.
\<close>

definition raises :: "int \<Rightarrow> string \<Rightarrow> string \<Rightarrow> int \<Rightarrow> string \<Rightarrow> 'a io \<Rightarrow> bool" where
  "raises m tok i rv h p \<longleftrightarrow>
    (\<forall>env w y w'. monotone_others tok i rv h env \<longrightarrow> session_bound m tok i rv h (stores w) \<longrightarrow>
      p env w = (Inr y, w') \<longrightarrow> session_bound (m + 1) tok i rv h (stores w'))"

lemma raises_before:
  assumes "steps (monotone_others tok i rv h) (bound_rel m tok i rv h) p"
    and "\<And>x. raises m tok i rv h (f x)"
  shows "raises m tok i rv h (bindIO p f)"
  unfolding raises_def
proof (intro allI impI)
  fix env :: env and w w' :: world and y
  assume env: "monotone_others tok i rv h env" and b: "session_bound m tok i rv h (stores w)"
    and "bindIO p f env w = (Inr y, w')"
  then obtain x w1 where 1: "p env w = (Inr x, w1)" and 2: "f x env w1 = (Inr y, w')"
    unfolding bindIO_Inr_iff by blast
  from stepsD[OF assms(1) env 1] b have "session_bound m tok i rv h (stores w1)"
    by (simp add: bound_rel_def)
  with assms(2)[of x] env 2 show "session_bound (m + 1) tok i rv h (stores w')"
    unfolding raises_def by blast
qed

lemma raises_after:
  assumes "raises m tok i rv h p"
    and "\<And>x. steps (monotone_others tok i rv h) (bound_rel (m + 1) tok i rv h) (f x)"
  shows "raises m tok i rv h (bindIO p f)"
  unfolding raises_def
proof (intro allI impI)
  fix env :: env and w w' :: world and y
  assume env: "monotone_others tok i rv h env" and b: "session_bound m tok i rv h (stores w)"
    and "bindIO p f env w = (Inr y, w')"
  then obtain x w1 where 1: "p env w = (Inr x, w1)" and 2: "f x env w1 = (Inr y, w')"
    unfolding bindIO_Inr_iff by blast
  have "session_bound (m + 1) tok i rv h (stores w1)"
    using assms(1) env b 1 unfolding raises_def by blast
  with stepsD[OF assms(2) env 2] show "session_bound (m + 1) tok i rv h (stores w')"
    by (simp add: bound_rel_def)
qed

lemma raises_call:
  assumes "\<And>env k d x d'. T env k d = Inr (x, d') \<Longrightarrow> revision_at_least m i d \<Longrightarrow>
      revision_at_least (m + 1) i d'"
  shows "raises m tok i rv h (db_call T)"
  unfolding raises_def using raising_call[where T = T] assms by blast

lemma isolated_others: "monotone_others tok i rv h env \<Longrightarrow> monotone_others tok i rv h (isolated env)"
  unfolding monotone_others_def isolated_def session_bound_def by (auto split: prod.splits) 

lemma raises_transaction:
  assumes "raises m tok i rv h p"
  shows "raises m tok i rv h (transaction p)"
  unfolding raises_def
proof (intro allI impI)
  fix env :: env and w w' :: world and y
  assume env: "monotone_others tok i rv h env" and b: "session_bound m tok i rv h (stores w)"
    and "transaction p env w = (Inr y, w')"
  then obtain w2 where 1: "p (isolated env) (interfere env w) = (Inr y, w2)"
    and 2: "stores w' = stores w2"
    unfolding transaction_Inr by auto
  have "session_bound m tok i rv h (stores (interfere env w))"
    using env b unfolding interfere_stores monotone_others_def by blast
  then show "session_bound (m + 1) tok i rv h (stores w')"
    using assms 1 isolated_others[OF env] unfolding raises_def 2 by blast
qed

lemma bound_steps_pre:
  "steps (monotone_others tok i rv h) (bound_rel m tok i rv h) (requireLicense j)"
  "steps (monotone_others tok i rv h) (bound_rel m tok i rv h) licenseKey"
  "steps (monotone_others tok i rv h) (bound_rel m tok i rv h) (managed_io l)"
  "steps (monotone_others tok i rv h) (bound_rel m tok i rv h) (managed_revealed_io l')"
  "steps (monotone_others tok i rv h) (bound_rel m tok i rv h) (captureLicenseUpdate l'' a ds)"
proof -
  show "steps (monotone_others tok i rv h) (bound_rel m tok i rv h) (requireLicense j)"
    unfolding requireLicense_def findById_io_def found_or_def by (intro bound_kept.steps_rules)
  have "steps (monotone_others tok i rv h) (bound_rel m tok i rv h) randomIO"
    by (simp add: steps_def randomIO_def bound_rel_def)
  then show "steps (monotone_others tok i rv h) (bound_rel m tok i rv h) licenseKey"
    unfolding licenseKey_def by (intro bound_kept.steps_rules)
  show "steps (monotone_others tok i rv h) (bound_rel m tok i rv h) (managed_io l)"
    "steps (monotone_others tok i rv h) (bound_rel m tok i rv h) (managed_revealed_io l')"
    unfolding managed_io_def managed_revealed_io_def by (intro bound_kept.steps_rules)+
  show "steps (monotone_others tok i rv h) (bound_rel m tok i rv h) (captureLicenseUpdate l'' a ds)"
    unfolding captureLicenseUpdate_def by (rule bound_steps_admin_capture)
qed

lemmas bound_steps = bound_kept.steps_rules bound_steps_pre bound_steps_admin_capture
  bound_steps_removeAll bound_steps_refresh bound_steps_remove

lemma raises_unregister:
  assumes "\<And>d x d'. remove d = Inr (x, d') \<Longrightarrow> licenses d' = licenses d"
  shows "raises m tok i rv h (unregister i remove True)"
proof -
  have removal: "steps (monotone_others tok i rv h) (bound_rel m tok i rv h) (db_call (\<lambda>_ _. remove))"
    by (rule bound_kept.steps_db_call)
      (auto simp: bound_rel_def session_bound_def revision_at_least_def dest: assms)
  have bump: "raises m tok i rv h (db_call (\<lambda>env k. incrementLicenseSessionRevision (e_dbNow env k) i))"
    by (rule raises_call) (erule (1) raising(4))
  show ?thesis
    unfolding unregister_def if_True simp_thms
    by (intro raises_transaction raises_before[OF removal] raises_after[OF bump] bound_steps)
qed

lemma terminate_raises: "raises m tok i rv h (terminateLicenseSessions i)"
  unfolding terminateLicenseSessions_def
  by (intro raises_before[OF bound_steps_pre(1)] raises_after[OF raises_call] bound_steps)
    (erule (1) raising(1))

lemma revoke_raises: "raises m tok i rv h (revokeLicense i why)"
  unfolding revokeLicense_def
  by (intro raises_before[OF bound_steps_pre(1)] raises_before[OF bound_kept.steps_pure(3)]
      raises_before[OF bound_kept.steps_pure(5)] raises_after[OF raises_call] bound_steps)
    (erule (1) raising(2))

lemma rotate_raises: "raises m tok i rv h (rotateLicenseKey i)"
  unfolding rotateLicenseKey_def
  by (intro raises_before[OF bound_steps_pre(1)] raises_before[OF bound_steps_pre(2)]
      raises_after[OF raises_call] bound_steps)
    (erule (1) raising(3))

lemma reset_raises: "raises m tok i rv h (admin_resetRegisteredDevices i)"
  unfolding admin_resetRegisteredDevices_def end_registrations_def
  by (intro raises_before[OF bound_steps_pre(1)] raises_after[OF raises_unregister] bound_steps)
    (auto simp: resetRegisteredDevices_def delete_devices_def)

section \<open>An outdated session is refused\<close>

lemma refresh_bound:
  assumes "refresh_session tok b env w = (Inr (Some s), w')" "valid_session i rv"
    and "monotone_others tok i rv h env" "session_bound m tok i rv h (stores w)"
  shows "rs_licenseId s = i \<and> rs_sessionRevision s = rv"
proof -
  let ?r = "w_redis (interfere env w)"
  obtain r where run: "refreshSession (e_sha256 env) (e_redisNow env (w_tick w)) tok b
      SESSION_TTL_SECONDS ?r = (Inr (Some s), r)"
    using assms(1) unfolding refresh_session_def redis_call_Inr by blast
  have "session_bound m tok i rv h (stores (interfere env w))"
    using assms(3,4) unfolding interfere_stores monotone_others_def by blast
  then have tv: "token_value tok (session_value i rv h) ?r" by (simp add: session_bound_def)
  obtain v where v: "redis_get (session_key tok) (e_redisNow env (w_tick w)) ?r = Some v"
    using run by (auto simp: refreshSession_def split: option.splits)
  then have "v = session_value i rv h"
    using tv by (auto simp: redis_get_def token_value_def split: option.splits if_splits)
  then show ?thesis
    using run v assms(2)
    by (auto simp: refreshSession_def valid_session_def resolvedSession_show Let_def
        split: if_splits)
qed

lemma outdated_refused:
  assumes others: "monotone_others tok i rv h env" and valid: "valid_session i rv"
    and bound: "session_bound m tok i rv h (stores w)" and old: "rv < m"
  shows "heartbeat tok dev ip env w \<noteq> (Inr res, w')"
proof
  assume "heartbeat tok dev ip env w = (Inr res, w')"
  then obtain b la w1 where "live_license tok b env w = (Inr la, w1)"
    unfolding heartbeat_def bindIO_Inr_iff by auto
  then obtain s w2 where s: "refresh_session tok b env w = (Inr (Some s), w2)"
    and req: "requireActiveSessionLicense (rs_licenseId s) (rs_sessionRevision s) (rs_token s) b env w2 =
      (Inr la, w1)"
    by (auto simp: live_license_def bindIO_Inr_iff split: option.splits)
  have b2: "session_bound m tok i rv h (stores w2)"
    using stepsD[OF bound_steps_refresh others s] bound by (simp add: bound_rel_def)
  have ids: "rs_licenseId s = i" "rs_sessionRevision s = rv"
    using refresh_bound[OF s valid others bound] by simp_all
  from req obtain l w3 w4 where 1: "findById_io i env w2 = (Inr (Some l), w3)"
    and 2: "find_by_id (l_id l) env w3 = (Inr (Some la), w4)" and rev: "l_sessionRevision la = rv"
    by (auto simp: requireActiveSessionLicense_def bindIO_Inr_iff catchIO_Inr_iff ids Let_def
        split: option.splits if_splits)
  have lid: "l_id l = i"
    using 1 unfolding findById_io_def db_read_Inr by (metis findById_id)
  have "steps (monotone_others tok i rv h) (bound_rel m tok i rv h) (findById_io i)"
    unfolding findById_io_def by (rule bound_kept.steps_db_read)
  from stepsD[OF this others 1] b2 have "session_bound m tok i rv h (stores w3)"
    by (simp add: bound_rel_def)
  then have "session_bound m tok i rv h (stores (interfere env w3))"
    using others unfolding interfere_stores monotone_others_def by blast
  moreover have "\<exists>l' \<in> set (licenses (w_db (interfere env w3))). l_id l' = i \<and> l_sessionRevision l' = rv"
    using 2 rev lid
    by (auto simp: find_by_id_def load_with_allowlists_def attach_allowlists_def findById_io_def
        bindIO_Inr_iff db_read_Inr license_findById_def dest!: first_row_SomeD
        split: option.splits)
  ultimately show False using old by (auto simp: session_bound_def revision_at_least_def)
qed

text \<open>
  C24: an operator's action that is answered ends the sessions opened before it. Let a token hold
  a session of licence \<open>i\<close> opened under revision \<open>rv\<close>, which the licence had reached. When
  one of \<open>terminateLicenseSessions\<close>, \<open>revokeLicense\<close>, \<open>rotateLicenseKey\<close> and
  \<open>resetRegisteredDevices\<close> is answered for \<open>i\<close>, then no heartbeat of that token is answered any
  more, right after it or later, for any device and address: also when Redis could not be reached
  to remove the sessions, and with any requests in between that neither lower a revision nor
  store another session under the token.
\<close>

theorem answered_action_ends_sessions:
  assumes "monotone_others tok i rv h env" and "valid_session i rv"
    and "session_bound rv tok i rv h (stores w)"
    and "(\<exists>n. terminateLicenseSessions i env w = (Inr n, w1)) \<or>
      (\<exists>x. revokeLicense i why env w = (Inr x, w1)) \<or>
      (\<exists>x. rotateLicenseKey i env w = (Inr x, w1)) \<or>
      (\<exists>n. admin_resetRegisteredDevices i env w = (Inr n, w1))"
  shows "session_bound (rv + 1) tok i rv h (stores w1) \<and>
    (\<forall>w2 dev ip. session_bound (rv + 1) tok i rv h (stores w2) \<longrightarrow>
      (\<exists>e w3. heartbeat tok dev ip env w2 = (Inl e, w3)))"
proof -
  have "session_bound (rv + 1) tok i rv h (stores w1)"
    using assms terminate_raises[of rv tok i rv h] revoke_raises[of rv tok i rv h why]
      rotate_raises[of rv tok i rv h] reset_raises[of rv tok i rv h]
    unfolding raises_def by blast
  moreover have "\<exists>e w3. heartbeat tok dev ip env w2 = (Inl e, w3)"
    if b: "session_bound (rv + 1) tok i rv h (stores w2)" for w2 dev ip
  proof -
    obtain res w3 where run: "heartbeat tok dev ip env w2 = (res, w3)" by fastforce
    then show ?thesis
      using outdated_refused[OF assms(1,2) b, of dev ip _ w3] by (cases res) auto
  qed
  ultimately show ?thesis by blast
qed

definition deaf_env :: env where
  "deaf_env = sample_env\<lparr>e_redisOutcome := \<lambda>k. if k < 6 then Lost_request else Done\<rparr>"

theorem answered_action_ends_sessions_witness:
  "\<exists>n w1 e w3. terminateLicenseSessions ''L'' deaf_env (session_world Lifetime) = (Inr n, w1) \<and>
    heartbeat ''tok'' ''dev'' ''1.2.3.4'' deaf_env w1 = (Inl e, w3)"
proof -
  have "\<exists>n w1. terminateLicenseSessions ''L'' deaf_env (session_world Lifetime) = (Inr n, w1) \<and> True"
    by (rule run_Inr) code_simp
  then obtain n w1 where run: "terminateLicenseSessions ''L'' deaf_env (session_world Lifetime) = (Inr n, w1)"
    by blast
  have others: "monotone_others tok i rv h deaf_env" for tok i rv h
    by (simp add: monotone_others_def deaf_env_def sample_env_def)
  have valid: "valid_session ''L'' 0" by (simp add: valid_session_def MAX_SAFE_INTEGER_def)
  let ?h = "hashBinding id \<lparr>sb_ip = ''1.2.3.4'', sb_deviceId = ''dev''\<rparr>"
  have bound: "session_bound 0 ''tok'' ''L'' 0 ?h (stores (session_world Lifetime))"
    by (simp add: session_bound_def revision_at_least_def session_world_def sample_world_def sample_defs
        token_value_def registerSession_def Let_def redis_simps prune_members_def smembers_empty scard_def
        SESSION_TTL_SECONDS_def taken_def)
  show ?thesis
    using answered_action_ends_sessions[OF others valid bound, of w1] run bound by blast
qed

end
