(* ===== verification/Consistency.thy ===== *)
theory Consistency
  imports AdminService
begin

text \<open>
  What holds of the database as a whole, whichever request is served: the constraints of the
  schema (\<open>db_wf\<close>), the books of the meters (\<open>books_ok\<close>), and two rules no constraint of the
  schema expresses, which only the transactions of the repositories enforce: a metered licence
  has an active meter, and only subscription licences are linked to Stripe.

  The theory proves for every statement and method of the repositories that it keeps these; the
  rules are collected in \<open>keeps_rules\<close>, so that the services inherit them by their structure.
\<close>

section \<open>The invariant\<close>

definition metered_have_meters :: "db \<Rightarrow> bool" where
  "metered_have_meters d \<longleftrightarrow>
    (\<forall>l \<in> set (licenses d). l_type l = Metered \<longrightarrow> active_meters (l_id l) d \<noteq> [])"

definition links_on_subscriptions :: "db \<Rightarrow> bool" where
  "links_on_subscriptions d \<longleftrightarrow>
    (\<forall>s \<in> set (stripeLinks d). \<forall>l \<in> set (licenses d). l_id l = s_licenseId s \<longrightarrow> l_type l = Subscription)"

definition entries_in_credit :: "db \<Rightarrow> bool" where
  "entries_in_credit d \<longleftrightarrow> (\<forall>e \<in> set (ledger d). 0 \<le> e_balanceAfter e)"

definition consistent :: "db \<Rightarrow> bool" where
  "consistent d \<longleftrightarrow> db_wf d \<and> books_ok d \<and> metered_have_meters d \<and> links_on_subscriptions d \<and>
    entries_in_credit d"

lemma consistentD:
  assumes "consistent d"
  shows "db_wf d" "books_ok d" "metered_have_meters d" "links_on_subscriptions d"
    and "meter_inv d" "unique_on l_id (licenses d)" "entries_in_credit d"
  using assms by (auto simp: consistent_def meter_inv_def db_wf_def licenses_wf_def)

lemma consistentI:
  "db_wf d \<Longrightarrow> books_ok d \<Longrightarrow> metered_have_meters d \<Longrightarrow> links_on_subscriptions d \<Longrightarrow>
    entries_in_credit d \<Longrightarrow> consistent d"
  by (simp add: consistent_def)

lemma empty_db_consistent: "consistent empty_db"
  using empty_db_wf
  by (auto simp: consistent_def books_ok_def metered_have_meters_def links_on_subscriptions_def
      entries_in_credit_def empty_db_def)

text \<open>The books, the meters and the links depend on four tables only.\<close>

lemma consistent_frame:
  assumes "consistent d" "db_wf d'" "licenses d' = licenses d" "meters d' = meters d"
    "ledger d' = ledger d" "stripeLinks d' = stripeLinks d"
  shows "consistent d'"
  using assms
  by (simp add: consistent_def books_ok_def meter_entries_def metered_have_meters_def
      active_meters_def links_on_subscriptions_def entries_in_credit_def)

lemma link_of_None_iff: "link_of i d = None \<longleftrightarrow> (\<forall>s \<in> set (stripeLinks d). s_licenseId s \<noteq> i)"
  by (auto simp: link_of_def first_row_None_iff)

section \<open>Licences\<close>

lemma unlinked_unless_subscription:
  assumes "consistent d" "l \<in> set (licenses d)" "l_type l \<noteq> Subscription"
  shows "link_of (l_id l) d = None"
  using consistentD(4)[OF assms(1)] assms(2,3)
  by (auto simp: link_of_None_iff links_on_subscriptions_def)

lemma update_licenses_consistent:
  assumes c: "consistent d" and run: "update_licenses P f d = Inr (us, d')"
    and ids: "\<And>l. l_id (f l) = l_id l"
    and metered: "\<And>l. l \<in> set (licenses d) \<Longrightarrow> P l \<Longrightarrow> l_type (f l) = Metered \<Longrightarrow>
      active_meters (l_id l) d \<noteq> []"
    and linked: "\<And>l. l \<in> set (licenses d) \<Longrightarrow> P l \<Longrightarrow> l_type (f l) \<noteq> Subscription \<Longrightarrow>
      link_of (l_id l) d = None"
  shows "consistent d'"
proof -
  have d': "d' = d\<lparr>licenses := update_where P f (licenses d)\<rparr>"
    using update_licenses_rows[OF run] by blast
  note c' = consistentD[OF c]
  show ?thesis
  proof (rule consistentI)
    show "db_wf d'" by (rule update_licenses_wf[OF c'(1) run ids])
    show "books_ok d'" using c'(2) by (simp add: d' books_ok_def meter_entries_def)
    show "metered_have_meters d'"
      using c'(3) metered ids
      by (auto simp: d' metered_have_meters_def set_update_where active_meters_def)
    have "l_type (f l) = Subscription" if "l \<in> set (licenses d)" "P l" "s \<in> set (stripeLinks d)"
      "l_id l = s_licenseId s" for l s
      using linked[OF that(1,2)] that(3,4) by (auto simp: link_of_None_iff)
    then show "links_on_subscriptions d'"
      using c'(4) ids by (auto simp: d' links_on_subscriptions_def set_update_where)
    show "entries_in_credit d'" using c'(7) by (simp add: d' entries_in_credit_def)
  qed
qed

lemma keeps_update_licenses [keeps_rules]:
  assumes "\<And>l. l_id (f l) = l_id l" "\<And>l. l_type (f l) = l_type l"
  shows "keeps consistent (update_licenses P f)"
proof (rule keepsI)
  fix d us d'
  assume c: "consistent d" and run: "update_licenses P f d = Inr (us, d')"
  show "consistent d'"
    using assms(2) consistentD(3)[OF c] unlinked_unless_subscription[OF c]
    by (intro update_licenses_consistent[OF c run assms(1)]) (auto simp: metered_have_meters_def)
qed

lemma keeps_liftE [keeps_rules]: "keeps I (liftE r)"
  by (auto simp: keeps_def liftE_Inr_iff)

lemma keeps_reload [keeps_rules]: "keeps I (reload i m)"
  by (auto simp: keeps_def reload_Inr_iff)

lemma keeps_case_option [keeps_rules]:
  "keeps I m \<Longrightarrow> (\<And>x. keeps I (f x)) \<Longrightarrow> keeps I (case v of None \<Rightarrow> m | Some x \<Rightarrow> f x)"
  by (cases v) simp_all

lemma apply_license_update_type [simp]:
  "l_type (apply_license_update data l) = set_or (lu_type data) (l_type l)"
  by (simp add: apply_license_update_def)

lemma keeps_write_license [keeps_rules]:
  "lu_type data = None \<Longrightarrow> keeps consistent (write_license dbNow P data)"
  unfolding write_license_def by (rule keeps_update_licenses) simp_all

lemma write_license_consistent:
  assumes c: "consistent d" and run: "write_license dbNow (\<lambda>l. l_id l = i) data d = Inr (rws, d')"
    and "lu_type data = Some Metered \<Longrightarrow> active_meters i d \<noteq> []"
    and "lu_type data \<noteq> Some Subscription \<Longrightarrow> lu_type data \<noteq> None \<Longrightarrow> link_of i d = None"
  shows "consistent d'"
proof (rule update_licenses_consistent[OF c run[unfolded write_license_def]])
  fix l
  assume l: "l \<in> set (licenses d)" "l_id l = i"
  note inv = consistentD(3)[OF c] unlinked_unless_subscription[OF c l(1)]
  let ?l' = "(apply_license_update data l)\<lparr>l_updatedAt := next_updated_at dbNow l\<rparr>"
  show "l_type ?l' = Metered \<Longrightarrow> active_meters (l_id l) d \<noteq> []"
    using inv l assms(3) by (cases "lu_type data") (auto simp: metered_have_meters_def)
  show "l_type ?l' \<noteq> Subscription \<Longrightarrow> link_of (l_id l) d = None"
    using inv l assms(4) by (cases "lu_type data") auto
qed simp

lemma delete_links_consistent:
  assumes "consistent d"
  shows "consistent (d\<lparr>stripeLinks := delete_where P (stripeLinks d)\<rparr>)"
proof (rule consistentI)
  note c' = consistentD[OF assms]
  show "db_wf (d\<lparr>stripeLinks := delete_where P (stripeLinks d)\<rparr>)"
    using c'(1) by (auto simp: db_wf_def wf_defs license_exists_def customer_exists_def unique_on_delete_where)
  show "books_ok (d\<lparr>stripeLinks := delete_where P (stripeLinks d)\<rparr>)"
    using c'(2) by (simp add: books_ok_def meter_entries_def)
  show "metered_have_meters (d\<lparr>stripeLinks := delete_where P (stripeLinks d)\<rparr>)"
    using c'(3) by (simp add: metered_have_meters_def active_meters_def)
  show "links_on_subscriptions (d\<lparr>stripeLinks := delete_where P (stripeLinks d)\<rparr>)"
    using c'(4) by (auto simp: links_on_subscriptions_def)
  show "entries_in_credit (d\<lparr>stripeLinks := delete_where P (stripeLinks d)\<rparr>)"
    using c'(7) by (simp add: entries_in_credit_def)
qed

lemma reconcile_link_consistent:
  assumes "consistent d" "reconcile_link toISO i data options d = Inr (data', d')"
  shows "consistent d'"
  using assms delete_links_consistent[OF assms(1)]
  by (auto simp: reconcile_link_def bindT_Inr_iff delete_links_def split: option.splits if_splits)

section \<open>Meters\<close>

lemma meter_change_rest:
  assumes "meter_change d d'"
  shows "d' = d\<lparr>meters := meters d', ledger := ledger d'\<rparr>"
  using assms by (auto simp: meter_change_def posted_def opened_def)

lemma meter_change_consistent:
  assumes c: "consistent d" and ch: "meter_change d d'"
    and open_kept: "metered_have_meters d'"
  shows "consistent d'"
proof (rule consistentI)
  note c' = consistentD[OF c]
  have inv: "meter_inv d'" using meter_change_inv[OF c'(5) ch] .
  obtain ms es where d': "d' = d\<lparr>meters := ms, ledger := es\<rparr>" using meter_change_rest[OF ch] by blast
  show "db_wf d'"
    using c'(1) inv by (simp add: d' db_wf_def wf_defs meter_inv_def license_exists_def customer_exists_def)
  show "books_ok d'" using inv by (simp add: meter_inv_def)
  show "links_on_subscriptions d'" using c'(4) by (simp add: d' links_on_subscriptions_def)
  show "entries_in_credit d'"
    using ch c'(7) by (auto simp: meter_change_def posted_def opened_def meter_row_ok_def entries_in_credit_def)
qed (rule open_kept)

lemma meter_step_consistent:
  assumes c: "consistent d" and st: "meter_step sha256 d d'"
  shows "consistent d'"
proof (rule meter_change_consistent[OF c])
  note c' = consistentD[OF c]
  show ch: "meter_change d d'" using meter_step_change[OF st c'(5)] .
  show "metered_have_meters d'"
    unfolding metered_have_meters_def meter_change_licenses[OF ch]
    using c'(3) meter_step_open[OF st c'(5) _ _ c'(6)] by (auto simp: metered_have_meters_def)
qed

lemma keeps_meter_methods [keeps_rules]:
  "keeps consistent (createMeter meterId entryId eventUuid now i name balance why)"
  "keeps consistent (archiveMeter entryId eventUuid now i name why)"
  "keeps consistent (consume sha256 entryId now i name units eventId)"
  "keeps consistent (adjust entryId eventUuid now i name delta why kind)"
proof -
  show "keeps consistent (createMeter meterId entryId eventUuid now i name balance why)"
    by (rule keepsI, rule meter_step_consistent[where ?sha256.0 = id, OF _ step_create])
  show "keeps consistent (archiveMeter entryId eventUuid now i name why)"
    by (rule keepsI, rule meter_step_consistent[where ?sha256.0 = id, OF _ step_archive])
  show "keeps consistent (consume sha256 entryId now i name units eventId)"
    by (rule keepsI, rule meter_step_consistent[OF _ step_consume])
  show "keeps consistent (adjust entryId eventUuid now i name delta why kind)"
    by (rule keepsI, rule meter_step_consistent[where ?sha256.0 = id, OF _ step_adjust])
qed

lemma opened_steps_consistent:
  assumes "opened_step\<^sup>*\<^sup>* d d'" and "consistent d"
  shows "consistent d'"
  using assms
proof (induction rule: rtranclp_induct)
  case (step a b)
  then obtain m e where o: "opened m e a b" unfolding opened_step_def by blast
  have lic: "licenses b = licenses a" using o by (simp add: opened_def)
  have "metered_have_meters b"
    unfolding metered_have_meters_def lic
    using consistentD(3)[OF step.IH[OF step.prems]] opened_keeps_open[OF o]
    by (auto simp: metered_have_meters_def)
  moreover have "meter_change a b" using o by (auto simp: meter_change_def)
  ultimately show ?case using meter_change_consistent[OF step.IH[OF step.prems]] by blast
qed

section \<open>Updating a licence\<close>

lemma keeps_licenseRepo_update [keeps_rules]:
  "keeps consistent (licenseRepo_update toISO ids now dbNow i data options)"
proof (rule keepsI)
  fix d x d'
  assume c: "consistent d" and run: "licenseRepo_update toISO ids now dbNow i data options d = Inr (x, d')"
  show "consistent d'"
  proof (cases "lu_type data \<noteq> None \<or> luo_newMeters options \<noteq> []")
    case True
    with run obtain d1 d2 data' rws where
      ins: "insertNewMeters ids now i (meters_by_name i d) 0 (luo_newMeters options) d = Inr ((), d1)"
      and met: "\<not> (lu_type data = Some Metered \<and> active_meters i d1 = [])"
      and rec: "reconcile_link toISO i data options d1 = Inr (data', d2)"
      and wr: "write_license dbNow (\<lambda>l. l_id l = i) data' d2 = Inr (rws, d')"
      unfolding licenseRepo_update_def guarded_update_def
      by (auto simp: bindT_Inr_iff liftE_Inr_iff reload_Inr_iff split: if_splits)
    have "consistent d1" using opened_steps_consistent[OF insertNewMeters_opened[OF ins] c] .
    then have c2: "consistent d2" using reconcile_link_consistent[OF _ rec] by blast
    note eff = reconcile_link_effect[OF rec]
    show ?thesis
      using eff met by (intro write_license_consistent[OF c2 wr]) (auto simp: active_meters_def)
  next
    case False
    then have ty: "lu_type data = None" by simp
    have k: "keeps consistent (licenseRepo_update toISO ids now dbNow i data options)"
      unfolding licenseRepo_update_def if_not_P[OF False]
      by (intro keeps_rules ty)
    then show ?thesis using keepsD[OF k c run] by blast
  qed
qed

lemma keeps_license_methods [keeps_rules]:
  "keeps consistent (rotateKey sha256 dbNow i newKey expectedUpdatedAt)"
  "keeps consistent (incrementSessionRevision dbNow i)"
  "lu_type data = None \<Longrightarrow> keeps consistent (updateWithSessionInvalidation dbNow i data)"
  "keeps consistent (updateMeterDraft dbNow i names)"
  "keeps consistent (license_startTrialIfUnset dbNow i startedAt)"
  "keeps consistent (incrementLicenseSessionRevision dbNow i)"
  "keeps consistent (device_startTrialIfUnset dbNow i startedAt)"
  unfolding rotateKey_def incrementSessionRevision_def updateWithSessionInvalidation_def
    updateMeterDraft_def license_startTrialIfUnset_def incrementLicenseSessionRevision_def
    device_startTrialIfUnset_def
  by (intro keeps_rules; simp add: no_update_def)+

section \<open>Creating a licence\<close>

lemma keeps_insert_all:
  "(\<And>r. keeps I (ins r)) \<Longrightarrow> keeps I (insert_all ins rs)"
  by (induction rs) (auto intro!: keeps_rules)

lemma keeps_insert_rows:
  "keeps db_wf (insert_license l)" "keeps db_wf (insert_meter m)" "keeps db_wf (insert_ledger e)"
  "keeps db_wf (insert_link s)"
proof -
  show "keeps db_wf (insert_license l)"
    by (rule keepsI) (auto simp: insert_license_def db_wf_def wf_defs license_exists_def
        customer_exists_def split: if_splits)
  show "keeps db_wf (insert_meter m)"
    by (rule keepsI) (auto simp: insert_meter_Inr_iff db_wf_def wf_defs license_exists_def
        customer_exists_def)
  show "keeps db_wf (insert_ledger e)"
    by (rule keepsI) (auto simp: insert_ledger_Inr_iff db_wf_def wf_defs license_exists_def
        customer_exists_def)
  show "keeps db_wf (insert_link s)"
    by (rule keepsI) (auto simp: insert_link_def db_wf_def wf_defs license_exists_def
        customer_exists_def split: if_splits)
qed

definition opens :: "license_meter \<Rightarrow> usage_ledger_entry \<Rightarrow> bool" where
  "opens m e \<longleftrightarrow> e_meterId e = m_id m \<and> e_licenseId e = m_licenseId m \<and> e_balanceBefore e = 0 \<and>
    e_balanceAfter e = m_balance m \<and> e_delta e = m_balance m"

lemma opening_entries:
  assumes "list_all2 opens ms es"
  shows "j \<notin> m_id ` set ms \<Longrightarrow> rows (\<lambda>e. e_meterId e = j) es = []"
    and "distinct (map m_id ms) \<Longrightarrow> m \<in> set ms \<Longrightarrow>
      \<exists>e. rows (\<lambda>e. e_meterId e = m_id m) es = [e] \<and> opens m e"
proof -
  show none: "j \<notin> m_id ` set ms \<Longrightarrow> rows (\<lambda>e. e_meterId e = j) es = []" for j
    using assms by (induction rule: list_all2_induct) (auto simp: rows_Cons opens_def)
  from assms show "distinct (map m_id ms) \<Longrightarrow> m \<in> set ms \<Longrightarrow>
      \<exists>e. rows (\<lambda>e. e_meterId e = m_id m) es = [e] \<and> opens m e"
  proof (induction rule: list_all2_induct)
    case (Cons x xs y ys)
    have none': "rows (\<lambda>e. e_meterId e = j) ys = []" if "j \<notin> m_id ` set xs" for j
      using Cons.hyps(2) that by (induction rule: list_all2_induct) (auto simp: rows_Cons opens_def)
    have "e_meterId y = m_id x" using Cons.hyps(1) by (simp add: opens_def)
    moreover have "m_id x \<notin> m_id ` set xs" using Cons.prems(1) by simp
    ultimately show ?case
      using Cons.IH Cons.prems Cons.hyps(1) none'[of "m_id x"] by (auto simp: rows_Cons)
  qed simp
qed

lemma opened_together:
  assumes "books_ok d" "ledger_wf d" and d': "meters d' = meters d @ ms" "ledger d' = ledger d @ es"
    and op: "list_all2 opens ms es" and u: "unique_on m_id (meters d')"
  shows "books_ok d'"
  unfolding books_ok_def
proof
  fix m
  assume m: "m \<in> set (meters d')"
  have dist: "distinct (map m_id ms)" and disj: "m_id ` set (meters d) \<inter> m_id ` set ms = {}"
    using u d'(1) by (auto simp: unique_on_def)
  have split: "meter_entries m d' = meter_entries m d @ rows (\<lambda>e. e_meterId e = m_id m) es"
    by (simp add: meter_entries_def d'(2) rows_append)
  show "ledger_chain 0 (meter_entries m d') (m_balance m) \<and>
      (\<forall>e \<in> set (meter_entries m d'). e_licenseId e = m_licenseId m)"
  proof (cases "m \<in> set (meters d)")
    case True
    then have "m_id m \<notin> m_id ` set ms" using disj by blast
    with opening_entries(1)[OF op] have "meter_entries m d' = meter_entries m d" by (simp add: split)
    then show ?thesis using assms(1) True by (simp add: books_ok_def)
  next
    case False
    then have new: "m \<in> set ms" using m d'(1) by simp
    then have "m_id m \<notin> m_id ` set (meters d)" using disj by blast
    then have "e_meterId e \<noteq> m_id m" if "e \<in> set (ledger d)" for e
      using assms(2) that by (auto simp: ledger_wf_def) (metis)
    then have "meter_entries m d = []" by (simp add: meter_entries_def rows_def filter_empty_conv)
    moreover obtain e where "rows (\<lambda>e. e_meterId e = m_id m) es = [e]" "opens m e"
      using opening_entries(2)[OF op dist new] by blast
    ultimately show ?thesis by (simp add: split opens_def)
  qed
qed

lemma active_meters_more:
  "meters d' = meters d @ ms \<Longrightarrow> active_meters i d \<noteq> [] \<Longrightarrow> active_meters i d' \<noteq> []"
  by (simp add: active_meters_def rows_append)

lemma license_create_consistent:
  assumes c: "consistent d" and run: "license_create sha256 ids now dbNow data d = Inr (x, d')"
    and some_meter: "nl_type data = Metered \<Longrightarrow> nl_meters data \<noteq> []"
  shows "consistent d'"
proof (rule consistentI)
  note c' = consistentD[OF c]
  define ms where "ms = map (\<lambda>(i, m). new_meter_row (ids (1 + i)) (ids 0) now m)
    (zip [0..<length (nl_meters data)] (nl_meters data))"
  have "keeps db_wf (license_create sha256 ids now dbNow data)"
    unfolding license_create_def Let_def
    by (intro keeps_rules keeps_insert_all keeps_insert_rows)
  from keepsD[OF this c'(1) run] show wf: "db_wf d'" .
  obtain l where l: "l_id l = ids 0" "l_type l = nl_type data" "ids 0 \<notin> set (map l_id (licenses d))"
    and d': "licenses d' = licenses d @ [l]" "stripeLinks d' = stripeLinks d" "meters d' = meters d @ ms"
    by (rule license_create_Inr[OF run, folded ms_def]) (rule that; assumption)
  define es where "es = map (\<lambda>(i, m). new_meter_entry (ids (1 + length (nl_meters data) + 2 * i))
      (ids (2 + length (nl_meters data) + 2 * i)) (ids (1 + i)) (ids 0) now m)
      (zip [0..<length (nl_meters data)] (nl_meters data))"
  have es: "ledger d' = ledger d @ es"
      using run unfolding license_create_def
      by (auto simp: bindT_Inr_iff Let_def insert_license_def es_def dest!: insert_all_meters insert_all_ledger
          split: if_splits)
  have op: "list_all2 opens ms es"
      unfolding ms_def es_def list_all2_map1 list_all2_map2
      by (auto simp: opens_def new_meter_row_def new_meter_entry_def intro!: list.rel_refl_strong)
  show "books_ok d'"
    using opened_together[OF c'(2) _ d'(3) es op] c'(1) wf by (simp add: db_wf_def meters_wf_def)
  have "0 \<le> e_balanceAfter e" if "e \<in> set es" for e
  proof -
    from that op obtain m where "m \<in> set ms" "opens m e"
      by (metis in_set_conv_nth list_all2_conv_all_nth)
    then show ?thesis
      using wf by (auto simp: d'(3) db_wf_def meters_wf_def meter_row_ok_def opens_def)
  qed
  then show "entries_in_credit d'" using c'(7) by (auto simp: es entries_in_credit_def)
  have new: "active_meters (ids 0) d' \<noteq> []" if "nl_type data = Metered"
  proof -
    have "active_meters (ids 0) d' = active_meters (ids 0) d @ ms"
      by (simp only: active_meters_def d'(3) rows_append ms_def new_rows_active)
    with some_meter[OF that] show ?thesis by (simp add: ms_def)
  qed
  show "metered_have_meters d'"
    using c'(3) l new active_meters_more[OF d'(3)] by (auto simp: metered_have_meters_def d'(1))
  show "links_on_subscriptions d'"
    using c'(4) l fresh_license(4)[OF c'(1) l(3)] by (auto simp: links_on_subscriptions_def d'(1,2))
qed

section \<open>Deleting\<close>

lemma delete_licenses_consistent:
  assumes c: "consistent d"
  shows "consistent (delete_licenses P d)"
proof (rule consistentI)
  let ?d' = "delete_licenses P d"
  let ?gone = "l_id ` set (rows P (licenses d))"
  note c' = consistentD[OF c]
  show "db_wf ?d'" using delete_licenses_wf[OF c'(1)] .
  have lic: "l \<in> set (licenses ?d') \<longleftrightarrow> l \<in> set (licenses d) \<and> \<not> P l" for l
    by (auto simp: delete_licenses_def Let_def)
  have stays: "l_id l \<notin> ?gone" if "l \<in> set (licenses ?d')" for l
    using that unique_onD[OF c'(6)] unfolding lic by auto
  have met: "m \<in> set (meters ?d') \<longleftrightarrow> m \<in> set (meters d) \<and> m_licenseId m \<notin> ?gone" for m
    by (auto simp: delete_licenses_def Let_def)
  have um: "unique_on m_id (meters d)" using c'(1) by (simp add: db_wf_def meters_wf_def)
  show "books_ok ?d'"
    unfolding books_ok_def
  proof
    fix m
    assume m: "m \<in> set (meters ?d')"
    then have m: "m \<in> set (meters d)" "\<And>x. x \<in> set (licenses d) \<Longrightarrow> P x \<Longrightarrow> l_id x \<noteq> m_licenseId m"
      unfolding met by (auto simp: image_iff)
    have own: "e_licenseId e = m_licenseId m" if "e \<in> set (ledger d)" "e_meterId e = m_id m" for e
      using c'(2) m(1) that by (simp add: books_ok_def meter_entries_def)
    have "e_licenseId e \<noteq> l_id x" if "e \<in> set (ledger d)" "e_meterId e = m_id m"
      "x \<in> set (licenses d)" "P x" for e x
      using own[OF that(1,2)] m(2) that(3,4) by metis
    moreover have "m_licenseId y \<noteq> l_id x" if "y \<in> set (meters d)" "m_id y = m_id m"
      "x \<in> set (licenses d)" "P x" for y x
      using unique_onD[OF um that(1) m(1) that(2)] m(2) that(3,4) by metis
    ultimately have "meter_entries m ?d' = meter_entries m d"
      unfolding meter_entries_def delete_licenses_def Let_def delete_where_def rows_def
      by (simp add: filter_filter) (rule filter_cong, auto simp: image_iff)
    then show "ledger_chain 0 (meter_entries m ?d') (m_balance m) \<and>
        (\<forall>e \<in> set (meter_entries m ?d'). e_licenseId e = m_licenseId m)"
      using c'(2) m(1) by (simp add: books_ok_def)
  qed
  have "active_meters (l_id l) ?d' = active_meters (l_id l) d" if "l \<in> set (licenses ?d')" for l
    using stays[OF that]
    by (auto simp: active_meters_def delete_licenses_def Let_def delete_where_def rows_def
        filter_filter image_iff intro!: filter_cong)
  then show "metered_have_meters ?d'" using c'(3) lic by (simp add: metered_have_meters_def)
  show "links_on_subscriptions ?d'"
    using c'(4) lic by (auto simp: links_on_subscriptions_def delete_licenses_def Let_def)
  show "entries_in_credit ?d'"
    using c'(7) by (auto simp: entries_in_credit_def delete_licenses_def Let_def)
qed

lemma delete_customers_consistent:
  assumes c: "consistent d"
  shows "consistent (delete_customers P d)"
proof (rule consistent_frame[OF delete_licenses_consistent[OF c]])
  show "db_wf (delete_customers P d)" by (rule customer_delete_wf[OF consistentD(1)[OF c]])
qed (simp_all add: delete_customers_def Let_def)

lemma keeps_deletes [keeps_rules]:
  "keeps consistent (license_delete i)" "keeps consistent (customer_delete i)"
  by (auto simp: keeps_def license_delete_def customer_delete_def delete_licenses_consistent
      delete_customers_consistent)

section \<open>The other tables\<close>

text \<open>A method that keeps the constraints and leaves the four tables alone keeps everything.\<close>

definition same_core :: "db \<Rightarrow> db \<Rightarrow> bool" where
  "same_core d d' \<longleftrightarrow> licenses d' = licenses d \<and> meters d' = meters d \<and> ledger d' = ledger d \<and>
    stripeLinks d' = stripeLinks d"

lemma keeps_frame:
  assumes "\<And>d x d'. db_wf d \<Longrightarrow> m d = Inr (x, d') \<Longrightarrow> db_wf d'"
    and "\<And>d x d'. m d = Inr (x, d') \<Longrightarrow> same_core d d'"
  shows "keeps consistent m"
proof (rule keepsI)
  fix d x d'
  assume c: "consistent d" and run: "m d = Inr (x, d')"
  show "consistent d'"
    using assms(1)[OF consistentD(1)[OF c] run] assms(2)[OF run]
    by (intro consistent_frame[OF c]) (simp_all add: same_core_def)
qed

lemma keeps_customer_methods [keeps_rules]:
  "keeps consistent (customer_create uuid dbNow email name metadata)"
  "keeps consistent (customerRepo_update now i update)"
proof -
  show "keeps consistent (customer_create uuid dbNow email name metadata)"
    by (rule keeps_frame, erule (1) customer_create_wf)
      (auto simp: customer_create_def insert_customer_def same_core_def split: if_splits)
  show "keeps consistent (customerRepo_update now i update)"
    by (rule keeps_frame, erule (1) customer_update_wf)
      (auto simp: customerRepo_update_def same_core_def Let_def split: if_splits list.splits)
qed

lemma keeps_access_methods [keeps_rules]:
  "keeps consistent (addAllowedIp uuid dbNow i ip)" "keeps consistent (removeAllowedIp i ip)"
  "keeps consistent (addAllowedDevice uuid dbNow i dev)" "keeps consistent (removeAllowedDevice i dev)"
proof -
  show "keeps consistent (addAllowedIp uuid dbNow i ip)"
    by (rule keeps_frame, erule (1) addAllowedIp_wf)
      (auto simp: addAllowedIp_def same_core_def Let_def split: if_splits option.splits)
  show "keeps consistent (removeAllowedIp i ip)"
    by (rule keeps_frame, erule (1) removeAllowedIp_wf)
      (auto simp: removeAllowedIp_def same_core_def Let_def)
  show "keeps consistent (addAllowedDevice uuid dbNow i dev)"
    by (rule keeps_frame, erule (1) addAllowedDevice_wf)
      (auto simp: addAllowedDevice_def same_core_def Let_def split: if_splits option.splits)
  show "keeps consistent (removeAllowedDevice i dev)"
    by (rule keeps_frame, erule (1) removeAllowedDevice_wf)
      (auto simp: removeAllowedDevice_def same_core_def Let_def)
qed

lemma delete_devices_core: "delete_devices P d = (n, d') \<Longrightarrow> same_core d d'"
  by (auto simp: delete_devices_def same_core_def)

lemma keeps_device_methods [keeps_rules]:
  "keeps consistent (registerDevice uuid now dbNow i ip dev)" "keeps consistent (touchDevice dev now)"
  "keeps consistent (removeRegisteredDevice i dev)" "keeps consistent (resetRegisteredDevices i)"
  "keeps consistent (removeRegistrationsByIp i ip)" "keeps consistent (removeRegistrationsByDevice i dev)"
proof -
  show "keeps consistent (registerDevice uuid now dbNow i ip dev)"
    by (rule keeps_frame, erule (1) registerDevice_wf)
      (auto simp: registerDevice_def same_core_def Let_def split: if_splits option.splits)
  show "keeps consistent (touchDevice dev now)"
    by (rule keeps_frame, erule (1) touchDevice_wf) (auto simp: touchDevice_def same_core_def)
  show "keeps consistent (removeRegisteredDevice i dev)"
    by (rule keeps_frame) (auto simp: removeRegisteredDevice_def delete_devices_core
        intro: delete_devices_wf split: prod.splits)
  show "keeps consistent (resetRegisteredDevices i)" "keeps consistent (removeRegistrationsByIp i ip)"
    "keeps consistent (removeRegistrationsByDevice i dev)"
    by (rule keeps_frame; auto simp: resetRegisteredDevices_def removeRegistrationsByIp_def
        removeRegistrationsByDevice_def delete_devices_core intro: delete_devices_wf)+
qed

lemma keeps_activity_methods [keeps_rules]:
  "keeps consistent (activity_record uuid now input)" "keeps consistent (pruneBefore before)"
proof -
  show "keeps consistent (activity_record uuid now input)"
    by (rule keeps_frame, erule (1) activity_record_wf)
      (auto simp: activity_record_def same_core_def Let_def split: if_splits)
  show "keeps consistent (pruneBefore before)"
    by (rule keeps_frame, erule (1) pruneBefore_wf) (auto simp: pruneBefore_def same_core_def Let_def)
qed

section \<open>Links and webhook events\<close>

lemma keeps_enqueue [keeps_rules]: "keeps consistent (enqueue now dbNow event)"
  by (rule keeps_frame)
    (auto simp: enqueue_def same_core_def Let_def db_wf_def wf_defs license_exists_def
      customer_exists_def split: if_splits option.splits)

lemma update_events_wf:
  assumes "db_wf d" "update_events P f d = Inr (u, d')" "\<And>e. w_eventId (f e) = w_eventId e"
  shows "db_wf d'"
proof -
  have "d' = d\<lparr>webhookEvents := update_where P f (webhookEvents d)\<rparr>"
    using assms(2) by (simp add: update_events_def split: if_splits)
  with assms(1,3) show ?thesis
    by (simp add: db_wf_def wf_defs license_exists_def customer_exists_def unique_on_update_where)
qed

lemma keeps_update_events [keeps_rules]:
  assumes "\<And>e. w_eventId (f e) = w_eventId e"
  shows "keeps consistent (update_events P f)"
  by (rule keeps_frame, erule (1) update_events_wf[OF _ _ assms])
    (auto simp: update_events_def same_core_def split: if_splits)

lemma keeps_event_methods [keeps_rules]:
  "keeps consistent (claimDue limit now)" "keeps consistent (markProcessed eventId now)"
  "keeps consistent (markFailed eventId message now)"
  unfolding claimDue_def markProcessed_def markFailed_def Let_def
  by (auto intro!: keeps_rules simp: lease_def split: jsnum.split)

lemma update_links_consistent:
  assumes c: "consistent d" and run: "update_links P f d = Inr (us, d')"
    and keys: "\<And>s. s_id (f s) = s_id s" "\<And>s. s_licenseId (f s) = s_licenseId s"
      "\<And>s. s_subscriptionId (f s) = s_subscriptionId s"
  shows "consistent d'"
proof (rule consistentI)
  note c' = consistentD[OF c]
  have d': "d' = d\<lparr>stripeLinks := update_where P f (stripeLinks d)\<rparr>"
    using run by (simp add: update_links_def)
  show "db_wf d'"
    using c'(1) keys
    by (auto simp: d' db_wf_def wf_defs license_exists_def customer_exists_def unique_on_update_where
        set_update_where)
  show "books_ok d'" "metered_have_meters d'" "entries_in_credit d'"
    using c'(2,3,7) by (simp_all add: d' books_ok_def meter_entries_def metered_have_meters_def
        active_meters_def entries_in_credit_def)
  show "links_on_subscriptions d'"
    using c'(4) keys by (auto simp: d' links_on_subscriptions_def set_update_where)
qed

lemma keeps_update_links [keeps_rules]: "keeps consistent (update_links P (apply_link_update data now))"
  by (rule keepsI) (erule (1) update_links_consistent; simp add: apply_link_update_def)

lemma keeps_delete_links [keeps_rules]:
  "keeps consistent (\<lambda>d. Inr (g d, d\<lparr>stripeLinks := delete_where P (stripeLinks d)\<rparr>))"
  by (auto simp: keeps_def delete_links_consistent)

lemma keeps_link_methods [keeps_rules]:
  "keeps consistent (updateBySubscriptionId now i data)" "keeps consistent (deleteByLicenseId i)"
  "keeps consistent (extend_license dbNow i paidThrough)"
  "keeps consistent (reconcileForSubscriptionLicense now dbNow i data)"
  unfolding updateBySubscriptionId_def deleteByLicenseId_def extend_license_def
    reconcileForSubscriptionLicense_def Let_def
  by (intro keeps_rules; simp add: no_update_def)+

lemma insert_link_consistent:
  assumes c: "consistent d" and run: "insert_link s d = Inr (x, d')"
    and ty: "license_type_of (s_licenseId s) d = Some Subscription"
  shows "consistent d'"
proof (rule consistentI)
  note c' = consistentD[OF c]
  have d': "d' = d\<lparr>stripeLinks := stripeLinks d @ [s]\<rparr>"
    using run by (auto simp: insert_link_def split: if_splits)
  show "db_wf d'" by (rule keepsD[OF keeps_insert_rows(4) c'(1) run])
  show "books_ok d'" "metered_have_meters d'" "entries_in_credit d'"
    using c'(2,3,7) by (simp_all add: d' books_ok_def meter_entries_def metered_have_meters_def
        active_meters_def entries_in_credit_def)
  from ty obtain l where "first_row (\<lambda>l. l_id l = s_licenseId s) (licenses d) = Some l" "l_type l = Subscription"
    by (auto simp: license_type_of_def)
  then have "l_type y = Subscription" if "y \<in> set (licenses d)" "l_id y = s_licenseId s" for y
    using first_row_SomeD[of _ _ l] unique_onD[OF c'(6) that(1)] that(2) by metis
  then show "links_on_subscriptions d'"
    using c'(4) by (auto simp: d' links_on_subscriptions_def)
qed

lemma keeps_createForSubscriptionLicense [keeps_rules]:
  "keeps consistent (createForSubscriptionLicense uuid dbNow data)"
proof (rule keepsI)
  fix d x d'
  assume c: "consistent d" and run: "createForSubscriptionLicense uuid dbNow data d = Inr (x, d')"
  show "consistent d'"
  proof (cases "d' = d")
    case False
    with run obtain paid s s' d1 us where ty: "license_type_of (ns_licenseId data) d = Some Subscription"
      and ins: "insert_link s d = Inr (s', d1)" "s_licenseId s = ns_licenseId data"
      and ext: "extend_license dbNow (ns_licenseId data) paid d1 = Inr (us, d')"
      by (auto simp: createForSubscriptionLicense_def bindT_Inr_iff split: if_splits option.splits)
    have "consistent d1" using insert_link_consistent[OF c ins(1)] ty ins(2) by simp
    from keepsD[OF keeps_link_methods(3) this ext] show ?thesis .
  qed (use c in simp)
qed

end
