(* ===== verification/StripeIntegration.thy ===== *)
theory StripeIntegration
  imports AdminService
begin

text \<open>
  \<open>integrations/stripe\<close>: the summary of a Stripe subscription (\<open>StripeGateway.ts\<close>), linking and
  reconciling licences (\<open>StripeSubscriptionService.ts\<close>), the webhook inbox and its worker
  (\<open>StripeWebhookService.ts\<close>) and the webhook route (\<open>stripeWebhookPlugin.ts\<close>).

  The Stripe client is not under \<open>src/\<close>: \<open>gateway\<close> holds what it answers, \<open>subscriptions.retrieve\<close>
  at each tick and \<open>webhooks.constructEventAsync\<close> with the configured secret, and the text of
  errors the code does not create. A call to Stripe takes one tick, like a call to a store.
\<close>

section \<open>The gateway\<close>

datatype expandable = No_ref | Id_ref string | Object_ref string

record stripe_item =
  si_current_period_end :: jsnum
  si_price :: expandable

record stripe_subscription =
  st_id :: string
  st_customer :: expandable
  st_status :: string
  st_items :: "stripe_item list"
  st_cancel_at_period_end :: bool

record snapshot =
  sn_subscriptionId :: string
  sn_stripeCustomerId :: string
  sn_status :: string
  sn_paidThrough :: "int option"
  sn_cancelAtPeriodEnd :: bool
  sn_priceIds :: "string list"
  sn_billingBlocked :: bool

record stripe_event =
  ev_id :: string
  ev_type :: string
  ev_json :: json

record gateway =
  gw_retrieve :: "nat \<Rightarrow> string \<Rightarrow> failure + stripe_subscription"
  gw_construct :: "string \<Rightarrow> string \<Rightarrow> stripe_event option"
  gw_errorText :: "failure \<Rightarrow> string"

fun gateway_expandableId :: "expandable \<Rightarrow> string option" where
  "gateway_expandableId No_ref = None"
| "gateway_expandableId (Id_ref s) = (if s = [] then None else Some s)"
| "gateway_expandableId (Object_ref i) = Some i"

fun finite_number :: "jsnum \<Rightarrow> rat option" where
  "finite_number (Integral n) = Some (of_int n)"
| "finite_number (Fractional q) = Some q"
| "finite_number NonFinite = None"

text \<open>\<open>new Date(x)\<close> drops the fraction of a millisecond.\<close>

definition truncate_rat :: "rat \<Rightarrow> int" where
  "truncate_rat q = (if q < 0 then - \<lfloor>- q\<rfloor> else \<lfloor>q\<rfloor>)"

definition paid_through_of :: "stripe_item list \<Rightarrow> int option" where
  "paid_through_of items =
    (case List.map_filter (\<lambda>i. finite_number (si_current_period_end i)) items of
      [] \<Rightarrow> None
    | q # qs \<Rightarrow> (let seconds = fold min qs q in
        if seconds = 0 then None else Some (truncate_rat (seconds * 1000))))"

definition terminal_statuses :: "string list" where
  "terminal_statuses = [''canceled'', ''incomplete_expired'', ''paused'', ''unpaid'']"

definition summarizeSubscription :: "int \<Rightarrow> stripe_subscription \<Rightarrow> snapshot result" where
  "summarizeSubscription now s =
    (let paidThrough = paid_through_of (st_items s);
         statusAllowsAccess = (st_status s \<in> {''active'', ''trialing'', ''past_due''});
         periodAllowsAccess = (case paidThrough of None \<Rightarrow> False | Some t \<Rightarrow> now < t) in
     case gateway_expandableId (st_customer s) of
       None \<Rightarrow> Inl (Plain_error ''Stripe subscription has no customer ID.'')
     | Some stripeCustomerId \<Rightarrow>
         if stripeCustomerId = [] then Inl (Plain_error ''Stripe subscription has no customer ID.'')
         else Inr
           \<lparr>sn_subscriptionId = st_id s, sn_stripeCustomerId = stripeCustomerId,
            sn_status = st_status s, sn_paidThrough = paidThrough,
            sn_cancelAtPeriodEnd = st_cancel_at_period_end s,
            sn_priceIds = rev (remdups (rev
              (List.map_filter (\<lambda>i. gateway_expandableId (si_price i)) (st_items s)))),
            sn_billingBlocked =
              st_status s \<in> set terminal_statuses \<or> \<not> statusAllowsAccess \<or> \<not> periodAllowsAccess\<rparr>)"

definition gateway_call :: "(nat \<Rightarrow> failure + 'a) \<Rightarrow> 'a io" where
  "gateway_call f = (\<lambda>env w. (f (w_tick w), interfere env w))"

definition getSubscription :: "gateway \<Rightarrow> string \<Rightarrow> snapshot io" where
  "getSubscription gw subscriptionId =
    bindIO (gateway_call (\<lambda>k. gw_retrieve gw k subscriptionId)) (\<lambda>subscription.
    bindIO nowIO (\<lambda>now.
    liftIO (summarizeSubscription now subscription)))"

definition verifyWebhook :: "gateway \<Rightarrow> string \<Rightarrow> string \<Rightarrow> stripe_event io" where
  "verifyWebhook gw payload signature =
    (case gw_construct gw payload signature of
      None \<Rightarrow> throwIO Signature_error
    | Some event \<Rightarrow> returnIO event)"

section \<open>Links and reconciliation\<close>

definition StripeIntegrationError :: "string \<Rightarrow> stripe_error_code \<Rightarrow> int \<Rightarrow> failure" where
  "StripeIntegrationError message code statusCode =
    Stripe_error \<lparr>se_message = message, se_code = code, se_statusCode = statusCode\<rparr>"

definition license_already_linked :: failure where
  "license_already_linked = StripeIntegrationError
    ''License is already linked to a Stripe subscription.'' LICENSE_ALREADY_LINKED 409"

definition subscription_already_linked :: failure where
  "subscription_already_linked = StripeIntegrationError
    ''Stripe subscription is already linked to another license.'' SUBSCRIPTION_ALREADY_LINKED 409"

definition type_invalid :: failure where
  "type_invalid = StripeIntegrationError
    ''Only subscription licenses can be linked to Stripe.'' LICENSE_TYPE_INVALID 422"

definition json_opt :: "string option \<Rightarrow> json" where
  "json_opt v = (case v of None \<Rightarrow> JNull | Some s \<Rightarrow> JStr s)"

definition first_price :: "snapshot \<Rightarrow> string option" where
  "first_price sn = (case sn_priceIds sn of [] \<Rightarrow> None | p # _ \<Rightarrow> Some p)"

definition subscriptionDetails :: "(int \<Rightarrow> string) \<Rightarrow> snapshot \<Rightarrow> json_object" where
  "subscriptionDetails toISO sn =
    [(''subscriptionId'', JStr (sn_subscriptionId sn)),
     (''stripeCustomerId'', JStr (sn_stripeCustomerId sn)), (''status'', JStr (sn_status sn)),
     (''paidThrough'', json_opt (map_option toISO (sn_paidThrough sn))),
     (''cancelAtPeriodEnd'', JBool (sn_cancelAtPeriodEnd sn)),
     (''priceId'', json_opt (first_price sn)), (''billingBlocked'', JBool (sn_billingBlocked sn))]"

definition billingRevokedAt :: "snapshot \<Rightarrow> stripe_link option \<Rightarrow> int \<Rightarrow> int option" where
  "billingRevokedAt sn existing now =
    (if \<not> sn_billingBlocked sn then None
     else (case existing of
         None \<Rightarrow> Some now
       | Some link \<Rightarrow> (case s_billingRevokedAt link of None \<Rightarrow> Some now | Some t \<Rightarrow> Some t)))"

definition synchronized_at :: "stripe_link \<Rightarrow> int \<Rightarrow> int" where
  "synchronized_at existing now =
    (case s_lastSyncedAt existing of None \<Rightarrow> now | Some t \<Rightarrow> if now < t then t else now)"

definition reconcile_update :: "snapshot \<Rightarrow> stripe_link \<Rightarrow> int \<Rightarrow> stripe_link_update" where
  "reconcile_update sn existing now =
    (let synchronizedAt = synchronized_at existing now in
     \<lparr>su_stripeCustomerId = Some (sn_stripeCustomerId sn), su_status = Some (sn_status sn),
      su_paidThrough = Some (sn_paidThrough sn),
      su_cancelAtPeriodEnd = Some (sn_cancelAtPeriodEnd sn), su_priceId = Some (first_price sn),
      su_billingRevokedAt = Some (billingRevokedAt sn (Some existing) synchronizedAt),
      su_lastSyncedAt = Some (Some synchronizedAt), su_lastError = Some None\<rparr>)"

definition reconcile_locked ::
    "gateway \<Rightarrow> string \<Rightarrow> int \<Rightarrow> (stripe_link \<times> snapshot \<times> string) option io" where
  "reconcile_locked gw subscriptionId now =
    bindIO (db_read (\<lambda>_. findBySubscriptionId subscriptionId)) (\<lambda>found.
    case found of
      None \<Rightarrow> returnIO None
    | Some existing \<Rightarrow>
        bindIO (getSubscription gw subscriptionId) (\<lambda>sn.
        bindIO (db_call (\<lambda>env k. reconcileForSubscriptionLicense (e_now env k) (e_dbNow env k)
          subscriptionId (reconcile_update sn existing now))) (\<lambda>link.
        returnIO (map_option (\<lambda>l. (l, sn, s_licenseId existing)) link))))"

definition reconcileSubscription ::
    "gateway \<Rightarrow> string \<Rightarrow> int \<Rightarrow> (stripe_link \<times> license) option io" where
  "reconcileSubscription gw subscriptionId now =
    bindIO (transaction (reconcile_locked gw subscriptionId now)) (\<lambda>reconciled.
    case reconciled of
      None \<Rightarrow> returnIO None
    | Some r \<Rightarrow> (case r of (link, sn, licenseId) \<Rightarrow>
        bindIO (findById_io licenseId) (\<lambda>updatedLicense.
        case updatedLicense of
          None \<Rightarrow> returnIO None
        | Some l \<Rightarrow>
            if l_type l \<noteq> Subscription then returnIO None
            else
              bindIO (askIO e_toISO) (\<lambda>toISO.
              bindIO (capture ((license_activity Stripe_synchronized l (subscriptionDetails toISO sn))
                \<lparr>na_source := Stripe\<rparr>)) (\<lambda>_.
              returnIO (Some (link, l)))))))"

definition getLink :: "string \<Rightarrow> stripe_link option io" where
  "getLink licenseId = db_read (\<lambda>_. link_of licenseId)"

definition requireSubscriptionLicense :: "string \<Rightarrow> license io" where
  "requireSubscriptionLicense licenseId =
    bindIO (findById_io licenseId) (\<lambda>license.
    case license of
      None \<Rightarrow> throwIO (StripeIntegrationError ''License not found.'' LICENSE_NOT_FOUND 404)
    | Some l \<Rightarrow> if l_type l \<noteq> Subscription then throwIO type_invalid else returnIO l)"

definition new_link_of :: "string \<Rightarrow> snapshot \<Rightarrow> int \<Rightarrow> new_stripe_link" where
  "new_link_of licenseId sn now =
    \<lparr>ns_licenseId = licenseId, ns_subscriptionId = sn_subscriptionId sn,
     ns_stripeCustomerId = sn_stripeCustomerId sn, ns_status = sn_status sn,
     ns_paidThrough = sn_paidThrough sn, ns_cancelAtPeriodEnd = sn_cancelAtPeriodEnd sn,
     ns_priceId = first_price sn, ns_billingRevokedAt = billingRevokedAt sn None now,
     ns_lastSyncedAt = Some now, ns_lastError = None\<rparr>"

text \<open>\<open>None\<close> is the outcome \<open>{ kind: "reconcile" }\<close>.\<close>

definition link_locked ::
    "gateway \<Rightarrow> string \<Rightarrow> string \<Rightarrow> int \<Rightarrow> (stripe_link \<times> snapshot) option io" where
  "link_locked gw licenseId subscriptionId now =
    bindIO (db_read (\<lambda>_. link_of licenseId)) (\<lambda>licenseLink.
    bindIO (db_read (\<lambda>_. findBySubscriptionId subscriptionId)) (\<lambda>subscriptionLink.
    case licenseLink of
      Some link \<Rightarrow>
        if s_subscriptionId link = subscriptionId then returnIO None
        else throwIO license_already_linked
    | None \<Rightarrow>
        if subscriptionLink \<noteq> None then throwIO subscription_already_linked
        else
          bindIO (getSubscription gw subscriptionId) (\<lambda>sn.
          if sn_paidThrough sn = None then
            throwIO (StripeIntegrationError ''Stripe subscription has no paid-through period.''
              SUBSCRIPTION_PERIOD_MISSING 422)
          else
            bindIO (db_call (\<lambda>env k. createForSubscriptionLicense (e_uuid env k 0) (e_dbNow env k)
              (new_link_of licenseId sn now))) (\<lambda>created.
            case created of
              None \<Rightarrow> throwIO type_invalid
            | Some link \<Rightarrow> returnIO (Some (link, sn))))))"

definition link_failed :: "string \<Rightarrow> string \<Rightarrow> failure \<Rightarrow> 'a io" where
  "link_failed licenseId subscriptionId error =
    bindIO (db_read (\<lambda>_. link_of licenseId)) (\<lambda>racedLicenseLink.
    bindIO (db_read (\<lambda>_. findBySubscriptionId subscriptionId)) (\<lambda>racedSubscriptionLink.
    case error of
      Stripe_error e \<Rightarrow> throwIO error
    | _ \<Rightarrow>
        if racedLicenseLink \<noteq> None then throwIO license_already_linked
        else if racedSubscriptionLink \<noteq> None then throwIO subscription_already_linked
        else throwIO error))"

definition linkLicense ::
    "gateway \<Rightarrow> string \<Rightarrow> string \<Rightarrow> int \<Rightarrow> (stripe_link \<times> license) io" where
  "linkLicense gw licenseId subscriptionId now =
    bindIO (requireSubscriptionLicense licenseId) (\<lambda>license.
    bindIO (catchIO (transaction (link_locked gw licenseId subscriptionId now))
      (link_failed licenseId subscriptionId)) (\<lambda>result.
    case result of
      None \<Rightarrow>
        bindIO (reconcileSubscription gw subscriptionId now) (\<lambda>reconciled.
        found_or reconciled license_already_linked)
    | Some r \<Rightarrow> (case r of (link, sn) \<Rightarrow>
        bindIO (findById_io (l_id license)) (\<lambda>updatedLicense.
        case updatedLicense of
          None \<Rightarrow> throwIO (Plain_error ''Stripe-linked license could not be reloaded.'')
        | Some l \<Rightarrow>
            if l_type l \<noteq> Subscription then
              throwIO (Plain_error ''Stripe-linked license could not be reloaded.'')
            else
              bindIO (askIO e_toISO) (\<lambda>toISO.
              bindIO (capture (license_activity Stripe_linked license (subscriptionDetails toISO sn))) (\<lambda>_.
              returnIO (link, l)))))))"

definition unlinkLicense :: "string \<Rightarrow> bool io" where
  "unlinkLicense licenseId =
    bindIO (findById_io licenseId) (\<lambda>license.
    bindIO (db_read (\<lambda>_. link_of licenseId)) (\<lambda>found.
    case found of
      None \<Rightarrow> returnIO False
    | Some link \<Rightarrow>
        bindIO (db_call (\<lambda>_ _. deleteByLicenseId licenseId)) (\<lambda>deleted.
        bindIO
          (if deleted then
             bindIO (capture (operator_activity Stripe_unlinked (Some licenseId)
               (map_option l_customerId license) (map_option l_keyPrefix license)
               (Some [(''subscriptionId'', JStr (s_subscriptionId link))]))) (\<lambda>_. returnIO ())
           else returnIO ()) (\<lambda>_.
        returnIO deleted))))"

definition syncLicense :: "gateway \<Rightarrow> string \<Rightarrow> int \<Rightarrow> (stripe_link \<times> license) option io" where
  "syncLicense gw licenseId now =
    bindIO (db_read (\<lambda>_. link_of licenseId)) (\<lambda>found.
    case found of
      None \<Rightarrow> returnIO None
    | Some link \<Rightarrow> reconcileSubscription gw (s_subscriptionId link) now)"

definition recordReconciliationFailure :: "string \<Rightarrow> string \<Rightarrow> unit io" where
  "recordReconciliationFailure subscriptionId error =
    bindIO (db_read (\<lambda>_. findBySubscriptionId subscriptionId)) (\<lambda>link.
    case link of
      None \<Rightarrow> returnIO ()
    | Some _ \<Rightarrow>
        bindIO (db_call (\<lambda>env k. updateBySubscriptionId (e_now env k) subscriptionId
          (no_link_update\<lparr>su_lastError := Some (Some (slice_prefix 1000 error))\<rparr>))) (\<lambda>_. returnIO ()))"

section \<open>The webhook inbox\<close>

fun objectValue :: "json \<Rightarrow> json_object option" where
  "objectValue (JObj kvs) = Some kvs"
| "objectValue (JArr vs) = Some []"
| "objectValue _ = None"

definition member_of :: "json_object option \<Rightarrow> string \<Rightarrow> json option" where
  "member_of object key = (case object of None \<Rightarrow> None | Some kvs \<Rightarrow> map_of kvs key)"

definition object_at :: "json_object option \<Rightarrow> string \<Rightarrow> json_object option" where
  "object_at object key =
    (case member_of object key of None \<Rightarrow> None | Some v \<Rightarrow> objectValue v)"

definition object_id :: "json_object option \<Rightarrow> string option" where
  "object_id object = (case member_of object ''id'' of Some (JStr s) \<Rightarrow> Some s | _ \<Rightarrow> None)"

definition event_expandableId :: "json option \<Rightarrow> string option" where
  "event_expandableId v =
    (case v of
      None \<Rightarrow> None
    | Some (JStr s) \<Rightarrow> Some s
    | Some v \<Rightarrow> object_id (objectValue v))"

definition subscriptionIdFromStripeEvent :: "json \<Rightarrow> string option" where
  "subscriptionIdFromStripeEvent event =
    (case object_at (object_at (objectValue event) ''data'') ''object'' of
      None \<Rightarrow> None
    | Some eventObject \<Rightarrow>
        if map_of eventObject ''object'' = Some (JStr ''subscription'') then object_id (Some eventObject)
        else if map_of eventObject ''object'' \<noteq> Some (JStr ''invoice'') then None
        else
          (case event_expandableId (member_of
              (object_at (object_at (Some eventObject) ''parent'') ''subscription_details'') ''subscription'') of
            Some i \<Rightarrow> Some i
          | None \<Rightarrow> event_expandableId (map_of eventObject ''subscription'')))"

definition persistedEvent :: "stripe_event \<Rightarrow> json result" where
  "persistedEvent event =
    (case objectValue (ev_json event) of
      None \<Rightarrow> Inl (Plain_error ''Stripe webhook event is not a JSON object.'')
    | Some _ \<Rightarrow> Inr (ev_json event))"

definition errorMessage :: "gateway \<Rightarrow> failure \<Rightarrow> string" where
  "errorMessage gw e = slice_prefix 1000
    (case e of
      Domain_error de \<Rightarrow> de_message de
    | Stripe_error se \<Rightarrow> se_message se
    | Plain_error message \<Rightarrow> message
    | Stripe_api_error message _ _ \<Rightarrow> message
    | Signature_error \<Rightarrow> ''Invalid Stripe webhook signature.''
    | _ \<Rightarrow> gw_errorText gw e)"

record webhook_receipt =
  wr_eventId :: string
  wr_type :: string
  wr_subscriptionId :: "string option"
  wr_inserted :: bool

record webhook_batch =
  wb_claimed :: nat
  wb_processed :: nat
  wb_failed :: nat

record webhook_retry =
  rt_baseDelayMs :: int
  rt_maxDelayMs :: int

definition webhook_retry_of :: "int option \<Rightarrow> int option \<Rightarrow> webhook_retry" where
  "webhook_retry_of baseDelay maxDelay =
    (let base = max 100 (set_or baseDelay 1000) in
     \<lparr>rt_baseDelayMs = base, rt_maxDelayMs = max base (set_or maxDelay (5 * 60000))\<rparr>)"

definition retry_delay :: "webhook_retry \<Rightarrow> int \<Rightarrow> int" where
  "retry_delay retry attempts =
    (let exponent = min (max (attempts - 1) 0) 30 in
     min (rt_maxDelayMs retry) (rt_baseDelayMs retry * 2 ^ nat exponent))"

definition receive :: "gateway \<Rightarrow> string \<Rightarrow> string \<Rightarrow> webhook_receipt io" where
  "receive gw rawPayload signature =
    bindIO (verifyWebhook gw rawPayload signature) (\<lambda>event.
    let subscriptionId = subscriptionIdFromStripeEvent (ev_json event) in
    bindIO (liftIO (persistedEvent event)) (\<lambda>payload.
    bindIO (db_call (\<lambda>env k. enqueue (e_now env k) (e_dbNow env k)
      \<lparr>nw_eventId = ev_id event, nw_type = ev_type event, nw_objectId = subscriptionId,
       nw_payload = payload, nw_nextAttemptAt = None\<rparr>)) (\<lambda>result.
    returnIO \<lparr>wr_eventId = ev_id event, wr_type = ev_type event,
      wr_subscriptionId = subscriptionId, wr_inserted = snd result\<rparr>)))"

definition webhook_failed_event ::
    "webhook_event \<Rightarrow> string option \<Rightarrow> string \<Rightarrow> new_activity_event" where
  "webhook_failed_event event subscriptionId message =
    \<lparr>na_type = Stripe_webhook_failed, na_source = Stripe, na_outcome = Some Error,
     na_reason = Some ''reconciliation_failed'', na_licenseId = None, na_customerId = None,
     na_keyPrefix = None, na_ip = None, na_deviceId = None,
     na_details = Some
       [(''eventId'', JStr (w_eventId event)), (''eventType'', JStr (w_type event)),
        (''subscriptionId'', json_opt subscriptionId), (''attempt'', JNum (Integral (w_attempts event))),
        (''error'', JStr message)],
     na_createdAt = None\<rparr>"

definition processOne ::
    "gateway \<Rightarrow> webhook_retry \<Rightarrow> int \<Rightarrow> webhook_event \<Rightarrow> bool io" where
  "processOne gw retry now event =
    (let subscriptionId = (case w_objectId event of
           Some i \<Rightarrow> Some i | None \<Rightarrow> subscriptionIdFromStripeEvent (w_payload event));
         usable = truthy subscriptionId in
     catchIO
       (bindIO
         (if usable then
            bindIO (reconcileSubscription gw (the subscriptionId) now) (\<lambda>_. returnIO ())
          else returnIO ()) (\<lambda>_.
        bindIO (db_call (\<lambda>_ _. markProcessed (w_eventId event) now)) (\<lambda>_. returnIO True)))
       (\<lambda>error.
         let message = errorMessage gw error in
         bindIO
           (if usable then best_effort (recordReconciliationFailure (the subscriptionId) message)
            else returnIO ()) (\<lambda>_.
         bindIO (db_call (\<lambda>_ _. markFailed (w_eventId event) message
           (now + retry_delay retry (w_attempts event)))) (\<lambda>_.
         bindIO (capture (webhook_failed_event event subscriptionId message)) (\<lambda>_.
         returnIO False)))))"

definition processDue :: "gateway \<Rightarrow> webhook_retry \<Rightarrow> jsnum \<Rightarrow> int \<Rightarrow> webhook_batch io" where
  "processDue gw retry limit now =
    bindIO (db_call (\<lambda>_ _. claimDue limit now)) (\<lambda>claimed.
    bindIO (mapIO (processOne gw retry now) claimed) (\<lambda>outcomes.
    returnIO \<lparr>wb_claimed = length claimed, wb_processed = length (filter id outcomes),
      wb_failed = length (filter Not outcomes)\<rparr>))"

section \<open>The route\<close>

record webhook_response =
  hr_status :: int
  hr_body :: json_object

definition webhook_refused :: "int \<Rightarrow> string \<Rightarrow> webhook_response" where
  "webhook_refused status message =
    \<lparr>hr_status = status, hr_body = [(''received'', JBool False), (''error'', JStr message)]\<rparr>"

definition stripe_webhook :: "gateway \<Rightarrow> string option \<Rightarrow> string \<Rightarrow> webhook_response io" where
  "stripe_webhook gw signature rawPayload =
    (if \<not> truthy signature then returnIO (webhook_refused 400 ''Missing Stripe signature.'')
     else
       catchIO
         (bindIO (receive gw rawPayload (the signature)) (\<lambda>receipt.
          returnIO \<lparr>hr_status = 200, hr_body = [(''received'', JBool True),
            (''duplicate'', JBool (\<not> wr_inserted receipt)), (''eventId'', JStr (wr_eventId receipt))]\<rparr>))
         (\<lambda>error. returnIO
           (if error = Signature_error then webhook_refused 400 ''Invalid Stripe webhook signature.''
            else webhook_refused 500 ''Webhook could not be accepted.'')))"

section \<open>The worker\<close>

text \<open>
  The state of \<open>StripeWebhookWorker\<close> and what can happen to it: \<open>start\<close> (which wakes it), \<open>stop\<close>,
  an interval that elapses, a call of \<open>runOnce\<close> (by \<open>onWorkAvailable\<close>), and the end of a running
  batch, whether it succeeded or not. \<open>wk_batches\<close> counts the batches that have begun and not
  ended; the code does not have it, the property of the worker is about it.
\<close>

record worker_options =
  wo_intervalMs :: int
  wo_batchSize :: int

definition worker_options_of :: "int option \<Rightarrow> int option \<Rightarrow> worker_options" where
  "worker_options_of intervalMs batchSize =
    \<lparr>wo_intervalMs = max 250 (set_or intervalMs 1000),
     wo_batchSize = max 1 (min (set_or batchSize 25) 100)\<rparr>"

record worker =
  wk_timer :: bool
  wk_running :: bool
  wk_batches :: nat

definition idle_worker :: worker where
  "idle_worker = \<lparr>wk_timer = False, wk_running = False, wk_batches = 0\<rparr>"

definition runOnce :: "worker \<Rightarrow> worker" where
  "runOnce w =
    (if wk_running w then w
     else w\<lparr>wk_running := True, wk_batches := Suc (wk_batches w)\<rparr>)"

definition batch_ended :: "worker \<Rightarrow> worker" where
  "batch_ended w = w\<lparr>wk_running := False, wk_batches := wk_batches w - 1\<rparr>"

definition worker_start :: "worker \<Rightarrow> worker" where
  "worker_start w = (if wk_timer w then w else runOnce (w\<lparr>wk_timer := True\<rparr>))"

definition worker_stop :: "worker \<Rightarrow> worker" where
  "worker_stop w = w\<lparr>wk_timer := False\<rparr>"

inductive worker_step :: "worker \<Rightarrow> worker \<Rightarrow> bool" where
  worker_started: "worker_step w (worker_start w)"
| worker_stopped: "worker_step w (worker_stop w)"
| worker_interval: "wk_timer w \<Longrightarrow> worker_step w (runOnce w)"
| worker_notified: "worker_step w (runOnce w)"
| worker_finished: "0 < wk_batches w \<Longrightarrow> worker_step w (batch_ended w)"

section \<open>Retries and the worker\<close>

lemma power_min_mono: "0 \<le> (b::int) \<Longrightarrow> m \<le> n \<Longrightarrow> b * 2 ^ m \<le> b * 2 ^ n"
  by (intro mult_left_mono power_increasing) auto

text \<open>
  Failed webhooks are retried with a bounded exponential back-off. Whatever the options, the
  delay lies between the base, which is at least 100 ms, and the maximum, it never shrinks as the
  attempts grow, the first attempt waits the base, and every further attempt doubles the delay
  until the maximum is reached or the exponent has reached 30.
\<close>

theorem retry_backoff_bounded:
  "let r = webhook_retry_of base maximum in
    100 \<le> rt_baseDelayMs r \<and> rt_baseDelayMs r \<le> retry_delay r n \<and>
    retry_delay r n \<le> rt_maxDelayMs r \<and> retry_delay r 1 = rt_baseDelayMs r \<and>
    (1 \<le> n \<and> n \<le> 30 \<longrightarrow> retry_delay r (n + 1) = min (rt_maxDelayMs r) (2 * retry_delay r n)) \<and>
    (n \<le> m \<longrightarrow> retry_delay r n \<le> retry_delay r m)"
proof -
  define r where "r = webhook_retry_of base maximum"
  have b: "100 \<le> rt_baseDelayMs r" "rt_baseDelayMs r \<le> rt_maxDelayMs r"
    by (simp_all add: r_def webhook_retry_of_def Let_def)
  have "rt_baseDelayMs r * 2 ^ 0 \<le> rt_baseDelayMs r * 2 ^ nat (min (max (n - 1) 0) 30)"
    using b by (intro power_min_mono) auto
  then have low: "rt_baseDelayMs r \<le> retry_delay r n"
    using b by (simp add: retry_delay_def Let_def)
  have double: "retry_delay r (n + 1) = min (rt_maxDelayMs r) (2 * retry_delay r n)" if "1 \<le> n" "n \<le> 30"
  proof -
    have e: "nat (min (max (n + 1 - 1) 0) 30) = Suc (nat (min (max (n - 1) 0) 30))" using that by auto
    have half: "min M (2 * p) = min M (2 * min M p)" if "0 \<le> M" for M p :: int using that by auto
    show ?thesis
      unfolding retry_delay_def Let_def e power_Suc mult.left_commute[of "rt_baseDelayMs r" 2]
      using b by (intro half) simp
  qed
  have mono: "retry_delay r n \<le> retry_delay r m" if "n \<le> m"
  proof -
    have "nat (min (max (n - 1) 0) 30) \<le> nat (min (max (m - 1) 0) 30)" using that by auto
    then have "rt_baseDelayMs r * 2 ^ nat (min (max (n - 1) 0) 30) \<le>
        rt_baseDelayMs r * 2 ^ nat (min (max (m - 1) 0) 30)"
      using b by (intro power_min_mono) auto
    then show ?thesis unfolding retry_delay_def Let_def by (intro min.mono order_refl)
  qed
  show ?thesis
    using b low double mono unfolding r_def[symmetric] Let_def by (auto simp: retry_delay_def)
qed

theorem retry_backoff_bounded_witness:
  "retry_delay (webhook_retry_of None None) 3 = min 300000 (2 * retry_delay (webhook_retry_of None None) 2) \<and>
   retry_delay (webhook_retry_of None None) 2 \<le> retry_delay (webhook_retry_of None None) 9"
  using retry_backoff_bounded[of None None 2 9] by (simp add: Let_def webhook_retry_of_def)

definition worker_ok :: "worker \<Rightarrow> bool" where
  "worker_ok w \<longleftrightarrow> wk_batches w = (if wk_running w then 1 else 0)"

interpretation webhook_worker: transition_system "\<lambda>w. w = idle_worker" worker_step worker_ok
proof
  show "w = idle_worker \<Longrightarrow> worker_ok w" for w
    by (simp add: worker_ok_def idle_worker_def)
  show "worker_ok w \<Longrightarrow> worker_step w w' \<Longrightarrow> worker_ok w'" for w w'
    by (auto elim!: worker_step.cases simp: worker_ok_def worker_start_def worker_stop_def
        runOnce_def batch_ended_def split: if_splits)
qed

text \<open>
  C28: batches never overlap. Whatever sequence of starts, stops, intervals, notifications and ends
  of batches the worker goes through, at most one batch is being processed, and one is exactly
  while the worker counts as running.
\<close>

theorem batches_never_overlap:
  assumes "worker_step\<^sup>*\<^sup>* idle_worker w"
  shows "wk_batches w \<le> 1 \<and> (wk_running w \<longleftrightarrow> wk_batches w = 1)"
  using webhook_worker.invar_reachable[OF refl assms] by (simp add: worker_ok_def)

theorem batches_never_overlap_witness:
  "wk_batches (runOnce (worker_start idle_worker)) \<le> 1 \<and> wk_running (runOnce (worker_start idle_worker))"
proof -
  have "worker_step idle_worker (worker_start idle_worker)" by (rule worker_started)
  moreover have "worker_step (worker_start idle_worker) (runOnce (worker_start idle_worker))"
    by (rule worker_notified)
  ultimately have "worker_step\<^sup>*\<^sup>* idle_worker (runOnce (worker_start idle_worker))" by simp
  from batches_never_overlap[OF this] show ?thesis
    by (simp add: worker_start_def runOnce_def idle_worker_def)
qed

section \<open>Reconciliation follows Stripe\<close>

lemma apply_link_update_keys [simp]:
  "s_id (apply_link_update data now s) = s_id s"
  "s_licenseId (apply_link_update data now s) = s_licenseId s"
  "s_subscriptionId (apply_link_update data now s) = s_subscriptionId s"
  by (simp_all add: apply_link_update_def)

lemma extend_license_effect:
  assumes "extend_license dbNow i p d = Inr (us, d')"
  shows "stripeLinks d' = stripeLinks d" "l \<in> set (licenses d') \<Longrightarrow> l_id l = i \<Longrightarrow> l_expiresAt l = Some p"
    "map l_id (licenses d') = map l_id (licenses d)"
proof -
  define f where "f = (\<lambda>l. (apply_license_update (no_update\<lparr>lu_expiresAt := Some (Some p)\<rparr>) l)
    \<lparr>l_updatedAt := next_updated_at dbNow l\<rparr>)"
  have d': "d' = d\<lparr>licenses := update_where (\<lambda>l. l_id l = i) f (licenses d)\<rparr>"
    using update_licenses_rows[OF assms[unfolded extend_license_def write_license_def]]
    by (simp add: f_def)
  have f: "l_expiresAt (f x) = Some p" "l_id (f x) = l_id x" for x
    by (simp_all add: f_def apply_license_update_def)
  show "l \<in> set (licenses d') \<Longrightarrow> l_id l = i \<Longrightarrow> l_expiresAt l = Some p"
    using f by (auto simp: d' set_update_where)
  show "stripeLinks d' = stripeLinks d" by (simp add: d')
  show "map l_id (licenses d') = map l_id (licenses d)"
    using map_update_where[of l_id f] f(2) by (simp add: d')
qed

lemma single_link:
  assumes wf: "db_wf d" and run: "update_links (\<lambda>s. s_subscriptionId s = sub) f d = Inr (rws, d')"
    and found: "findBySubscriptionId sub d = Some s"
    and keys: "\<And>s. s_licenseId (f s) = s_licenseId s" "\<And>s. s_subscriptionId (f s) = s_subscriptionId s"
  shows "rws = [f s]" "licenses d' = licenses d" "findBySubscriptionId sub d' = Some (f s)"
    "link_of (s_licenseId s) d' = Some (f s)"
proof -
  have u: "unique_on s_subscriptionId (stripeLinks d)" "unique_on s_licenseId (stripeLinks d)"
    using wf by (simp_all add: db_wf_def stripeLinks_wf_def)
  have s: "s \<in> set (stripeLinks d)" "s_subscriptionId s = sub"
    using found by (auto simp: findBySubscriptionId_def dest: first_row_SomeD)
  have "rows (\<lambda>s. s_subscriptionId s = sub) (stripeLinks d) = [s]"
    by (rule rows_single[where P = "\<lambda>s. s_subscriptionId s = sub", OF u(1) s])
      (use unique_onD[OF u(1) _ s(1)] s(2) in auto)
  then show "rws = [f s]" "licenses d' = licenses d" using run by (auto simp: update_links_def)
  let ?t = "update_where (\<lambda>s. s_subscriptionId s = sub) f (stripeLinks d)"
  have d': "stripeLinks d' = ?t" using run by (auto simp: update_links_def)
  have u': "unique_on s_subscriptionId ?t" "unique_on s_licenseId ?t"
    using u keys by (simp_all add: unique_on_update_where)
  have "f s \<in> set ?t" using s by (auto intro: in_update_where)
  then show "findBySubscriptionId sub d' = Some (f s)" "link_of (s_licenseId s) d' = Some (f s)"
    using first_row_Some_iff_unique[OF u'(1), of "\<lambda>s. s_subscriptionId s = sub" sub]
      first_row_Some_iff_unique[OF u'(2), of "\<lambda>x. s_licenseId x = s_licenseId s" "s_licenseId s"] keys s(2)
    by (auto simp: findBySubscriptionId_def link_of_def d')
qed

lemma reconcile_row:
  assumes wf: "db_wf d" and found: "findBySubscriptionId sub d = Some s"
    and run: "reconcileForSubscriptionLicense now dbNow sub data d = Inr (Some link, d')"
  shows "link = apply_link_update data now s" "findBySubscriptionId sub d' = Some link"
    "link_of (s_licenseId s) d' = Some link"
    "\<And>p l. su_paidThrough data = Some (Some p) \<Longrightarrow> l \<in> set (licenses d') \<Longrightarrow> l_id l = s_licenseId s \<Longrightarrow>
      l_expiresAt l = Some p"
proof -
  have row: "first_row (\<lambda>x. s_subscriptionId x = sub \<and> s_licenseId x = s_licenseId s) (stripeLinks d) = Some s"
    using wf first_row_SomeD[OF found[unfolded findBySubscriptionId_def]]
    by (intro first_row_unique[where key = s_subscriptionId]) (auto simp: db_wf_def stripeLinks_wf_def)
  have ty: "license_type_of (s_licenseId s) d = Some Subscription"
    using run found row by (auto simp: reconcileForSubscriptionLicense_def bindT_Inr_iff split: if_splits)
  obtain rws d1 where up: "update_links (\<lambda>s. s_subscriptionId s = sub) (apply_link_update data now) d = Inr (rws, d1)"
    and rest: "(case case_option None id (su_paidThrough data) of None \<Rightarrow> returnT (Some (hd rws))
      | Some p \<Rightarrow> bindT (extend_license dbNow (s_licenseId s) p) (\<lambda>_. returnT (Some (hd rws)))) d1 =
        Inr (Some link, d')"
    using run found row ty
    by (auto simp: reconcileForSubscriptionLicense_def bindT_Inr_iff liftE_Inr_iff firstOrThrow_Inr_iff
        split: option.splits)
  note one = single_link[OF wf up found, simplified]
  have "link = hd rws \<and> (case case_option None id (su_paidThrough data) of None \<Rightarrow> d' = d1
      | Some p \<Rightarrow> \<exists>us. extend_license dbNow (s_licenseId s) p d1 = Inr (us, d'))"
    using rest by (auto simp: bindT_Inr_iff split: option.splits)
  then show "link = apply_link_update data now s" "findBySubscriptionId sub d' = Some link"
    "link_of (s_licenseId s) d' = Some link"
    "\<And>p l. su_paidThrough data = Some (Some p) \<Longrightarrow> l \<in> set (licenses d') \<Longrightarrow> l_id l = s_licenseId s \<Longrightarrow>
      l_expiresAt l = Some p"
    using one extend_license_effect
    by (auto simp: findBySubscriptionId_def link_of_def split: option.splits)
qed

lemma getSubscription_Inr:
  "getSubscription gw sub env w = (Inr sn, w') \<Longrightarrow>
    \<exists>k t s. gw_retrieve gw k sub = Inr s \<and> summarizeSubscription t s = Inr sn \<and> w' = interfere env w"
  by (auto simp: getSubscription_def gateway_call_def bindIO_Inr_iff)

lemma reconcile_locked_Inr:
  assumes "reconcile_locked gw sub now env w = (Inr (Some (link, sn, i)), w')" "quiet env"
  obtains existing k k' t s dbNow where
    "findBySubscriptionId sub (w_db w) = Some existing" "i = s_licenseId existing"
    "gw_retrieve gw k sub = Inr s" "summarizeSubscription t s = Inr sn"
    "reconcileForSubscriptionLicense k' dbNow sub (reconcile_update sn existing now) (w_db w) =
      Inr (Some link, w_db w')"
proof -
  from assms(1) obtain existing w1 w2 where
    1: "db_read (\<lambda>_. findBySubscriptionId sub) env w = (Inr (Some existing), w1)"
    and 2: "getSubscription gw sub env w1 = (Inr sn, w2)" and i: "i = s_licenseId existing"
    and 3: "db_call (\<lambda>env k. reconcileForSubscriptionLicense (e_now env k) (e_dbNow env k) sub
      (reconcile_update sn existing now)) env w2 = (Inr (Some link), w')"
    by (auto simp: reconcile_locked_def bindIO_Inr_iff[of "db_read _"] bindIO_Inr_iff[of "getSubscription _ _"]
        bindIO_Inr_iff[of "db_call _"] split: option.splits)
  from getSubscription_Inr[OF 2] obtain k t s where g: "gw_retrieve gw k sub = Inr s"
    "summarizeSubscription t s = Inr sn" and w2: "w2 = interfere env w1" by blast
  have "findBySubscriptionId sub (w_db w) = Some existing" "w_db w2 = w_db w"
    using 1 assms(2) w2 by (auto simp: db_read_Inr)
  then show ?thesis
    using that[OF _ i g] 3 assms(2) by (auto simp: db_call_Inr)
qed

lemma reconcileSubscription_Inr:
  assumes "reconcileSubscription gw sub now env w = (Inr (Some (link, l)), w')"
  obtains sn i w2 w3 e x where
    "transaction (reconcile_locked gw sub now) env w = (Inr (Some (link, sn, i)), w2)"
    "findById_io i env w2 = (Inr (Some l), w3)" "l_type l = Subscription" "capture e env w3 = (Inr x, w')"
proof -
  from assms obtain r w2 where tr: "transaction (reconcile_locked gw sub now) env w = (Inr r, w2)"
    and rest: "(case r of None \<Rightarrow> returnIO None
      | Some r \<Rightarrow> (case r of (link, sn, licenseId) \<Rightarrow>
          bindIO (findById_io licenseId) (\<lambda>updatedLicense.
          case updatedLicense of
            None \<Rightarrow> returnIO None
          | Some l \<Rightarrow>
              if l_type l \<noteq> Subscription then returnIO None
              else
                bindIO (askIO e_toISO) (\<lambda>toISO.
                bindIO (capture ((license_activity Stripe_synchronized l (subscriptionDetails toISO sn))
                  \<lparr>na_source := Stripe\<rparr>)) (\<lambda>_.
                returnIO (Some (link, l))))))) env w2 = (Inr (Some (link, l)), w')"
    unfolding reconcileSubscription_def bindIO_Inr_iff[of "transaction _"] by blast
  then obtain link' sn i where r: "r = Some (link', sn, i)" by (cases r) auto
  with rest obtain ul w3 where f: "findById_io i env w2 = (Inr ul, w3)"
    and rest': "(case ul of None \<Rightarrow> returnIO None
        | Some l \<Rightarrow>
            if l_type l \<noteq> Subscription then returnIO None
            else
              bindIO (askIO e_toISO) (\<lambda>toISO.
              bindIO (capture ((license_activity Stripe_synchronized l (subscriptionDetails toISO sn))
                \<lparr>na_source := Stripe\<rparr>)) (\<lambda>_.
              returnIO (Some (link', l))))) env w3 = (Inr (Some (link, l)), w')"
    by (auto simp: bindIO_Inr_iff[of "findById_io _"])
  show ?thesis
    using rest' f tr r that by (cases ul) (auto simp: bindIO_Inr_iff split: if_splits)
qed

text \<open>What a reconciliation writes to the link.\<close>

lemma reconciled_link:
  assumes "link = apply_link_update (reconcile_update sn existing now) later existing"
  shows "s_status link = sn_status sn" "s_paidThrough link = sn_paidThrough sn"
    "s_stripeCustomerId link = sn_stripeCustomerId sn" "s_priceId link = first_price sn"
    "s_licenseId link = s_licenseId existing"
    "s_billingRevokedAt link \<noteq> None \<longleftrightarrow> sn_billingBlocked sn"
  unfolding assms
  by (auto simp: apply_link_update_def reconcile_update_def billingRevokedAt_def Let_def split: option.splits)

lemma unblocked_has_period:
  "summarizeSubscription t s = Inr sn \<Longrightarrow> \<not> sn_billingBlocked sn \<Longrightarrow> \<exists>p. sn_paidThrough sn = Some p"
  by (auto simp: summarizeSubscription_def Let_def split: option.splits if_splits)

text \<open>
  C29: reconciliation makes the licence follow Stripe, whatever webhooks came before and in which
  order. When \<open>reconcileSubscription\<close> answers with a link and a licence and nothing interferes, the
  stored link has the status, period, customer and price of the subscription that Stripe returned,
  the licence expires at the end of the paid period if there is one, and billing revokes the
  licence exactly when the summary says that billing is blocked: then the licence is revoked, and
  otherwise it is usable until the end of the period unless an operator revoked it.
\<close>

theorem reconciliation_follows_stripe:
  assumes "reconcileSubscription gw sub now env w = (Inr (Some (link, l)), w')"
    and "quiet env" and "db_wf (w_db w)"
  shows "\<exists>k t s sn. gw_retrieve gw k sub = Inr s \<and> summarizeSubscription t s = Inr sn \<and>
    findBySubscriptionId sub (w_db w') = Some link \<and> s_licenseId link = l_id l \<and>
    s_status link = sn_status sn \<and> s_paidThrough link = sn_paidThrough sn \<and>
    s_stripeCustomerId link = sn_stripeCustomerId sn \<and> s_priceId link = first_price sn \<and>
    l_type l = Subscription \<and> l_billingRevokedAt l = s_billingRevokedAt link \<and>
    (\<forall>p. sn_paidThrough sn = Some p \<longrightarrow> l_expiresAt l = Some p) \<and>
    (s_billingRevokedAt link \<noteq> None \<longleftrightarrow> sn_billingBlocked sn) \<and>
    (sn_billingBlocked sn \<longrightarrow> (\<forall>time. es_status (deriveLicenseStatus l time) = Revoked)) \<and>
    (\<not> sn_billingBlocked sn \<and> l_manualRevokedAt l = None \<longrightarrow>
      (\<exists>p. sn_paidThrough sn = Some p \<and> (\<forall>time < p. license_active l time)))"
proof -
  let ?w1 = "w\<lparr>w_tick := Suc (w_tick w)\<rparr>"
  from reconcileSubscription_Inr[OF assms(1)] obtain sn i w2 w3 e x where
    tr: "transaction (reconcile_locked gw sub now) env w = (Inr (Some (link, sn, i)), w2)"
    and fnd: "findById_io i env w2 = (Inr (Some l), w3)" and ty: "l_type l = Subscription"
    and rest: "capture e env w3 = (Inr x, w')" .
  from tr assms(2) obtain w4 where lk: "reconcile_locked gw sub now env ?w1 = (Inr (Some (link, sn, i)), w4)"
    and w4: "w_db w2 = w_db w4"
    by (auto simp: transaction_Inr)
  have w1: "w_db ?w1 = w_db w" by simp
  from reconcile_locked_Inr[OF lk assms(2), unfolded w1, folded w4] obtain existing k k' t s dbNow where
    ex: "findBySubscriptionId sub (w_db w) = Some existing" "i = s_licenseId existing"
    and g: "gw_retrieve gw k sub = Inr s" "summarizeSubscription t s = Inr sn"
    and rc: "reconcileForSubscriptionLicense k' dbNow sub (reconcile_update sn existing now) (w_db w) =
      Inr (Some link, w_db w2)" .
  note row = reconcile_row[OF assms(3) ex(1) rc]
  obtain r where r: "r \<in> set (licenses (w_db w2))" "l_id r = i" "l = toDomainLicense (billing_of i (w_db w2)) r"
    using fnd assms(2) unfolding findById_io_def db_read_Inr license_findById_def
    by (auto simp: map_option_case dest!: first_row_SomeD split: option.splits)
  have bill: "l_billingRevokedAt l = s_billingRevokedAt link"
    using r(3) row(3) ex(2) by (simp add: billing_of_def link_of_def)
  note mirror = reconciled_link[OF row(1)]
  have paid: "sn_paidThrough sn = Some p \<Longrightarrow> l_expiresAt l = Some p" for p
    using row(4)[of p r] r ex(2) by (simp add: reconcile_update_def Let_def)
  have "but_activity (w_db w2) (w_db w')"
  proof -
    have "w_db w3 = w_db w2" using fnd assms(2) unfolding findById_io_def db_read_Inr by auto
    then show ?thesis
      using rest stepsD[OF capture_steps(2) assms(2)] unfolding same_tables_def by metis
  qed
  then have "findBySubscriptionId sub (w_db w') = Some link"
    using row(2) by (simp add: findBySubscriptionId_def but_activity_def)
  moreover have "s_licenseId link = l_id l" using mirror(5) r ex(2) by simp
  moreover have "sn_billingBlocked sn \<longrightarrow> (\<forall>time. es_status (deriveLicenseStatus l time) = Revoked)"
    using mirror(6) bill by (simp add: status_revoked_iff)
  moreover have "\<not> sn_billingBlocked sn \<and> l_manualRevokedAt l = None \<longrightarrow>
      (\<exists>p. sn_paidThrough sn = Some p \<and> (\<forall>time < p. license_active l time))"
    using mirror(6) bill paid unblocked_has_period[OF g(2)] ty by (fastforce simp: status_active_iff)
  ultimately show ?thesis using g ty bill mirror paid by blast
qed

definition sample_link :: stripe_link where
  "sample_link = \<lparr>s_id = ''K'', s_licenseId = ''L'', s_subscriptionId = ''sub'',
    s_stripeCustomerId = ''cus'', s_status = ''unpaid'', s_paidThrough = Some 2000,
    s_cancelAtPeriodEnd = False, s_priceId = None, s_billingRevokedAt = Some 1500,
    s_lastSyncedAt = Some 1600, s_lastError = None, s_createdAt = 0, s_updatedAt = 0\<rparr>"

definition sample_gateway :: gateway where
  "sample_gateway = \<lparr>gw_retrieve = (\<lambda>k i. Inr
      \<lparr>st_id = i, st_customer = Id_ref ''cus'', st_status = ''active'',
       st_items = [\<lparr>si_current_period_end = Integral 9, si_price = Object_ref ''p''\<rparr>],
       st_cancel_at_period_end = False\<rparr>),
    gw_construct = (\<lambda>p s. None), gw_errorText = (\<lambda>e. [])\<rparr>"

definition linked_world :: world where
  "linked_world = (sample_world Subscription)
    \<lparr>w_db := (sample_db Subscription)\<lparr>stripeLinks := [sample_link]\<rparr>\<rparr>"

definition plain_env :: env where
  "plain_env = sample_env\<lparr>e_toISO := \<lambda>t. ''iso''\<rparr>"

lemma plain_env_quiet: "quiet plain_env"
  using sample_calm by (simp add: plain_env_def calm_def quiet_def)

theorem reconciliation_follows_stripe_witness:
  "\<exists>link l w'. reconcileSubscription sample_gateway ''sub'' 1700 plain_env linked_world =
      (Inr (Some (link, l)), w') \<and> findBySubscriptionId ''sub'' (w_db w') = Some link \<and>
    l_type l = Subscription \<and> l_billingRevokedAt l = s_billingRevokedAt link"
proof -
  have "\<exists>r w'. reconcileSubscription sample_gateway ''sub'' 1700 plain_env linked_world = (Inr r, w') \<and> r \<noteq> None"
    by (rule run_Inr) code_simp
  then obtain link l w' where run: "reconcileSubscription sample_gateway ''sub'' 1700 plain_env linked_world =
      (Inr (Some (link, l)), w')"
    by auto
  have "db_wf (w_db linked_world)"
    by (simp add: linked_world_def db_wf_def wf_defs license_exists_def customer_exists_def sample_link_def
        sample_defs taken_def license_row_ok_def license_row_int4_def int4_def)
  from reconciliation_follows_stripe[OF run plain_env_quiet this] run show ?thesis by blast
qed

end
