(* ===== verification/AdminCalls.thy ===== *)
theory AdminCalls
  imports AdminService StripeIntegration
begin

text \<open>
  The operations an operator can ask for. Both surfaces of the program, the HTTP routes of
  \<open>controllers/admin.ts\<close> and the commands under \<open>cli/\<close>, translate what they are given into one
  of these calls; \<open>run_admin\<close> is the service behind them (\<open>AdminOperations\<close> of the command line,
  and \<open>StripeAdminOperations\<close> and the activity queries of the HTTP interface).
\<close>

datatype admin_call =
    Call_createCustomer string string json_object
  | Call_listCustomers
  | Call_getCustomer string
  | Call_updateCustomer string update_customer_input
  | Call_deleteCustomer string
  | Call_createLicense create_license_input
  | Call_listLicenses
  | Call_getLicense string
  | Call_updateLicense string update_license_input
  | Call_renewSubscription string string
  | Call_deleteLicense string
  | Call_revokeLicense string string
  | Call_restoreLicense string
  | Call_rotateLicenseKey string
  | Call_getLicenseAccess string
  | Call_allowLicenseIp string string
  | Call_removeLicenseAllowedIp string string
  | Call_allowLicenseDevice string string
  | Call_removeLicenseAllowedDevice string string
  | Call_removeRegisteredIp string string
  | Call_removeRegisteredDevice string string
  | Call_resetRegisteredDevices string
  | Call_terminateLicenseSessions string
  | Call_listLicenseMeters string bool
  | Call_createLicenseMeter string create_meter_input
  | Call_archiveLicenseMeter string string string
  | Call_topUpLicenseMeter string string jsnum string
  | Call_adjustLicenseMeter string string jsnum string
  | Call_listLicenseUsageLedger string "string option"

datatype admin_answer =
    Ans_customer customer
  | Ans_customers "customer list"
  | Ans_license managed_license
  | Ans_licenses "managed_license list"
  | Ans_revealed managed_revealed_license
  | Ans_done
  | Ans_count int
  | Ans_access access_records
  | Ans_ip "ip_allow allowlist_change"
  | Ans_device "device_allow allowlist_change"
  | Ans_flag bool
  | Ans_meter license_meter
  | Ans_meters "license_meter list"
  | Ans_ledger "usage_ledger_entry list"

definition answer :: "('a \<Rightarrow> 'b) \<Rightarrow> 'a io \<Rightarrow> 'b io" where
  "answer f m = bindIO m (\<lambda>x. returnIO (f x))"

fun run_admin :: "admin \<Rightarrow> admin_call \<Rightarrow> admin_answer io" where
  "run_admin ad (Call_createCustomer email name metadata) =
    answer Ans_customer (createCustomer email name metadata)"
| "run_admin ad Call_listCustomers = answer Ans_customers listCustomers"
| "run_admin ad (Call_getCustomer i) = answer Ans_customer (getCustomer i)"
| "run_admin ad (Call_updateCustomer i data) = answer Ans_customer (updateCustomer i data)"
| "run_admin ad (Call_deleteCustomer i) = answer (\<lambda>_. Ans_done) (deleteCustomer i)"
| "run_admin ad (Call_createLicense data) = answer Ans_revealed (createLicense data)"
| "run_admin ad Call_listLicenses = answer Ans_licenses listLicenses"
| "run_admin ad (Call_getLicense i) = answer Ans_license (getLicense i)"
| "run_admin ad (Call_updateLicense i data) = answer Ans_license (updateLicense ad i data)"
| "run_admin ad (Call_renewSubscription i t) = answer Ans_license (renewSubscription ad i t)"
| "run_admin ad (Call_deleteLicense i) = answer (\<lambda>_. Ans_done) (deleteLicense i)"
| "run_admin ad (Call_revokeLicense i given) = answer Ans_license (revokeLicense i given)"
| "run_admin ad (Call_restoreLicense i) = answer Ans_license (restoreLicense i)"
| "run_admin ad (Call_rotateLicenseKey i) = answer Ans_revealed (rotateLicenseKey i)"
| "run_admin ad (Call_getLicenseAccess i) = answer Ans_access (getLicenseAccess ad i)"
| "run_admin ad (Call_allowLicenseIp i ip) = answer Ans_ip (allowLicenseIp ad i ip)"
| "run_admin ad (Call_removeLicenseAllowedIp i ip) = answer Ans_flag (removeLicenseAllowedIp ad i ip)"
| "run_admin ad (Call_allowLicenseDevice i d) = answer Ans_device (allowLicenseDevice ad i d)"
| "run_admin ad (Call_removeLicenseAllowedDevice i d) =
    answer Ans_flag (removeLicenseAllowedDevice i d)"
| "run_admin ad (Call_removeRegisteredIp i ip) = answer Ans_count (removeRegisteredIp ad i ip)"
| "run_admin ad (Call_removeRegisteredDevice i d) =
    answer Ans_count (admin_removeRegisteredDevice i d)"
| "run_admin ad (Call_resetRegisteredDevices i) = answer Ans_count (admin_resetRegisteredDevices i)"
| "run_admin ad (Call_terminateLicenseSessions i) = answer Ans_count (terminateLicenseSessions i)"
| "run_admin ad (Call_listLicenseMeters i b) = answer Ans_meters (listLicenseMeters i b)"
| "run_admin ad (Call_createLicenseMeter i data) = answer Ans_meter (createLicenseMeter i data)"
| "run_admin ad (Call_archiveLicenseMeter i name given) =
    answer Ans_meter (archiveLicenseMeter i name given)"
| "run_admin ad (Call_topUpLicenseMeter i name units given) =
    answer Ans_meter (topUpLicenseMeter i name units given)"
| "run_admin ad (Call_adjustLicenseMeter i name delta given) =
    answer Ans_meter (adjustLicenseMeter i name delta given)"
| "run_admin ad (Call_listLicenseUsageLedger i name) =
    answer Ans_ledger (listLicenseUsageLedger i name)"

lemma answer_Inr_iff:
  "answer f m env w = (Inr y, w') \<longleftrightarrow> (\<exists>x. m env w = (Inr x, w') \<and> y = f x)"
  by (auto simp: answer_def bindIO_Inr_iff)

lemma keeps_db_answer [keeps_db_rules]: "keeps_db I m \<Longrightarrow> keeps_db I (answer f m)"
  unfolding answer_def by (intro keeps_db_bindIO keeps_db_returnIO)

end
