(* ===== verification/ServerInvariant.thy ===== *)
theory ServerInvariant
  imports Consistency AdminCalls
begin

text \<open>
  Every request of the server keeps the database consistent, whatever it answers, whichever
  calls are lost on the way, and whatever the other requests do in between as long as they keep
  it consistent too. \<open>serve_request\<close> collects the requests: the administration, the client's protocol,
  the Stripe operations, the webhook route, the webhook worker and the retention job.
\<close>

section \<open>Rules by structure\<close>

lemma keeps_db_prod [keeps_db_rules]:
  "(\<And>a b. keeps_db I (f a b)) \<Longrightarrow> keeps_db I (case p of (a, b) \<Rightarrow> f a b)"
  by (cases p) simp

lemma keeps_db_list [keeps_db_rules]:
  "keeps_db I m \<Longrightarrow> (\<And>x xs. keeps_db I (f x xs)) \<Longrightarrow> keeps_db I (case v of [] \<Rightarrow> m | x # xs \<Rightarrow> f x xs)"
  by (cases v) simp_all

lemma keeps_db_jsnum [keeps_db_rules]:
  "(\<And>n. keeps_db I (f n)) \<Longrightarrow> (\<And>q. keeps_db I (g q)) \<Longrightarrow> keeps_db I m \<Longrightarrow>
    keeps_db I (case v of Integral n \<Rightarrow> f n | Fractional q \<Rightarrow> g q | NonFinite \<Rightarrow> m)"
  by (cases v) simp_all

lemma keeps_db_found_or [keeps_db_rules]: "keeps_db I (found_or v e)"
  by (cases v) (simp_all add: found_or_def keeps_db_rules)

lemma keeps_db_best_effort [keeps_db_rules]: "keeps_db I m \<Longrightarrow> keeps_db I (best_effort m)"
  unfolding best_effort_def by (intro keeps_db_rules)

text \<open>A result that was checked before it is used.\<close>

lemma keeps_db_liftIO_bind:
  "(\<And>x. r = Inr x \<Longrightarrow> keeps_db I (f x)) \<Longrightarrow> keeps_db I (bindIO (liftIO r) f)"
  by (cases r) (simp_all add: keeps_db_def bindIO_def liftIO_def throwIO_def returnIO_def)

lemma keeps_db_bind_post:
  assumes "keeps_db I m" and "\<And>env w x w'. m env w = (Inr x, w') \<Longrightarrow> Q x"
    and "\<And>x. Q x \<Longrightarrow> keeps_db I (f x)"
  shows "keeps_db I (bindIO m f)"
  unfolding keeps_db_def
proof (intro allI impI)
  fix env :: env and w :: world
  assume r: "rely I env" and i: "I (w_db w)"
  obtain res w1 where m: "m env w = (res, w1)" by fastforce
  have i1: "I (w_db w1)" using keeps_dbD[OF assms(1) r i m] .
  show "I (w_db (snd (bindIO m f env w)))"
  proof (cases res)
    case (Inr b)
    then have "keeps_db I (f b)" using assms(2,3) m by blast
    with i1 r show ?thesis by (simp add: bindIO_def m Inr keeps_db_def)
  qed (simp add: bindIO_def m i1)
qed

lemmas calls_kept = keeps_db_call keeps_rules

lemma keeps_db_capture [keeps_db_rules]: "keeps_db consistent (capture e)"
  unfolding capture_def record_activity_def by (intro keeps_db_rules calls_kept)

lemma keeps_db_shared [keeps_db_rules]:
  "keeps_db consistent (admin_capture e)" "keeps_db consistent (service_capture e)"
  "keeps_db I licenseKey" "keeps_db I (managed_io l)" "keeps_db I (managed_revealed_io r)"
  "keeps_db I (findById_io i)" "keeps_db I (requireLicense i)"
  "keeps_db I (removeSessionsBestEffort i v)"
  "keeps_db consistent (updateMeterDraft_io l)" "keeps_db consistent (captureLicenseUpdate l a ds)"
  unfolding admin_capture_def service_capture_def licenseKey_def managed_io_def managed_revealed_io_def
    findById_io_def requireLicense_def removeSessionsBestEffort_def updateMeterDraft_io_def
    captureLicenseUpdate_def
  by (intro keeps_db_rules calls_kept)+

section \<open>The administration\<close>

lemma new_license_meters_given:
  assumes "new_license_of parseDate toISO now data = Inr mk" and "nl_type (mk key) = Metered"
  shows "nl_meters (mk key) \<noteq> []"
  using assms
  by (cases "cl_type data") (auto simp: new_license_of_def Let_def createTypeConfig_def)

lemma keeps_db_createLicense: "keeps_db consistent (createLicense data)"
proof -
  have prep: "keeps_db consistent (prepare_license data)"
    unfolding prepare_license_def by (intro keeps_db_rules)
  have "\<exists>parseDate toISO now. new_license_of parseDate toISO now data = Inr mk"
    if "prepare_license data env w = (Inr mk, w')" for env w mk w'
    using that by (auto simp: prepare_license_def bindIO_Inr_iff found_or_def split: option.splits)
  then show ?thesis
    unfolding createLicense_def
    by (rule keeps_db_bind_post[OF prep]) (auto intro!: keeps_db_rules keeps_db_call keepsI
        intro: license_create_consistent dest: new_license_meters_given)
qed

lemma keeps_db_updateLicense: "keeps_db consistent (updateLicense ad i data)"
  unfolding updateLicense_def plan_update_def stripe_conflict_def Let_def
  by (intro keeps_db_rules calls_kept)

lemma keeps_db_adjustMeter: "keeps_db consistent (adjustMeter i name delta given kind)"
  unfolding adjustMeter_def
  by (intro keeps_db_rules calls_kept) (auto intro!: keeps_db_rules split: meter_adjustment_result.split)

lemma keeps_db_unregister:
  "keeps consistent remove \<Longrightarrow> keeps_db consistent (unregister i remove always)"
  unfolding unregister_def by (intro keeps_db_rules calls_kept)

lemma keeps_db_reads:
  "keeps_db I (getCustomer i)" "keeps_db I listCustomers" "keeps_db I listLicenses"
  "keeps_db I (getLicense i)" "keeps_db I (read_access_records ad i)" "keeps_db I (getLicenseAccess ad i)"
  "keeps_db I (listLicenseMeters i b)" "keeps_db I (listLicenseUsageLedger i name)"
  unfolding getCustomer_def listCustomers_def listLicenses_def getLicense_def read_access_records_def
    getLicenseAccess_def listLicenseMeters_def listLicenseUsageLedger_def
  by (intro keeps_db_rules)+

lemmas admin_kept = keeps_db_rules calls_kept keeps_db_reads keeps_db_createLicense
  keeps_db_updateLicense keeps_db_adjustMeter keeps_db_unregister

lemma keeps_db_end_registrations: "keeps_db consistent (end_registrations l i action result)"
  unfolding end_registrations_def by (intro admin_kept)

lemma keeps_db_customers:
  "keeps_db consistent (createCustomer email name metadata)"
  "keeps_db consistent (updateCustomer i update)" "keeps_db consistent (deleteCustomer i)"
  unfolding createCustomer_def updateCustomer_def deleteCustomer_def Let_def
  by (intro admin_kept)+

lemma keeps_db_life:
  "keeps_db consistent (renewSubscription ad i t)" "keeps_db consistent (deleteLicense i)"
  "keeps_db consistent (revokeLicense i given)" "keeps_db consistent (restoreLicense i)"
  "keeps_db consistent (rotateLicenseKey i)"
  unfolding renewSubscription_def deleteLicense_def revokeLicense_def restoreLicense_def
    rotateLicenseKey_def
  by (intro admin_kept; simp add: no_update_def)+

lemma keeps_db_access:
  "keeps_db consistent (allowLicenseIp ad i ip)" "keeps_db consistent (removeLicenseAllowedIp ad i ip)"
  "keeps_db consistent (allowLicenseDevice ad i dev)" "keeps_db consistent (removeLicenseAllowedDevice i dev)"
  "keeps_db consistent (removeRegisteredIp ad i ip)" "keeps_db consistent (admin_removeRegisteredDevice i dev)"
  "keeps_db consistent (admin_resetRegisteredDevices i)" "keeps_db consistent (terminateLicenseSessions i)"
  unfolding allowLicenseIp_def removeLicenseAllowedIp_def allowLicenseDevice_def
    removeLicenseAllowedDevice_def removeRegisteredIp_def admin_removeRegisteredDevice_def
    admin_resetRegisteredDevices_def terminateLicenseSessions_def Let_def
  by (intro admin_kept keeps_db_end_registrations)+

lemma keeps_db_meters:
  "keeps_db consistent (createLicenseMeter i meter)" "keeps_db consistent (archiveLicenseMeter i name given)"
  "keeps_db consistent (topUpLicenseMeter i name units given)"
  "keeps_db consistent (adjustLicenseMeter i name delta given)"
  unfolding createLicenseMeter_def archiveLicenseMeter_def topUpLicenseMeter_def
    adjustLicenseMeter_def Let_def
  by (intro admin_kept)+

lemma keeps_db_run_admin: "keeps_db consistent (run_admin ad call)"
  by (cases call) (simp_all add: keeps_db_answer keeps_db_customers keeps_db_life keeps_db_access
      keeps_db_meters keeps_db_reads keeps_db_createLicense keeps_db_updateLicense)

section \<open>The client's protocol\<close>

lemma keeps_db_lookups [keeps_db_rules]:
  "keeps_db I (find_by_key key)" "keeps_db I (find_by_id i)" "keeps_db I (find_device i b)"
  "keeps_db I (refresh_session token b)" "keeps_db I (remove_session token b)"
  "keeps_db I (register_session i revision b limit)" "keeps_db I (assert_usable l b)"
  "keeps_db I (check_limits current b existing)" "keeps_db I (removeSessionBestEffort token b)"
  unfolding find_by_key_def find_by_id_def load_with_allowlists_def attach_allowlists_def
    find_device_def refresh_session_def remove_session_def register_session_def assert_usable_def
    check_limits_def removeSessionBestEffort_def
  by (intro keeps_db_rules)+

lemma keeps_db_open_session [keeps_db_rules]: "keeps_db I (open_session current b)"
  unfolding open_session_def
  by (intro keeps_db_rules) (auto intro!: keeps_db_rules split: session_registration_result.split)

lemma keeps_db_live [keeps_db_rules]:
  "keeps_db I (requireActiveSessionLicense i revision token b)" "keeps_db I (live_license token b)"
  "keeps_db consistent (touch_seen i b)" "keeps_db consistent (usage_rejected input l b e)"
  "keeps_db consistent (activation_rejected l b e)"
  unfolding live_license_def requireActiveSessionLicense_def touch_seen_def usage_rejected_def
    activation_rejected_def Let_def
  by (intro keeps_db_rules calls_kept)+

lemma keeps_db_admitActivation [keeps_db_rules]: "keeps_db consistent (admitActivation l b)"
  unfolding admitActivation_def admission_def admission_checks_def start_trial_def register_device_def
  by (intro keeps_db_rules calls_kept)

lemma keeps_db_charge [keeps_db_rules]: "keeps_db consistent (charge l b input units)"
  unfolding charge_def Let_def
  by (intro keeps_db_rules calls_kept)
    (auto intro!: keeps_db_rules split: usage_consumption_result.split)

lemma keeps_db_protocol:
  "keeps_db consistent (activate key dev ip)" "keeps_db consistent (heartbeat token dev ip)"
  "keeps_db consistent (service_consume token dev ip input)" "keeps_db consistent (deactivate token dev ip)"
  unfolding activate_def heartbeat_def service_consume_def deactivate_def Let_def
  by (intro keeps_db_rules)+

section \<open>Stripe\<close>

lemma keeps_db_gateway_call [keeps_db_rules]: "keeps_db I (gateway_call f)"
  using rely_interfere[of I] by (auto simp: keeps_db_def gateway_call_def)

lemma keeps_db_gateway [keeps_db_rules]:
  "keeps_db I (getSubscription gw i)" "keeps_db I (verifyWebhook gw p s)"
  unfolding getSubscription_def verifyWebhook_def by (intro keeps_db_rules)+

lemma keeps_db_reconcile [keeps_db_rules]:
  "keeps_db consistent (reconcileSubscription gw i now)"
  "keeps_db consistent (recordReconciliationFailure i message)"
  unfolding reconcileSubscription_def reconcile_locked_def recordReconciliationFailure_def
  by (intro keeps_db_rules calls_kept)+

lemma keeps_db_link_failed [keeps_db_rules]: "keeps_db I (link_failed i sub e)"
  unfolding link_failed_def
  by (intro keeps_db_rules) (auto intro!: keeps_db_rules split: failure.split)

lemma keeps_db_links:
  "keeps_db consistent (linkLicense gw i sub now)" "keeps_db consistent (unlinkLicense i)"
  "keeps_db consistent (syncLicense gw i now)"
  unfolding linkLicense_def link_locked_def unlinkLicense_def syncLicense_def
    requireSubscriptionLicense_def
  by (intro keeps_db_rules calls_kept)+

lemma keeps_db_webhooks:
  "keeps_db consistent (stripe_webhook gw signature payload)"
  "keeps_db consistent (processDue gw retry limit now)"
  unfolding stripe_webhook_def receive_def processDue_def processOne_def Let_def
  by (intro keeps_db_rules calls_kept)+

lemma keeps_db_prune: "keeps_db consistent (pruneExpiredActivity days now)"
  unfolding pruneExpiredActivity_def by (intro keeps_db_rules calls_kept)

section \<open>The server\<close>

text \<open>
  What reaches the server and what it starts by itself: the worker's batch, and the retention job
  of \<open>startServer\<close>.
\<close>

record server =
  sv_admin :: admin
  sv_gateway :: gateway
  sv_retry :: webhook_retry
  sv_batchSize :: int
  sv_retentionDays :: int

datatype server_request =
    Req_admin admin_call
  | Req_activate string string string
  | Req_heartbeat string string string
  | Req_usage string string string consume_usage_input
  | Req_deactivate string string string
  | Req_link string string
  | Req_unlink string
  | Req_sync string
  | Req_webhook "string option" string
  | Req_batch
  | Req_prune

definition ignore :: "'a io \<Rightarrow> unit io" where
  "ignore m = bindIO m (\<lambda>_. returnIO ())"

fun serve_request :: "server \<Rightarrow> server_request \<Rightarrow> unit io" where
  "serve_request sv (Req_admin call) = ignore (run_admin (sv_admin sv) call)"
| "serve_request sv (Req_activate key dev ip) = ignore (activate key dev ip)"
| "serve_request sv (Req_heartbeat token dev ip) = ignore (heartbeat token dev ip)"
| "serve_request sv (Req_usage token dev ip input) = ignore (service_consume token dev ip input)"
| "serve_request sv (Req_deactivate token dev ip) = deactivate token dev ip"
| "serve_request sv (Req_link i sub) = bindIO nowIO (\<lambda>now. ignore (linkLicense (sv_gateway sv) i sub now))"
| "serve_request sv (Req_unlink i) = ignore (unlinkLicense i)"
| "serve_request sv (Req_sync i) = bindIO nowIO (\<lambda>now. ignore (syncLicense (sv_gateway sv) i now))"
| "serve_request sv (Req_webhook signature payload) =
    ignore (stripe_webhook (sv_gateway sv) signature payload)"
| "serve_request sv Req_batch = bindIO nowIO (\<lambda>now.
    ignore (processDue (sv_gateway sv) (sv_retry sv) (Integral (sv_batchSize sv)) now))"
| "serve_request sv Req_prune = bindIO nowIO (\<lambda>now.
    ignore (pruneExpiredActivity (Integral (sv_retentionDays sv)) now))"

lemma keeps_db_ignore [keeps_db_rules]: "keeps_db I m \<Longrightarrow> keeps_db I (ignore m)"
  unfolding ignore_def by (intro keeps_db_rules)

lemma keeps_db_serve: "keeps_db consistent (serve_request sv request)"
  by (cases request) (simp_all add: keeps_db_bindIO keeps_db_nowIO keeps_db_ignore keeps_db_run_admin
      keeps_db_protocol keeps_db_links keeps_db_webhooks keeps_db_prune)

text \<open>
  A step of the database: one request is served, in any environment whose other requests keep
  the database consistent.
\<close>

inductive server_step :: "server \<Rightarrow> db \<Rightarrow> db \<Rightarrow> bool" for sv where
  served: "rely consistent env \<Longrightarrow> serve_request sv request env w = (res, w') \<Longrightarrow>
    server_step sv (w_db w) (w_db w')"

inductive_cases server_stepE: "server_step sv d d'"

interpretation server_machine: transition_system consistent "server_step sv" consistent
  for sv :: server
proof
  show "consistent d \<Longrightarrow> consistent d" for d .
  show "consistent d \<Longrightarrow> server_step sv d d' \<Longrightarrow> consistent d'" for d d'
    by (erule server_stepE) (metis keeps_dbD[OF keeps_db_serve])
qed

section \<open>What consistency promises\<close>

text \<open>
  Every constraint of the schema holds; every meter's balance is the sum of its ledger entries and
  lies between 0 and the four-byte limit; no ledger entry leaves a negative balance; every metered
  licence has an active meter; and every licence linked to a Stripe subscription is a subscription
  licence.
\<close>

lemma consistent_promises:
  assumes "consistent d'"
  shows "db_wf d' \<and>
    (\<forall>m \<in> set (meters d'). m_balance m = sum_list (map e_delta (meter_entries m d')) \<and>
      0 \<le> m_balance m \<and> m_balance m \<le> MAX_LICENSE_LIMIT) \<and>
    (\<forall>e \<in> set (ledger d'). 0 \<le> e_balanceAfter e) \<and>
    (\<forall>l \<in> set (licenses d'). l_type l = Metered \<longrightarrow> active_meters (l_id l) d' \<noteq> []) \<and>
    (\<forall>s \<in> set (stripeLinks d'). \<exists>l \<in> set (licenses d'). l_id l = s_licenseId s \<and> l_type l = Subscription)"
proof -
  note c = consistentD[OF assms]
  have "\<exists>l \<in> set (licenses d'). l_id l = s_licenseId s" if "s \<in> set (stripeLinks d')" for s
  proof -
    have "license_exists (s_licenseId s) d'" using c(1) that by (simp add: db_wf_def stripeLinks_wf_def)
    then show ?thesis by (auto simp: license_exists_def)
  qed
  then show ?thesis
    using c(1,3,4,7) books_balance[OF c(5)]
    by (fastforce simp: metered_have_meters_def links_on_subscriptions_def entries_in_credit_def)
qed

text \<open>The services keep these promises, whatever they are asked and whatever fails on the way.\<close>

theorem server_keeps_database_consistent:
  assumes "d = empty_db \<or> consistent d" and "(server_step sv)\<^sup>*\<^sup>* d d'"
  shows "db_wf d' \<and>
    (\<forall>m \<in> set (meters d'). m_balance m = sum_list (map e_delta (meter_entries m d')) \<and>
      0 \<le> m_balance m \<and> m_balance m \<le> MAX_LICENSE_LIMIT) \<and>
    (\<forall>e \<in> set (ledger d'). 0 \<le> e_balanceAfter e) \<and>
    (\<forall>l \<in> set (licenses d'). l_type l = Metered \<longrightarrow> active_meters (l_id l) d' \<noteq> []) \<and>
    (\<forall>s \<in> set (stripeLinks d'). \<exists>l \<in> set (licenses d'). l_id l = s_licenseId s \<and> l_type l = Subscription)"
  using server_machine.invar_reachable[OF _ assms(2)] assms(1) empty_db_consistent
  by (intro consistent_promises) blast

text \<open>A consistent database that is not empty.\<close>

lemma sample_db_consistent: "consistent (sample_db Lifetime)"
  using sample_db_wf[of Lifetime]
  by (auto simp: consistent_def books_ok_def metered_have_meters_def links_on_subscriptions_def
      entries_in_credit_def sample_defs)

definition plain_server :: server where
  "plain_server = \<lparr>sv_admin = \<lparr>ad_host = sample_host, ad_retentionDays = 30, ad_stripe = False\<rparr>,
    sv_gateway = sample_gateway, sv_retry = webhook_retry_of None None, sv_batchSize = 25,
    sv_retentionDays = 30\<rparr>"

definition metered_request :: server_request where
  "metered_request = Req_admin (Call_createLicense (plain_input\<lparr>cl_type := Metered,
    cl_meters := Some [\<lparr>cm_name = ''api'', cm_balance = Integral 5, cm_reason = ''first''\<rparr>]\<rparr>))"

definition served_db :: db where
  "served_db = w_db (snd (serve_request plain_server metered_request sample_env (sample_world Lifetime)))"

theorem server_keeps_database_consistent_witness:
  "db_wf served_db \<and> (\<exists>m \<in> set (meters served_db). m_balance m = 5 \<and>
    sum_list (map e_delta (meter_entries m served_db)) = 5)"
proof -
  have "rely consistent sample_env" by (simp add: rely_def sample_env_def)
  from served[OF this prod.collapse[symmetric], of plain_server "sample_world Lifetime" metered_request]
  have "server_step plain_server (sample_db Lifetime) served_db"
    by (simp add: served_db_def) (simp add: sample_world_def)
  moreover note sample_db_consistent
  ultimately have "db_wf served_db" "\<forall>m \<in> set (meters served_db).
      m_balance m = sum_list (map e_delta (meter_entries m served_db))"
    using server_keeps_database_consistent[of "sample_db Lifetime" plain_server served_db] by blast+
  moreover have "\<exists>m \<in> set (meters served_db). m_balance m = 5"
    by code_simp
  ultimately show ?thesis by metis
qed

end
