(* ===== verification/TypeChange.thy ===== *)
theory TypeChange
  imports ServerInvariant
begin

text \<open>
  Changing the type of a licence: \<open>updateLicense\<close> of the service, the update of the repository and
  the row it leaves, followed from the stored row to the stored row. The theory shows that the
  drafts a licence keeps for its other types are written and read back: after a change to another
  type and a change back, the licence has the settings it had.
\<close>

section \<open>Drafts\<close>

text \<open>
  \<open>set_aside l names drafts\<close>: the drafts hold what the licence's own type needs to be taken up
  again: the length of a trial, the expiry of a subscription.
\<close>

definition set_aside :: "(int \<Rightarrow> string) \<Rightarrow> 'a license_base_scheme \<Rightarrow> type_drafts \<Rightarrow> bool" where
  "set_aside toISO l drafts \<longleftrightarrow>
    (case l_type l of
      Trial \<Rightarrow> d_trial drafts = Some (l_trialDurationMinutes l)
    | Subscription \<Rightarrow> d_subscription drafts = Some (map_option toISO (l_expiresAt l))
    | _ \<Rightarrow> True)"

lemma leaving_sets_aside:
  assumes "ty \<noteq> l_type l"
    and "updateTypeConfig parseDate toISO now l data ty True (withCurrentDraft toISO l names) = Inr cfg"
  shows "set_aside toISO l (tc_typeDrafts cfg)"
  using assms
  by (cases "l_type l"; cases ty)
    (auto simp: set_aside_def updateTypeConfig_def withCurrentDraft_def split: option.splits)

lemma returning_restores:
  assumes row: "license_row_ok l" "license_row_int4 l"
    and cur: "l_type cur \<noteq> l_type l" "set_aside toISO l (l_typeDrafts cur)"
    and given: "ul_expiresAt data = None" "ul_trialDurationMinutes data = None"
    and dates: "\<And>t. l_type l = Subscription \<Longrightarrow> l_expiresAt l = Some t \<Longrightarrow>
      toISO t \<noteq> [] \<and> parseDate (toISO t) = Some t \<and> now < t"
  shows "\<exists>cfg. updateTypeConfig parseDate toISO now cur data (l_type l) True
      (withCurrentDraft toISO cur names) = Inr cfg \<and>
    (l_type l = Trial \<longrightarrow> tc_trialDurationMinutes cfg = l_trialDurationMinutes l) \<and>
    (l_type l = Subscription \<longrightarrow> tc_expiresAt cfg = l_expiresAt l)"
proof (cases "l_type l")
  case Trial
  then show ?thesis
    using row cur given
    by (cases "l_type cur") (auto simp: set_aside_def updateTypeConfig_def withCurrentDraft_def
        license_row_ok_def license_row_int4_def int4_def MAX_LICENSE_LIMIT_def)
next
  case Subscription
  then obtain t where t: "l_expiresAt l = Some t" using row by (auto simp: license_row_ok_def)
  then have d: "d_subscription (l_typeDrafts cur) = Some (Some (toISO t))"
    using cur(2) Subscription by (simp add: set_aside_def)
  show ?thesis
    using Subscription t d dates[OF Subscription t] cur(1) given
    by (cases "l_type cur") (simp_all add: updateTypeConfig_def subscription_expiry_def
        withCurrentDraft_def parseFutureDate_def)
qed (simp_all add: updateTypeConfig_def)

section \<open>What a change writes\<close>

text \<open>\<open>row_of i d l\<close>: the licence with the identifier \<open>i\<close> is stored as \<open>l\<close>.\<close>

definition row_of :: "string \<Rightarrow> db \<Rightarrow> stored_license \<Rightarrow> bool" where
  "row_of i d l \<longleftrightarrow> l \<in> set (licenses d) \<and> l_id l = i"

lemma row_of_unique: "db_wf d \<Longrightarrow> row_of i d l \<Longrightarrow> row_of i d l' \<Longrightarrow> l = l'"
  by (auto simp: row_of_def dest: unique_onD[OF db_wf_keys(1)])

lemma find_row:
  "db_wf d \<Longrightarrow> license_findById i d = Some x \<longleftrightarrow>
    (\<exists>l. row_of i d l \<and> x = toDomainLicense (billing_of i d) l)"
  using license_findById_iff[OF db_wf_keys(1)] by (auto simp: row_of_def)

text \<open>
  \<open>plain_update i ty d\<close>: an update to the type \<open>ty\<close> is written as it is, because no Stripe link makes the
  repository change it.
\<close>

definition plain_update :: "string \<Rightarrow> license_type \<Rightarrow> db \<Rightarrow> bool" where
  "plain_update i ty d \<longleftrightarrow> ty \<noteq> Subscription \<or> link_of i d = None"

definition written :: "license_update \<Rightarrow> int \<Rightarrow> stored_license \<Rightarrow> stored_license" where
  "written data dbNow l = (apply_license_update data l)\<lparr>l_updatedAt := next_updated_at dbNow l\<rparr>"

lemma reconcile_plain:
  assumes "reconcile_link toISO i data options d = Inr (data', d')" and "lu_type data = Some ty"
    and "plain_update i ty d"
  shows "data' = data"
  using assms
  by (auto simp: reconcile_link_def plain_update_def bindT_Inr_iff split: option.splits if_splits)

lemma guarded_update_of:
  assumes "lu_type data = Some ty"
    and "licenseRepo_update toISO ids now dbNow i data options d = Inr (x, d')"
  shows "guarded_update toISO ids now dbNow i data options d = Inr ((), d')"
    and "license_findById i d' = Some x"
  using assms unfolding licenseRepo_update_def by (auto simp: bindT_Inr_iff reload_Inr_iff)

lemma update_row:
  assumes wf: "db_wf d" and ty: "lu_type data = Some ty"
    and plain: "plain_update i ty d" and row: "row_of i d l"
    and run: "licenseRepo_update toISO ids now dbNow i data options d = Inr (x, d')"
  shows "row_of i d' (written data dbNow l)"
    and "link_of i d' = (if ty = Subscription then link_of i d else None)"
proof -
  note u = db_wf_keys(1)[OF wf]
  from guarded_update_of(1)[OF ty run] u obtain k d1 d2 data' where
    k: "k \<in> set (licenses d)" "l_id k = i" and steps: "opened_step\<^sup>*\<^sup>* d d1"
    and rec: "reconcile_link toISO i data options d1 = Inr (data', d2)"
    and rw: "replaces i k ((apply_license_update data' k)\<lparr>l_updatedAt := next_updated_at dbNow k\<rparr>) d2 d'"
    by (rule guarded_update_cases)
  have kl: "k = l" using row_of_unique[OF wf _ row] k by (simp add: row_of_def)
  note op = opened_steps[OF steps] and eff = reconcile_link_effect[OF rec]
  have l1: "link_of i d1 = link_of i d" using op by (simp add: link_of_def)
  have data': "data' = data"
    using reconcile_plain[OF rec ty] plain l1 by (simp add: plain_update_def)
  have "unique_on l_id (licenses d2)" using u op eff(1) by simp
  from replaces_row[OF this rw, of "written data dbNow l"] show "row_of i d' (written data dbNow l)"
    using k by (simp add: row_of_def written_def kl data')
  have "link_of i d' = link_of i d2" using rw by (simp add: replaces_def link_of_def)
  then show "link_of i d' = (if ty = Subscription then link_of i d else None)"
    using eff(5,6) ty l1 by auto
qed

lemma update_meters:
  assumes "lu_type data = Some ty" and "luo_newMeters options = []"
    and "licenseRepo_update toISO ids now dbNow i data options d = Inr (x, d')"
  shows "meters d' = meters d"
proof -
  from guarded_update_of(1)[OF assms(1,3)] assms(2) obtain data' d2 rws where
    rec: "reconcile_link toISO i data options d = Inr (data', d2)"
    and wr: "write_license dbNow (\<lambda>l. l_id l = i) data' d2 = Inr (rws, d')"
    unfolding guarded_update_def by (auto simp: bindT_Inr_iff liftE_Inr_iff split: if_splits)
  have "meters d' = meters d2"
    using update_licenses_rows[OF wr[unfolded write_license_def]] by simp
  then show ?thesis using reconcile_link_effect(2)[OF rec] by simp
qed

text \<open>An update that fits the checks of the table and the version that was read is committed.\<close>

lemma write_runs:
  assumes wf: "licenses_wf d" and row: "row_of i d l"
    and ok: "license_row_ok (apply_license_update data l)" "license_row_int4 (apply_license_update data l)"
      "customer_exists (l_customerId (apply_license_update data l)) d"
  shows "\<exists>r d'. write_license dbNow (\<lambda>l. l_id l = i) data d = Inr ([r], d') \<and>
    license_findById i d' \<noteq> None"
proof -
  let ?f = "written data dbNow"
  have u: "unique_on l_id (licenses d)" "unique_on l_keyHash (licenses d)"
    using wf by (simp_all add: licenses_wf_def)
  have rows: "rows (\<lambda>l. l_id l = i) (licenses d) = [l]"
    using row by (intro rows_single[OF u(1)]) (auto simp: row_of_def dest: unique_onD[OF u(1)])
  have hash: "unique_on l_keyHash (update_where (\<lambda>l. l_id l = i) ?f (licenses d))"
    by (subst unique_on_update_where) (simp_all add: u written_def apply_license_update_def)
  have "license_row_ok (?f l)" "license_row_int4 (?f l)" "customer_exists (l_customerId (?f l)) d"
    using ok by (simp_all add: written_def license_row_ok_def license_row_int4_def)
  then have "write_license dbNow (\<lambda>l. l_id l = i) data d =
      Inr ([?f l], d\<lparr>licenses := update_where (\<lambda>l. l_id l = i) ?f (licenses d)\<rparr>)"
    using hash unfolding write_license_def update_licenses_def rows written_def by (simp add: Let_def)
  moreover have "license_findById i (d\<lparr>licenses := update_where (\<lambda>l. l_id l = i) ?f (licenses d)\<rparr>) \<noteq> None"
  proof -
    have "?f l \<in> set (update_where (\<lambda>l. l_id l = i) ?f (licenses d))"
      using row by (auto simp: row_of_def set_update_where)
    moreover have "l_id (?f l) = i" using row by (simp add: written_def row_of_def)
    ultimately show ?thesis by (auto simp: license_findById_def first_row_None_iff)
  qed
  ultimately show ?thesis by blast
qed

lemma update_runs:
  assumes wf: "db_wf d" and row: "row_of i d l" and ty: "lu_type data = Some ty"
    and plain: "plain_update i ty d"
    and opts: "luo_expectedUpdatedAt options = Some (l_updatedAt l)" "luo_newMeters options = []"
      "luo_confirmStripeUnlink options"
    and met: "ty = Metered \<Longrightarrow> active_meters i d \<noteq> []"
    and ok: "license_row_ok (apply_license_update data l)" "license_row_int4 (apply_license_update data l)"
      "customer_exists (l_customerId (apply_license_update data l)) d"
  shows "\<exists>x d'. licenseRepo_update toISO ids now dbNow i data options d = Inr (x, d')"
proof -
  have u: "unique_on l_id (licenses d)" using wf by (rule db_wf_keys)
  have rows: "rows (\<lambda>l. l_id l = i) (licenses d) = [l]"
    using row by (intro rows_single[OF u]) (auto simp: row_of_def dest: unique_onD[OF u])
  obtain d2 where rec: "reconcile_link toISO i data options d = Inr (data, d2)"
    and d2: "licenses d2 = licenses d" "customers d2 = customers d"
  proof (cases "link_of i d")
    case None
    then show ?thesis using that[of d] by (simp add: reconcile_link_def bindT_def)
  next
    case (Some lk)
    then have "ty \<noteq> Subscription" using plain by (simp add: plain_update_def)
    then show ?thesis
      using that Some ty opts(3) by (simp add: reconcile_link_def bindT_def delete_links_def)
  qed
  have "licenses_wf d2" "row_of i d2 l" "customer_exists (l_customerId (apply_license_update data l)) d2"
    using wf row ok(3) d2 by (simp_all add: db_wf_def licenses_wf_def row_of_def customer_exists_def)
  from write_runs[OF this(1,2) ok(1,2) this(3)] obtain r d' where
    "write_license dbNow (\<lambda>l. l_id l = i) data d2 = Inr ([r], d')" "license_findById i d' \<noteq> None"
    by blast
  then show ?thesis
    using rows rec ty opts(1,2) met
    by (auto simp: licenseRepo_update_def guarded_update_def bindT_def liftE_def firstOrThrow_def
        reload_def)
qed

section \<open>The plan of a change\<close>

text \<open>
  \<open>planned env w i data current target now active drafts upd options\<close>: what the service worked out from
  the database of \<open>w\<close> before it writes.
\<close>

definition meter_names :: "license \<Rightarrow> db \<Rightarrow> string list" where
  "meter_names current d =
    (if l_type current = Metered then map m_name (listMeters (l_id current) False d) else [])"

definition drafts_of :: "license_type \<Rightarrow> update_config \<Rightarrow> type_drafts \<Rightarrow> bool" where
  "drafts_of ty active drafts \<longleftrightarrow>
    (if ty = Metered then \<exists>ns. drafts = (tc_typeDrafts active)\<lparr>d_metered := Some ns\<rparr>
     else drafts = tc_typeDrafts active)"

lemma requireLicense_Inr:
  "quiet env \<Longrightarrow> requireLicense i env w = (Inr x, w') \<Longrightarrow>
    license_findById i (w_db w) = Some x \<and> w_db w' = w_db w"
  by (auto simp: requireLicense_def findById_io_def found_or_def bindIO_Inr_iff db_read_Inr
      split: option.splits)

lemma meter_draft_Inr:
  "meter_draft currentMeters allMeters newMeters drafts = Inr drafts' \<Longrightarrow>
    \<exists>ns. drafts' = drafts\<lparr>d_metered := Some ns\<rparr>"
  by (auto simp: meter_draft_def Let_def)

lemma stripe_conflict_db:
  "quiet env \<Longrightarrow> stripe_conflict ad i ty data env w = (Inr x, w') \<Longrightarrow> w_db w' = w_db w"
  by (auto simp: stripe_conflict_def bindIO_Inr_iff db_read_Inr split: if_splits)

lemma plan_update_Inr:
  assumes q: "quiet env" and run: "plan_update ad i data env w = (Inr (current, upd, options, lk), w')"
    and ty: "target = set_or (ul_type data) (l_type current)"
  obtains limits active drafts ms now where
    "license_findById i (w_db w) = Some current" "w_db w' = w_db w"
    "updateTypeConfig (e_parseDate env) (e_toISO env) now current data target (target \<noteq> l_type current)
      (withCurrentDraft (e_toISO env) current (meter_names current (w_db w))) = Inr active"
    "drafts_of target active drafts" "upd = license_update_of current data target limits active drafts"
    "options = license_update_options_of current data (listMeters i False (w_db w)) ms"
    "validateMeters (case_option [] id (ul_meters data)) = Inr ms" "target \<noteq> Metered \<longrightarrow> ms = []"
    "validate_limits data = Inr limits"
proof -
  have customer: "w_db v' = w_db v"
    if "(case ul_customerId data of None \<Rightarrow> returnIO ()
      | Some c \<Rightarrow> bindIO (db_read (\<lambda>_. customer_findById c)) (\<lambda>customer.
          bindIO (found_or customer (NotFoundError ''Customer'' INVALID_REQUEST)) (\<lambda>_. returnIO ())))
        env v = (Inr u, v')" for u v v'
    using that q by (auto simp: bindIO_Inr_iff db_read_Inr found_or_def split: option.splits)
  have tick: "w_db (v\<lparr>w_tick := n\<rparr>) = w_db v" "w_tick (v\<lparr>w_tick := n\<rparr>) = n" for v n
    by simp_all
  from run obtain w1 limits u1 w2 ms w3 t active drafts w5 u where
    cur: "requireLicense i env w = (Inr current, w1)"
    and cus: "(case ul_customerId data of None \<Rightarrow> returnIO ()
      | Some c \<Rightarrow> bindIO (db_read (\<lambda>_. customer_findById c)) (\<lambda>customer.
          bindIO (found_or customer (NotFoundError ''Customer'' INVALID_REQUEST)) (\<lambda>_. returnIO ())))
        env w1 = (Inr u1, w2)"
    and lims: "validate_limits data = Inr limits"
    and vms: "validateMeters (case_option [] id (ul_meters data)) = Inr ms"
    and ms: "checkR (target = Metered \<or> ms = []) only_metered = Inr u"
    and act: "updateTypeConfig (e_parseDate env) (e_toISO env) t current data target
      (target \<noteq> l_type current) (withCurrentDraft (e_toISO env) current
        (if l_type current = Metered then map m_name (listMeters i False (w_db w2)) else [])) = Inr active"
    and dr: "(if target = Metered then
         bindIO (db_read (\<lambda>_. listMeters i True)) (\<lambda>allMeters.
           liftIO (meter_draft (listMeters i False (w_db w2)) allMeters ms (tc_typeDrafts active)))
       else returnIO (tc_typeDrafts active)) env w3 = (Inr drafts, w5)"
    and w3: "w3 = w2\<lparr>w_tick := Suc (w_tick w2)\<rparr>"
    and st: "stripe_conflict ad i target data env w5 = (Inr lk, w')"
    and upd: "upd = license_update_of current data target limits active drafts"
    and opt: "options = license_update_options_of current data (listMeters i False (w_db w2)) ms"
    unfolding plan_update_def Let_def bindIO_Inr_iff
    apply (elim exE conjE)
    apply (simp only: liftIO_apply askIO_apply nowIO_apply returnIO_apply db_read_Inr prod.inject sum.inject
      quiet_interfere[OF q] tick)
    apply (elim conjE)
    apply hypsubst_thin
    apply (simp only: ty[symmetric])
    done
  have id: "l_id current = i" and w1: "license_findById i (w_db w) = Some current" "w_db w1 = w_db w"
    using requireLicense_Inr[OF q cur] findById_id by auto
  have w2: "w_db w2 = w_db w" using customer[OF cus] w1(2) by simp
  have "w_db w5 = w_db w3 \<and> drafts_of target active drafts"
    using dr q w3 by (auto simp: bindIO_Inr_iff db_read_Inr drafts_of_def dest: meter_draft_Inr split: if_splits)
  moreover have "w_db w' = w_db w5" using stripe_conflict_db[OF q st] .
  ultimately show thesis
    using that[OF w1(1) _ act[unfolded w2, folded id, folded meter_names_def] _ upd opt[unfolded w2] vms _ lims] ms w3 w2 id
    by (auto simp: meter_names_def)
qed

section \<open>A change as a whole\<close>

lemma update_events_kept:
  "quiet env \<Longrightarrow> admin_capture e env w = (r, w') \<Longrightarrow> but_activity (w_db w) (w_db w')"
  using stepsD[OF service_capture_steps(2)[unfolded service_capture_def, folded admin_capture_def]]
  by (simp add: same_tables_def)

lemma updateLicense_Inr:
  assumes q: "quiet env" and run: "updateLicense ad i data env w = (Inr m, w')"
  obtains current upd options lk w1 x d' k now where
    "plan_update ad i data env w = (Inr (current, upd, options, lk), w1)"
    "licenseRepo_update (e_toISO env) (e_uuid env k) (e_now env k) (e_dbNow env k) i upd options (w_db w1) =
      Inr (x, d')"
    "m = managed now x" "licenses (w_db w') = licenses d'" "meters (w_db w') = meters d'"
    "link_of i (w_db w') = (if lk = None then link_of i d' else None)"
proof -
  from run obtain current upd options lk w1 x w2 w3 w4 e u1 u2 where
    plan: "plan_update ad i data env w = (Inr (current, upd, options, lk), w1)"
    and call: "db_call (\<lambda>env k. licenseRepo_update (e_toISO env) (e_uuid env k) (e_now env k)
      (e_dbNow env k) i upd options) env w1 = (Inr x, w2)"
    and links: "(case lk of None \<Rightarrow> returnIO ()
      | Some link \<Rightarrow> bindIO (db_call (\<lambda>_ _. deleteByLicenseId i)) (\<lambda>_.
          admin_capture (license_activity Stripe_unlinked x
            [(''subscriptionId'', JStr (s_subscriptionId link))]))) env w2 = (Inr u1, w3)"
    and cap: "admin_capture e env w3 = (Inr u2, w4)" and m: "managed_io x env w4 = (Inr m, w')"
    unfolding updateLicense_def Let_def by (clarsimp simp only: bindIO_Inr_iff split_paired_Ex prod.case)
  from call q have repo: "licenseRepo_update (e_toISO env) (e_uuid env (w_tick w1)) (e_now env (w_tick w1))
      (e_dbNow env (w_tick w1)) i upd options (w_db w1) = Inr (x, w_db w2)"
    by (auto simp: db_call_Inr)
  have "but_activity (w_db w3) (w_db w4)" using update_events_kept[OF q cap] .
  then have 4: "licenses (w_db w4) = licenses (w_db w3)" "meters (w_db w4) = meters (w_db w3)"
    "link_of i (w_db w4) = link_of i (w_db w3)"
    by (simp_all add: but_activity_def link_of_def)
  have 3: "licenses (w_db w3) = licenses (w_db w2) \<and> meters (w_db w3) = meters (w_db w2) \<and>
      link_of i (w_db w3) = (if lk = None then link_of i (w_db w2) else None)"
  proof (cases lk)
    case None
    then show ?thesis using links by simp
  next
    case (Some link)
    then obtain u b where del: "db_call (\<lambda>_ _. deleteByLicenseId i) env w2 = (Inr b, u)"
      and c: "but_activity (w_db u) (w_db w3)"
      using links update_events_kept[OF q] by (auto simp: bindIO_Inr_iff)
    from del q have "w_db u = (w_db w2)\<lparr>stripeLinks := delete_where (\<lambda>s. s_licenseId s = i) (stripeLinks (w_db w2))\<rparr>"
      by (auto simp: db_call_Inr deleteByLicenseId_def Let_def)
    then show ?thesis
      using c Some by (auto simp: but_activity_def link_of_def first_row_None_iff delete_where_def)
  qed
  have "w' = w4" "m = managed (e_now env (w_tick w4)) x"
    using m by (auto simp: managed_io_def bindIO_Inr_iff)
  then show thesis using that[OF plan repo] 3 4 by simp
qed

lemma link_plain:
  assumes c: "consistent d" and row: "row_of i d l" and ty: "ty \<noteq> l_type l"
  shows "plain_update i ty d"
proof (cases "ty = Subscription")
  case True
  then show ?thesis
    using consistentD(4)[OF c] row ty
    by (auto simp: plain_update_def link_of_None_iff links_on_subscriptions_def row_of_def)
qed (simp add: plain_update_def)

lemma change_written:
  assumes q: "quiet env" and c: "consistent (w_db w)" and row: "row_of i (w_db w) l"
    and plan: "plan_update ad i data env w = (Inr (cur, upd, options, lk), w1)" "w_db w1 = w_db w"
    and upd: "upd = license_update_of cur data ty limits active drafts" and ty: "ty \<noteq> l_type l"
    and run: "updateLicense ad i data env w = (Inr m, w')"
  obtains dbNow t b where "row_of i (w_db w') (written upd dbNow l)" "consistent (w_db w')"
    "m = managed t (toDomainLicense b (written upd dbNow l))"
    "luo_newMeters options = [] \<Longrightarrow> meters (w_db w') = meters (w_db w)"
    "ty \<noteq> Subscription \<Longrightarrow> link_of i (w_db w') = None"
proof -
  note wf = consistentD(1)[OF c]
  obtain x d' k t where
    repo: "licenseRepo_update (e_toISO env) (e_uuid env k) (e_now env k) (e_dbNow env k) i upd options
      (w_db w) = Inr (x, d')"
    and m: "m = managed t x" and w': "licenses (w_db w') = licenses d'" "meters (w_db w') = meters d'"
    and lk: "link_of i (w_db w') = (if lk = None then link_of i d' else None)"
    using updateLicense_Inr[OF q run] plan by (metis prod.inject sum.inject(2))
  have lt: "lu_type upd = Some ty" by (simp add: upd license_update_of_def split: prod.split)
  note eff = update_row[OF wf lt link_plain[OF c row ty] row repo]
  let ?l = "written upd (e_dbNow env k) l"
  have kept: "consistent (w_db w')"
    using keeps_dbD[OF keeps_db_updateLicense _ c run] q by (simp add: rely_def quiet_def)
  then have "unique_on l_id (licenses d')" using consistentD(6) w'(1) by metis
  then obtain b where "x = toDomainLicense b ?l"
    using guarded_update_of(2)[OF lt repo] eff(1) license_findById_iff[of d' i x]
    by (auto simp: row_of_def dest: unique_onD)
  then have "m = managed t (toDomainLicense b ?l)" using m by simp
  moreover have "row_of i (w_db w') ?l" using eff(1) w'(1) by (simp add: row_of_def)
  moreover have "luo_newMeters options = [] \<Longrightarrow> meters (w_db w') = meters (w_db w)"
    using update_meters[OF lt _ repo] w'(2) by simp
  moreover have "ty \<noteq> Subscription \<Longrightarrow> link_of i (w_db w') = None"
    using lk eff(2) by simp
  ultimately show thesis using that kept by blast
qed

text \<open>The first change: whatever was asked for, the drafts hold what the old type needs.\<close>

lemma change_away:
  assumes q: "quiet env" and c: "consistent (w_db w)" and l: "license_findById i (w_db w) = Some l"
    and ty: "ul_type data = Some ty" "ty \<noteq> l_type l"
    and run: "updateLicense ad i data env w = (Inr m, w')"
  shows "\<exists>r. row_of i (w_db w') r \<and> l_type r = ty \<and> set_aside (e_toISO env) l (l_typeDrafts r)"
    and "consistent (w_db w')"
    and "ty \<noteq> Metered \<Longrightarrow> meters (w_db w') = meters (w_db w)"
    and "ty \<noteq> Subscription \<Longrightarrow> link_of i (w_db w') = None"
proof -
  note wf = consistentD(1)[OF c]
  obtain s where s: "row_of i (w_db w) s" "l = toDomainLicense (billing_of i (w_db w)) s"
    using l find_row[OF wf] by blast
  obtain cur upd options lk w1 where
    plan: "plan_update ad i data env w = (Inr (cur, upd, options, lk), w1)"
    by (rule updateLicense_Inr[OF q run]) blast
  have t: "ty = set_or (ul_type data) (l_type cur)" using ty by simp
  obtain limits active drafts ms now where cur: "license_findById i (w_db w) = Some cur"
    and w1: "w_db w1 = w_db w"
    and act: "updateTypeConfig (e_parseDate env) (e_toISO env) now cur data ty (ty \<noteq> l_type cur)
      (withCurrentDraft (e_toISO env) cur (meter_names cur (w_db w))) = Inr active"
    and dr: "drafts_of ty active drafts" and upd: "upd = license_update_of cur data ty limits active drafts"
    and opt: "options = license_update_options_of cur data (listMeters i False (w_db w)) ms"
    and ms: "ty \<noteq> Metered \<longrightarrow> ms = []"
    by (rule plan_update_Inr[OF q plan t])
  have cl: "cur = l" using cur l by simp
  have "l_type s \<noteq> ty" using s(2) ty(2) by auto
  then obtain dbNow t b where r: "row_of i (w_db w') (written upd dbNow s)" and kept: "consistent (w_db w')"
    and mt: "luo_newMeters options = [] \<Longrightarrow> meters (w_db w') = meters (w_db w)"
    and lk: "ty \<noteq> Subscription \<Longrightarrow> link_of i (w_db w') = None"
    using change_written[OF q c s(1) plan w1 upd _ run] by metis
  have "set_aside (e_toISO env) l (tc_typeDrafts active)"
    using leaving_sets_aside[OF ty(2)] act ty(2) unfolding cl by simp
  then have "set_aside (e_toISO env) l drafts"
    using dr by (auto simp: set_aside_def drafts_of_def split: license_type.splits if_splits)
  moreover have "l_type (written upd dbNow s) = ty" "l_typeDrafts (written upd dbNow s) = drafts"
    by (simp_all add: written_def upd license_update_of_def apply_license_update_def split: prod.split)
  ultimately show "\<exists>r. row_of i (w_db w') r \<and> l_type r = ty \<and> set_aside (e_toISO env) l (l_typeDrafts r)"
    using r by metis
  show "consistent (w_db w')" using kept .
  show "ty \<noteq> Metered \<Longrightarrow> meters (w_db w') = meters (w_db w)"
    using mt ms by (simp add: opt license_update_options_of_def)
  show "ty \<noteq> Subscription \<Longrightarrow> link_of i (w_db w') = None" using lk .
qed

text \<open>The change back, in a run in which every call is answered.\<close>

definition switch_to :: "license_type \<Rightarrow> update_license_input" where
  "switch_to ty = no_input\<lparr>ul_type := Some ty, ul_unlinkStripe := Some True\<rparr>"

lemma switch_to_simps [simp]:
  "ul_type (switch_to ty) = Some ty" "ul_unlinkStripe (switch_to ty) = Some True"
  "ul_customerId (switch_to ty) = None" "ul_meters (switch_to ty) = None"
  "ul_expiresAt (switch_to ty) = None" "ul_trialDurationMinutes (switch_to ty) = None"
  "ul_maxIps (switch_to ty) = None" "ul_maxDevices (switch_to ty) = None"
  "ul_maxSessions (switch_to ty) = None" "ul_metadata (switch_to ty) = None"
  by (simp_all add: switch_to_def no_input_def)

lemma stripe_conflict_switch:
  "calm env \<Longrightarrow> \<exists>r w'. stripe_conflict ad i ty (switch_to ty) env w = (Inr r, w')"
  by (auto simp: stripe_conflict_def bindIO_def)

lemma stripe_conflict_switch_db:
  "calm env \<Longrightarrow> stripe_conflict ad i ty (switch_to ty) env w = (Inr r, w') \<Longrightarrow> w_db w' = w_db w"
  using stripe_conflict_db calm_quiet by blast

lemma plan_switch:
  assumes calm: "calm env" and cur: "license_findById i (w_db w) = Some cur" and ty: "ty \<noteq> l_type cur"
    and cfg: "updateTypeConfig (e_parseDate env) (e_toISO env) (e_now env (w_tick w + 2)) cur
      (switch_to ty) ty True (withCurrentDraft (e_toISO env) cur
        (if l_type cur = Metered then map m_name (listMeters i False (w_db w)) else [])) = Inr cfg"
    and met: "ty = Metered \<Longrightarrow> listMeters i False (w_db w) \<noteq> []"
  shows "\<exists>drafts lk w'. plan_update ad i (switch_to ty) env w =
    (Inr (cur, license_update_of cur (switch_to ty) ty (None, None, None) cfg drafts,
      license_update_options_of cur (switch_to ty) (listMeters i False (w_db w)) [], lk), w') \<and>
    w_db w' = w_db w"
proof -
  let ?w = "w\<lparr>w_tick := Suc (Suc (w_tick w))\<rparr>"
  obtain drafts w1 where dr: "(if ty = Metered then
         bindIO (db_read (\<lambda>_. listMeters i True)) (\<lambda>allMeters.
           liftIO (meter_draft (listMeters i False (w_db w)) allMeters [] (tc_typeDrafts cfg)))
       else returnIO (tc_typeDrafts cfg)) env ?w = (Inr drafts, w1)" and w1: "w_db w1 = w_db w"
    using met calm by (cases "ty = Metered") (auto simp: bindIO_def meter_draft_def Let_def)
  obtain lk w2 where st: "stripe_conflict ad i ty (switch_to ty) env w1 = (Inr lk, w2)"
    using stripe_conflict_switch[OF calm] by blast
  have req: "requireLicense i env w = (Inr cur, w\<lparr>w_tick := Suc (w_tick w)\<rparr>)"
    using calm cur by (simp add: requireLicense_def findById_io_def bindIO_def found_or_def)
  have fields: "filter (\<lambda>f. f \<noteq> ''unlinkStripe'') (update_fields (switch_to ty)) = [''type'']"
    by (simp add: update_fields_def AdminRules.present_def)
  have lims: "validate_limits (switch_to ty) = Inr (None, None, None)"
    by (simp add: validate_limits_def optionalR_def Let_def)
  show ?thesis
    using calm ty cfg dr st stripe_conflict_switch_db[OF calm st] w1
    by (simp add: plan_update_def bindIO_run fields req lims settings_allowed_def validateMeters_def Let_def)
      blast
qed

lemma updateLicense_runs:
  assumes calm: "calm env" and plan: "plan_update ad i data env w = (Inr (cur, upd, options, lk), w1)"
    and repo: "\<And>toISO ids now dbNow.
      \<exists>x d'. licenseRepo_update toISO ids now dbNow i upd options (w_db w1) = Inr (x, d')"
  shows "\<exists>m w'. updateLicense ad i data env w = (Inr m, w')"
proof -
  obtain x w2 where call: "db_call (\<lambda>env k. licenseRepo_update (e_toISO env) (e_uuid env k) (e_now env k)
      (e_dbNow env k) i upd options) env w1 = (Inr x, w2)"
    using repo[of "e_toISO env" "e_uuid env (w_tick w1)" "e_now env (w_tick w1)" "e_dbNow env (w_tick w1)"]
    by (auto simp: calm_db_call[OF calm])
  have cap: "\<exists>v'. admin_capture e env v = (Inr (), v')" for e v
    using best_effort_total unfolding admin_capture_def by blast
  obtain w3 where links: "(case lk of None \<Rightarrow> returnIO ()
      | Some link \<Rightarrow> bindIO (db_call (\<lambda>_ _. deleteByLicenseId i)) (\<lambda>_.
          admin_capture (license_activity Stripe_unlinked x
            [(''subscriptionId'', JStr (s_subscriptionId link))]))) env w2 = (Inr (), w3)"
    using cap by (cases lk) (auto simp: bindIO_def calm_db_call[OF calm] deleteByLicenseId_def Let_def)
  obtain e where e: "updateLicense ad i data env w = bindIO (admin_capture e) (\<lambda>_. managed_io x) env w3"
    by (simp add: updateLicense_def bindIO_run plan call links Let_def)
  obtain w4 where "admin_capture e env w3 = (Inr (), w4)" using cap by blast
  then show ?thesis unfolding e by (simp add: bindIO_run managed_io_def)
qed

text \<open>The second change: it is committed, and writes the settings the drafts hold.\<close>

lemma listMeters_active: "listMeters i False d = [] \<longleftrightarrow> active_meters i d = []"
  by (simp add: listMeters_def active_meters_def flip: length_0_conv)

lemma switch_row_ok:
  fixes r :: stored_license
  assumes c: "consistent d" and row: "row_of i d r" and fits: "config_fits ty cfg"
    and id: "l_customerId cur = l_customerId r" "l_maxIps cur = l_maxIps r"
      "l_maxDevices cur = l_maxDevices r" "l_maxSessions cur = l_maxSessions r"
    and upd: "upd = license_update_of cur (switch_to ty) ty (None, None, None) cfg drafts"
  shows "license_row_ok (apply_license_update upd r)" "license_row_int4 (apply_license_update upd r)"
    "customer_exists (l_customerId (apply_license_update upd r)) d"
proof -
  have "license_row_ok r \<and> license_row_int4 r \<and> customer_exists (l_customerId r) d"
    using consistentD(1)[OF c] row by (simp add: db_wf_def licenses_wf_def row_of_def)
  then show "license_row_ok (apply_license_update upd r)" "license_row_int4 (apply_license_update upd r)"
    "customer_exists (l_customerId (apply_license_update upd r)) d"
    using fits id
    by (auto simp: upd apply_license_update_def license_update_of_def license_row_ok_def
        license_row_int4_def config_fits_def int4_def MAX_LICENSE_LIMIT_def split: if_splits)
qed

lemma change_back:
  assumes calm: "calm env" and c: "consistent (w_db w)" and row: "row_of i (w_db w) r"
    and ty: "ty \<noteq> l_type r" and cur: "cur = toDomainLicense (billing_of i (w_db w)) r"
    and cfg: "updateTypeConfig (e_parseDate env) (e_toISO env) (e_now env (w_tick w + 2)) cur
      (switch_to ty) ty True (withCurrentDraft (e_toISO env) cur
        (if l_type cur = Metered then map m_name (listMeters i False (w_db w)) else [])) = Inr cfg"
    and met: "ty = Metered \<Longrightarrow> active_meters i (w_db w) \<noteq> []"
  shows "\<exists>m w' r' t b. updateLicense ad i (switch_to ty) env w = (Inr m, w') \<and>
    row_of i (w_db w') r' \<and> l_type r' = ty \<and> l_expiresAt r' = tc_expiresAt cfg \<and>
    l_trialDurationMinutes r' = tc_trialDurationMinutes cfg \<and> m = managed t (toDomainLicense b r') \<and>
    consistent (w_db w') \<and> meters (w_db w') = meters (w_db w)"
proof -
  note wf = consistentD(1)[OF c]
  have found: "license_findById i (w_db w) = Some cur" using find_row[OF wf] row cur by blast
  have tc: "ty \<noteq> l_type cur" using ty cur by simp
  obtain drafts lk w1 where plan: "plan_update ad i (switch_to ty) env w =
      (Inr (cur, license_update_of cur (switch_to ty) ty (None, None, None) cfg drafts,
        license_update_options_of cur (switch_to ty) (listMeters i False (w_db w)) [], lk), w1)"
    and w1: "w_db w1 = w_db w"
    using plan_switch[OF calm found tc cfg] met listMeters_active by blast
  let ?upd = "license_update_of cur (switch_to ty) ty (None, None, None) cfg drafts"
  let ?opt = "license_update_options_of cur (switch_to ty) (listMeters i False (w_db w)) []"
  have lt: "lu_type ?upd = Some ty" and opts: "luo_expectedUpdatedAt ?opt = Some (l_updatedAt r)"
    "luo_newMeters ?opt = []" "luo_confirmStripeUnlink ?opt"
    by (simp_all add: license_update_of_def license_update_options_of_def cur)
  have "\<exists>x d'. licenseRepo_update toISO ids now dbNow i ?upd ?opt (w_db w1) = Inr (x, d')"
    for toISO ids now dbNow
    unfolding w1
    by (rule update_runs[OF wf row lt link_plain[OF c row ty] opts met
          switch_row_ok[OF c row updateTypeConfig_fits[OF cfg] _ _ _ _ refl]]) (simp_all add: cur)
  from updateLicense_runs[OF calm plan this] obtain m w' where
    run: "updateLicense ad i (switch_to ty) env w = (Inr m, w')" by blast
  obtain dbNow t b where "row_of i (w_db w') (written ?upd dbNow r)" "consistent (w_db w')"
    "m = managed t (toDomainLicense b (written ?upd dbNow r))" "meters (w_db w') = meters (w_db w)"
    using change_written[OF calm_quiet[OF calm] c row plan w1 refl ty run] opts(2) by metis
  moreover have "l_type (written ?upd dbNow r) = ty" "l_expiresAt (written ?upd dbNow r) = tc_expiresAt cfg"
    "l_trialDurationMinutes (written ?upd dbNow r) = tc_trialDurationMinutes cfg"
    by (simp_all add: written_def license_update_of_def apply_license_update_def)
  ultimately show ?thesis using run by blast
qed

text \<open>Between the changes: the licence is parked, and what its old type needs is there.\<close>

lemma parked:
  assumes calm: "calm env" and c: "consistent (w_db w)" and l: "license_findById i (w_db w) = Some l"
    and ty: "ul_type data = Some ty" "ty \<noteq> l_type l"
    and away: "updateLicense ad i data env w = (Inr m1, w1)"
    and later: "consistent (w_db w2)" "license_findById i (w_db w2) = license_findById i (w_db w1)"
      "active_meters i (w_db w2) = active_meters i (w_db w1)"
  obtains r where "row_of i (w_db w2) r" "l_type r = ty" "set_aside (e_toISO env) l (l_typeDrafts r)"
    "license_row_ok l" "license_row_int4 l"
    "l_type l = Metered \<longrightarrow> active_meters i (w_db w2) = active_meters i (w_db w) \<and>
      active_meters i (w_db w2) \<noteq> []"
proof -
  note gone = change_away[OF calm_quiet[OF calm] c l ty away]
  obtain s where s: "row_of i (w_db w) s" "l = toDomainLicense (billing_of i (w_db w)) s"
    using l find_row[OF consistentD(1)[OF c]] by blast
  then have ok: "license_row_ok l" "license_row_int4 l"
    using consistentD(1)[OF c]
    by (auto simp: db_wf_def licenses_wf_def row_of_def license_row_ok_def license_row_int4_def)
  obtain r1 where r1: "row_of i (w_db w1) r1" "l_type r1 = ty" "set_aside (e_toISO env) l (l_typeDrafts r1)"
    using gone(1) by blast
  obtain r where r: "row_of i (w_db w2) r" "l_type r = ty" "l_typeDrafts r = l_typeDrafts r1"
    using r1 later(2) find_row[OF consistentD(1)[OF gone(2)]] find_row[OF consistentD(1)[OF later(1)]]
    by (metis toDomainLicense_simps)
  have kept: "active_meters i (w_db w2) = active_meters i (w_db w)" if "l_type l = Metered"
    using gone(3) later(3) ty(2) that by (simp add: active_meters_def)
  moreover have "active_meters i (w_db w) \<noteq> []" if "l_type l = Metered"
    using that consistentD(3)[OF c] s by (auto simp: metered_have_meters_def row_of_def)
  ultimately show thesis using that[OF r(1,2) _ ok] r(3) r1(3) by simp
qed

section \<open>Properties\<close>

text \<open>
  C23: changing the type of a licence and changing it back restores its settings. Suppose an
  operator's \<open>updateLicense\<close> moved a licence to another type, whatever else it changed, and the
  row of the licence and its active meters are still as it left them. Then \<open>updateLicense\<close> with
  nothing but the old type (and the confirmation to unlink Stripe) answers, and the licence it
  stores and returns has the old type with its old settings: the length of a trial, the expiry of
  a subscription that is still in the future, the active meters of a metered licence with their
  balances. The calls of both requests are answered and no other request changes the stores
  while they run.
\<close>

theorem drafts_restore_settings:
  assumes calm: "calm env" and c: "consistent (w_db w)" and l: "license_findById i (w_db w) = Some l"
    and ty: "ul_type data = Some ty" "ty \<noteq> l_type l"
    and away: "updateLicense ad i data env w = (Inr m1, w1)"
    and later: "consistent (w_db w2)" "license_findById i (w_db w2) = license_findById i (w_db w1)"
      "active_meters i (w_db w2) = active_meters i (w_db w1)"
    and future: "\<And>t. l_type l = Subscription \<Longrightarrow> l_expiresAt l = Some t \<Longrightarrow>
      e_toISO env t \<noteq> [] \<and> e_parseDate env (e_toISO env t) = Some t \<and> e_now env (w_tick w2 + 2) < t"
  shows "\<exists>m2 w3 x. updateLicense ad i (switch_to (l_type l)) env w2 = (Inr m2, w3) \<and>
    license_findById i (w_db w3) = Some x \<and> l_type x = l_type l \<and> ml_type m2 = l_type l \<and>
    (l_type l = Trial \<longrightarrow> l_trialDurationMinutes x = l_trialDurationMinutes l \<and>
      ml_trialDurationMinutes m2 = l_trialDurationMinutes l) \<and>
    (l_type l = Subscription \<longrightarrow> l_expiresAt x = l_expiresAt l \<and> ml_expiresAt m2 = l_expiresAt l) \<and>
    (l_type l = Metered \<longrightarrow> active_meters i (w_db w3) = active_meters i (w_db w))"
proof -
  obtain r where row: "row_of i (w_db w2) r" "l_type r = ty" and aside: "set_aside (e_toISO env) l (l_typeDrafts r)"
    and ok: "license_row_ok l" "license_row_int4 l"
    and met: "l_type l = Metered \<longrightarrow> active_meters i (w_db w2) = active_meters i (w_db w) \<and>
      active_meters i (w_db w2) \<noteq> []"
    by (rule parked[OF calm c l ty away later])
  define cur where "cur = toDomainLicense (billing_of i (w_db w2)) r"
  have ne: "l_type l \<noteq> l_type r" "l_type cur \<noteq> l_type l" and aside': "set_aside (e_toISO env) l (l_typeDrafts cur)"
    using row(2) ty(2) aside by (auto simp: cur_def)
  obtain cfg where cfg: "updateTypeConfig (e_parseDate env) (e_toISO env) (e_now env (w_tick w2 + 2)) cur
      (switch_to (l_type l)) (l_type l) True (withCurrentDraft (e_toISO env) cur
        (if l_type cur = Metered then map m_name (listMeters i False (w_db w2)) else [])) = Inr cfg"
    and old: "l_type l = Trial \<longrightarrow> tc_trialDurationMinutes cfg = l_trialDurationMinutes l"
      "l_type l = Subscription \<longrightarrow> tc_expiresAt cfg = l_expiresAt l"
    using returning_restores[OF ok ne(2) aside' switch_to_simps(5,6) future] by blast
  from change_back[OF calm later(1) row(1) ne(1) cur_def cfg] met obtain m2 w3 r' t b where
    run: "updateLicense ad i (switch_to (l_type l)) env w2 = (Inr m2, w3)" and r': "row_of i (w_db w3) r'"
    and vals: "l_type r' = l_type l" "l_expiresAt r' = tc_expiresAt cfg"
      "l_trialDurationMinutes r' = tc_trialDurationMinutes cfg"
    and m2: "m2 = managed t (toDomainLicense b r')" and c3: "consistent (w_db w3)"
    and mt: "meters (w_db w3) = meters (w_db w2)"
    by blast
  have "license_findById i (w_db w3) = Some (toDomainLicense (billing_of i (w_db w3)) r')"
    using find_row[OF consistentD(1)[OF c3]] r' by blast
  moreover have "active_meters i (w_db w3) = active_meters i (w_db w)" if "l_type l = Metered"
    using mt met that by (simp add: active_meters_def)
  ultimately show ?thesis using run vals old m2
    by (intro exI[of _ m2] exI[of _ w3] exI[of _ "toDomainLicense (billing_of i (w_db w3)) r'"])
      (simp add: managed_def Let_def)
qed

theorem drafts_restore_settings_witness:
  "\<forall>ad. \<exists>m1 w1 m2 w3.
    updateLicense ad ''L'' (switch_to Lifetime) sample_env (sample_world Trial) = (Inr m1, w1) \<and>
    updateLicense ad ''L'' (switch_to Trial) sample_env w1 = (Inr m2, w3) \<and>
    ml_type m1 = Lifetime \<and> ml_type m2 = Trial \<and>
    ml_trialDurationMinutes m2 = l_trialDurationMinutes (sample_license Trial)"
proof
  fix ad :: admin
  let ?w = "sample_world Trial" and ?l = "toDomainLicense None (sample_license Trial)"
  have c: "consistent (w_db ?w)"
    using sample_db_wf[of Trial]
    by (auto simp: consistent_def books_ok_def metered_have_meters_def links_on_subscriptions_def
        entries_in_credit_def sample_world_def sample_defs)
  have row: "row_of ''L'' (w_db ?w) (sample_license Trial)"
    and l: "license_findById ''L'' (w_db ?w) = Some ?l" and bill: "billing_of ''L'' (w_db ?w) = None"
    by (simp_all add: row_of_def license_findById_def billing_of_def sample_world_def sample_defs)
  obtain cfg where cfg: "updateTypeConfig (e_parseDate sample_env) (e_toISO sample_env)
      (e_now sample_env (w_tick ?w + 2)) ?l (switch_to Lifetime) Lifetime True (withCurrentDraft (e_toISO sample_env) ?l
        (if l_type ?l = Metered then map m_name (listMeters ''L'' False (w_db ?w)) else [])) = Inr cfg"
    by (simp add: updateTypeConfig_def)
  have away: "Lifetime \<noteq> l_type (sample_license Trial)" "Lifetime \<noteq> l_type ?l" "l_type ?l = Trial"
    by (simp_all add: sample_license_def)
  have eq: "?l = toDomainLicense (billing_of ''L'' (w_db ?w)) (sample_license Trial)"
    and nm: "Lifetime = Metered \<Longrightarrow> active_meters ''L'' (w_db ?w) \<noteq> []"
    using bill by simp_all
  from change_back[OF sample_calm c row away(1) eq cfg nm] obtain m1 w1 r t b where
    run: "updateLicense ad ''L'' (switch_to Lifetime) sample_env ?w = (Inr m1, w1)"
    and m1: "m1 = managed t (toDomainLicense b r)" "l_type r = Lifetime" and c1: "consistent (w_db w1)"
    by blast
  from drafts_restore_settings[OF sample_calm c l switch_to_simps(1) away(2) run c1 refl refl]
  obtain m2 w3 where "updateLicense ad ''L'' (switch_to Trial) sample_env w1 = (Inr m2, w3)"
    "ml_type m2 = Trial" "ml_trialDurationMinutes m2 = l_trialDurationMinutes (sample_license Trial)"
    using away(3) by auto
  then show "\<exists>m1 w1 m2 w3.
    updateLicense ad ''L'' (switch_to Lifetime) sample_env (sample_world Trial) = (Inr m1, w1) \<and>
    updateLicense ad ''L'' (switch_to Trial) sample_env w1 = (Inr m2, w3) \<and>
    ml_type m1 = Lifetime \<and> ml_type m2 = Trial \<and>
    ml_trialDurationMinutes m2 = l_trialDurationMinutes (sample_license Trial)"
    using run m1 by (auto simp: managed_def Let_def)
qed

end
