(* ===== verification/Schemas.thy ===== *)
theory Schemas
  imports Entities
begin

text \<open>
  \<open>controllers/validation.ts\<close>: the schemas of what the HTTP interface takes and of what
  it answers, to clients and to operators. \<open>schema\<close> has the constructors of the schema library that the file uses,
  and \<open>valid\<close> is the library's documented check of a JSON value: the length of a string counts
  code units, an object is neither null nor a list, an integer is a number without a fraction, an
  object with \<open>additionalProperties: false\<close> has no other member. The library's two string formats
  are the parameter \<open>formats\<close>. A \<open>Date\<close> in an answer is the text \<open>JSON.stringify\<close> sends for it, and
  the schema of a date is that of a date-time text.
\<close>

section \<open>Schemas\<close>

record formats =
  fm_email :: "string \<Rightarrow> bool"
  fm_dateTime :: "string \<Rightarrow> bool"

datatype text_shape = Any_text | Email | Date_time | Stripe_subscription_id

datatype schema =
    Sc_string text_shape nat "nat option"
  | Sc_integer "int option" "int option"
  | Sc_boolean
  | Sc_null
  | Sc_literal json
  | Sc_union "schema list"
  | Sc_record
  | Sc_array schema "nat option"
  | Sc_object "(string \<times> bool \<times> schema) list" bool nat

text \<open>\<open>^sub_[A-Za-z0-9_]+$\<close>\<close>

definition word_char :: "char \<Rightarrow> bool" where
  "word_char c \<longleftrightarrow> is_digit c \<or> c = CHR ''_'' \<or>
    65 \<le> (of_char c :: nat) \<and> (of_char c :: nat) \<le> 90 \<or>
    97 \<le> (of_char c :: nat) \<and> (of_char c :: nat) \<le> 122"

definition subscription_pattern :: "string \<Rightarrow> bool" where
  "subscription_pattern s \<longleftrightarrow> take 4 s = ''sub_'' \<and> drop 4 s \<noteq> [] \<and> list_all word_char (drop 4 s)"

fun shaped :: "formats \<Rightarrow> text_shape \<Rightarrow> string \<Rightarrow> bool" where
  "shaped fm Any_text s = True"
| "shaped fm Email s = fm_email fm s"
| "shaped fm Date_time s = fm_dateTime fm s"
| "shaped fm Stripe_subscription_id s = subscription_pattern s"

definition up_to :: "'a::linorder option \<Rightarrow> 'a \<Rightarrow> bool" where
  "up_to bound x = (case bound of None \<Rightarrow> True | Some b \<Rightarrow> x \<le> b)"

definition from_on :: "'a::linorder option \<Rightarrow> 'a \<Rightarrow> bool" where
  "from_on bound x = (case bound of None \<Rightarrow> True | Some b \<Rightarrow> b \<le> x)"

text \<open>A member is its name, whether it is required, and its schema.\<close>

fun valid :: "formats \<Rightarrow> schema \<Rightarrow> json \<Rightarrow> bool"
and valid_one_of :: "formats \<Rightarrow> schema list \<Rightarrow> json \<Rightarrow> bool"
and valid_members :: "formats \<Rightarrow> (string \<times> bool \<times> schema) list \<Rightarrow> json_object \<Rightarrow> bool"
where
  "valid fm (Sc_string shape lo hi) v =
    (case v of JStr s \<Rightarrow> lo \<le> length s \<and> up_to hi (length s) \<and> shaped fm shape s | _ \<Rightarrow> False)"
| "valid fm (Sc_integer lo hi) v =
    (case v of JNum (Integral i) \<Rightarrow> from_on lo i \<and> up_to hi i | _ \<Rightarrow> False)"
| "valid fm Sc_boolean v = (case v of JBool _ \<Rightarrow> True | _ \<Rightarrow> False)"
| "valid fm Sc_null v = (v = JNull)"
| "valid fm (Sc_literal c) v = (v = c)"
| "valid fm (Sc_union ss) v = valid_one_of fm ss v"
| "valid fm Sc_record v = (case v of JObj _ \<Rightarrow> True | _ \<Rightarrow> False)"
| "valid fm (Sc_array s hi) v =
    (case v of JArr vs \<Rightarrow> up_to hi (length vs) \<and> list_all (valid fm s) vs | _ \<Rightarrow> False)"
| "valid fm (Sc_object members additional minProperties) v =
    (case v of
      JObj kvs \<Rightarrow> valid_members fm members kvs \<and>
        (additional \<or> set (map fst kvs) \<subseteq> set (map fst members)) \<and>
        minProperties \<le> length (remdups (map fst kvs))
    | _ \<Rightarrow> False)"
| "valid_one_of fm [] v = False"
| "valid_one_of fm (s # ss) v = (valid fm s v \<or> valid_one_of fm ss v)"
| "valid_members fm [] kvs = True"
| "valid_members fm ((name, required, s) # ms) kvs =
    ((case map_of kvs name of None \<Rightarrow> \<not> required | Some v \<Rightarrow> valid fm s v) \<and> valid_members fm ms kvs)"

declare valid.simps [simp del]

lemmas schema_simps = valid.simps up_to_def from_on_def

lemma valid_object_iff [simp]:
  "valid fm (Sc_object members additional n) v \<longleftrightarrow>
    (\<exists>kvs. v = JObj kvs \<and> valid_members fm members kvs \<and>
      (additional \<or> set (map fst kvs) \<subseteq> set (map fst members)) \<and> n \<le> length (remdups (map fst kvs)))"
  by (cases v) (simp_all add: valid.simps)

lemma valid_string_iff [simp]:
  "valid fm (Sc_string shape lo hi) v \<longleftrightarrow>
    (\<exists>s. v = JStr s \<and> lo \<le> length s \<and> up_to hi (length s) \<and> shaped fm shape s)"
  by (cases v) (simp_all add: valid.simps)

lemma valid_integer_iff [simp]:
  "valid fm (Sc_integer lo hi) v \<longleftrightarrow> (\<exists>i. v = JNum (Integral i) \<and> from_on lo i \<and> up_to hi i)"
  by (cases v) (simp_all add: valid.simps split: jsnum.split)

lemma valid_record_iff [simp]: "valid fm Sc_record v \<longleftrightarrow> (\<exists>kvs. v = JObj kvs)"
  by (cases v) (simp_all add: valid.simps)

lemma valid_array_iff [simp]:
  "valid fm (Sc_array s hi) v \<longleftrightarrow>
    (\<exists>vs. v = JArr vs \<and> up_to hi (length vs) \<and> (\<forall>x \<in> set vs. valid fm s x))"
  by (cases v) (simp_all add: valid.simps list_all_iff)

lemma valid_boolean_iff [simp]: "valid fm Sc_boolean v \<longleftrightarrow> (\<exists>b. v = JBool b)"
  by (cases v) (simp_all add: valid.simps)

lemmas valid_others [simp] = valid.simps(4,5,6)

lemma up_to_simps [simp]: "up_to None x" "up_to (Some b) x \<longleftrightarrow> x \<le> b"
  "from_on None x" "from_on (Some b) x \<longleftrightarrow> b \<le> x"
  by (simp_all add: up_to_def from_on_def)

section \<open>The schemas of the interface\<close>

definition need :: "string \<Rightarrow> schema \<Rightarrow> string \<times> bool \<times> schema" where
  "need name s = (name, True, s)"

definition maybe :: "string \<Rightarrow> schema \<Rightarrow> string \<times> bool \<times> schema" where
  "maybe name s = (name, False, s)"

definition chars :: "nat \<Rightarrow> nat \<Rightarrow> schema" where
  "chars lo hi = Sc_string Any_text lo (Some hi)"

definition strict :: "(string \<times> bool \<times> schema) list \<Rightarrow> schema" where
  "strict members = Sc_object members False 0"

lemmas schema_notation = need_def maybe_def chars_def strict_def

definition LicenseTypeSchema :: schema where
  "LicenseTypeSchema = Sc_union [Sc_literal (JStr ''lifetime''), Sc_literal (JStr ''subscription''),
    Sc_literal (JStr ''metered''), Sc_literal (JStr ''trial'')]"

definition JsonObjectSchema :: schema where
  "JsonObjectSchema = Sc_record"

definition ErrorResponseSchema :: schema where
  "ErrorResponseSchema = Sc_object [need ''error'' (Sc_string Any_text 0 None),
    need ''code'' (Sc_string Any_text 0 None)] True 0"

definition SuccessResponseSchema :: schema where
  "SuccessResponseSchema = Sc_object [need ''success'' (Sc_literal (JBool True))] True 0"

definition DeviceIdSchema :: schema where
  "DeviceIdSchema = chars 1 128"

definition SessionTokenSchema :: schema where
  "SessionTokenSchema = chars 32 512"

definition MeterNameSchema :: schema where
  "MeterNameSchema = chars 1 128"

definition EventIdSchema :: schema where
  "EventIdSchema = chars 1 128"

definition ResourceIdSchema :: schema where
  "ResourceIdSchema = chars 1 128"

definition OperatorReasonSchema :: schema where
  "OperatorReasonSchema = chars 1 500"

definition LimitSchema :: schema where
  "LimitSchema = Sc_integer (Some 0) (Some MAX_LICENSE_LIMIT)"

definition ActivateInputSchema :: schema where
  "ActivateInputSchema = strict [need ''licenseKey'' (chars 1 128), need ''deviceId'' DeviceIdSchema]"

definition SessionInputSchema :: schema where
  "SessionInputSchema = strict [need ''sessionToken'' SessionTokenSchema, need ''deviceId'' DeviceIdSchema]"

definition UsageInputSchema :: schema where
  "UsageInputSchema = strict [need ''sessionToken'' SessionTokenSchema, need ''deviceId'' DeviceIdSchema,
    need ''meter'' MeterNameSchema, need ''units'' (Sc_integer (Some 1) (Some MAX_LICENSE_LIMIT)),
    need ''eventId'' EventIdSchema]"

definition LicenseSessionResponseSchema :: schema where
  "LicenseSessionResponseSchema = Sc_object [need ''success'' (Sc_literal (JBool True)),
    need ''licenseType'' LicenseTypeSchema, need ''metadata'' JsonObjectSchema,
    need ''sessionToken'' SessionTokenSchema,
    need ''sessionTtlSeconds'' (Sc_integer (Some 1) (Some 86400))] True 0"

definition UsageResponseSchema :: schema where
  "UsageResponseSchema = Sc_object [need ''success'' (Sc_literal (JBool True)),
    need ''meter'' MeterNameSchema, need ''units'' (Sc_integer (Some 1) (Some MAX_LICENSE_LIMIT)),
    need ''eventId'' EventIdSchema, need ''remaining'' LimitSchema] True 0"

definition CustomerInputSchema :: schema where
  "CustomerInputSchema = strict [need ''email'' (Sc_string Email 0 (Some 254)),
    need ''name'' (chars 1 200), maybe ''metadata'' JsonObjectSchema]"

definition CustomerPatchSchema :: schema where
  "CustomerPatchSchema = Sc_object [maybe ''email'' (Sc_string Email 0 (Some 254)),
    maybe ''name'' (chars 1 200), maybe ''metadata'' JsonObjectSchema] False 1"

definition NewMeterInputSchema :: schema where
  "NewMeterInputSchema = strict [need ''name'' MeterNameSchema, need ''balance'' LimitSchema,
    need ''reason'' OperatorReasonSchema]"

definition LicenseInputSchema :: schema where
  "LicenseInputSchema = strict [need ''customerId'' ResourceIdSchema, need ''type'' LicenseTypeSchema,
    maybe ''maxIps'' LimitSchema, maybe ''maxDevices'' LimitSchema, maybe ''maxSessions'' LimitSchema,
    maybe ''trialDurationMinutes'' LimitSchema, maybe ''metadata'' JsonObjectSchema,
    maybe ''expiresAt'' (Sc_string Date_time 0 None),
    maybe ''meters'' (Sc_array NewMeterInputSchema (Some 100))]"

definition LicensePatchSchema :: schema where
  "LicensePatchSchema = Sc_object [maybe ''customerId'' ResourceIdSchema, maybe ''type'' LicenseTypeSchema,
    maybe ''maxIps'' LimitSchema, maybe ''maxDevices'' LimitSchema, maybe ''maxSessions'' LimitSchema,
    maybe ''trialDurationMinutes'' LimitSchema, maybe ''metadata'' JsonObjectSchema,
    maybe ''meters'' (Sc_array NewMeterInputSchema (Some 100)),
    maybe ''expiresAt'' (Sc_union [Sc_string Date_time 0 None, Sc_null]),
    maybe ''confirmStripeUnlink'' Sc_boolean] False 1"

definition RevokeInputSchema :: schema where
  "RevokeInputSchema = strict [need ''reason'' OperatorReasonSchema]"

definition ConfirmInputSchema :: schema where
  "ConfirmInputSchema = strict [need ''confirm'' (Sc_literal (JBool True))]"

definition IpAllowlistInputSchema :: schema where
  "IpAllowlistInputSchema = strict [need ''ip'' (chars 2 45)]"

definition DeviceAllowlistInputSchema :: schema where
  "DeviceAllowlistInputSchema = strict [need ''deviceId'' DeviceIdSchema]"

definition MeterAdjustmentInputSchema :: schema where
  "MeterAdjustmentInputSchema = strict [
    need ''delta'' (Sc_integer (Some (- MAX_LICENSE_LIMIT)) (Some MAX_LICENSE_LIMIT)),
    need ''reason'' OperatorReasonSchema]"

definition MeterTopUpInputSchema :: schema where
  "MeterTopUpInputSchema = strict [need ''units'' (Sc_integer (Some 1) (Some MAX_LICENSE_LIMIT)),
    need ''reason'' OperatorReasonSchema]"

definition StripeLinkInputSchema :: schema where
  "StripeLinkInputSchema = strict [need ''subscriptionId'' (Sc_string Stripe_subscription_id 5 (Some 255))]"

section \<open>The answers to operators\<close>

definition texts :: "string list \<Rightarrow> schema list" where
  "texts = map (\<lambda>s. Sc_literal (JStr s))"

definition DateSchema :: schema where
  "DateSchema = Sc_string Date_time 0 None"

definition any_text :: schema where
  "any_text = Sc_string Any_text 0 None"

definition nullable :: "schema \<Rightarrow> schema" where
  "nullable s = Sc_union [s, Sc_null]"

definition shape :: "(string \<times> bool \<times> schema) list \<Rightarrow> schema" where
  "shape members = Sc_object members True 0"

definition CustomerResponseSchema :: schema where
  "CustomerResponseSchema = shape [need ''id'' ResourceIdSchema,
    need ''email'' (Sc_string Email 0 None), need ''name'' any_text, need ''metadata'' JsonObjectSchema,
    need ''createdAt'' DateSchema, need ''updatedAt'' DateSchema]"

definition EffectiveStatusSchema :: schema where
  "EffectiveStatusSchema = shape [
    need ''status'' (Sc_union (texts [''active'', ''expired'', ''revoked''])),
    need ''reason'' (Sc_union (texts [''manual_revocation'', ''billing_revocation'',
      ''subscription_expired'', ''trial_expired''] @ [Sc_null]))]"

definition LicenseTypeDraftsSchema :: schema where
  "LicenseTypeDraftsSchema = shape [maybe ''lifetime'' JsonObjectSchema,
    maybe ''subscription'' (shape [need ''expiresAt'' (Sc_union [any_text, Sc_null])]),
    maybe ''metered'' (shape [need ''meterNames'' (Sc_array any_text None)]),
    maybe ''trial'' (shape [need ''durationMinutes'' LimitSchema])]"

definition license_members :: "(string \<times> bool \<times> schema) list" where
  "license_members = [need ''id'' ResourceIdSchema, need ''keyPrefix'' any_text,
    need ''customerId'' ResourceIdSchema, need ''type'' LicenseTypeSchema,
    need ''maxIps'' LimitSchema, need ''maxDevices'' LimitSchema, need ''maxSessions'' LimitSchema,
    need ''trialDurationMinutes'' LimitSchema, need ''trialStartedAt'' (nullable DateSchema),
    need ''metadata'' JsonObjectSchema, need ''expiresAt'' (nullable DateSchema),
    need ''typeDrafts'' LicenseTypeDraftsSchema, need ''manualRevokedAt'' (nullable DateSchema),
    need ''manualRevocationReason'' (nullable any_text),
    need ''billingRevokedAt'' (nullable DateSchema), need ''status'' EffectiveStatusSchema,
    need ''createdAt'' DateSchema, need ''updatedAt'' DateSchema]"

definition LicenseResponseSchema :: schema where
  "LicenseResponseSchema = shape license_members"

definition CreatedLicenseResponseSchema :: schema where
  "CreatedLicenseResponseSchema = shape (license_members @ [need ''licenseKey'' (chars 1 128)])"

definition LicenseMeterResponseSchema :: schema where
  "LicenseMeterResponseSchema = shape [need ''id'' ResourceIdSchema, need ''licenseId'' ResourceIdSchema,
    need ''name'' MeterNameSchema, need ''balance'' LimitSchema, need ''archivedAt'' (nullable DateSchema),
    need ''createdAt'' DateSchema, need ''updatedAt'' DateSchema]"

definition UsageLedgerResponseSchema :: schema where
  "UsageLedgerResponseSchema = shape [need ''id'' ResourceIdSchema, need ''licenseId'' ResourceIdSchema,
    need ''meterId'' ResourceIdSchema, need ''eventId'' EventIdSchema,
    need ''kind'' (Sc_union (texts [''create'', ''consume'', ''top_up'', ''adjustment'', ''archive''])),
    need ''delta'' (Sc_integer None None), need ''balanceBefore'' LimitSchema,
    need ''balanceAfter'' LimitSchema, need ''reason'' (nullable any_text), need ''createdAt'' DateSchema]"

definition attempt_schema :: schema where
  "attempt_schema = shape [need ''value'' any_text, need ''attemptCount'' (Sc_integer (Some 0) None),
    need ''firstAttemptedAt'' DateSchema, need ''lastAttemptedAt'' DateSchema]"

definition AccessResponseSchema :: schema where
  "AccessResponseSchema = shape [
    need ''allowedIps'' (Sc_array (shape [need ''id'' ResourceIdSchema, need ''licenseId'' ResourceIdSchema,
      need ''ip'' any_text, need ''createdAt'' DateSchema]) None),
    need ''allowedDevices'' (Sc_array (shape [need ''id'' ResourceIdSchema,
      need ''licenseId'' ResourceIdSchema, need ''deviceId'' any_text, need ''createdAt'' DateSchema]) None),
    need ''registeredDevices'' (Sc_array (shape [need ''id'' ResourceIdSchema,
      need ''licenseId'' ResourceIdSchema, need ''ip'' any_text, need ''deviceId'' any_text,
      need ''createdAt'' DateSchema, need ''lastSeenAt'' DateSchema]) None),
    need ''attemptedIps'' (Sc_array attempt_schema None),
    need ''attemptedDevices'' (Sc_array attempt_schema None)]"

lemmas text_schemas = DeviceIdSchema_def SessionTokenSchema_def MeterNameSchema_def EventIdSchema_def
  ResourceIdSchema_def OperatorReasonSchema_def LimitSchema_def LicenseTypeSchema_def JsonObjectSchema_def

lemma one_license_type [simp]:
  "valid_one_of fm [Sc_literal (JStr ''lifetime''), Sc_literal (JStr ''subscription''),
      Sc_literal (JStr ''metered''), Sc_literal (JStr ''trial'')] v \<longleftrightarrow>
    v \<in> JStr ` {''lifetime'', ''subscription'', ''metered'', ''trial''}"
  by auto

end
