(* ===== verification/RateLimit.thy ===== *)
theory RateLimit
  imports Redis Entities
begin

text \<open>
  \<open>plugins/ratelimit.ts\<close>: the sliding-window rate limiter. Its Lua script works on one sorted
  set per key, whose scores are the server's clock; Redis drops the set a minute after its last
  use by its own clock. \<open>Date.now()\<close>, the Redis clock and \<open>crypto.randomUUID()\<close> are arguments.

  The contract of a window limiter is a locale over an abstract log of granted requests. The
  theory shows that the limiter meets it when the two clocks differ by a constant, so that it
  answers every history of requests as the ideal policy does, never grants more than the limit
  in any window of a minute, and tells a refused client exactly how long to wait.
\<close>

section \<open>Sorted sets\<close>

definition zmembers :: "string \<Rightarrow> int \<Rightarrow> redis \<Rightarrow> (int \<times> string) list" where
  "zmembers k t r =
    (case r_zsets r k of Some (zs, e) \<Rightarrow> if unexpired t e then zs else [] | None \<Rightarrow> [])"

definition zexpiry :: "string \<Rightarrow> int \<Rightarrow> redis \<Rightarrow> int option" where
  "zexpiry k t r =
    (case r_zsets r k of Some (zs, e) \<Rightarrow> if unexpired t e then e else None | None \<Rightarrow> None)"

definition zstore :: "string \<Rightarrow> (int \<times> string) list \<Rightarrow> int option \<Rightarrow> redis \<Rightarrow> redis" where
  "zstore k zs e r = r\<lparr>r_zsets := (r_zsets r)(k := (if zs = [] then None else Some (zs, e)))\<rparr>"

definition zremrangebyscore :: "string \<Rightarrow> int \<Rightarrow> int \<Rightarrow> int \<Rightarrow> redis \<Rightarrow> redis" where
  "zremrangebyscore k lo hi t r =
    zstore k (filter (\<lambda>z. \<not> (lo \<le> fst z \<and> fst z \<le> hi)) (zmembers k t r)) (zexpiry k t r) r"

definition zadd :: "string \<Rightarrow> int \<Rightarrow> string \<Rightarrow> int \<Rightarrow> redis \<Rightarrow> redis" where
  "zadd k s m t r =
    zstore k (filter (\<lambda>z. snd z \<noteq> m) (zmembers k t r) @ [(s, m)]) (zexpiry k t r) r"

definition zexpire :: "string \<Rightarrow> int \<Rightarrow> int \<Rightarrow> redis \<Rightarrow> redis" where
  "zexpire k ttl t r =
    (if ttl \<le> 0 then zstore k [] None r else zstore k (zmembers k t r) (Some (t + 1000 * ttl)) r)"

definition zoldest :: "(int \<times> string) list \<Rightarrow> int option" where
  "zoldest zs = (if zs = [] then None else Some (min_list (map fst zs)))"

section \<open>The limiter\<close>

definition WINDOW_MS :: int where
  "WINDOW_MS = 60000"

definition WINDOW_EXPIRY_SECONDS :: int where
  "WINDOW_EXPIRY_SECONDS = 60"

definition ceil_div :: "int \<Rightarrow> int \<Rightarrow> int" where
  "ceil_div a b = - ((- a) div b)"

definition rate_limit_script ::
    "string \<Rightarrow> int \<Rightarrow> int \<Rightarrow> string \<Rightarrow> int \<Rightarrow> int \<Rightarrow> int \<Rightarrow> redis \<Rightarrow> (int \<times> int) \<times> redis" where
  "rate_limit_script key windowStart now member limit expirySeconds t r =
    (let r1 = zremrangebyscore key 0 windowStart t r;
         count = int (length (zmembers key t r1)) in
     if count \<ge> limit then
       (let retryAfter = (case zoldest (zmembers key t r1) of
              None \<Rightarrow> 1
            | Some oldest \<Rightarrow> max 1 (ceil_div (oldest + 60000 - now) 1000)) in
        ((0, retryAfter), zexpire key expirySeconds t r1))
     else ((1, 0), zexpire key expirySeconds t (zadd key now member t r1)))"

record rate_limit_result =
  rl_allowed :: bool
  rl_retryAfterSeconds :: int

definition limiter_consume ::
    "string \<Rightarrow> int \<Rightarrow> string \<Rightarrow> int \<Rightarrow> int \<Rightarrow> redis \<Rightarrow> rate_limit_result \<times> redis" where
  "limiter_consume key limit uuid now t r =
    (let ((allowed, retryAfter), r') =
        rate_limit_script key (now - WINDOW_MS) now (show_int now @ CHR '':'' # uuid) limit
          WINDOW_EXPIRY_SECONDS t r
     in (\<lparr>rl_allowed = (allowed = 1), rl_retryAfterSeconds = max 0 retryAfter\<rparr>, r'))"

record limited_response =
  lr_status :: int
  lr_retryAfter :: string
  lr_error :: string
  lr_code :: api_error_code

definition enforceRateLimit :: "rate_limit_result \<Rightarrow> limited_response option" where
  "enforceRateLimit result =
    (if rl_allowed result then None
     else Some \<lparr>lr_status = 429, lr_retryAfter = show_int (rl_retryAfterSeconds result),
       lr_error = ''Too Many Requests'', lr_code = RATE_LIMITED\<rparr>)"

definition rateLimiter ::
    "int \<Rightarrow> string \<Rightarrow> string \<Rightarrow> string \<Rightarrow> int \<Rightarrow> int \<Rightarrow> redis \<Rightarrow> limited_response option \<times> redis" where
  "rateLimiter requestsPerMinute pathname ip uuid now t r =
    (if pathname = ''/ready'' then (None, r)
     else
       (let (result, r') = limiter_consume (''ratelimit:ip:'' @ ip) requestsPerMinute uuid now t r
        in (enforceRateLimit result, r')))"

section \<open>The ideal policy\<close>

definition recent :: "int \<Rightarrow> int list \<Rightarrow> int list" where
  "recent now hist = filter (\<lambda>s. now - WINDOW_MS < s) hist"

fun policy :: "int \<Rightarrow> int list \<Rightarrow> int list \<Rightarrow> bool list" where
  "policy limit hist [] = []"
| "policy limit hist (now # ts) =
    (let ok = int (length (recent now hist)) < limit in
     ok # policy limit (if ok then hist @ [now] else hist) ts)"

definition granted :: "int list \<Rightarrow> bool list \<Rightarrow> int list" where
  "granted ts oks = map fst (filter snd (zip ts oks))"

definition in_window :: "int \<Rightarrow> int list \<Rightarrow> int list" where
  "in_window x hist = filter (\<lambda>s. x - WINDOW_MS < s \<and> s \<le> x) hist"

lemma recent_recent: "a \<le> b \<Longrightarrow> recent b (recent a hist) = recent b hist"
  by (auto simp: recent_def intro!: filter_cong)

lemma recent_append [simp]: "recent t (a @ b) = recent t a @ recent t b"
  by (simp add: recent_def)

lemma recent_Nil [simp]: "recent t [] = []"
  by (simp add: recent_def)

lemma recent_old: "\<forall>s \<in> set hist. s \<le> now - WINDOW_MS \<Longrightarrow> recent now hist = []"
  by (auto simp: recent_def filter_empty_conv)

lemma policy_window:
  assumes "\<forall>x. int (length (in_window x hist)) \<le> max 0 limit" and "\<forall>s \<in> set hist. s \<le> t"
    and "sorted (t # ts)"
  shows "int (length (in_window x (hist @ granted ts (policy limit hist ts)))) \<le> max 0 limit"
  using assms
proof (induction ts arbitrary: hist t)
  case Nil
  then show ?case by (simp add: granted_def)
next
  case (Cons now ts)
  let ?ok = "int (length (recent now hist)) < limit"
  let ?hist = "if ?ok then hist @ [now] else hist"
  have le: "t \<le> now" "sorted (now # ts)" using Cons.prems(3) by auto
  have "int (length (in_window y ?hist)) \<le> max 0 limit" for y
  proof (cases "?ok \<and> y - WINDOW_MS < now \<and> now \<le> y")
    case True
    have "in_window y hist = filter (\<lambda>s. y - WINDOW_MS < s) (recent now hist)"
      using True Cons.prems(2) le(1)
      by (auto simp: in_window_def recent_def intro!: filter_cong)
    then have "length (in_window y hist) \<le> length (recent now hist)" by simp
    then show ?thesis using True by (simp add: in_window_def)
  next
    case False
    then have "in_window y ?hist = in_window y hist" by (auto simp: in_window_def)
    then show ?thesis using Cons.prems(1) by simp
  qed
  moreover have "\<forall>s \<in> set ?hist. s \<le> now" using Cons.prems(2) le by auto
  ultimately have "int (length (in_window x (?hist @ granted ts (policy limit ?hist ts)))) \<le> max 0 limit"
    using Cons.IH le(2) by blast
  moreover have "hist @ granted (now # ts) (policy limit hist (now # ts)) =
      ?hist @ granted ts (policy limit ?hist ts)"
    by (simp add: granted_def Let_def)
  ultimately show ?case by simp
qed

section \<open>The contract\<close>

fun serve :: "(int \<Rightarrow> 'f \<Rightarrow> 's \<Rightarrow> bool \<times> 's) \<Rightarrow> (int \<times> 'f) list \<Rightarrow> 's \<Rightarrow> bool list \<times> 's" where
  "serve request [] s = ([], s)"
| "serve request ((now, f) # qs) s =
    (let (ok, s') = request now f s; (oks, s'') = serve request qs s' in (ok # oks, s''))"

locale window_limiter =
  fixes request :: "int \<Rightarrow> 'f \<Rightarrow> 's \<Rightarrow> bool \<times> 's" and limit :: int
    and holds :: "int \<Rightarrow> int list \<Rightarrow> 'f set \<Rightarrow> 's \<Rightarrow> bool"
  assumes request_spec: "holds t hist used s \<Longrightarrow> t \<le> now \<Longrightarrow> f \<notin> used \<Longrightarrow>
    request now f s = (ok, s') \<Longrightarrow>
    (ok \<longleftrightarrow> int (length (recent now hist)) < limit) \<and>
    holds now (if ok then hist @ [now] else hist) (insert f used) s'"
begin

lemma serves_policy:
  assumes "holds t hist used s" "sorted (t # map fst qs)" "distinct (map snd qs)"
    "set (map snd qs) \<inter> used = {}"
  shows "fst (serve request qs s) = policy limit hist (map fst qs)"
  using assms
proof (induction qs arbitrary: t hist used s)
  case Nil
  then show ?case by simp
next
  case (Cons q qs)
  obtain now f where q: "q = (now, f)" by (cases q)
  obtain ok s' where r: "request now f s = (ok, s')" by fastforce
  have spec: "ok \<longleftrightarrow> int (length (recent now hist)) < limit"
    "holds now (if ok then hist @ [now] else hist) (insert f used) s'"
    using request_spec[OF Cons.prems(1) _ _ r] Cons.prems(2,4) q by auto
  have "fst (serve request qs s') = policy limit (if ok then hist @ [now] else hist) (map fst qs)"
    using Cons.IH[OF spec(2)] Cons.prems q by auto
  then show ?case using spec(1) by (cases "serve request qs s'") (simp add: q r)
qed

lemma serve_holds:
  assumes "holds t hist used s" "sorted (t # map fst qs)" "distinct (map snd qs)"
    "set (map snd qs) \<inter> used = {}" "serve request qs s = (oks, s')"
  shows "holds (last (t # map fst qs)) (hist @ granted (map fst qs) oks) (set (map snd qs) \<union> used) s'"
  using assms
proof (induction qs arbitrary: t hist used s oks)
  case Nil
  then show ?case by (simp add: granted_def)
next
  case (Cons q qs)
  obtain now f where q: "q = (now, f)" by (cases q)
  obtain ok s1 where r: "request now f s = (ok, s1)" by fastforce
  obtain oks1 where rest: "serve request qs s1 = (oks1, s')" and oks: "oks = ok # oks1"
    using Cons.prems(5) by (auto simp: q r split: prod.splits)
  have "holds now (if ok then hist @ [now] else hist) (insert f used) s1"
    using request_spec[OF Cons.prems(1) _ _ r] Cons.prems(2,4) q by auto
  from Cons.IH[OF this _ _ _ rest] Cons.prems(2-4) q oks show ?case
    by (cases ok) (auto simp: granted_def)
qed

lemma window_bound:
  assumes "holds t [] used s" "sorted (t # map fst qs)" "distinct (map snd qs)"
    "set (map snd qs) \<inter> used = {}"
  shows "int (length (in_window x (granted (map fst qs) (fst (serve request qs s))))) \<le> max 0 limit"
  using serves_policy[OF assms] policy_window[of "[]" limit t "map fst qs" x] assms(2)
  by (simp add: in_window_def)

end

section \<open>The limiter meets the contract\<close>

definition redis_request ::
    "string \<Rightarrow> int \<Rightarrow> int \<Rightarrow> int \<Rightarrow> string \<Rightarrow> redis \<Rightarrow> bool \<times> redis" where
  "redis_request key limit skew now uuid r =
    (let (result, r') = limiter_consume key limit uuid now (now + skew) r in (rl_allowed result, r'))"

definition member_of :: "string set \<Rightarrow> string \<Rightarrow> bool" where
  "member_of used m \<longleftrightarrow> (\<exists>n. \<exists>f \<in> used. m = show_int n @ CHR '':'' # f)"

definition limiter_holds :: "string \<Rightarrow> int \<Rightarrow> int \<Rightarrow> int list \<Rightarrow> string set \<Rightarrow> redis \<Rightarrow> bool" where
  "limiter_holds key skew t hist used r \<longleftrightarrow>
    0 \<le> t \<and> (\<forall>s \<in> set hist. s \<le> t) \<and>
    (\<forall>now \<ge> t. recent now (map fst (zmembers key (now + skew) r)) = recent now hist \<and>
      (\<forall>z \<in> set (zmembers key (now + skew) r). 0 \<le> fst z \<and> member_of used (snd z)))"

lemma colon_not_in_show_int [simp]: "CHR '':'' \<notin> set (show_int i)"
  using show_nat_set[of "CHR '':''"] by (auto simp: show_int_def is_digit_def)

lemma member_inject:
  "show_int a @ CHR '':'' # f = show_int b @ CHR '':'' # g \<Longrightarrow> f = g"
  by (metis colon_not_in_show_int option.inject prod.inject split_first_append)

lemma member_fresh: "member_of used m \<Longrightarrow> f \<notin> used \<Longrightarrow> m \<noteq> show_int now @ CHR '':'' # f"
  by (auto simp: member_of_def dest: member_inject)

lemma zmembers_store [simp]:
  "zmembers k t (zstore k zs e r) = (if unexpired t e then zs else [])"
  by (auto simp: zmembers_def zstore_def)

lemma zexpiry_store [simp]:
  "zexpiry k t (zstore k zs e r) = (if unexpired t e \<and> zs \<noteq> [] then e else None)"
  by (auto simp: zexpiry_def zstore_def)

lemma zexpiry_unexpired [simp]: "unexpired t (zexpiry k t r)"
  by (auto simp: zexpiry_def split: option.splits)

text \<open>The set the script leaves, and its answer.\<close>

definition kept :: "string \<Rightarrow> int \<Rightarrow> int \<Rightarrow> redis \<Rightarrow> (int \<times> string) list" where
  "kept key skew now r =
    filter (\<lambda>z. \<not> (0 \<le> fst z \<and> fst z \<le> now - WINDOW_MS)) (zmembers key (now + skew) r)"

lemma script_run:
  assumes "limiter_consume key limit uuid now (now + skew) r = (res, r')"
  defines "zs \<equiv> kept key skew now r"
  shows "rl_allowed res \<longleftrightarrow> int (length zs) < limit"
    and "\<not> rl_allowed res \<Longrightarrow> rl_retryAfterSeconds res =
      (case zoldest zs of None \<Rightarrow> 1 | Some oldest \<Rightarrow> max 1 (ceil_div (oldest + 60000 - now) 1000))"
    and "zmembers key t r' =
      (if t \<le> now + skew + 60000
       then (if rl_allowed res
         then filter (\<lambda>z. snd z \<noteq> show_int now @ CHR '':'' # uuid) zs @
           [(now, show_int now @ CHR '':'' # uuid)]
         else zs)
       else [])"
  using assms
  by (auto simp: limiter_consume_def rate_limit_script_def Let_def zremrangebyscore_def zadd_def
      zexpire_def WINDOW_EXPIRY_SECONDS_def kept_def max_def split: if_splits option.splits)

lemma kept_recent:
  assumes "limiter_holds key skew t hist used r" "t \<le> now"
  shows "map fst (kept key skew now r) = recent now hist"
    and "\<forall>z \<in> set (kept key skew now r). 0 \<le> fst z \<and> member_of used (snd z)"
proof -
  have z: "\<forall>z \<in> set (zmembers key (now + skew) r). 0 \<le> fst z \<and> member_of used (snd z)"
    and rec: "recent now (map fst (zmembers key (now + skew) r)) = recent now hist"
    using assms by (simp_all add: limiter_holds_def)
  have "kept key skew now r = filter (\<lambda>z. now - WINDOW_MS < fst z) (zmembers key (now + skew) r)"
    unfolding kept_def using z by (intro filter_cong) auto
  then show "map fst (kept key skew now r) = recent now hist"
    using rec by (simp add: recent_def filter_map comp_def)
  show "\<forall>z \<in> set (kept key skew now r). 0 \<le> fst z \<and> member_of used (snd z)"
    using z by (simp add: kept_def)
qed

interpretation redis_limiter: window_limiter "redis_request key limit skew" limit "limiter_holds key skew"
  for key limit skew
proof
  fix t hist used r now f ok r'
  assume h: "limiter_holds key skew t hist used r" and le: "t \<le> now" and f: "f \<notin> used"
    and req: "redis_request key limit skew now f r = (ok, r')"
  obtain res where run: "limiter_consume key limit f now (now + skew) r = (res, r')"
    and ok: "ok = rl_allowed res"
    using req by (auto simp: redis_request_def split: prod.splits)
  note k = kept_recent[OF h le]
  note s = script_run[OF run]
  have len: "length (kept key skew now r) = length (recent now hist)"
    using k(1) by (metis length_map)
  have m: "filter (\<lambda>z. snd z \<noteq> show_int now @ CHR '':'' # f) (kept key skew now r) = kept key skew now r"
    using k(2) member_fresh[OF _ f] by (auto simp: filter_id_conv)
  let ?hist = "if ok then hist @ [now] else hist"
  have t0: "0 \<le> t" "\<forall>s \<in> set hist. s \<le> t" using h by (simp_all add: limiter_holds_def)
  have mem: "zmembers key u r' = (if u \<le> now + skew + 60000
      then kept key skew now r @ (if ok then [(now, show_int now @ CHR '':'' # f)] else []) else [])" for u
    using s(3)[of u] m ok by simp
  have "limiter_holds key skew now ?hist (insert f used) r'"
    unfolding limiter_holds_def
  proof (intro conjI allI impI)
    show "0 \<le> now" using t0 le by simp
    show "\<forall>s \<in> set ?hist. s \<le> now" using t0 le by auto
    fix u assume u: "now \<le> u"
    show "recent u (map fst (zmembers key (u + skew) r')) = recent u ?hist"
    proof (cases "u \<le> now + 60000")
      case True
      then show ?thesis using mem[of "u + skew"] k(1) recent_recent[OF u, of hist] by simp
    next
      case False
      then have "recent u ?hist = []"
        using t0 le by (intro recent_old) (auto simp: WINDOW_MS_def)
      then show ?thesis using mem[of "u + skew"] False by (simp add: recent_def)
    qed
    have "member_of (insert f used) (show_int now @ CHR '':'' # f)"
      by (auto simp: member_of_def)
    moreover have "member_of (insert f used) m" if "member_of used m" for m
      using that by (auto simp: member_of_def)
    ultimately show "\<forall>z \<in> set (zmembers key (u + skew) r').
        0 \<le> fst z \<and> member_of (insert f used) (snd z)"
      using mem[of "u + skew"] k(2) t0 le by auto
  qed
  then show "(ok \<longleftrightarrow> int (length (recent now hist)) < limit) \<and>
      limiter_holds key skew now ?hist (insert f used) r'"
    using s(1) ok len by simp
qed

lemma new_key_holds: "0 \<le> t \<Longrightarrow> r_zsets r key = None \<Longrightarrow> limiter_holds key skew t [] {} r"
  by (simp add: limiter_holds_def zmembers_def)

lemma min_list_least: "xs \<noteq> [] \<Longrightarrow> min_list xs \<in> set xs \<and> (\<forall>x \<in> set xs. min_list xs \<le> (x :: int))"
  by (simp add: min_list_Min)

lemma ceil_div_bounds: "ceil_div a 1000 * 1000 \<ge> a" "(ceil_div a 1000 - 1) * 1000 < a"
  by (simp_all add: ceil_div_def)

lemma refused_wait:
  assumes h: "limiter_holds key skew t hist used r" and le: "t \<le> now" "now \<le> later"
    and full: "int (length (recent now hist)) \<le> limit" and pos: "0 < limit"
    and fresh: "f \<notin> used" "g \<notin> used" "f \<noteq> g"
    and refused: "limiter_consume key limit f now (now + skew) r = (res, r')" "\<not> rl_allowed res"
    and again: "limiter_consume key limit g later (later + skew) r' = (res', r'')"
  shows "(now + 1000 * rl_retryAfterSeconds res \<le> later \<longrightarrow> rl_allowed res') \<and>
    (rl_retryAfterSeconds res > 1 \<and> later \<le> now + 1000 * (rl_retryAfterSeconds res - 1) \<longrightarrow>
      \<not> rl_allowed res')"
proof -
  let ?rec = "recent now hist"
  have req: "redis_request key limit skew now f r = (False, r')"
    using refused by (simp add: redis_request_def)
  from redis_limiter.request_spec[OF h le(1) fresh(1) req]
  have h': "limiter_holds key skew now hist (insert f used) r'"
    and count: "int (length ?rec) = limit" using full by auto
  have allowed: "rl_allowed res' \<longleftrightarrow> int (length (recent later hist)) < limit"
    using redis_limiter.request_spec[OF h' le(2), of g limit "rl_allowed res'" r''] fresh again
    by (simp add: redis_request_def)
  note k = kept_recent(1)[OF h le(1)]
  let ?old = "min_list ?rec"
  have ne: "?rec \<noteq> []" using count pos by auto
  note old = min_list_least[OF ne]
  have "zoldest (kept key skew now r) = Some ?old"
    using ne k by (auto simp: zoldest_def)
  then have retry: "rl_retryAfterSeconds res = max 1 (ceil_div (?old + 60000 - now) 1000)"
    using script_run(2)[OF refused] by simp
  have later: "recent later hist = filter (\<lambda>s. later - WINDOW_MS < s) ?rec"
    using recent_recent[OF le(2), of hist] by (simp add: recent_def)
  show ?thesis
  proof (intro conjI impI)
    assume "now + 1000 * rl_retryAfterSeconds res \<le> later"
    moreover have "ceil_div (?old + 60000 - now) 1000 \<le> rl_retryAfterSeconds res" by (simp add: retry)
    ultimately have "?old \<le> later - WINDOW_MS"
      using ceil_div_bounds(1)[of "?old + 60000 - now"] by (simp add: WINDOW_MS_def)
    then have "length (recent later hist) < length ?rec"
      unfolding later using old by (intro length_filter_less) auto
    then show "rl_allowed res'" using allowed count by simp
  next
    assume "rl_retryAfterSeconds res > 1 \<and> later \<le> now + 1000 * (rl_retryAfterSeconds res - 1)"
    then have "later < ?old + WINDOW_MS"
      using retry ceil_div_bounds(2)[of "?old + 60000 - now"] by (auto simp: WINDOW_MS_def max_def split: if_splits)
    then have "recent later hist = ?rec"
      unfolding later using old by (intro filter_True) auto
    then show "\<not> rl_allowed res'" using allowed count by simp
  qed
qed

section \<open>Properties\<close>

text \<open>
  C18: the limiter is the ideal sliding window. Whatever Redis holds for other keys, when the
  requests for a new key come in time order with different identifiers, and the two clocks
  differ by a constant, the answers are those of the ideal policy, and in any window of a
  minute no more requests are granted than the limit.
\<close>

theorem rate_limit_is_sliding_window:
  assumes "r_zsets r key = None" and "sorted (0 # map fst qs)" and "distinct (map snd qs)"
  shows "fst (serve (redis_request key limit skew) qs r) = policy limit [] (map fst qs) \<and>
    int (length (in_window x (granted (map fst qs) (fst (serve (redis_request key limit skew) qs r)))))
      \<le> max 0 limit"
  using redis_limiter.serves_policy[OF new_key_holds[OF _ assms(1)] assms(2,3)]
    redis_limiter.window_bound[OF new_key_holds[OF _ assms(1)] assms(2,3)]
  by simp

theorem rate_limit_is_sliding_window_witness:
  "fst (serve (redis_request ''k'' 2 7) [(100, ''a''), (200, ''b''), (300, ''c''), (60100, ''d'')] empty_redis) =
    [True, True, False, True]"
proof -
  let ?qs = "[(100, ''a''), (200, ''b''), (300, ''c''), (60100, ''d'')] :: (int \<times> string) list"
  have "r_zsets empty_redis ''k'' = None" "sorted (0 # map fst ?qs)" "distinct (map snd ?qs)"
    by (simp_all add: empty_redis_def)
  from rate_limit_is_sliding_window[OF this, of 2 7] have
    "fst (serve (redis_request ''k'' 2 7) ?qs empty_redis) = policy 2 [] (map fst ?qs)" by blast
  also have "\<dots> = [True, True, False, True]" by code_simp
  finally show ?thesis .
qed

text \<open>
  C19: the wait a refused client is told is exact to the second. After any history of requests
  for the key, when a request is refused with \<open>retry-after\<close> \<open>n\<close>, the next request is granted if
  it comes at least \<open>n\<close> seconds later, and refused if it comes \<open>n - 1\<close> seconds later or before
  (\<open>n > 1\<close>).
\<close>

theorem retry_after_is_exact:
  assumes "r_zsets r0 key = None" and "sorted (0 # map fst qs @ [now, later])"
    and "distinct (map snd qs @ [f, g])" and "0 < limit"
    and "serve (redis_request key limit skew) qs r0 = (oks, r)"
    and "limiter_consume key limit f now (now + skew) r = (res, r')" and "\<not> rl_allowed res"
    and "limiter_consume key limit g later (later + skew) r' = (res', r'')"
  shows "(now + 1000 * rl_retryAfterSeconds res \<le> later \<longrightarrow> rl_allowed res') \<and>
    (rl_retryAfterSeconds res > 1 \<and> later \<le> now + 1000 * (rl_retryAfterSeconds res - 1) \<longrightarrow>
      \<not> rl_allowed res')"
proof -
  let ?hist = "granted (map fst qs) oks"
  let ?t = "last (0 # map fst qs)"
  have srt: "sorted (0 # map fst qs)" "distinct (map snd qs)" using assms(2,3) by (auto simp: sorted_append)
  have h: "limiter_holds key skew ?t ?hist (set (map snd qs)) r"
    using redis_limiter.serve_holds[OF new_key_holds[OF _ assms(1)] srt _ assms(5)] by simp
  have "last (0 # map fst qs) \<in> set (0 # map fst qs)" by (rule last_in_set) simp
  then have t: "?t \<le> now" "now \<le> later"
    using assms(2) by (auto simp: sorted_append simp del: last.simps)
  have "int (length (in_window now ?hist)) \<le> max 0 limit"
    using redis_limiter.window_bound[OF new_key_holds[OF _ assms(1)] srt,
        where limit = limit and skew = skew and x = now] assms(5) by simp
  moreover have "in_window now ?hist = recent now ?hist"
    using h t(1) by (auto simp: in_window_def recent_def limiter_holds_def intro!: filter_cong)
  ultimately have "int (length (recent now ?hist)) \<le> limit" using assms(4) by simp
  then show ?thesis
    by (rule refused_wait[OF h t _ assms(4) _ _ _ assms(6-8)]) (use assms(3) in auto)
qed

theorem retry_after_is_exact_witness:
  "\<exists>r r' r'' res res'. serve (redis_request ''k'' 1 7) [(100, ''a'')] empty_redis = ([True], r) \<and>
    limiter_consume ''k'' 1 ''b'' 2100 2107 r = (res, r') \<and> rl_retryAfterSeconds res = 58 \<and>
    limiter_consume ''k'' 1 ''c'' 60100 60107 r' = (res', r'') \<and> rl_allowed res'"
proof -
  let ?r = "snd (serve (redis_request ''k'' 1 7) [(100, ''a'')] empty_redis)"
  let ?c = "limiter_consume ''k'' 1 ''b'' 2100 2107 ?r"
  have a: "fst (serve (redis_request ''k'' 1 7) [(100, ''a'')] empty_redis) = [True]" by code_simp
  have b: "rl_retryAfterSeconds (fst ?c) = 58" "\<not> rl_allowed (fst ?c)" by code_simp+
  have "r_zsets empty_redis ''k'' = None" by (simp add: empty_redis_def)
  from retry_after_is_exact[OF this, of "[(100, ''a'')]" 2100 60100 "''b''" "''c''" 1 7 "[True]" ?r
      "fst ?c" "snd ?c" "fst (limiter_consume ''k'' 1 ''c'' 60100 60107 (snd ?c))"
      "snd (limiter_consume ''k'' 1 ''c'' 60100 60107 (snd ?c))"] a b
  have "rl_allowed (fst (limiter_consume ''k'' 1 ''c'' 60100 60107 (snd ?c)))"
    by (simp add: prod_eq_iff)
  with a b show ?thesis by (metis prod.collapse)
qed

end
