(* ===== verification/LicenseRoutes.thy ===== *)
theory LicenseRoutes
  imports Schemas RateLimit ServerInvariant
begin

text \<open>
  \<open>controllers/license.ts\<close>: the four routes of the client's protocol. A request is checked
  against the schema of its route, then against the ceiling of its address (\<open>rateLimiter\<close>), then
  against the ceiling of its principal, and is then served by \<open>LicenseService\<close>. Errors become
  replies as in the \<open>onError\<close> hooks of the plugin and of \<open>createBaseServer\<close>; a result is checked
  against the schema of the answer before it is sent. The order of these stages is the documented
  life cycle of the web framework.
\<close>

section \<open>Replies\<close>

record http_reply =
  hp_status :: int
  hp_retryAfter :: "string option"
  hp_body :: json

definition error_body :: "string \<Rightarrow> string \<Rightarrow> json" where
  "error_body message code = JObj [(''error'', JStr message), (''code'', JStr code)]"

definition reply :: "int \<Rightarrow> json \<Rightarrow> http_reply" where
  "reply status body = \<lparr>hp_status = status, hp_retryAfter = None, hp_body = body\<rparr>"

definition invalid_request :: http_reply where
  "invalid_request = reply 400 (error_body ''Request body or parameters are invalid'' ''INVALID_REQUEST'')"

definition internal_error :: http_reply where
  "internal_error = reply 500 (error_body ''Internal Server Error'' ''INTERNAL_ERROR'')"

definition failure_reply :: "failure \<Rightarrow> http_reply" where
  "failure_reply e =
    (case e of
      Domain_error de \<Rightarrow> reply (de_statusCode de) (error_body (de_message de) (api_code_name (de_code de)))
    | _ \<Rightarrow> internal_error)"

definition limited_reply :: "limited_response \<Rightarrow> http_reply" where
  "limited_reply l = \<lparr>hp_status = lr_status l, hp_retryAfter = Some (lr_retryAfter l),
    hp_body = error_body (lr_error l) (api_code_name (lr_code l))\<rparr>"

definition answered :: "formats \<Rightarrow> schema \<Rightarrow> json \<Rightarrow> http_reply" where
  "answered fm s v = (if valid fm s v then reply 200 v else invalid_request)"

section \<open>Limits\<close>

definition hashPrincipal :: "(string \<Rightarrow> string) \<Rightarrow> string list \<Rightarrow> string" where
  "hashPrincipal sha256 parts = sha256 (join (CHR 0x00) parts)"

definition limit_key :: "string \<Rightarrow> int \<Rightarrow> limited_response option io" where
  "limit_key key requestsPerMinute =
    redis_call (\<lambda>env k r.
      case limiter_consume key requestsPerMinute (e_uuid env k 0) (e_now env k) (e_redisNow env k) r of
        (result, r') \<Rightarrow> (Inr (enforceRateLimit result), r'))"

definition limitPrincipal :: "int option \<Rightarrow> string \<Rightarrow> string list \<Rightarrow> limited_response option io" where
  "limitPrincipal requestsPerMinute scope parts =
    (case requestsPerMinute of
      None \<Rightarrow> returnIO None
    | Some n \<Rightarrow> bindIO (askIO e_sha256) (\<lambda>sha256.
        limit_key (''ratelimit:license:'' @ scope @ CHR '':'' # hashPrincipal sha256 parts) n))"

definition unless_limited :: "limited_response option io \<Rightarrow> http_reply io \<Rightarrow> http_reply io" where
  "unless_limited limit handler =
    bindIO limit (\<lambda>limited.
      case limited of Some l \<Rightarrow> returnIO (limited_reply l) | None \<Rightarrow> handler)"

section \<open>Routes\<close>

definition text_member :: "json \<Rightarrow> string \<Rightarrow> string" where
  "text_member body name =
    (case body of
      JObj kvs \<Rightarrow> (case map_of kvs name of Some (JStr s) \<Rightarrow> s | _ \<Rightarrow> [])
    | _ \<Rightarrow> [])"

definition number_member :: "json \<Rightarrow> string \<Rightarrow> jsnum" where
  "number_member body name =
    (case body of
      JObj kvs \<Rightarrow> (case map_of kvs name of Some (JNum n) \<Rightarrow> n | _ \<Rightarrow> NonFinite)
    | _ \<Rightarrow> NonFinite)"

definition session_json :: "license_session_result \<Rightarrow> json" where
  "session_json r = JObj [(''success'', JBool True),
    (''licenseType'', JStr (license_type_name (sr_licenseType r))), (''metadata'', JObj (sr_metadata r)),
    (''sessionToken'', JStr (sr_sessionToken r)),
    (''sessionTtlSeconds'', JNum (Integral (sr_sessionTtlSeconds r)))]"

definition usage_json :: "consume_usage_result \<Rightarrow> json" where
  "usage_json r = JObj [(''success'', JBool True), (''meter'', JStr (cr_meter r)),
    (''units'', JNum (Integral (cr_units r))), (''eventId'', JStr (cr_eventId r)),
    (''remaining'', JNum (Integral (cr_remaining r)))]"

definition success_json :: json where
  "success_json = JObj [(''success'', JBool True)]"

datatype license_endpoint = Ep_activate | Ep_heartbeat | Ep_usage | Ep_deactivate

fun endpoint_path :: "license_endpoint \<Rightarrow> string" where
  "endpoint_path Ep_activate = ''/v1/activate''"
| "endpoint_path Ep_heartbeat = ''/v1/heartbeat''"
| "endpoint_path Ep_usage = ''/v1/usage''"
| "endpoint_path Ep_deactivate = ''/v1/deactivate''"

fun endpoint_body :: "license_endpoint \<Rightarrow> schema" where
  "endpoint_body Ep_activate = ActivateInputSchema"
| "endpoint_body Ep_heartbeat = SessionInputSchema"
| "endpoint_body Ep_usage = UsageInputSchema"
| "endpoint_body Ep_deactivate = SessionInputSchema"

fun endpoint_answer :: "license_endpoint \<Rightarrow> schema" where
  "endpoint_answer Ep_activate = LicenseSessionResponseSchema"
| "endpoint_answer Ep_heartbeat = LicenseSessionResponseSchema"
| "endpoint_answer Ep_usage = UsageResponseSchema"
| "endpoint_answer Ep_deactivate = SuccessResponseSchema"

fun endpoint_principal :: "license_endpoint \<Rightarrow> json \<Rightarrow> string \<times> string list" where
  "endpoint_principal Ep_activate body =
    (''activate'', [text_member body ''licenseKey'', text_member body ''deviceId''])"
| "endpoint_principal Ep_heartbeat body = (''heartbeat'', [text_member body ''sessionToken''])"
| "endpoint_principal Ep_usage body = (''usage'', [text_member body ''sessionToken''])"
| "endpoint_principal Ep_deactivate body = (''deactivate'', [text_member body ''sessionToken''])"

fun endpoint_service :: "license_endpoint \<Rightarrow> json \<Rightarrow> string \<Rightarrow> json io" where
  "endpoint_service Ep_activate body ip =
    bindIO (activate (text_member body ''licenseKey'') (text_member body ''deviceId'') ip)
      (\<lambda>r. returnIO (session_json r))"
| "endpoint_service Ep_heartbeat body ip =
    bindIO (heartbeat (text_member body ''sessionToken'') (text_member body ''deviceId'') ip)
      (\<lambda>r. returnIO (session_json r))"
| "endpoint_service Ep_usage body ip =
    bindIO (service_consume (text_member body ''sessionToken'') (text_member body ''deviceId'') ip
      \<lparr>ci_meter = text_member body ''meter'', ci_units = number_member body ''units'',
       ci_eventId = text_member body ''eventId''\<rparr>) (\<lambda>r. returnIO (usage_json r))"
| "endpoint_service Ep_deactivate body ip =
    bindIO (deactivate (text_member body ''sessionToken'') (text_member body ''deviceId'') ip)
      (\<lambda>_. returnIO success_json)"

record license_options =
  lo_requestsPerIp :: int
  lo_requestsPerMinute :: "int option"

definition license_route ::
    "formats \<Rightarrow> license_options \<Rightarrow> license_endpoint \<Rightarrow> json \<Rightarrow> string \<Rightarrow> http_reply io" where
  "license_route fm options ep body ip =
    (if \<not> valid fm (endpoint_body ep) body then returnIO invalid_request
     else catchIO
       (unless_limited (limit_key (''ratelimit:ip:'' @ ip) (lo_requestsPerIp options))
         (case endpoint_principal ep body of (scope, parts) \<Rightarrow>
          unless_limited (limitPrincipal (lo_requestsPerMinute options) scope parts)
           (bindIO (endpoint_service ep body ip) (\<lambda>v. returnIO (answered fm (endpoint_answer ep) v)))))
       (\<lambda>e. returnIO (failure_reply e)))"

section \<open>What the service answers\<close>

lemma text_member_Some: "map_of kvs name = Some (JStr s) \<Longrightarrow> text_member (JObj kvs) name = s"
  by (simp add: text_member_def)

lemma members_need:
  "valid_members fm (need name s # ms) kvs \<longleftrightarrow>
    (\<exists>v. map_of kvs name = Some v \<and> valid fm s v) \<and> valid_members fm ms kvs"
  by (cases "map_of kvs name") (simp_all add: need_def)

lemma consume_in_range:
  assumes c: "consistent d"
    and run: "consume sha256 entryId now i name units eventId d = Inr (outcome, d')"
    and out: "outcome = Consumed m e \<or> outcome = Replayed m e"
  shows "m_name m = name \<and> 0 \<le> m_balance m \<and> m_balance m \<le> MAX_LICENSE_LIMIT"
proof -
  note c' = consistentD[OF c]
  have wf: "meters_wf d" "ledger_wf d" using c'(5) by (simp_all add: meter_inv_def)
  note run' = run[unfolded consume_eq[OF c'(5)]]
  show ?thesis
  proof (cases "event_entry i (sha256 eventId) d")
    case (Some e0)
    then have "e0 \<in> set (ledger d)" using event_entry_Some_iff[OF wf(2)] by blast
    then have "0 \<le> e_balanceAfter e0" "int4 (e_balanceAfter e0)"
      using c'(7) wf(2) by (auto simp: entries_in_credit_def ledger_wf_def ledger_row_int4_def)
    then show ?thesis
      using run' out Some by (auto simp: int4_def MAX_LICENSE_LIMIT_def split: if_splits)
  next
    case None
    with run' out obtain m0 where m0: "named_meter i name d = Some m0"
      and post: "posting m0 (\<lambda>x. units \<le> m_balance x) (charge_row units now)
        (charge_entry entryId now i (m_id m0) (sha256 eventId) units) Exhausted Consumed d = Inr (outcome, d')"
      by (auto split: option.splits if_splits)
    have mem: "m0 \<in> set (meters d)" "m_licenseId m0 = i" "m_name m0 = name"
      using m0 named_meter_Some_iff[OF wf(1)] by auto
    have acc: "accounts_for m0 (charge_row units now m0)
        (charge_entry entryId now i (m_id m0) (sha256 eventId) units (charge_row units now m0))"
      using mem(2) by (simp add: accounts_for_def)
    define m1 where "m1 = charge_row units now m0"
    note cases' = posting_cases[OF wf(1) mem(1) acc post, folded m1_def]
    have "m_name m1 = name" by (simp add: m1_def mem(3))
    moreover have "outcome \<noteq> Exhausted" using out by auto
    then obtain e1 where e1: "outcome = Consumed m1 e1" "posted m0 m1 e1 d d'" using cases' by blast
    have "int4 (m_balance m1)" "meter_row_ok m1" using e1(2) unfolding posted_def by blast+
    moreover have "m = m1" using out e1(1) by auto
    ultimately show ?thesis by (simp add: int4_def meter_row_ok_def MAX_LICENSE_LIMIT_def)
  qed
qed

lemma charge_in_range:
  assumes "rely consistent env" "consistent (w_db w)" "charge license b input units env w = (Inr res, w')"
  shows "cr_meter res = ci_meter input \<and> cr_units res = units \<and> cr_eventId res = ci_eventId input \<and>
    0 \<le> cr_remaining res \<and> cr_remaining res \<le> MAX_LICENSE_LIMIT"
proof -
  from charge_Inr[OF assms(3)] obtain outcome m e d d' where d: "d = w_db (interfere env w)"
    and run: "consume (e_sha256 env) (e_uuid env (w_tick w) 0) (e_now env (w_tick w)) (l_id license)
      (ci_meter input) units (ci_eventId input) d = Inr (outcome, d')"
    and out: "outcome = Consumed m e \<or> outcome = Replayed m e"
    and res: "res = \<lparr>cr_meter = m_name m, cr_units = units, cr_eventId = ci_eventId input,
      cr_remaining = m_balance m\<rparr>"
    by metis
  have "consistent d" unfolding d using rely_interfere[OF assms(1,2)] .
  from consume_in_range[OF this run out] show ?thesis unfolding res by simp
qed

lemma usage_in_range:
  assumes "rely consistent env" "consistent (w_db w)"
    and run: "service_consume token deviceId ip input env w = (Inr res, w')"
  shows "cr_meter res = trim (ci_meter input) \<and> Integral (cr_units res) = ci_units input \<and>
    cr_eventId res = trim (ci_eventId input) \<and>
    validateUsageInput (input\<lparr>ci_meter := trim (ci_meter input), ci_eventId := trim (ci_eventId input)\<rparr>) =
      Inr (cr_units res) \<and>
    0 \<le> cr_remaining res \<and> cr_remaining res \<le> MAX_LICENSE_LIMIT"
proof -
  define input' where "input' = input\<lparr>ci_meter := trim (ci_meter input), ci_eventId := trim (ci_eventId input)\<rparr>"
  define checks where "checks b = catchIO
      (bindIO (liftIO (validateUsageInput input')) (\<lambda>units.
       bindIO (live_license token b) (\<lambda>license. returnIO (units, license))))
      (usage_rejected input' None b)" for b
  from run obtain b units license w1 where
    first: "checks b env w = (Inr (units, license), w1)"
    and ch: "charge license b input' units env w1 = (Inr res, w')"
    unfolding service_consume_def Let_def input'_def[symmetric] checks_def[symmetric]
    by (auto simp: bindIO_Inr_iff catchIO_Inr_iff usage_rejected_def split: prod.splits)
  have units: "validateUsageInput input' = Inr units"
    using first by (auto simp: checks_def catchIO_Inr_iff bindIO_Inr_iff usage_rejected_def)
  have kept: "keeps_db consistent (checks b)"
    unfolding checks_def by (intro keeps_db_rules)
  have "consistent (w_db w1)" using keeps_dbD[OF kept assms(1,2) first] .
  from charge_in_range[OF assms(1) this ch] units show ?thesis
    by (auto simp: input'_def[symmetric]) (auto simp: validateUsageInput_def input'_def split: if_splits jsnum.splits)
qed

lemma session_json_valid:
  assumes "32 \<le> length (sr_sessionToken r)" "length (sr_sessionToken r) \<le> 512"
    and "1 \<le> sr_sessionTtlSeconds r" "sr_sessionTtlSeconds r \<le> 86400"
  shows "valid fm LicenseSessionResponseSchema (session_json r)"
  using assms
  by (cases "sr_licenseType r") (simp_all add: LicenseSessionResponseSchema_def session_json_def
      schema_notation text_schemas)

lemma session_body_token:
  assumes "valid fm SessionInputSchema body \<or> valid fm UsageInputSchema body"
  shows "32 \<le> length (text_member body ''sessionToken'') \<and> length (text_member body ''sessionToken'') \<le> 512"
  using assms
  by (auto simp: SessionInputSchema_def UsageInputSchema_def schema_notation text_schemas text_member_def
      split: option.splits)

lemma trim_bounds:
  "validateUsageInput (input\<lparr>ci_meter := m, ci_eventId := e\<rparr>) = Inr n \<Longrightarrow>
    1 \<le> length m \<and> length m \<le> 128 \<and> 1 \<le> length e \<and> length e \<le> 128 \<and> 1 \<le> n \<and> n \<le> MAX_LICENSE_LIMIT"
  by (auto simp: validateUsageInput_def Suc_le_eq split: if_splits jsnum.splits)

section \<open>Properties\<close>

lemma activate_answer_valid:
  assumes "\<forall>k j. length (e_uuid env k j) = 36" and r: "activate key dev ip env w = (Inr r, w')"
  shows "valid fm LicenseSessionResponseSchema (session_json r)"
proof -
  from activate_admitted[OF r] obtain b current w3 w4 where
    "session_opened env b current w3 w4 (sr_sessionToken r)"
    by blast
  then have "\<exists>k. sr_sessionToken r = e_uuid env k 0" by (auto simp: session_opened_def Let_def)
  moreover obtain l :: license_with_allowlists and token where "r = sessionResult l token"
    by (rule activate_Inr[OF r])
  then have "sr_sessionTtlSeconds r = 45" by (simp add: sessionResult_def SESSION_TTL_SECONDS_def)
  ultimately show ?thesis using assms(1) by (auto intro!: session_json_valid)
qed

lemma heartbeat_answer_valid:
  assumes "valid fm SessionInputSchema body"
    and r: "heartbeat (text_member body ''sessionToken'') dev ip env w = (Inr r, w')"
  shows "valid fm LicenseSessionResponseSchema (session_json r)"
proof -
  from r obtain la :: license_with_allowlists where "r = sessionResult la (text_member body ''sessionToken'')"
    using heartbeat_result[of "text_member body ''sessionToken''" dev ip env w r] by blast
  then have "sr_sessionToken r = text_member body ''sessionToken''" "sr_sessionTtlSeconds r = 45"
    by (simp_all add: sessionResult_def SESSION_TTL_SECONDS_def)
  then show ?thesis using session_body_token[of fm body] assms(1) by (auto intro!: session_json_valid)
qed

lemma usage_answer_valid:
  assumes "rely consistent env" "consistent (w_db w)"
    and "service_consume token dev ip input env w = (Inr r, w')"
  shows "valid fm UsageResponseSchema (usage_json r)"
proof -
  note range = usage_in_range[OF assms]
  then have "1 \<le> length (cr_meter r) \<and> length (cr_meter r) \<le> 128 \<and> 1 \<le> length (cr_eventId r) \<and>
      length (cr_eventId r) \<le> 128 \<and> 1 \<le> cr_units r \<and> cr_units r \<le> MAX_LICENSE_LIMIT"
    using trim_bounds by metis
  moreover have "0 \<le> cr_remaining r \<and> cr_remaining r \<le> MAX_LICENSE_LIMIT" using range by blast
  ultimately show ?thesis by (simp add: usage_json_def UsageResponseSchema_def schema_notation text_schemas)
qed

text \<open>
  C33: a client is never told that its request was invalid because of an answer. When the body of
  a request satisfies the schema of its route and the service answers it, the answer satisfies
  the schema of the route's answers, and the reply has status 200 and is that answer. This uses
  that the database is consistent (a balance is in the range of its schema) and that a UUID has
  36 characters.
\<close>

theorem answers_pass_their_schema:
  assumes "valid fm (endpoint_body ep) body" and "rely consistent env" and "consistent (w_db w)"
    and "\<forall>k j. length (e_uuid env k j) = 36"
    and run: "endpoint_service ep body ip env w = (Inr v, w')"
  shows "valid fm (endpoint_answer ep) v \<and> answered fm (endpoint_answer ep) v = reply 200 v"
proof -
  have "valid fm (endpoint_answer ep) v"
  proof (cases ep)
    case Ep_activate
    with run assms(4) show ?thesis by (auto simp: bindIO_Inr_iff intro: activate_answer_valid)
  next
    case Ep_heartbeat
    with run assms(1) show ?thesis by (auto simp: bindIO_Inr_iff intro: heartbeat_answer_valid)
  next
    case Ep_usage
    with run show ?thesis by (auto simp: bindIO_Inr_iff intro: usage_answer_valid[OF assms(2,3)])
  next
    case Ep_deactivate
    with run show ?thesis
      by (auto simp: bindIO_Inr_iff success_json_def SuccessResponseSchema_def schema_notation)
  qed
  then show ?thesis by (simp add: answered_def)
qed

definition plain_formats :: formats where
  "plain_formats = \<lparr>fm_email = (\<lambda>_. True), fm_dateTime = (\<lambda>_. True)\<rparr>"

definition long_id_env :: env where
  "long_id_env = sample_env\<lparr>e_uuid := \<lambda>k j. replicate 36 (CHR ''u'')\<rparr>"

definition activate_body :: json where
  "activate_body = JObj [(''licenseKey'', JStr ''H''), (''deviceId'', JStr ''dev'')]"

theorem answers_pass_their_schema_witness:
  "\<exists>v w'. endpoint_service Ep_activate activate_body ''1.2.3.4'' long_id_env (sample_world Lifetime) =
      (Inr v, w') \<and>
    answered plain_formats (endpoint_answer Ep_activate) v = reply 200 v"
proof -
  have "case fst (endpoint_service Ep_activate activate_body ''1.2.3.4'' long_id_env (sample_world Lifetime))
      of Inr v \<Rightarrow> True | Inl _ \<Rightarrow> False"
    by code_simp
  then obtain v w' where run: "endpoint_service Ep_activate activate_body ''1.2.3.4'' long_id_env
      (sample_world Lifetime) = (Inr v, w')"
    by (metis run_Inr)
  have "valid plain_formats (endpoint_body Ep_activate) activate_body"
    by (simp add: ActivateInputSchema_def activate_body_def schema_notation text_schemas)
  moreover have "rely consistent long_id_env" by (simp add: rely_def long_id_env_def sample_env_def)
  moreover have "consistent (w_db (sample_world Lifetime))"
    using sample_db_wf[of Lifetime]
    by (auto simp: consistent_def books_ok_def metered_have_meters_def links_on_subscriptions_def
        entries_in_credit_def sample_defs sample_world_def)
  moreover have "\<forall>k j. length (e_uuid long_id_env k j) = 36" by (simp add: long_id_env_def)
  ultimately show ?thesis using answers_pass_their_schema[OF _ _ _ _ run] run by blast
qed

end
