(* ===== verification/JsNumber.thy ===== *)
theory JsNumber
  imports Entities
begin

text \<open>
  \<open>Number(text)\<close> of ECMAScript: the StringNumericLiteral grammar (white space around, the empty
  text, decimal literals with fraction and exponent, \<open>Infinity\<close>, and the prefixes \<open>0x\<close>, \<open>0o\<close>
  and \<open>0b\<close>) and the rounding to the nearest double, ties to even, with its subnormal range and
  its overflow. \<open>NaN\<close> and the infinities are \<open>NonFinite\<close>, and \<open>-0\<close> is \<open>Integral 0\<close>; the program
  only asks such a value whether it is finite or an integer and compares it.

  The lemmas say that the decimal text of an integer below \<open>2 ^ 53\<close> is read as that integer,
  and that a text of digits is a safe integer exactly when its value is.
\<close>

section \<open>Doubles\<close>

definition MAX_SAFE_INTEGER :: int where
  "MAX_SAFE_INTEGER = 9007199254740991"

fun isSafeInteger :: "jsnum \<Rightarrow> bool" where
  "isSafeInteger (Integral i) \<longleftrightarrow> \<bar>i\<bar> \<le> MAX_SAFE_INTEGER"
| "isSafeInteger _ \<longleftrightarrow> False"

fun isFiniteNumber :: "jsnum \<Rightarrow> bool" where
  "isFiniteNumber NonFinite \<longleftrightarrow> False"
| "isFiniteNumber _ \<longleftrightarrow> True"

fun exceeds :: "jsnum \<Rightarrow> int \<Rightarrow> bool" where
  "exceeds (Integral i) n \<longleftrightarrow> n < i"
| "exceeds (Fractional r) n \<longleftrightarrow> of_int n < r"
| "exceeds NonFinite n \<longleftrightarrow> False"

text \<open>
  A positive rational \<open>p / q\<close> is scaled until it lies in \<open>[2 ^ 52, 2 ^ 53)\<close>, or until the exponent
  reaches the smallest one; the quotient is then rounded to the nearest integer.
\<close>

function scale_up :: "nat \<Rightarrow> nat \<Rightarrow> nat \<Rightarrow> nat \<times> nat" where
  "scale_up p q k =
    (if q = 0 \<or> p < 2 ^ 53 * q then (q, k) else scale_up p (2 * q) (Suc k))"
  by auto
termination by (relation "measure (\<lambda>(p, q, k). Suc p - 2 ^ 53 * q)") auto

declare scale_up.simps [simp del]

fun scale_down :: "nat \<Rightarrow> nat \<Rightarrow> nat \<Rightarrow> nat \<times> nat" where
  "scale_down p q 0 = (p, 0)"
| "scale_down p q (Suc k) = (if 2 ^ 52 * q \<le> p then (p, Suc k) else scale_down (2 * p) q k)"

definition round_half_even :: "nat \<Rightarrow> nat \<Rightarrow> nat" where
  "round_half_even p q =
    (let d = p div q; m = p mod q in
     if 2 * m < q then d else if q < 2 * m then Suc d else if even d then d else Suc d)"

definition signed :: "bool \<Rightarrow> int \<Rightarrow> int" where
  "signed negative i = (if negative then - i else i)"

definition to_double :: "bool \<Rightarrow> nat \<Rightarrow> nat \<Rightarrow> jsnum" where
  "to_double negative p q =
    (case scale_up p q 0 of (q', k) \<Rightarrow>
       if 0 < k then
         (let n = round_half_even p q' * 2 ^ k in
          if 2 ^ 1024 \<le> n then NonFinite else Integral (signed negative (int n)))
       else
         (case scale_down p q 1074 of (p', left) \<Rightarrow>
            (let n = round_half_even p' q; d = 2 ^ (1074 - left) in
             if n mod d = 0 then Integral (signed negative (int (n div d)))
             else Fractional (of_int (signed negative (int n)) / of_int (int d)))))"

section \<open>The grammar\<close>

definition digit_of_base :: "nat \<Rightarrow> char \<Rightarrow> nat option" where
  "digit_of_base b c =
    (let n = (of_char c :: nat);
         v = (if 48 \<le> n \<and> n \<le> 57 then n - 48 else if 97 \<le> n \<and> n \<le> 102 then n - 87
              else if 65 \<le> n \<and> n \<le> 70 then n - 55 else 16) in
     if v < b then Some v else None)"

fun based_val :: "nat \<Rightarrow> nat \<Rightarrow> string \<Rightarrow> nat option" where
  "based_val b a [] = Some a"
| "based_val b a (c # s) =
    (case digit_of_base b c of None \<Rightarrow> None | Some v \<Rightarrow> based_val b (b * a + v) s)"

definition base_of :: "char \<Rightarrow> nat option" where
  "base_of c =
    (if c = CHR ''x'' \<or> c = CHR ''X'' then Some 16
     else if c = CHR ''o'' \<or> c = CHR ''O'' then Some 8
     else if c = CHR ''b'' \<or> c = CHR ''B'' then Some 2 else None)"

definition sign_split :: "string \<Rightarrow> bool \<times> string" where
  "sign_split s =
    (case s of [] \<Rightarrow> (False, [])
     | c # r \<Rightarrow> if c = CHR ''-'' then (True, r) else if c = CHR ''+'' then (False, r) else (False, s))"

definition exponent_part :: "string \<Rightarrow> int option" where
  "exponent_part s =
    (case s of [] \<Rightarrow> Some 0
     | c # r \<Rightarrow>
         if c = CHR ''e'' \<or> c = CHR ''E'' then
           (case sign_split r of (neg, ds) \<Rightarrow>
              map_option (\<lambda>n. signed neg (int n)) (read_nat ds))
         else None)"

definition decimal_literal :: "bool \<Rightarrow> string \<Rightarrow> jsnum" where
  "decimal_literal neg s =
    (let ip = takeWhile is_digit s; r = dropWhile is_digit s;
         (fp, r2) = (case r of [] \<Rightarrow> ([], r)
           | c # t \<Rightarrow> if c = CHR ''.'' then (takeWhile is_digit t, dropWhile is_digit t) else ([], r)) in
     if ip = [] \<and> fp = [] then NonFinite
     else
       (case exponent_part r2 of
         None \<Rightarrow> NonFinite
       | Some e \<Rightarrow>
           (let n = digits_val (ip @ fp); x = e - int (length fp) in
            if 0 \<le> x then to_double neg (n * 10 ^ nat x) 1
            else to_double neg n (10 ^ nat (- x)))))"

definition based_prefix :: "string \<Rightarrow> (nat \<times> string) option" where
  "based_prefix s =
    (case s of
      z # c # digits \<Rightarrow>
        if z = CHR ''0'' then map_option (\<lambda>b. (b, digits)) (base_of c) else None
    | _ \<Rightarrow> None)"

definition Number :: "string \<Rightarrow> jsnum" where
  "Number text =
    (let s = trim text in
     if s = [] then Integral 0
     else
       (case based_prefix s of
         Some (b, digits) \<Rightarrow>
           (if digits = [] then NonFinite
            else case based_val b 0 digits of None \<Rightarrow> NonFinite | Some n \<Rightarrow> to_double False n 1)
       | None \<Rightarrow>
           (case sign_split s of (neg, u) \<Rightarrow>
              if u = ''Infinity'' then NonFinite else decimal_literal neg u)))"

section \<open>Integers are exact\<close>

lemma scale_down_one:
  "\<exists>j \<le> k. scale_down p 1 k = (p * 2 ^ j, k - j)"
proof (induction k arbitrary: p)
  case 0
  then show ?case by simp
next
  case (Suc k)
  show ?case
  proof (cases "2 ^ 52 * (1 :: nat) \<le> p")
    case True
    then show ?thesis by (intro exI[of _ 0]) simp
  next
    case False
    from Suc[of "2 * p"] obtain j where "j \<le> k" "scale_down (2 * p) 1 k = (2 * p * 2 ^ j, k - j)"
      by blast
    then show ?thesis using False by (intro exI[of _ "Suc j"]) (simp add: mult.commute)
  qed
qed

lemma round_half_even_one [simp]: "round_half_even p (Suc 0) = p"
  by (simp add: round_half_even_def)

lemma to_double_integer:
  assumes "p < 2 ^ 53"
  shows "to_double neg p 1 = Integral (signed neg (int p))"
proof -
  obtain j where j: "j \<le> 1074" "scale_down p 1 1074 = (p * 2 ^ j, 1074 - j)"
    using scale_down_one by blast
  have "scale_up p 1 0 = (1, 0)" using assms by (subst scale_up.simps) simp
  with j show ?thesis by (simp add: to_double_def Let_def)
qed

lemma scale_up_one:
  "\<exists>j. scale_up p (2 ^ i) k = (2 ^ (i + j), k + j) \<and> p < 2 ^ 53 * 2 ^ (i + j) \<and>
    (0 < j \<longrightarrow> 2 ^ 52 * 2 ^ (i + j) \<le> p)"
proof (induction "Suc p - 2 ^ 53 * 2 ^ i" arbitrary: i k rule: less_induct)
  case less
  show ?case
  proof (cases "p < 2 ^ 53 * 2 ^ i")
    case True
    then show ?thesis by (subst scale_up.simps) (intro exI[of _ 0], simp)
  next
    case False
    moreover have "(0 :: nat) < 2 ^ 53 * 2 ^ i" by simp
    moreover have "(2 :: nat) ^ 53 * 2 ^ Suc i = 2 * (2 ^ 53 * 2 ^ i)" by simp
    ultimately have "Suc p - 2 ^ 53 * 2 ^ Suc i < Suc p - 2 ^ 53 * 2 ^ i" by linarith
    from less[OF this, of "Suc k"] obtain j where j:
      "scale_up p (2 ^ Suc i) (Suc k) = (2 ^ (Suc i + j), Suc k + j)"
      "p < 2 ^ 53 * 2 ^ (Suc i + j)" "0 < j \<longrightarrow> 2 ^ 52 * 2 ^ (Suc i + j) \<le> p" by blast
    have "2 ^ 52 * 2 ^ (Suc i + j) \<le> p"
      using j(3) False by (cases "j = 0") auto
    moreover have "scale_up p (2 ^ i) k = scale_up p (2 ^ Suc i) (Suc k)"
      using False by (subst scale_up.simps) simp
    ultimately show ?thesis using j(1,2) by (intro exI[of _ "Suc j"]) simp
  qed
qed

lemma round_half_even_ge:
  assumes "0 < q" "n * q \<le> p"
  shows "n \<le> round_half_even p q"
proof -
  have "n \<le> p div q" using assms by (simp add: less_eq_div_iff_mult_less_eq)
  also have "\<dots> \<le> round_half_even p q" by (simp add: round_half_even_def Let_def)
  finally show ?thesis .
qed

lemma to_double_big:
  assumes "2 ^ 53 \<le> p"
  shows "to_double neg p 1 = NonFinite \<or>
    (\<exists>n. 2 ^ 53 \<le> n \<and> to_double neg p 1 = Integral (signed neg (int n)))"
proof -
  obtain j where j: "scale_up p 1 0 = (2 ^ j, j)" "p < 2 ^ 53 * 2 ^ j"
      "0 < j \<longrightarrow> 2 ^ 52 * 2 ^ j \<le> p"
    using scale_up_one[of p 0 0] by (auto simp: power_0)
  have "j \<noteq> 0"
  proof
    assume "j = 0"
    with j(2) have "p < 2 ^ 53" by (simp only: power_0 mult_1_right)
    with assms show False by simp
  qed
  then have "2 ^ 52 \<le> round_half_even p (2 ^ j)"
    using j(3) by (intro round_half_even_ge) auto
  moreover have "(2 :: nat) ^ 1 \<le> 2 ^ j" using \<open>j \<noteq> 0\<close> by (intro power_increasing) auto
  ultimately have "2 ^ 52 * 2 ^ 1 \<le> round_half_even p (2 ^ j) * 2 ^ j"
    by (rule mult_le_mono)
  moreover have "(2 :: nat) ^ 53 = 2 ^ 52 * 2 ^ 1" by simp
  ultimately have "2 ^ 53 \<le> round_half_even p (2 ^ j) * 2 ^ j" by (simp only:)
  moreover have "to_double neg p 1 =
    (if 2 ^ 1024 \<le> round_half_even p (2 ^ j) * 2 ^ j then NonFinite
     else Integral (signed neg (int (round_half_even p (2 ^ j) * 2 ^ j))))"
    unfolding to_double_def j(1) prod.case Let_def using \<open>j \<noteq> 0\<close> by (simp only: neq0_conv if_True)
  ultimately show ?thesis by (metis (no_types))
qed

lemma safe_to_double:
  "isSafeInteger (to_double neg n 1) \<longleftrightarrow> int n \<le> MAX_SAFE_INTEGER"
proof (cases "n < 2 ^ 53")
  case True
  then show ?thesis
    by (auto simp: to_double_integer MAX_SAFE_INTEGER_def signed_def simp del: One_nat_def)
next
  case False
  then have "2 ^ 53 \<le> n" by simp
  then consider "to_double neg n 1 = NonFinite"
    | m where "2 ^ 53 \<le> m" "to_double neg n 1 = Integral (signed neg (int m))"
    using to_double_big by blast
  then show ?thesis using False by cases (auto simp: MAX_SAFE_INTEGER_def signed_def)
qed

section \<open>Texts of digits\<close>

lemma digit_no_space: "is_digit c \<Longrightarrow> \<not> js_space c"
  by (auto simp: is_digit_def js_space_def)

lemma trim_no_space: "list_all (\<lambda>c. \<not> js_space c) s \<Longrightarrow> trim s = s"
proof -
  assume *: "list_all (\<lambda>c. \<not> js_space c) s"
  then have "dropWhile js_space s = s" "dropWhile js_space (rev s) = rev s"
    by (auto intro!: dropWhile_hd_id simp: list_all_iff hd_rev)
  then show ?thesis by (simp add: trim_def)
qed

lemma decimal_literal_digits:
  "s \<noteq> [] \<Longrightarrow> list_all is_digit s \<Longrightarrow> decimal_literal neg s = to_double neg (digits_val s) 1"
  by (simp add: decimal_literal_def Let_def takeWhile_eq_all_conv[THEN iffD2]
      dropWhile_eq_Nil_conv[THEN iffD2] list_all_iff exponent_part_def)

lemma base_of_digit: "is_digit c \<Longrightarrow> base_of c = None"
proof -
  assume "is_digit c"
  then have *: "c \<noteq> k" if "57 < (of_char k :: nat)" for k
    using that by (auto simp: is_digit_def)
  show ?thesis
    using *[of "CHR ''x''"] *[of "CHR ''X''"] *[of "CHR ''o''"] *[of "CHR ''O''"]
      *[of "CHR ''b''"] *[of "CHR ''B''"]
    by (simp add: base_of_def)
qed

lemma Number_digits:
  assumes "s \<noteq> []" "list_all is_digit s"
  shows "Number s = to_double False (digits_val s) 1"
proof -
  have t: "trim s = s" using assms(2)
    by (intro trim_no_space) (auto simp: list_all_iff dest: digit_no_space)
  obtain c r where s: "s = c # r" using assms(1) by (cases s) auto
  have c: "is_digit c" using assms s by simp
  then have sign: "sign_split s = (False, s)"
    by (auto simp: s sign_split_def is_digit_def)
  have inf: "s \<noteq> ''Infinity''" using c s by (auto simp: is_digit_def)
  have dec: "decimal_literal False s = to_double False (digits_val s) 1"
    using assms by (rule decimal_literal_digits)
  have "based_prefix s = None"
    using assms(2) by (auto simp: based_prefix_def s base_of_digit split: list.splits)
  then show ?thesis using t sign inf dec assms(1) by (simp add: Number_def)
qed

lemma Number_show_nat:
  assumes "int n \<le> MAX_SAFE_INTEGER"
  shows "Number (show_nat n) = Integral (int n)"
proof -
  have "n < 2 ^ 53" using assms by (simp add: MAX_SAFE_INTEGER_def)
  then show ?thesis
    by (simp add: Number_digits show_nat_digits digits_val_show_nat to_double_integer signed_def
        del: One_nat_def)
qed

lemma Number_digits_safe:
  "s \<noteq> [] \<Longrightarrow> list_all is_digit s \<Longrightarrow>
    isSafeInteger (Number s) \<longleftrightarrow> int (digits_val s) \<le> MAX_SAFE_INTEGER"
  by (simp add: Number_digits safe_to_double del: One_nat_def)

lemma Number_digits_value:
  "s \<noteq> [] \<Longrightarrow> list_all is_digit s \<Longrightarrow> int (digits_val s) \<le> MAX_SAFE_INTEGER \<Longrightarrow>
    Number s = Integral (int (digits_val s))"
  by (simp add: Number_digits to_double_integer MAX_SAFE_INTEGER_def signed_def del: One_nat_def)

end
