(* ===== verification/SdkTransport.thy ===== *)
theory SdkTransport
  imports JsNumber "HOL-Library.List_Lexorder" "HOL-Library.Char_ord"
begin

text \<open>
  What the SDK puts on the wire and what it reads from it: \<open>DeviceManager\<close>, \<open>NetworkClient\<close> and
  the readers of \<open>LicenseClient\<close> (\<open>apps/sdk/src/core\<close>). SHA-256, the WHATWG URL parser,
  \<open>JSON.parse\<close> of the decoded bytes and the facts \<open>node:os\<close> reports are arguments. A response is
  its status, the two headers the client looks at and its body in the pieces the stream yields; a
  piece may also be a failure of the stream.

  The theory shows that a body over the safety limit is never parsed, however it is cut into
  pieces, and that an accepted response lies within the bounds of the protocol.
\<close>

section \<open>The device identifier\<close>

record network_address =
  no_mac :: string
  no_internal :: bool

record os_facts =
  os_platform :: string
  os_arch :: string
  os_cpus :: nat
  os_hostname :: string
  os_networkInterfaces :: "network_address list list"

definition mac_addresses :: "os_facts \<Rightarrow> string list" where
  "mac_addresses os = map (\<lambda>a. toLowerCase (no_mac a))
    (filter (\<lambda>a. \<not> no_internal a \<and> no_mac a \<noteq> ''00:00:00:00:00:00'')
      (concat (os_networkInterfaces os)))"

definition host_identity :: "os_facts \<Rightarrow> string" where
  "host_identity os =
    (let macs = sort (remdups (mac_addresses os));
         networkIdentity = (case macs of [] \<Rightarrow> [] | m # ms \<Rightarrow> m @ concat (map (\<lambda>x. CHR '':'' # x) ms)) in
     os_platform os @ '':'' @ os_arch os @ '':'' @ show_nat (os_cpus os) @ '':'' @
       (if networkIdentity \<noteq> [] then networkIdentity else os_hostname os))"

definition getDeviceId :: "(string \<Rightarrow> string) \<Rightarrow> os_facts \<Rightarrow> string option \<Rightarrow> string" where
  "getDeviceId sha256 os configured =
    (case configured of Some d \<Rightarrow> sha256 (trim d) | None \<Rightarrow> sha256 (host_identity os))"

section \<open>Requests\<close>

record url =
  url_protocol :: string
  url_hostname :: string
  url_username :: string
  url_password :: string
  url_search :: string
  url_hash :: string
  url_href :: string

record sdk_usage_input =
  su_meter :: string
  su_units :: int
  su_eventId :: string

record network_client =
  nc_serverUrl :: string
  nc_licenseKey :: string
  nc_requestTimeoutMs :: int

record http_request =
  hq_url :: string
  hq_body :: json_object
  hq_timeoutMs :: int

definition strip_slashes :: "string \<Rightarrow> string" where
  "strip_slashes s = rev (dropWhile (\<lambda>c. c = CHR ''/'') (rev s))"

definition normalizeSecureServerUrl :: "(string \<Rightarrow> url option) \<Rightarrow> string \<Rightarrow> string + string" where
  "normalizeSecureServerUrl parseUrl serverUrl =
    (case parseUrl (trim serverUrl) of
      None \<Rightarrow> Inl ''serverUrl must use HTTPS (HTTP is allowed only for loopback development)''
    | Some u \<Rightarrow>
        (let isLoopback = url_hostname u \<in> {''localhost'', ''127.0.0.1'', ''[::1]''} in
         if url_username u \<noteq> [] \<or> url_password u \<noteq> [] \<or> url_search u \<noteq> [] \<or> url_hash u \<noteq> [] \<or>
            (url_protocol u \<noteq> ''https:'' \<and> \<not> (url_protocol u = ''http:'' \<and> isLoopback))
         then Inl ''serverUrl must use HTTPS (HTTP is allowed only for loopback development)''
         else Inr (strip_slashes (url_href u))))"

definition NetworkClient ::
    "(string \<Rightarrow> url option) \<Rightarrow> string \<Rightarrow> string \<Rightarrow> int \<Rightarrow> string + network_client" where
  "NetworkClient parseUrl serverUrl licenseKey requestTimeoutMs =
    bindR (normalizeSecureServerUrl parseUrl serverUrl) (\<lambda>u.
      Inr \<lparr>nc_serverUrl = u, nc_licenseKey = licenseKey, nc_requestTimeoutMs = requestTimeoutMs\<rparr>)"

definition post :: "network_client \<Rightarrow> string \<Rightarrow> json_object \<Rightarrow> http_request" where
  "post n path body =
    \<lparr>hq_url = nc_serverUrl n @ path, hq_body = body, hq_timeoutMs = nc_requestTimeoutMs n\<rparr>"

definition sendActivate :: "network_client \<Rightarrow> string \<Rightarrow> http_request" where
  "sendActivate n deviceId =
    post n ''/v1/activate'' [(''licenseKey'', JStr (nc_licenseKey n)), (''deviceId'', JStr deviceId)]"

definition session_body :: "string \<Rightarrow> string \<Rightarrow> json_object" where
  "session_body sessionToken deviceId =
    [(''sessionToken'', JStr sessionToken), (''deviceId'', JStr deviceId)]"

definition sendHeartbeat :: "network_client \<Rightarrow> string \<Rightarrow> string \<Rightarrow> http_request" where
  "sendHeartbeat n sessionToken deviceId =
    post n ''/v1/heartbeat'' (session_body sessionToken deviceId)"

definition sendUsage :: "network_client \<Rightarrow> string \<Rightarrow> string \<Rightarrow> sdk_usage_input \<Rightarrow> http_request" where
  "sendUsage n sessionToken deviceId input =
    post n ''/v1/usage'' (session_body sessionToken deviceId @
      [(''meter'', JStr (su_meter input)), (''units'', JNum (Integral (su_units input))),
       (''eventId'', JStr (su_eventId input))])"

definition sendDeactivate :: "network_client \<Rightarrow> string \<Rightarrow> string \<Rightarrow> http_request" where
  "sendDeactivate n sessionToken deviceId =
    post n ''/v1/deactivate'' (session_body sessionToken deviceId)"

section \<open>Responses\<close>

text \<open>
  What a call may throw: an \<open>Error\<close> with its message, a \<open>LicenseRequestError\<close>, or a value that is
  not an \<open>Error\<close>.
\<close>

datatype sdk_error =
    Sdk_error string
  | LicenseRequestError (re_message: string) (re_status: int) (re_code: "string option")
  | Not_an_error

datatype chunk = Bytes string | Broken sdk_error

record http_response =
  hr_status :: int
  hr_contentLength :: "string option"
  hr_retryAfter :: "string option"
  hr_body :: "chunk list option"

datatype http_outcome = Rejected_fetch sdk_error | Answered http_response

record server_rejection =
  sr_message :: string
  sr_code :: "string option"

record session_payload =
  sp_licenseType :: license_type
  sp_metadata :: json_object
  sp_sessionToken :: string
  sp_sessionTtlSeconds :: int

record usage_payload =
  up_meter :: string
  up_units :: int
  up_eventId :: string
  up_remaining :: int

definition MAX_RESPONSE_BODY_BYTES :: nat where
  "MAX_RESPONSE_BODY_BYTES = 262144"

definition MAX_SESSION_TTL_SECONDS :: int where
  "MAX_SESSION_TTL_SECONDS = 86400"

definition MAX_LICENSE_LIMIT_SDK :: int where
  "MAX_LICENSE_LIMIT_SDK = 2147483647"

definition response_ok :: "http_response \<Rightarrow> bool" where
  "response_ok r \<longleftrightarrow> 200 \<le> hr_status r \<and> hr_status r \<le> 299"

definition over_limit :: sdk_error where
  "over_limit = Sdk_error ''License server response exceeded the safety limit''"

fun read_chunks :: "nat \<Rightarrow> chunk list \<Rightarrow> sdk_error + string list" where
  "read_chunks n [] = Inr []"
| "read_chunks n (Broken e # cs) = Inl e"
| "read_chunks n (Bytes b # cs) =
    (let n' = n + length b in
     if MAX_RESPONSE_BODY_BYTES < n' then Inl over_limit
     else bindR (read_chunks n' cs) (\<lambda>bs. Inr (b # bs)))"

definition readJson :: "(string \<Rightarrow> json option) \<Rightarrow> http_response \<Rightarrow> sdk_error + json option" where
  "readJson parse r =
    (if (case hr_contentLength r of
           None \<Rightarrow> False | Some d \<Rightarrow> exceeds (Number d) (int MAX_RESPONSE_BODY_BYTES))
     then Inl over_limit
     else
       (case hr_body r of
         None \<Rightarrow> Inr None
       | Some chunks \<Rightarrow> bindR (read_chunks 0 chunks) (\<lambda>bs. Inr (parse (concat bs)))))"

fun record_fields :: "json option \<Rightarrow> json_object option" where
  "record_fields (Some (JObj kvs)) = Some kvs"
| "record_fields _ = None"

definition isRecord :: "json option \<Rightarrow> bool" where
  "isRecord v \<longleftrightarrow> record_fields v \<noteq> None"

definition sdk_license_type_of :: "json option \<Rightarrow> license_type option" where
  "sdk_license_type_of v =
    (if v = Some (JStr ''lifetime'') then Some Lifetime
     else if v = Some (JStr ''subscription'') then Some Subscription
     else if v = Some (JStr ''metered'') then Some Metered
     else if v = Some (JStr ''trial'') then Some Trial else None)"

definition isLicenseType :: "json option \<Rightarrow> bool" where
  "isLicenseType v \<longleftrightarrow> sdk_license_type_of v \<noteq> None"

fun text_between :: "nat \<Rightarrow> nat \<Rightarrow> json option \<Rightarrow> string option" where
  "text_between lo hi (Some (JStr s)) = (if lo \<le> length s \<and> length s \<le> hi then Some s else None)"
| "text_between lo hi _ = None"

fun integer_between :: "int \<Rightarrow> int \<Rightarrow> json option \<Rightarrow> int option" where
  "integer_between lo hi (Some (JNum (Integral i))) =
    (if isSafeInteger (Integral i) \<and> lo \<le> i \<and> i \<le> hi then Some i else None)"
| "integer_between lo hi _ = None"

definition readSessionResponse ::
    "(string \<Rightarrow> json option) \<Rightarrow> http_response \<Rightarrow> string \<Rightarrow> sdk_error + session_payload" where
  "readSessionResponse parse r requestName =
    bindR (readJson parse r) (\<lambda>payload.
      case record_fields payload of
        None \<Rightarrow> Inl (Sdk_error (''License server returned an invalid '' @ requestName @ '' response''))
      | Some kvs \<Rightarrow>
          (case (map_of kvs ''success'' = Some (JBool True), sdk_license_type_of (map_of kvs ''licenseType''),
             record_fields (map_of kvs ''metadata''),
             text_between 32 512 (map_of kvs ''sessionToken''),
             integer_between 1 MAX_SESSION_TTL_SECONDS (map_of kvs ''sessionTtlSeconds'')) of
            (True, Some t, Some m, Some token, Some ttl) \<Rightarrow>
              Inr \<lparr>sp_licenseType = t, sp_metadata = m, sp_sessionToken = token,
                sp_sessionTtlSeconds = ttl\<rparr>
          | _ \<Rightarrow> Inl (Sdk_error (''License server returned an invalid '' @ requestName @ '' response''))))"

definition readUsageResponse ::
    "(string \<Rightarrow> json option) \<Rightarrow> http_response \<Rightarrow> sdk_error + usage_payload" where
  "readUsageResponse parse r =
    bindR (readJson parse r) (\<lambda>payload.
      case record_fields payload of
        None \<Rightarrow> Inl (Sdk_error ''License server returned an invalid usage response'')
      | Some kvs \<Rightarrow>
          (case (map_of kvs ''success'' = Some (JBool True), text_between 1 128 (map_of kvs ''meter''),
             integer_between 1 MAX_LICENSE_LIMIT_SDK (map_of kvs ''units''),
             text_between 1 128 (map_of kvs ''eventId''),
             integer_between 0 MAX_LICENSE_LIMIT_SDK (map_of kvs ''remaining'')) of
            (True, Some m, Some u, Some e, Some n) \<Rightarrow>
              Inr \<lparr>up_meter = m, up_units = u, up_eventId = e, up_remaining = n\<rparr>
          | _ \<Rightarrow> Inl (Sdk_error ''License server returned an invalid usage response'')))"

definition readDeactivateResponse ::
    "(string \<Rightarrow> json option) \<Rightarrow> http_response \<Rightarrow> sdk_error + unit" where
  "readDeactivateResponse parse r =
    bindR (readJson parse r) (\<lambda>payload.
      checkR (case record_fields payload of
          None \<Rightarrow> False | Some kvs \<Rightarrow> map_of kvs ''success'' = Some (JBool True))
        (Sdk_error ''License server returned an invalid deactivation response''))"

definition readError :: "(string \<Rightarrow> json option) \<Rightarrow> http_response \<Rightarrow> sdk_error + server_rejection" where
  "readError parse r =
    bindR (readJson parse r) (\<lambda>payload.
      Inr (case record_fields payload of
        None \<Rightarrow> \<lparr>sr_message = ''HTTP '' @ show_int (hr_status r), sr_code = None\<rparr>
      | Some kvs \<Rightarrow>
          (case map_of kvs ''error'' of
            Some (JStr e) \<Rightarrow>
              if e = [] then \<lparr>sr_message = ''HTTP '' @ show_int (hr_status r), sr_code = None\<rparr>
              else \<lparr>sr_message = e,
                sr_code = (case map_of kvs ''code'' of
                  Some (JStr c) \<Rightarrow> if c = [] then None else Some c | _ \<Rightarrow> None)\<rparr>
          | _ \<Rightarrow> \<lparr>sr_message = ''HTTP '' @ show_int (hr_status r), sr_code = None\<rparr>)))"

definition toRequestError :: "http_response \<Rightarrow> server_rejection \<Rightarrow> sdk_error" where
  "toRequestError r rejection = LicenseRequestError (sr_message rejection) (hr_status r) (sr_code rejection)"

section \<open>What the readers accept\<close>

lemma read_chunks_Inr_iff:
  "read_chunks n cs = Inr bs \<longleftrightarrow>
    cs = map Bytes bs \<and> (bs = [] \<or> n + length (concat bs) \<le> MAX_RESPONSE_BODY_BYTES)"
proof (induction cs arbitrary: n bs)
  case Nil
  then show ?case by auto
next
  case (Cons c cs)
  then show ?case by (cases c; cases bs) (auto simp: Let_def add.assoc)
qed

lemma text_between_Some_iff [simp]:
  "text_between lo hi v = Some s \<longleftrightarrow> v = Some (JStr s) \<and> lo \<le> length s \<and> length s \<le> hi"
  by (induction lo hi v rule: text_between.induct) auto

lemma integer_between_Some_iff [simp]:
  "integer_between lo hi v = Some i \<longleftrightarrow>
    v = Some (JNum (Integral i)) \<and> isSafeInteger (Integral i) \<and> lo \<le> i \<and> i \<le> hi"
  by (induction lo hi v rule: integer_between.induct) auto

lemma readSessionResponse_Inr:
  assumes "readSessionResponse parse r n = Inr p"
  shows "32 \<le> length (sp_sessionToken p) \<and> length (sp_sessionToken p) \<le> 512 \<and>
    1 \<le> sp_sessionTtlSeconds p \<and> sp_sessionTtlSeconds p \<le> MAX_SESSION_TTL_SECONDS"
  using assms by (auto simp: readSessionResponse_def split: option.splits prod.splits bool.splits)

lemma readUsageResponse_Inr:
  assumes "readUsageResponse parse r = Inr p"
  shows "0 \<le> up_remaining p \<and> up_remaining p \<le> MAX_LICENSE_LIMIT_SDK"
  using assms by (auto simp: readUsageResponse_def split: option.splits prod.splits bool.splits)

lemma readJson_parses_small:
  "readJson parse r = Inr (Some j) \<Longrightarrow>
    \<exists>bs. hr_body r = Some (map Bytes bs) \<and> parse (concat bs) = Some j \<and>
      length (concat bs) \<le> MAX_RESPONSE_BODY_BYTES"
  by (auto simp: readJson_def read_chunks_Inr_iff split: if_splits option.splits)

end
