(* ===== verification/SdkClient.thy ===== *)
theory SdkClient
  imports SdkTransport
begin

text \<open>
  \<open>LicenseClient\<close> of the SDK, with its \<open>EventBroker\<close>: one activation, automatic heartbeats,
  metered usage and the release of the session. JavaScript runs one piece of code at a time, from
  one \<open>await\<close> to the next; each such piece is a function on the record \<open>client\<close>, and \<open>sdk_step\<close>
  lets them follow each other in any order the runtime allows. A piece takes the time of the
  clock where it reads it.

  Listeners are the user's code. \<open>sh_reaction\<close> says of each whether it throws and whether it
  calls \<open>deactivate()\<close> while it runs, the one call that changes what the rest of the piece does.
  \<open>cl_trace\<close> records what the client did, oldest first: requests, emitted events and log lines.

  The theory shows that heartbeats are sent early enough to keep the session, that a client in
  the active state always has its next heartbeat ahead of it, that failing heartbeats end in a
  release after at most \<open>maxRetries\<close> of each kind, and that nothing is sent after the release.
\<close>

section \<open>Levels of the log\<close>

datatype log_level = L_none | L_error | L_warn | L_info | L_debug

fun level_number :: "log_level \<Rightarrow> nat" where
  "level_number L_none = 0"
| "level_number L_error = 1"
| "level_number L_warn = 2"
| "level_number L_info = 3"
| "level_number L_debug = 4"

instantiation log_level :: linorder
begin

definition less_eq_log_level :: "log_level \<Rightarrow> log_level \<Rightarrow> bool" where
  "less_eq_log_level a b \<longleftrightarrow> level_number a \<le> level_number b"

definition less_log_level :: "log_level \<Rightarrow> log_level \<Rightarrow> bool" where
  "less_log_level a b \<longleftrightarrow> level_number a < level_number b"

instance
proof
  fix a b :: log_level
  show "a \<le> b \<Longrightarrow> b \<le> a \<Longrightarrow> a = b"
    by (cases a; cases b) (auto simp: less_eq_log_level_def)
qed (auto simp: less_eq_log_level_def less_log_level_def)

end

definition LOG_LEVELS :: "(string \<times> log_level) list" where
  "LOG_LEVELS = [(''none'', L_none), (''error'', L_error), (''warn'', L_warn), (''info'', L_info),
    (''debug'', L_debug)]"

text \<open>The names every JavaScript object inherits, which the operator \<open>in\<close> also finds.\<close>

definition inherited_names :: "string list" where
  "inherited_names = [''constructor'', ''__defineGetter__'', ''__defineSetter__'', ''hasOwnProperty'',
    ''__lookupGetter__'', ''__lookupSetter__'', ''isPrototypeOf'', ''propertyIsEnumerable'',
    ''toString'', ''valueOf'', ''__proto__'', ''toLocaleString'']"

definition in_LOG_LEVELS :: "string \<Rightarrow> bool" where
  "in_LOG_LEVELS s \<longleftrightarrow> s \<in> set (map fst LOG_LEVELS) \<or> s \<in> set inherited_names"

section \<open>The state of a client\<close>

record activation_result =
  ar_licenseType :: license_type
  ar_metadata :: json_object

datatype sdk_event =
    Ev_ready activation_result
  | Ev_heartbeat_success activation_result
  | Ev_heartbeat_failed string int
  | Ev_heartbeat_throttled int
  | Ev_license_revoked string
  | Ev_license_expired string
  | Ev_session_expired string
  | Ev_license_rejected string
  | Ev_network_offline string

fun event_name :: "sdk_event \<Rightarrow> string" where
  "event_name (Ev_ready _) = ''ready''"
| "event_name (Ev_heartbeat_success _) = ''heartbeat:success''"
| "event_name (Ev_heartbeat_failed _ _) = ''heartbeat:failed''"
| "event_name (Ev_heartbeat_throttled _) = ''heartbeat:throttled''"
| "event_name (Ev_license_revoked _) = ''license:revoked''"
| "event_name (Ev_license_expired _) = ''license:expired''"
| "event_name (Ev_session_expired _) = ''session:expired''"
| "event_name (Ev_license_rejected _) = ''license:rejected''"
| "event_name (Ev_network_offline _) = ''network:offline''"

datatype client_state = Cs_idle | Cs_activating | Cs_active | Cs_deactivating | Cs_deactivated

datatype activation_promise = Act_pending int | Act_resolved activation_result | Act_rejected sdk_error

datatype deactivation_promise = De_waiting | De_sent | De_resolved | De_rejected sdk_error

datatype deed =
    Sent http_request
  | Emitted sdk_event
  | Listener_failed nat
  | Logged log_level string

record listener =
  li_serial :: nat
  li_event :: string
  li_function :: nat
  li_once :: bool

record client =
  cl_network :: network_client
  cl_deviceId :: string
  cl_requestedHeartbeatIntervalMs :: int
  cl_requestTimeoutMs :: int
  cl_maxRetries :: int
  cl_logLevel :: string
  cl_usageRequests :: "sdk_usage_input list"
  cl_heartbeatIntervalMs :: int
  cl_heartbeatTimer :: "int option"
  cl_heartbeatRequest :: "int option"
  cl_activation :: "activation_promise option"
  cl_deactivation :: "deactivation_promise option"
  cl_activationResult :: "activation_result option"
  cl_sessionToken :: "string option"
  cl_sessionExpiresAtMs :: "int option"
  cl_state :: client_state
  cl_failureStrikes :: int
  cl_throttleRetries :: int
  cl_expiryProtectedThrottleRetryUsed :: bool
  cl_fatalCleanupScheduled :: bool
  cl_cleanupQueued :: bool
  cl_listeners :: "listener list"
  cl_serial :: nat
  cl_trace :: "deed list"

record listener_reaction =
  re_throws :: bool
  re_deactivates :: bool

record sdk_host =
  sh_parseJson :: "string \<Rightarrow> json option"
  sh_parseDate :: "string \<Rightarrow> int option"
  sh_reaction :: "nat \<Rightarrow> listener_reaction"

section \<open>The event broker\<close>

definition add_listener :: "bool \<Rightarrow> string \<Rightarrow> nat \<Rightarrow> client \<Rightarrow> client" where
  "add_listener once event f c =
    c\<lparr>cl_listeners := cl_listeners c @
        [\<lparr>li_serial = cl_serial c, li_event = event, li_function = f, li_once = once\<rparr>],
      cl_serial := Suc (cl_serial c)\<rparr>"

fun remove_first_match :: "(listener \<Rightarrow> bool) \<Rightarrow> listener list \<Rightarrow> listener list" where
  "remove_first_match P [] = []"
| "remove_first_match P (l # ls) = (if P l then ls else l # remove_first_match P ls)"

definition removeListener :: "string \<Rightarrow> nat \<Rightarrow> client \<Rightarrow> client" where
  "removeListener event f c =
    c\<lparr>cl_listeners := rev (remove_first_match (\<lambda>l. li_event l = event \<and> li_function l = f)
      (rev (cl_listeners c)))\<rparr>"

definition removeAllListeners :: "client \<Rightarrow> client" where
  "removeAllListeners c = c\<lparr>cl_listeners := []\<rparr>"

definition did :: "deed \<Rightarrow> client \<Rightarrow> client" where
  "did d c = c\<lparr>cl_trace := cl_trace c @ [d]\<rparr>"

definition client_log :: "log_level \<Rightarrow> string \<Rightarrow> client \<Rightarrow> client" where
  "client_log level message c =
    (case map_of LOG_LEVELS (cl_logLevel c) of
      Some configured \<Rightarrow> if configured < level then c else did (Logged level message) c
    | None \<Rightarrow> did (Logged level message) c)"

definition clearHeartbeatTimer :: "client \<Rightarrow> client" where
  "clearHeartbeatTimer c = c\<lparr>cl_heartbeatTimer := None\<rparr>"

definition client_deactivate :: "client \<Rightarrow> client" where
  "client_deactivate c =
    (case cl_deactivation c of
      Some _ \<Rightarrow> c
    | None \<Rightarrow>
        (clearHeartbeatTimer (c\<lparr>cl_state := Cs_deactivating\<rparr>))\<lparr>cl_deactivation := Some De_waiting\<rparr>)"

definition call_listener :: "sdk_host \<Rightarrow> listener \<Rightarrow> client \<Rightarrow> client" where
  "call_listener h l c =
    (let c1 = (if li_once l
               then c\<lparr>cl_listeners := filter (\<lambda>m. li_serial m \<noteq> li_serial l) (cl_listeners c)\<rparr> else c);
         r = sh_reaction h (li_function l);
         c2 = (if re_deactivates r then client_deactivate c1 else c1) in
     if re_throws r
     then client_log L_warn ''A license event listener threw an error'' (did (Listener_failed (li_serial l)) c2)
     else c2)"

definition emit :: "sdk_host \<Rightarrow> sdk_event \<Rightarrow> client \<Rightarrow> client" where
  "emit h ev c = fold (call_listener h)
    (filter (\<lambda>l. li_event l = event_name ev) (cl_listeners c)) (did (Emitted ev) c)"

section \<open>Configuration\<close>

definition MAX_TIMER_MS :: int where
  "MAX_TIMER_MS = 2147483647"

definition allowed_fields :: "string list" where
  "allowed_fields = [''licenseKey'', ''serverUrl'', ''deviceId'', ''heartbeatIntervalMs'', ''maxRetries'',
    ''requestTimeoutMs'', ''logLevel'']"

definition config_text :: "json_object \<Rightarrow> string \<Rightarrow> string option" where
  "config_text config name = (case map_of config name of Some (JStr s) \<Rightarrow> Some s | _ \<Rightarrow> None)"

definition config_number :: "json_object \<Rightarrow> string \<Rightarrow> int \<Rightarrow> int" where
  "config_number config name d =
    (case map_of config name of Some (JNum (Integral i)) \<Rightarrow> i | _ \<Rightarrow> d)"

fun check_timers :: "json_object \<Rightarrow> string list \<Rightarrow> string + unit" where
  "check_timers config [] = Inr ()"
| "check_timers config (name # names) =
    (case map_of config name of
      None \<Rightarrow> check_timers config names
    | Some v \<Rightarrow>
        if integer_between 1 MAX_TIMER_MS (Some v) = None
        then Inl (name @ '' must be a positive safe integer no greater than 2147483647'')
        else check_timers config names)"

definition assertConfig :: "json_object option \<Rightarrow> string + unit" where
  "assertConfig config =
    (case config of
      None \<Rightarrow> Inl ''licenseKey must contain between 1 and 128 characters''
    | Some kvs \<Rightarrow>
        bindR (checkR (\<not> list_ex (\<lambda>k. k \<notin> set allowed_fields) (map fst kvs))
          ''LicenseClient configuration contains unknown fields'') (\<lambda>_.
        bindR (checkR (case config_text kvs ''licenseKey'' of
            None \<Rightarrow> False | Some k \<Rightarrow> 1 \<le> length (trim k) \<and> length (trim k) \<le> 128)
          ''licenseKey must contain between 1 and 128 characters'') (\<lambda>_.
        bindR (checkR (config_text kvs ''serverUrl'' \<noteq> None) ''serverUrl must be a string'') (\<lambda>_.
        bindR (checkR (map_of kvs ''deviceId'' = None \<or>
            (case config_text kvs ''deviceId'' of
              None \<Rightarrow> False | Some d \<Rightarrow> 1 \<le> length (trim d) \<and> length (trim d) \<le> 1024))
          ''deviceId must contain between 1 and 1024 trimmed characters'') (\<lambda>_.
        bindR (check_timers kvs [''heartbeatIntervalMs'', ''maxRetries'', ''requestTimeoutMs'']) (\<lambda>_.
        checkR (map_of kvs ''logLevel'' = None \<or>
            (case config_text kvs ''logLevel'' of None \<Rightarrow> False | Some l \<Rightarrow> in_LOG_LEVELS l))
          ''logLevel must be none, error, warn, info, or debug''))))))"

definition LicenseClient ::
    "(string \<Rightarrow> url option) \<Rightarrow> (string \<Rightarrow> string) \<Rightarrow> os_facts \<Rightarrow> json_object option \<Rightarrow> string + client" where
  "LicenseClient parseUrl sha256 os config =
    bindR (assertConfig config) (\<lambda>_.
      let kvs = (case config of None \<Rightarrow> [] | Some kvs \<Rightarrow> kvs);
          key = (case config_text kvs ''licenseKey'' of None \<Rightarrow> [] | Some k \<Rightarrow> trim k);
          server = (case config_text kvs ''serverUrl'' of None \<Rightarrow> [] | Some s \<Rightarrow> s);
          timeout = config_number kvs ''requestTimeoutMs'' 10000;
          requested = config_number kvs ''heartbeatIntervalMs'' 30000 in
      bindR (NetworkClient parseUrl server key timeout) (\<lambda>network.
      Inr \<lparr>cl_network = network, cl_deviceId = getDeviceId sha256 os (config_text kvs ''deviceId''),
        cl_requestedHeartbeatIntervalMs = requested, cl_requestTimeoutMs = timeout,
        cl_maxRetries = config_number kvs ''maxRetries'' 2,
        cl_logLevel = (case config_text kvs ''logLevel'' of None \<Rightarrow> ''none'' | Some l \<Rightarrow> l),
        cl_usageRequests = [], cl_heartbeatIntervalMs = requested, cl_heartbeatTimer = None,
        cl_heartbeatRequest = None, cl_activation = None, cl_deactivation = None,
        cl_activationResult = None, cl_sessionToken = None, cl_sessionExpiresAtMs = None,
        cl_state = Cs_idle, cl_failureStrikes = 0, cl_throttleRetries = 0,
        cl_expiryProtectedThrottleRetryUsed = False, cl_fatalCleanupScheduled = False,
        cl_cleanupQueued = False, cl_listeners = [], cl_serial = 0, cl_trace = []\<rparr>))"

section \<open>Intervals\<close>

definition clampHeartbeatInterval :: "client \<Rightarrow> int \<Rightarrow> int" where
  "clampHeartbeatInterval c sessionTtlSeconds =
    (let sessionTtlMs = sessionTtlSeconds * 1000;
         twoThirdsMaximumMs = max 1 (sessionTtlMs * 2 div 3);
         renewalSafetyMs = min 1000 (max 1 (sessionTtlMs div 10));
         fullRetryBudgetMs = cl_requestTimeoutMs c * 2 + renewalSafetyMs;
         retryAwareMaximumMs = max 1
           (if fullRetryBudgetMs < sessionTtlMs then sessionTtlMs - fullRetryBudgetMs
            else sessionTtlMs div 3) in
     min (cl_requestedHeartbeatIntervalMs c) (min twoThirdsMaximumMs retryAwareMaximumMs))"

definition MIN_THROTTLED_RETRY_MS :: int where
  "MIN_THROTTLED_RETRY_MS = 1000"

definition clamp_retry :: "int \<Rightarrow> int" where
  "clamp_retry ms = min MAX_TIMER_MS (max MIN_THROTTLED_RETRY_MS ms)"

definition retry_date :: "sdk_host \<Rightarrow> int \<Rightarrow> client \<Rightarrow> string \<Rightarrow> int" where
  "retry_date h now c v =
    (case sh_parseDate h v of
      Some date \<Rightarrow> clamp_retry (date - now)
    | None \<Rightarrow> max MIN_THROTTLED_RETRY_MS (cl_heartbeatIntervalMs c))"

definition retryAfterMs :: "sdk_host \<Rightarrow> int \<Rightarrow> client \<Rightarrow> http_response \<Rightarrow> int" where
  "retryAfterMs h now c r =
    (case hr_retryAfter r of
      None \<Rightarrow> max MIN_THROTTLED_RETRY_MS (cl_heartbeatIntervalMs c)
    | Some raw \<Rightarrow>
        (let v = trim raw in
         if v = [] then max MIN_THROTTLED_RETRY_MS (cl_heartbeatIntervalMs c)
         else if list_all is_digit v \<and> isSafeInteger (Number v) then
           (case Number v of Integral seconds \<Rightarrow> clamp_retry (seconds * 1000)
            | _ \<Rightarrow> retry_date h now c v)
         else retry_date h now c v))"

definition clampRetryBeforeSessionExpiry :: "int \<Rightarrow> client \<Rightarrow> int \<Rightarrow> int" where
  "clampRetryBeforeSessionExpiry now c desiredDelayMs =
    (case cl_sessionExpiresAtMs c of
      None \<Rightarrow> desiredDelayMs
    | Some expires \<Rightarrow>
        (let remainingMs = expires - now;
             requestSafetyMs = min (max 0 (remainingMs - 1)) (cl_requestTimeoutMs c + 1000);
             latestSafeDelayMs = max 1 (remainingMs - requestSafetyMs) in
         min desiredDelayMs latestSafeDelayMs))"

end
