(* ===== verification/SdkLifecycle.thy ===== *)
theory SdkLifecycle
  imports SdkClient
begin

text \<open>
  The life of a \<open>LicenseClient\<close>: \<open>activate\<close>, \<open>consume\<close>, \<open>deactivate\<close>, the heartbeat and the fatal
  clean-up, one function per run of code between two \<open>await\<close>s, and \<open>sdk_step\<close>, the relation in
  which the runtime orders them. A fetch that ends, with its body read, is one step: nothing
  between the headers and the body reads or writes the client. The promise callbacks of the
  client itself (clearing a failed activation or a finished heartbeat) run before any other code
  can observe the promise and belong to the same step.
\<close>

section \<open>Pieces of the handlers\<close>

definition scheduleHeartbeat :: "int \<Rightarrow> client \<Rightarrow> client" where
  "scheduleHeartbeat delayMs c =
    (if cl_state c \<noteq> Cs_active then c else c\<lparr>cl_heartbeatTimer := Some delayMs\<rparr>)"

definition handleFatalError :: "string \<Rightarrow> client \<Rightarrow> client" where
  "handleFatalError message c =
    (if cl_fatalCleanupScheduled c then c
     else client_log L_error (''FATAL ERROR: '' @ message)
       (c\<lparr>cl_fatalCleanupScheduled := True, cl_cleanupQueued := True\<rparr>))"

definition recordHeartbeatFailure :: "sdk_host \<Rightarrow> string \<Rightarrow> client \<Rightarrow> client" where
  "recordHeartbeatFailure h message c =
    (if cl_state c \<noteq> Cs_active then c
     else
       (let strikes = cl_failureStrikes c + 1;
            c1 = emit h (Ev_heartbeat_failed message strikes) (c\<lparr>cl_failureStrikes := strikes\<rparr>);
            c2 = client_log L_warn (''Heartbeat failed: '' @ message) c1 in
        if cl_maxRetries c2 \<le> cl_failureStrikes c2
        then handleFatalError message (emit h (Ev_network_offline message) c2)
        else c2))"

definition emitLicenseRejection :: "sdk_host \<Rightarrow> server_rejection \<Rightarrow> client \<Rightarrow> client" where
  "emitLicenseRejection h rejection =
    (if sr_code rejection = Some ''LICENSE_EXPIRED'' then emit h (Ev_license_expired (sr_message rejection))
     else if sr_code rejection = Some ''LICENSE_REVOKED'' then emit h (Ev_license_revoked (sr_message rejection))
     else if sr_code rejection = Some ''SESSION_INVALID_OR_EXPIRED''
       then emit h (Ev_session_expired (sr_message rejection))
     else emit h (Ev_license_rejected (sr_message rejection)))"

definition isFatalSessionRejection :: "string option \<Rightarrow> bool" where
  "isFatalSessionRejection code \<longleftrightarrow>
    code \<in> Some ` {''LICENSE_INVALID'', ''LICENSE_REVOKED'', ''LICENSE_EXPIRED'', ''IP_NOT_ALLOWED'',
      ''DEVICE_NOT_ALLOWED'', ''SESSION_INVALID_OR_EXPIRED''}"

definition toActivationResult :: "session_payload \<Rightarrow> activation_result" where
  "toActivationResult p = \<lparr>ar_licenseType = sp_licenseType p, ar_metadata = sp_metadata p\<rparr>"

text \<open>The assignments that follow every accepted activation or heartbeat.\<close>

definition store_session :: "int \<Rightarrow> session_payload \<Rightarrow> client \<Rightarrow> client" where
  "store_session startedAt p c =
    c\<lparr>cl_sessionToken := Some (sp_sessionToken p),
      cl_sessionExpiresAtMs := Some (startedAt + sp_sessionTtlSeconds p * 1000),
      cl_activationResult := Some (toActivationResult p),
      cl_heartbeatIntervalMs := clampHeartbeatInterval c (sp_sessionTtlSeconds p)\<rparr>"

section \<open>Activation\<close>

datatype activate_answer = Refused string | Same activation_promise | Started

definition sdk_activate :: "int \<Rightarrow> client \<Rightarrow> activate_answer \<times> client" where
  "sdk_activate now c =
    (if cl_state c = Cs_deactivating \<or> cl_state c = Cs_deactivated
     then (Refused ''LicenseClient has been deactivated'', c)
     else
       (case (cl_state c = Cs_active, cl_activationResult c, cl_activation c) of
         (True, Some result, _) \<Rightarrow> (Same (Act_resolved result), c)
       | (_, _, Some p) \<Rightarrow> (Same p, c)
       | _ \<Rightarrow>
           (Started, did (Sent (sendActivate (cl_network c) (cl_deviceId c)))
             (c\<lparr>cl_state := Cs_activating, cl_activation := Some (Act_pending now)\<rparr>))))"

text \<open>
  The end of \<open>activateOnce\<close>. A failure that leaves the client idle also clears the promise, so a
  later call starts again; otherwise the promise keeps its result.
\<close>

definition activation_failed :: "sdk_error \<Rightarrow> client \<Rightarrow> client" where
  "activation_failed e c =
    (if cl_state c = Cs_activating then c\<lparr>cl_state := Cs_idle, cl_activation := None\<rparr>
     else c\<lparr>cl_activation := Some (Act_rejected e)\<rparr>)"

definition activation_succeeds :: "sdk_host \<Rightarrow> int \<Rightarrow> session_payload \<Rightarrow> client \<Rightarrow> client" where
  "activation_succeeds h startedAt p c =
    (let c1 = store_session startedAt p c in
     if cl_state c1 \<noteq> Cs_activating
     then activation_failed (Sdk_error ''LicenseClient was deactivated during activation'') c1
     else
       (let c2 = emit h (Ev_ready (toActivationResult p)) (c1\<lparr>cl_state := Cs_active\<rparr>);
            c3 = client_log L_info (''License activated as '' @ license_type_name (sp_licenseType p)) c2 in
        (scheduleHeartbeat (cl_heartbeatIntervalMs c3) c3)
          \<lparr>cl_activation := Some (Act_resolved (toActivationResult p))\<rparr>))"

definition activation_ends :: "sdk_host \<Rightarrow> int \<Rightarrow> http_outcome \<Rightarrow> client \<Rightarrow> client" where
  "activation_ends h startedAt out c =
    (case out of
      Rejected_fetch e \<Rightarrow> activation_failed e c
    | Answered r \<Rightarrow>
        if \<not> response_ok r then
          (case readError (sh_parseJson h) r of
            Inl e \<Rightarrow> activation_failed e c
          | Inr rejection \<Rightarrow>
              activation_failed (toRequestError r rejection) (emitLicenseRejection h rejection c))
        else
          (case readSessionResponse (sh_parseJson h) r ''activation'' of
            Inl e \<Rightarrow> activation_failed e c
          | Inr p \<Rightarrow> activation_succeeds h startedAt p c))"

section \<open>Usage\<close>

definition normalizeConsumeInput :: "json option \<Rightarrow> string + sdk_usage_input" where
  "normalizeConsumeInput input =
    (case record_fields input of
      None \<Rightarrow> Inl ''consume input must be an object''
    | Some kvs \<Rightarrow>
        (case map_of kvs ''meter'' of
          Some (JStr m) \<Rightarrow>
            (let meter = trim m in
             if length meter < 1 \<or> 128 < length meter
             then Inl ''meter must contain between 1 and 128 characters''
             else
               (case integer_between 1 MAX_LICENSE_LIMIT_SDK (map_of kvs ''units'') of
                 None \<Rightarrow> Inl ''units must be a positive safe integer no greater than 2147483647''
               | Some units \<Rightarrow>
                   (case map_of kvs ''eventId'' of
                     Some (JStr e) \<Rightarrow>
                       (let eventId = trim e in
                        if length eventId < 1 \<or> 128 < length eventId
                        then Inl ''eventId must contain between 1 and 128 characters''
                        else Inr \<lparr>su_meter = meter, su_units = units, su_eventId = eventId\<rparr>)
                   | _ \<Rightarrow> Inl ''eventId must be a string'')))
        | _ \<Rightarrow> Inl ''meter must be a string''))"

definition sdk_consume :: "json option \<Rightarrow> client \<Rightarrow> (string + sdk_usage_input) \<times> client" where
  "sdk_consume input c =
    (case (cl_state c, cl_sessionToken c) of
      (Cs_active, Some token) \<Rightarrow>
        (case normalizeConsumeInput input of
          Inl e \<Rightarrow> (Inl e, c)
        | Inr u \<Rightarrow>
            (Inr u, did (Sent (sendUsage (cl_network c) token (cl_deviceId c) u))
              (c\<lparr>cl_usageRequests := cl_usageRequests c @ [u]\<rparr>)))
    | _ \<Rightarrow> (Inl ''LicenseClient is not active; call activate() first'', c))"

definition usage_result :: "sdk_usage_input \<Rightarrow> usage_payload \<Rightarrow> sdk_error + usage_payload" where
  "usage_result u p =
    (if up_meter p \<noteq> su_meter u \<or> up_units p \<noteq> su_units u \<or> up_eventId p \<noteq> su_eventId u
     then Inl (Sdk_error ''License server returned a mismatched usage response'')
     else Inr p)"

text \<open>\<open>consumeOnce\<close> after its request, for the \<open>i\<close>th usage request in flight.\<close>

definition usage_ends ::
    "sdk_host \<Rightarrow> nat \<Rightarrow> http_outcome \<Rightarrow> client \<Rightarrow> (sdk_error + usage_payload) \<times> client" where
  "usage_ends h i out c =
    (let u = cl_usageRequests c ! i;
         c0 = c\<lparr>cl_usageRequests := take i (cl_usageRequests c) @ drop (Suc i) (cl_usageRequests c)\<rparr> in
     case out of
       Rejected_fetch e \<Rightarrow> (Inl e, c0)
     | Answered r \<Rightarrow>
         if \<not> response_ok r then
           (case readError (sh_parseJson h) r of
             Inl e \<Rightarrow> (Inl e, c0)
           | Inr rejection \<Rightarrow>
               (let c1 = emitLicenseRejection h rejection c0 in
                (Inl (toRequestError r rejection),
                 if isFatalSessionRejection (sr_code rejection)
                 then handleFatalError (sr_message rejection) c1 else c1)))
         else
           (case readUsageResponse (sh_parseJson h) r of
             Inl e \<Rightarrow> (Inl e, c0)
           | Inr p \<Rightarrow> (usage_result u p, c0)))"

section \<open>Heartbeats\<close>

text \<open>The timer runs out: \<open>runHeartbeat\<close> up to its request.\<close>

definition timer_fires :: "int \<Rightarrow> client \<Rightarrow> client" where
  "timer_fires now c =
    (let c0 = c\<lparr>cl_heartbeatTimer := None\<rparr> in
     case (cl_state c, cl_sessionToken c) of
       (Cs_active, Some token) \<Rightarrow>
         did (Sent (sendHeartbeat (cl_network c) token (cl_deviceId c)))
           (c0\<lparr>cl_heartbeatRequest := Some now\<rparr>)
     | _ \<Rightarrow> c0)"

definition error_message :: "sdk_error \<Rightarrow> string" where
  "error_message e =
    (case e of Sdk_error m \<Rightarrow> m | LicenseRequestError m _ _ \<Rightarrow> m | Not_an_error \<Rightarrow> ''Network error'')"

text \<open>The \<open>finally\<close> block, and the end of the heartbeat's promise.\<close>

definition heartbeat_finally :: "int \<Rightarrow> bool \<Rightarrow> int \<Rightarrow> client \<Rightarrow> client" where
  "heartbeat_finally now retryBeforeSessionExpiry nextDelayMs c =
    (if cl_fatalCleanupScheduled c then c
     else scheduleHeartbeat
       (if retryBeforeSessionExpiry then clampRetryBeforeSessionExpiry now c nextDelayMs
        else nextDelayMs) c)\<lparr>cl_heartbeatRequest := None\<rparr>"

definition heartbeat_throttled :: "sdk_host \<Rightarrow> int \<Rightarrow> http_response \<Rightarrow> client \<Rightarrow> client" where
  "heartbeat_throttled h now r c =
    (let requestedDelayMs = retryAfterMs h now c r;
         nextDelayMs = clampRetryBeforeSessionExpiry now c requestedDelayMs;
         expiryProtectionUsed = (nextDelayMs < requestedDelayMs);
         c1 = c\<lparr>cl_throttleRetries := cl_throttleRetries c + 1\<rparr>;
         message = ''Heartbeat remained rate limited beyond the current session lifetime'' in
     if cl_maxRetries c1 < cl_throttleRetries c1 \<or>
        expiryProtectionUsed \<and> cl_expiryProtectedThrottleRetryUsed c1
     then heartbeat_finally now False nextDelayMs
       (handleFatalError message (emit h (Ev_network_offline message) c1))
     else heartbeat_finally now False nextDelayMs
       (client_log L_warn (''Heartbeat throttled; retrying in '' @ show_int nextDelayMs @ ''ms'')
         (emit h (Ev_heartbeat_throttled nextDelayMs)
           (c1\<lparr>cl_expiryProtectedThrottleRetryUsed :=
             cl_expiryProtectedThrottleRetryUsed c1 \<or> expiryProtectionUsed\<rparr>))))"

definition heartbeat_success :: "sdk_host \<Rightarrow> int \<Rightarrow> int \<Rightarrow> session_payload \<Rightarrow> client \<Rightarrow> client" where
  "heartbeat_success h now startedAt p c =
    (let c1 = (store_session startedAt p c)\<lparr>cl_failureStrikes := 0, cl_throttleRetries := 0,
           cl_expiryProtectedThrottleRetryUsed := False\<rparr>;
         c2 = (if cl_state c1 = Cs_active
               then client_log L_debug ''Heartbeat succeeded''
                 (emit h (Ev_heartbeat_success (toActivationResult p)) c1)
               else c1) in
     heartbeat_finally now False (cl_heartbeatIntervalMs c1) c2)"

definition heartbeat_failure :: "sdk_host \<Rightarrow> int \<Rightarrow> string \<Rightarrow> client \<Rightarrow> client" where
  "heartbeat_failure h now message c =
    heartbeat_finally now True (cl_heartbeatIntervalMs c) (recordHeartbeatFailure h message c)"

text \<open>\<open>runHeartbeat\<close> after its request, sent at \<open>startedAt\<close>.\<close>

definition heartbeat_ends :: "sdk_host \<Rightarrow> int \<Rightarrow> int \<Rightarrow> http_outcome \<Rightarrow> client \<Rightarrow> client" where
  "heartbeat_ends h now startedAt out c =
    (case out of
      Rejected_fetch e \<Rightarrow> heartbeat_failure h now (error_message e) c
    | Answered r \<Rightarrow>
        if \<not> response_ok r then
          (if hr_status r = 429 then heartbeat_throttled h now r c
           else
             (case readError (sh_parseJson h) r of
               Inl e \<Rightarrow> heartbeat_failure h now (error_message e) c
             | Inr rejection \<Rightarrow>
                 if 400 \<le> hr_status r \<and> hr_status r < 500 then
                   heartbeat_finally now False (cl_heartbeatIntervalMs c)
                     (handleFatalError (sr_message rejection) (emitLicenseRejection h rejection c))
                 else heartbeat_failure h now (sr_message rejection) c))
        else
          (case readSessionResponse (sh_parseJson h) r ''heartbeat'' of
            Inl e \<Rightarrow> heartbeat_failure h now (error_message e) c
          | Inr p \<Rightarrow> heartbeat_success h now startedAt p c))"

section \<open>Deactivation\<close>

text \<open>The end of \<open>deactivateOnce\<close>, with the failure it rethrows if there is one.\<close>

definition deactivation_finishes :: "sdk_error option \<Rightarrow> client \<Rightarrow> client" where
  "deactivation_finishes failed c =
    (let warn = client_log L_warn ''Could not release the license session'';
         c1 = (case failed of None \<Rightarrow> c | Some _ \<Rightarrow> warn c);
         c2 = removeAllListeners (c1\<lparr>cl_sessionToken := None, cl_sessionExpiresAtMs := None,
           cl_state := Cs_deactivated\<rparr>) in
     case failed of
       None \<Rightarrow> c2\<lparr>cl_deactivation := Some De_resolved\<rparr>
     | Some e \<Rightarrow>
         (if cl_fatalCleanupScheduled c2 \<and> \<not> cl_cleanupQueued c2 then warn c2 else c2)
           \<lparr>cl_deactivation := Some (De_rejected e)\<rparr>)"

text \<open>Everything in flight has settled: release the session if there is one.\<close>

definition deactivation_proceeds :: "client \<Rightarrow> client" where
  "deactivation_proceeds c =
    (case cl_sessionToken c of
      None \<Rightarrow> deactivation_finishes None c
    | Some token \<Rightarrow>
        did (Sent (sendDeactivate (cl_network c) token (cl_deviceId c)))
          (c\<lparr>cl_deactivation := Some De_sent\<rparr>))"

definition deactivation_ends :: "sdk_host \<Rightarrow> http_outcome \<Rightarrow> client \<Rightarrow> client" where
  "deactivation_ends h out c =
    (case out of
      Rejected_fetch e \<Rightarrow> deactivation_finishes (Some e) c
    | Answered r \<Rightarrow>
        if \<not> response_ok r then
          (case readError (sh_parseJson h) r of
            Inl e \<Rightarrow> deactivation_finishes (Some e) c
          | Inr rejection \<Rightarrow> deactivation_finishes (Some (toRequestError r rejection)) c)
        else
          (case readDeactivateResponse (sh_parseJson h) r of
            Inl e \<Rightarrow> deactivation_finishes (Some e) c
          | Inr _ \<Rightarrow> deactivation_finishes None c))"

text \<open>The microtask of \<open>handleFatalError\<close>.\<close>

definition cleanup_runs :: "client \<Rightarrow> client" where
  "cleanup_runs c =
    (let c1 = client_deactivate (c\<lparr>cl_cleanupQueued := False\<rparr>) in
     case cl_deactivation c1 of
       Some (De_rejected _) \<Rightarrow> client_log L_warn ''Could not release the license session'' c1
     | _ \<Rightarrow> c1)"

section \<open>The runtime\<close>

inductive sdk_step :: "sdk_host \<Rightarrow> client \<Rightarrow> client \<Rightarrow> bool" for h where
  activate_called: "sdk_step h c (snd (sdk_activate now c))"
| activation_done: "cl_activation c = Some (Act_pending startedAt) \<Longrightarrow>
    sdk_step h c (activation_ends h startedAt out c)"
| consume_called: "sdk_step h c (snd (sdk_consume input c))"
| usage_done: "i < length (cl_usageRequests c) \<Longrightarrow> sdk_step h c (snd (usage_ends h i out c))"
| timer_done: "cl_heartbeatTimer c = Some d \<Longrightarrow> sdk_step h c (timer_fires now c)"
| heartbeat_done: "cl_heartbeatRequest c = Some startedAt \<Longrightarrow>
    sdk_step h c (heartbeat_ends h now startedAt out c)"
| deactivate_called: "sdk_step h c (client_deactivate c)"
| cleanup_done: "cl_cleanupQueued c \<Longrightarrow> sdk_step h c (cleanup_runs c)"
| deactivation_settled: "cl_deactivation c = Some De_waiting \<Longrightarrow>
    \<nexists>t. cl_activation c = Some (Act_pending t) \<Longrightarrow> cl_heartbeatRequest c = None \<Longrightarrow>
    cl_usageRequests c = [] \<Longrightarrow> sdk_step h c (deactivation_proceeds c)"
| deactivation_done: "cl_deactivation c = Some De_sent \<Longrightarrow> sdk_step h c (deactivation_ends h out c)"
| listener_added: "sdk_step h c (add_listener once event f c)"
| listener_removed: "sdk_step h c (removeListener event f c)"

section \<open>What a listener can do\<close>

text \<open>
  Emitting an event changes the listeners and the trace, and may deactivate the client; nothing
  else. Logging changes the trace only. The rules below are what every later proof uses.
\<close>

definition life :: "client \<Rightarrow> client_state \<times> int option \<times> deactivation_promise option" where
  "life c = (cl_state c, cl_heartbeatTimer c, cl_deactivation c)"

definition rest :: "client \<Rightarrow> client" where
  "rest c = c\<lparr>cl_state := Cs_idle, cl_heartbeatTimer := None, cl_deactivation := None,
    cl_listeners := [], cl_serial := 0, cl_trace := []\<rparr>"

lemma life_deactivate:
  "life (client_deactivate c) =
    (if cl_deactivation c = None then (Cs_deactivating, None, Some De_waiting) else life c)"
  by (auto simp: life_def client_deactivate_def clearHeartbeatTimer_def split: option.splits)

lemma life_quiet [simp]:
  "life (did d c) = life c" "life (client_log lv m c) = life c"
  "life (c\<lparr>cl_listeners := ls\<rparr>) = life c"
  by (auto simp: life_def did_def client_log_def split: option.splits)

lemma rest_quiet [simp]:
  "rest (did d c) = rest c" "rest (client_log lv m c) = rest c"
  "rest (c\<lparr>cl_listeners := ls\<rparr>) = rest c" "rest (client_deactivate c) = rest c"
  by (auto simp: rest_def did_def client_log_def client_deactivate_def clearHeartbeatTimer_def
      split: option.splits)

definition reacts :: "client \<Rightarrow> client \<Rightarrow> bool" where
  "reacts c c' \<longleftrightarrow> rest c' = rest c \<and> life c' \<in> {life c, life (client_deactivate c)}"

lemma reacts_refl [simp]: "reacts c c"
  by (simp add: reacts_def)

lemma reacts_trans: "reacts a b \<Longrightarrow> reacts b c \<Longrightarrow> reacts a c"
  unfolding reacts_def life_deactivate by (auto simp: life_def)

lemma reacts_quiet [simp]: "reacts c (did d c)" "reacts c (client_log lv m c)"
  "reacts c (client_deactivate c)" "reacts c (c\<lparr>cl_listeners := ls\<rparr>)"
  by (auto simp: reacts_def)

lemma reacts_state:
  assumes "reacts c c'"
  shows "cl_state c' = cl_state c \<and> cl_heartbeatTimer c' = cl_heartbeatTimer c \<and>
      cl_deactivation c' = cl_deactivation c \<or>
    cl_state c' = Cs_deactivating \<and> cl_heartbeatTimer c' = None \<and>
      cl_deactivation c' = Some De_waiting \<and> cl_deactivation c = None"
  using assms unfolding reacts_def life_deactivate by (auto simp: life_def split: if_splits)

lemma reacts_call: "reacts c (call_listener h l c)"
  unfolding call_listener_def Let_def
  by (auto intro!: reacts_trans[OF reacts_quiet(4) reacts_quiet(3)] reacts_trans[OF _ reacts_quiet(2)]
      reacts_trans[OF _ reacts_quiet(1)] intro: reacts_trans)

lemma reacts_emit: "reacts c (emit h ev c)"
proof -
  have "reacts c (fold (call_listener h) ls c)" for ls c
    by (induction ls arbitrary: c) (auto intro: reacts_trans reacts_call)
  then show ?thesis unfolding emit_def by (blast intro: reacts_trans reacts_quiet)
qed

lemma reacts_rejection: "reacts c (emitLicenseRejection h r c)"
  by (simp add: emitLicenseRejection_def reacts_emit)

lemma reacts_fields:
  assumes "reacts c c'"
  shows "cl_network c' = cl_network c" "cl_deviceId c' = cl_deviceId c"
    "cl_requestedHeartbeatIntervalMs c' = cl_requestedHeartbeatIntervalMs c"
    "cl_requestTimeoutMs c' = cl_requestTimeoutMs c" "cl_maxRetries c' = cl_maxRetries c"
    "cl_usageRequests c' = cl_usageRequests c"
    "cl_heartbeatIntervalMs c' = cl_heartbeatIntervalMs c"
    "cl_heartbeatRequest c' = cl_heartbeatRequest c" "cl_activation c' = cl_activation c"
    "cl_activationResult c' = cl_activationResult c" "cl_sessionToken c' = cl_sessionToken c"
    "cl_sessionExpiresAtMs c' = cl_sessionExpiresAtMs c"
    "cl_failureStrikes c' = cl_failureStrikes c" "cl_throttleRetries c' = cl_throttleRetries c"
    "cl_expiryProtectedThrottleRetryUsed c' = cl_expiryProtectedThrottleRetryUsed c"
    "cl_fatalCleanupScheduled c' = cl_fatalCleanupScheduled c"
    "cl_cleanupQueued c' = cl_cleanupQueued c"
  using assms by (cases c; cases c'; auto simp: reacts_def rest_def)+

section \<open>The invariant\<close>

text \<open>
  \<open>sound\<close> holds at every point of the code; \<open>between_steps\<close> adds what holds when the runtime
  is about to run the next piece: an active client has a heartbeat ahead of it, and an activation
  in flight belongs to a client that waits for it.
\<close>

definition pending :: "client \<Rightarrow> bool" where
  "pending c \<longleftrightarrow> (\<exists>t. cl_activation c = Some (Act_pending t))"

definition settled :: "deactivation_promise option \<Rightarrow> bool" where
  "settled d \<longleftrightarrow> d \<noteq> None \<and> d \<noteq> Some De_waiting \<and> d \<noteq> Some De_sent"

lemma settled_simps [simp]:
  "\<not> settled None" "\<not> settled (Some De_waiting)" "\<not> settled (Some De_sent)"
  "settled (Some De_resolved)" "settled (Some (De_rejected e))"
  by (simp_all add: settled_def)

definition timers_ok :: "client \<Rightarrow> bool" where
  "timers_ok c \<longleftrightarrow>
    1 \<le> cl_requestedHeartbeatIntervalMs c \<and> cl_requestedHeartbeatIntervalMs c \<le> MAX_TIMER_MS \<and>
    1 \<le> cl_requestTimeoutMs c \<and> 1 \<le> cl_maxRetries c \<and>
    1 \<le> cl_heartbeatIntervalMs c \<and> cl_heartbeatIntervalMs c \<le> cl_requestedHeartbeatIntervalMs c \<and>
    (\<forall>d. cl_heartbeatTimer c = Some d \<longrightarrow> 1 \<le> d \<and> d \<le> MAX_TIMER_MS)"

definition sound :: "client \<Rightarrow> bool" where
  "sound c \<longleftrightarrow> timers_ok c \<and>
    (cl_state c \<in> {Cs_deactivating, Cs_deactivated} \<longleftrightarrow> cl_deactivation c \<noteq> None) \<and>
    (settled (cl_deactivation c) \<longleftrightarrow> cl_state c = Cs_deactivated) \<and>
    (cl_heartbeatTimer c \<noteq> None \<longrightarrow> cl_state c = Cs_active \<and> cl_heartbeatRequest c = None) \<and>
    (cl_state c = Cs_active \<longrightarrow> cl_sessionToken c \<noteq> None \<and> cl_activationResult c \<noteq> None) \<and>
    (cl_state c \<in> {Cs_idle, Cs_activating} \<longrightarrow> \<not> cl_fatalCleanupScheduled c \<and>
      cl_heartbeatRequest c = None \<and> cl_usageRequests c = []) \<and>
    (cl_deactivation c \<noteq> None \<and> cl_deactivation c \<noteq> Some De_waiting \<longrightarrow>
      cl_heartbeatRequest c = None \<and> cl_usageRequests c = [] \<and> \<not> pending c) \<and>
    (cl_state c = Cs_deactivated \<longrightarrow> cl_sessionToken c = None) \<and>
    (cl_fatalCleanupScheduled c \<longrightarrow> cl_cleanupQueued c \<or> cl_deactivation c \<noteq> None)"

definition between_steps :: "client \<Rightarrow> bool" where
  "between_steps c \<longleftrightarrow> sound c \<and>
    (cl_state c = Cs_active \<and> \<not> cl_fatalCleanupScheduled c \<longrightarrow>
      cl_heartbeatTimer c \<noteq> None \<or> cl_heartbeatRequest c \<noteq> None) \<and>
    (cl_state c = Cs_activating \<longrightarrow> pending c) \<and>
    (pending c \<longrightarrow> cl_state c \<in> {Cs_activating, Cs_deactivating})"

lemma client_deactivate_None:
  "cl_deactivation c = None \<Longrightarrow> client_deactivate c =
    c\<lparr>cl_state := Cs_deactivating, cl_heartbeatTimer := None, cl_deactivation := Some De_waiting\<rparr>"
  by (simp add: client_deactivate_def clearHeartbeatTimer_def)

lemma client_deactivate_Some: "cl_deactivation c \<noteq> None \<Longrightarrow> client_deactivate c = c"
  by (auto simp: client_deactivate_def)

lemma sound_deactivate:
  assumes "sound c"
  shows "sound (client_deactivate c)"
proof (cases "cl_deactivation c = None")
  case True
  then show ?thesis using assms
    by (simp add: sound_def timers_ok_def settled_def client_deactivate_None)
next
  case False
  then show ?thesis using assms by (simp add: client_deactivate_Some)
qed

lemma sound_reacts:
  assumes "reacts c c'" "sound c"
  shows "sound c'"
proof -
  have "sound c' = sound d" if "rest c' = rest d" "life c' = life d" for d
  proof -
    have "reacts d c'" using that by (simp add: reacts_def)
    note f = reacts_fields[OF this]
    show ?thesis using that(2)
      by (simp add: sound_def timers_ok_def pending_def life_def f)
  qed
  from this[of c] this[of "client_deactivate c"] show ?thesis
    using assms sound_deactivate[of c] by (auto simp: reacts_def)
qed

lemma between_deactivate:
  assumes "between_steps c"
  shows "between_steps (client_deactivate c)"
proof (cases "cl_deactivation c = None")
  case True
  then show ?thesis using assms sound_deactivate[of c]
    by (simp add: between_steps_def pending_def client_deactivate_None)
next
  case False
  then show ?thesis using assms by (simp add: client_deactivate_Some)
qed

lemma between_reacts:
  assumes "reacts c c'" "between_steps c"
  shows "between_steps c'"
proof -
  have "between_steps c' = between_steps d" if "rest c' = rest d" "life c' = life d" for d
  proof -
    have r: "reacts d c'" "reacts c' d" using that by (simp_all add: reacts_def)
    note f = reacts_fields[OF r(1)]
    have "sound c' = sound d" using sound_reacts r by blast
    then show ?thesis using that(2)
      by (simp add: between_steps_def pending_def life_def f)
  qed
  from this[of c] this[of "client_deactivate c"] show ?thesis
    using assms between_deactivate[of c] by (auto simp: reacts_def)
qed

section \<open>Intervals are in range\<close>

lemma clamp_bounds:
  assumes "timers_ok c" "1 \<le> ttl"
  shows "1 \<le> clampHeartbeatInterval c ttl"
    "clampHeartbeatInterval c ttl \<le> cl_requestedHeartbeatIntervalMs c"
proof -
  have "1 \<le> cl_requestedHeartbeatIntervalMs c" using assms(1) by (simp add: timers_ok_def)
  then show "1 \<le> clampHeartbeatInterval c ttl"
    unfolding clampHeartbeatInterval_def Let_def by (intro min.boundedI max.cobounded1)
  show "clampHeartbeatInterval c ttl \<le> cl_requestedHeartbeatIntervalMs c"
    unfolding clampHeartbeatInterval_def Let_def by (rule min.cobounded1)
qed

lemma clampRetry_bounds:
  "1 \<le> d \<Longrightarrow> 1 \<le> clampRetryBeforeSessionExpiry now c d"
  "clampRetryBeforeSessionExpiry now c d \<le> d"
  by (auto simp: clampRetryBeforeSessionExpiry_def Let_def split: option.splits)

lemma clamp_retry_bounds: "1 \<le> clamp_retry ms" "clamp_retry ms \<le> MAX_TIMER_MS"
  by (auto simp: clamp_retry_def MIN_THROTTLED_RETRY_MS_def MAX_TIMER_MS_def)

lemma retry_date_bounds:
  assumes "timers_ok c"
  shows "1 \<le> retry_date h now c v" "retry_date h now c v \<le> MAX_TIMER_MS"
  using assms clamp_retry_bounds
  by (auto simp: retry_date_def timers_ok_def MIN_THROTTLED_RETRY_MS_def MAX_TIMER_MS_def
      split: option.splits)

lemma retryAfter_bounds:
  assumes "timers_ok c"
  shows "1 \<le> retryAfterMs h now c r" "retryAfterMs h now c r \<le> MAX_TIMER_MS"
  using assms clamp_retry_bounds retry_date_bounds[OF assms]
  by (auto simp: retryAfterMs_def Let_def timers_ok_def MIN_THROTTLED_RETRY_MS_def MAX_TIMER_MS_def
      split: option.splits jsnum.splits)

section \<open>Every step keeps the invariant\<close>

lemma soundD:
  assumes "sound c"
  shows "cl_usageRequests c \<noteq> [] \<Longrightarrow> cl_state c \<notin> {Cs_idle, Cs_activating}"
    "cl_deactivation c \<noteq> None \<longleftrightarrow> cl_state c = Cs_deactivating \<or> cl_state c = Cs_deactivated"
    "settled (cl_deactivation c) \<longleftrightarrow> cl_state c = Cs_deactivated"
    "cl_heartbeatTimer c \<noteq> None \<Longrightarrow> cl_state c = Cs_active \<and> cl_heartbeatRequest c = None"
    "cl_state c = Cs_active \<Longrightarrow> cl_sessionToken c \<noteq> None \<and> cl_activationResult c \<noteq> None"
    "cl_state c \<in> {Cs_idle, Cs_activating} \<Longrightarrow> \<not> cl_fatalCleanupScheduled c \<and>
      cl_heartbeatRequest c = None \<and> cl_usageRequests c = []"
    "cl_state c = Cs_deactivated \<Longrightarrow> cl_sessionToken c = None"
    "cl_deactivation c \<noteq> None \<Longrightarrow> cl_deactivation c \<noteq> Some De_waiting \<Longrightarrow>
      cl_heartbeatRequest c = None \<and> cl_usageRequests c = [] \<and> \<not> pending c"
    "timers_ok c"
  using assms unfolding sound_def by blast+

lemma released_idle:
  assumes "sound c" "cl_state c = Cs_deactivated"
  shows "cl_heartbeatTimer c = None" "cl_heartbeatRequest c = None" "cl_usageRequests c = []"
    "\<not> pending c" "settled (cl_deactivation c)" "cl_deactivation c \<noteq> None"
proof -
  show d: "settled (cl_deactivation c)" "cl_deactivation c \<noteq> None"
    using soundD(2,3)[OF assms(1)] assms(2) by simp_all
  then have "cl_deactivation c \<noteq> Some De_waiting" by auto
  then show "cl_heartbeatRequest c = None" "cl_usageRequests c = []" "\<not> pending c"
    using soundD(8)[OF assms(1)] d by simp_all
  show "cl_heartbeatTimer c = None" using soundD(4)[OF assms(1)] assms(2) by fastforce
qed

lemma betweenD:
  assumes "between_steps c"
  shows "sound c" "cl_state c = Cs_activating \<Longrightarrow> pending c"
    "pending c \<Longrightarrow> cl_state c = Cs_activating \<or> cl_state c = Cs_deactivating"
    "cl_state c = Cs_active \<Longrightarrow> \<not> cl_fatalCleanupScheduled c \<Longrightarrow>
      cl_heartbeatTimer c \<noteq> None \<or> cl_heartbeatRequest c \<noteq> None"
  using assms unfolding between_steps_def by blast+

text \<open>While a heartbeat's answer is handled, the next one is not scheduled yet: \<open>beating\<close>.\<close>

definition beating :: "client \<Rightarrow> bool" where
  "beating c \<longleftrightarrow> sound c \<and> cl_heartbeatRequest c \<noteq> None \<and> (pending c \<longrightarrow> cl_state c = Cs_deactivating)"

lemma beatingI: "between_steps c \<Longrightarrow> cl_heartbeatRequest c \<noteq> None \<Longrightarrow> beating c"
  by (auto simp: beating_def between_steps_def sound_def)

lemma beating_state:
  "beating c \<Longrightarrow> cl_state c = Cs_active \<or> cl_state c = Cs_deactivating"
  by (cases "cl_state c") (auto simp: beating_def sound_def settled_def)

lemma beating_reacts: "reacts c c' \<Longrightarrow> beating c \<Longrightarrow> beating c'"
  using sound_reacts[of c c'] reacts_fields[of c c'] beating_state[of c]
  by (auto simp: beating_def pending_def reacts_def life_def client_deactivate_def
      clearHeartbeatTimer_def split: option.splits)

lemma sound_fatal:
  assumes "sound c" "cl_state c \<notin> {Cs_idle, Cs_activating}"
  shows "sound (handleFatalError m c)"
proof -
  have "sound (c\<lparr>cl_fatalCleanupScheduled := True, cl_cleanupQueued := True\<rparr>)"
    using assms by (simp add: sound_def timers_ok_def pending_def)
  then show ?thesis using assms(1) sound_reacts[OF reacts_quiet(2)]
    by (simp add: handleFatalError_def)
qed

lemma fatal_fields [simp]:
  "cl_heartbeatRequest (handleFatalError m c) = cl_heartbeatRequest c"
  "cl_state (handleFatalError m c) = cl_state c"
  "cl_activation (handleFatalError m c) = cl_activation c"
  "cl_heartbeatTimer (handleFatalError m c) = cl_heartbeatTimer c"
  "cl_fatalCleanupScheduled (handleFatalError m c)"
  by (auto simp: handleFatalError_def client_log_def did_def split: option.splits)

lemma beating_fatal: "beating c \<Longrightarrow> beating (handleFatalError m c)"
  using beating_state[of c] sound_fatal[of c m] by (auto simp: beating_def pending_def)

lemma between_fatal:
  "between_steps c \<Longrightarrow> cl_state c \<notin> {Cs_idle, Cs_activating} \<Longrightarrow> between_steps (handleFatalError m c)"
  using sound_fatal[of c m] by (auto simp: between_steps_def pending_def)

lemma beating_counters:
  "beating c \<Longrightarrow> beating (c\<lparr>cl_failureStrikes := n, cl_throttleRetries := k,
    cl_expiryProtectedThrottleRetryUsed := b\<rparr>)"
  by (simp add: beating_def sound_def timers_ok_def pending_def)

lemma beating_strikes: "beating c \<Longrightarrow> beating (c\<lparr>cl_failureStrikes := n\<rparr>)"
  by (simp add: beating_def sound_def timers_ok_def pending_def)

lemma beating_throttles:
  "beating c \<Longrightarrow> beating (c\<lparr>cl_throttleRetries := n\<rparr>)"
  "beating c \<Longrightarrow> beating (c\<lparr>cl_throttleRetries := n, cl_expiryProtectedThrottleRetryUsed := b\<rparr>)"
  by (simp_all add: beating_def sound_def timers_ok_def pending_def)

lemma sound_store:
  assumes "sound c" "1 \<le> sp_sessionTtlSeconds p" "cl_state c \<noteq> Cs_deactivated"
  shows "sound (store_session t p c)"
  using assms clamp_bounds[of c "sp_sessionTtlSeconds p"]
  by (simp add: sound_def store_session_def timers_ok_def pending_def)

lemma beating_store:
  assumes "beating c" "1 \<le> sp_sessionTtlSeconds p"
  shows "beating (store_session t p c)"
proof -
  have "sound (store_session t p c)"
    using assms beating_state[of c] by (intro sound_store) (auto simp: beating_def)
  then show ?thesis using assms(1) by (simp add: beating_def store_session_def pending_def)
qed

lemma beating_failure:
  assumes "beating c"
  shows "beating (recordHeartbeatFailure h m c)"
  unfolding recordHeartbeatFailure_def Let_def
  by (auto intro!: assms beating_fatal beating_reacts[OF reacts_emit] beating_reacts[OF reacts_quiet(2)]
      beating_strikes)

lemma finally_between:
  assumes "beating c" "1 \<le> d" "d \<le> MAX_TIMER_MS"
  shows "between_steps (heartbeat_finally now rb d c)"
proof -
  define d' where "d' = (if rb then clampRetryBeforeSessionExpiry now c d else d)"
  have d': "1 \<le> d'" "d' \<le> MAX_TIMER_MS"
    using assms(2,3) clampRetry_bounds(1)[of d now c] clampRetry_bounds(2)[of now c d]
    by (auto simp: d'_def)
  show ?thesis
  proof (cases "cl_fatalCleanupScheduled c \<or> cl_state c \<noteq> Cs_active")
    case True
    then have "heartbeat_finally now rb d c = c\<lparr>cl_heartbeatRequest := None\<rparr>"
      by (auto simp: heartbeat_finally_def scheduleHeartbeat_def)
    moreover have "sound (c\<lparr>cl_heartbeatRequest := None\<rparr>)"
      using assms(1) unfolding beating_def by (simp add: sound_def timers_ok_def pending_def)
    moreover have "pending c \<longrightarrow> cl_state c = Cs_deactivating" "cl_state c \<noteq> Cs_activating"
      using assms(1) beating_state[OF assms(1)] by (auto simp: beating_def)
    ultimately show ?thesis using True by (auto simp: between_steps_def pending_def)
  next
    case False
    then have "heartbeat_finally now rb d c =
        c\<lparr>cl_heartbeatTimer := Some d', cl_heartbeatRequest := None\<rparr>"
      by (simp add: heartbeat_finally_def scheduleHeartbeat_def d'_def)
    then show ?thesis using assms(1) False d'
      by (simp add: beating_def between_steps_def sound_def timers_ok_def pending_def)
  qed
qed

text \<open>However a heartbeat ends, it ends in the \<open>finally\<close> block, with a delay that is in range.\<close>

definition ended :: "int \<Rightarrow> client \<Rightarrow> bool" where
  "ended now c \<longleftrightarrow> (\<exists>rb d x. c = heartbeat_finally now rb d x \<and> beating x \<and> 1 \<le> d \<and> d \<le> MAX_TIMER_MS)"

lemma endedI: "beating x \<Longrightarrow> 1 \<le> d \<Longrightarrow> d \<le> MAX_TIMER_MS \<Longrightarrow> ended now (heartbeat_finally now rb d x)"
  by (auto simp: ended_def)

lemma heartbeat_ended:
  assumes "between_steps c" "cl_heartbeatRequest c = Some t"
  shows "ended now (heartbeat_ends h now t out c)"
proof -
  have b: "beating c" using assms by (intro beatingI) auto
  then have timers: "timers_ok c" by (simp add: beating_def sound_def)
  then have interval: "1 \<le> cl_heartbeatIntervalMs c" "cl_heartbeatIntervalMs c \<le> MAX_TIMER_MS"
    by (auto simp: timers_ok_def)
  have failure: "ended now (heartbeat_failure h now m c)" for m
    unfolding heartbeat_failure_def by (intro endedI beating_failure b interval)
  have success: "ended now (heartbeat_success h now t p c)" if "1 \<le> sp_sessionTtlSeconds p" for p
  proof -
    let ?c1 = "(store_session t p c)\<lparr>cl_failureStrikes := 0, cl_throttleRetries := 0,
      cl_expiryProtectedThrottleRetryUsed := False\<rparr>"
    have b1: "beating ?c1" by (intro beating_counters beating_store b that)
    then have "1 \<le> cl_heartbeatIntervalMs ?c1" "cl_heartbeatIntervalMs ?c1 \<le> MAX_TIMER_MS"
      by (auto simp: beating_def sound_def timers_ok_def)
    then show ?thesis unfolding heartbeat_success_def Let_def
      by (intro endedI) (auto intro: b1 beating_reacts[OF reacts_quiet(2)]
          beating_reacts[OF reacts_emit])
  qed
  have throttled: "ended now (heartbeat_throttled h now r c)" for r
  proof -
    have d: "1 \<le> clampRetryBeforeSessionExpiry now c (retryAfterMs h now c r)"
      "clampRetryBeforeSessionExpiry now c (retryAfterMs h now c r) \<le> MAX_TIMER_MS"
      using retryAfter_bounds[OF timers, of h now r]
        clampRetry_bounds(1)[of "retryAfterMs h now c r" now c]
        clampRetry_bounds(2)[of now c "retryAfterMs h now c r"] by auto
    show ?thesis unfolding heartbeat_throttled_def Let_def
      by (auto intro!: endedI d beating_fatal beating_reacts[OF reacts_emit]
          beating_reacts[OF reacts_quiet(2)] beating_throttles b)
  qed
  have rejected: "ended now (heartbeat_finally now False (cl_heartbeatIntervalMs c)
      (handleFatalError m (emitLicenseRejection h r c)))" for m r
    by (intro endedI beating_fatal beating_reacts[OF reacts_rejection] b interval)
  show ?thesis
    unfolding heartbeat_ends_def
    using failure throttled rejected success readSessionResponse_Inr
    by (auto split: http_outcome.splits sum.splits)
qed

lemma between_heartbeat:
  "between_steps c \<Longrightarrow> cl_heartbeatRequest c = Some t \<Longrightarrow> between_steps (heartbeat_ends h now t out c)"
  using heartbeat_ended[of c t now h out] by (auto simp: ended_def intro: finally_between)

lemma ended_state:
  assumes "ended now c"
  shows "cl_state c = Cs_active \<or> cl_state c = Cs_deactivating" "cl_heartbeatRequest c = None"
proof -
  obtain rb d x where x: "c = heartbeat_finally now rb d x" "beating x"
    using assms unfolding ended_def by blast
  have "cl_state c = cl_state x" unfolding x(1) by (simp add: heartbeat_finally_def scheduleHeartbeat_def)
  then show "cl_state c = Cs_active \<or> cl_state c = Cs_deactivating"
    using beating_state[OF x(2)] by simp
  show "cl_heartbeatRequest c = None" unfolding x(1) by (simp add: heartbeat_finally_def)
qed

lemma between_usage:
  assumes "between_steps c" "i < length (cl_usageRequests c)"
  shows "between_steps (snd (usage_ends h i out c))"
proof -
  let ?c = "c\<lparr>cl_usageRequests := take i (cl_usageRequests c) @ drop (Suc i) (cl_usageRequests c)\<rparr>"
  have st: "cl_state c \<notin> {Cs_idle, Cs_activating}"
    using assms(2) by (intro soundD(1)[OF betweenD(1)[OF assms(1)]]) auto
  have b: "between_steps ?c"
    using assms st by (simp add: between_steps_def sound_def timers_ok_def pending_def)
  have "between_steps (handleFatalError m (emitLicenseRejection h r ?c))" for m r
  proof (rule between_fatal)
    show "between_steps (emitLicenseRejection h r ?c)"
      by (rule between_reacts[OF reacts_rejection b])
    show "cl_state (emitLicenseRejection h r ?c) \<notin> {Cs_idle, Cs_activating}"
      using reacts_rejection[of ?c h r] st by (auto simp: reacts_def life_def client_deactivate_def
          clearHeartbeatTimer_def split: option.splits)
  qed
  then show ?thesis
    using b between_reacts[OF reacts_rejection b]
    by (auto simp: usage_ends_def Let_def split: http_outcome.splits sum.splits)
qed

lemma between_failed:
  assumes "between_steps c"
  shows "between_steps (activation_failed e c)"
proof (cases "cl_state c = Cs_activating")
  case True
  then show ?thesis using assms
    by (simp add: activation_failed_def between_steps_def sound_def timers_ok_def pending_def)
next
  case False
  then show ?thesis using assms
    by (simp add: activation_failed_def between_steps_def sound_def timers_ok_def pending_def)
qed

text \<open>
  A stored session: the client was still waiting for it and becomes active, or a deactivation
  came first and will release the session.
\<close>

lemma between_active:
  assumes "sound c" "cl_state c \<noteq> Cs_activating" "cl_heartbeatTimer c = None"
    "1 \<le> cl_heartbeatIntervalMs c" "cl_heartbeatIntervalMs c \<le> MAX_TIMER_MS"
    "cl_heartbeatRequest c = None"
  shows "between_steps ((scheduleHeartbeat (cl_heartbeatIntervalMs c) c)
    \<lparr>cl_activation := Some (Act_resolved a)\<rparr>)"
proof (cases "cl_state c = Cs_active")
  case True
  then show ?thesis using assms
    by (auto simp: scheduleHeartbeat_def between_steps_def sound_def timers_ok_def pending_def)
next
  case False
  then show ?thesis using assms
    by (simp add: scheduleHeartbeat_def between_steps_def sound_def timers_ok_def pending_def)
qed

lemma activation_success:
  assumes "between_steps c" "cl_activation c = Some (Act_pending t)"
    and "1 \<le> sp_sessionTtlSeconds p"
  shows "between_steps (activation_succeeds h t p c)"
proof -
  let ?c1 = "store_session t p c"
  note sound = betweenD(1)[OF assms(1)]
  have pend: "pending c" using assms(2) by (simp add: pending_def)
  then have st: "cl_state c = Cs_activating \<or> cl_state c = Cs_deactivating"
    by (rule betweenD(3)[OF assms(1)])
  have s1: "sound ?c1" using sound assms(3) st by (intro sound_store) auto
  show ?thesis
  proof (cases "cl_state c = Cs_activating")
    case False
    have "between_steps ?c1" using assms(1) s1 False st pend
      by (simp add: between_steps_def store_session_def pending_def)
    then show ?thesis using False between_failed[of ?c1]
      by (simp add: activation_succeeds_def store_session_def)
  next
    case True
    define d where "d = ?c1\<lparr>cl_state := Cs_active\<rparr>"
    have hb: "cl_heartbeatRequest c = None" "cl_heartbeatTimer c = None"
      using soundD(6)[OF sound] soundD(4)[OF sound] True by fastforce+
    have "sound d" using s1 True hb
      by (simp add: d_def sound_def timers_ok_def pending_def store_session_def)
    define e where "e = client_log L_info (''License activated as '' @
      license_type_name (sp_licenseType p)) (emit h (Ev_ready (toActivationResult p)) d)"
    have r: "reacts d e" unfolding e_def by (blast intro: reacts_trans reacts_emit reacts_quiet)
    have "sound e" by (rule sound_reacts[OF r \<open>sound d\<close>])
    moreover have "cl_state e \<noteq> Cs_activating" "cl_heartbeatTimer e = None"
      using reacts_state[OF r] hb by (auto simp: d_def store_session_def)
    moreover have "cl_heartbeatRequest e = None"
      using reacts_fields(8)[OF r] hb by (simp add: d_def store_session_def)
    moreover have "1 \<le> cl_heartbeatIntervalMs e" "cl_heartbeatIntervalMs e \<le> MAX_TIMER_MS"
      using soundD(9)[OF \<open>sound e\<close>] by (auto simp: timers_ok_def)
    ultimately have "between_steps ((scheduleHeartbeat (cl_heartbeatIntervalMs e) e)
        \<lparr>cl_activation := Some (Act_resolved (toActivationResult p))\<rparr>)"
      by (intro between_active)
    then show ?thesis using True
      by (simp add: activation_succeeds_def e_def d_def store_session_def Let_def)
  qed
qed

lemma between_activation:
  assumes "between_steps c" "cl_activation c = Some (Act_pending t)"
  shows "between_steps (activation_ends h t out c)"
proof -
  have st: "cl_state c = Cs_activating \<or> cl_state c = Cs_deactivating"
    using betweenD(3)[OF assms(1)] assms(2) by (auto simp: pending_def)
  have failed: "between_steps (activation_failed e c')" if "reacts c c'" for e c'
    by (rule between_failed[OF between_reacts[OF that assms(1)]])
  have success: "between_steps (activation_ends h t (Answered r) c)"
    if "response_ok r" "readSessionResponse (sh_parseJson h) r ''activation'' = Inr p" for r p
    using that activation_success[OF assms] readSessionResponse_Inr[OF that(2)]
    by (auto simp: activation_ends_def)
  show ?thesis
    unfolding activation_ends_def
    using failed[OF reacts_refl] failed[OF reacts_rejection] success
    by (auto simp: activation_ends_def split: http_outcome.splits sum.splits)
qed

lemma between_listeners:
  "between_steps c \<Longrightarrow> between_steps (c\<lparr>cl_listeners := ls, cl_serial := n\<rparr>)"
  by (simp add: between_steps_def sound_def timers_ok_def pending_def)

lemma between_activate:
  assumes "between_steps c"
  shows "between_steps (snd (sdk_activate now c))"
proof (cases "cl_state c = Cs_idle \<and> cl_activation c = None")
  case True
  have "cl_deactivation c = None"
    using soundD(2)[OF betweenD(1)[OF assms]] True by auto
  moreover have "cl_heartbeatTimer c = None"
    using soundD(4)[OF betweenD(1)[OF assms]] True by fastforce
  ultimately have "between_steps (c\<lparr>cl_state := Cs_activating, cl_activation := Some (Act_pending now)\<rparr>)"
    using assms True by (simp add: between_steps_def sound_def timers_ok_def pending_def)
  then show ?thesis
    using True between_reacts[OF reacts_quiet(1)] by (simp add: sdk_activate_def)
next
  case False
  have "cl_activation c \<noteq> None" if "cl_state c = Cs_activating"
    using betweenD(2)[OF assms that] by (auto simp: pending_def)
  moreover have "cl_activationResult c \<noteq> None" if "cl_state c = Cs_active"
    using soundD(5)[OF betweenD(1)[OF assms] that] by simp
  ultimately have "snd (sdk_activate now c) = c"
    using False by (cases "cl_state c") (auto simp: sdk_activate_def split: option.splits)
  then show ?thesis using assms by simp
qed

lemma between_consume:
  assumes "between_steps c"
  shows "between_steps (snd (sdk_consume input c))"
proof -
  have "between_steps (did d (c\<lparr>cl_usageRequests := us\<rparr>))" if "cl_state c = Cs_active" for d us
  proof -
    have "cl_deactivation c = None"
      using soundD(2)[OF betweenD(1)[OF assms]] that by auto
    then have "between_steps (c\<lparr>cl_usageRequests := us\<rparr>)"
      using assms that by (simp add: between_steps_def sound_def timers_ok_def pending_def)
    then show ?thesis by (rule between_reacts[OF reacts_quiet(1)])
  qed
  then show ?thesis using assms
    by (auto simp: sdk_consume_def split: client_state.splits option.splits sum.splits)
qed

lemma between_timer:
  assumes "between_steps c" "cl_heartbeatTimer c = Some d"
  shows "between_steps (timer_fires now c)"
proof -
  note s = betweenD(1)[OF assms(1)]
  have st: "cl_state c = Cs_active" using soundD(4)[OF s] assms(2) by simp
  then obtain token where token: "cl_sessionToken c = Some token" using soundD(5)[OF s] by auto
  have "cl_deactivation c = None" using soundD(2)[OF s] st by auto
  then have "between_steps (c\<lparr>cl_heartbeatTimer := None, cl_heartbeatRequest := Some now\<rparr>)"
    using assms st token by (simp add: between_steps_def sound_def timers_ok_def pending_def)
  then show ?thesis using st token between_reacts[OF reacts_quiet(1)]
    by (simp add: timer_fires_def)
qed

lemma log_deactivation:
  "(client_log lv m c)\<lparr>cl_deactivation := x\<rparr> = client_log lv m (c\<lparr>cl_deactivation := x\<rparr>)"
  by (auto simp: client_log_def did_def split: option.splits)

lemma between_finishes:
  assumes "between_steps c" "cl_deactivation c \<noteq> None" "\<not> settled (cl_deactivation c)"
    "cl_heartbeatRequest c = None" "cl_usageRequests c = []" "\<not> pending c"
  shows "between_steps (deactivation_finishes failed c)"
proof -
  define final :: "deactivation_promise \<Rightarrow> client \<Rightarrow> client" where
    "final = (\<lambda>p x. x\<lparr>cl_sessionToken := None, cl_sessionExpiresAtMs := None,
      cl_state := Cs_deactivated, cl_listeners := [], cl_deactivation := Some p\<rparr>)"
  let ?warn = "client_log L_warn ''Could not release the license session''"
  have fin: "between_steps (final p x)" if "settled (Some p)" "reacts c x" "life x = life c" for p x
  proof -
    have "between_steps x" by (rule between_reacts[OF that(2) assms(1)])
    moreover have "cl_state x = Cs_deactivating"
      using soundD(2,3)[OF betweenD(1)[OF assms(1)]] assms(2,3) that(3) by (auto simp: life_def)
    ultimately show ?thesis
      using that(1) assms(4-6) reacts_fields(8)[OF that(2)] reacts_fields(6)[OF that(2)]
        reacts_fields(9)[OF that(2)]
      by (simp add: final_def between_steps_def sound_def timers_ok_def pending_def)
  qed
  have "deactivation_finishes failed c \<in>
    {final De_resolved c} \<union> (\<Union>e. {final (De_rejected e) (?warn c), ?warn (final (De_rejected e) (?warn c))})"
    by (cases failed)
      (auto simp: deactivation_finishes_def Let_def removeAllListeners_def final_def log_deactivation)
  moreover have "between_steps (?warn x)" if "between_steps x" for x
    by (rule between_reacts[OF reacts_quiet(2) that])
  ultimately show ?thesis using fin[of De_resolved c] fin[of "De_rejected _" "?warn c"] by auto
qed

lemma between_cleanup:
  assumes "between_steps c"
  shows "between_steps (cleanup_runs c)"
proof -
  let ?c = "client_deactivate (c\<lparr>cl_cleanupQueued := False\<rparr>)"
  have "between_steps ?c"
  proof (cases "cl_deactivation c = None")
    case True
    then show ?thesis using assms
      by (simp add: client_deactivate_None between_steps_def sound_def timers_ok_def pending_def)
  next
    case False
    then show ?thesis using assms
      by (simp add: client_deactivate_Some between_steps_def sound_def timers_ok_def pending_def)
  qed
  then show ?thesis using between_reacts[OF reacts_quiet(2)]
    by (auto simp: cleanup_runs_def Let_def split: option.splits deactivation_promise.splits)
qed

lemma between_proceeds:
  assumes "between_steps c" "cl_deactivation c = Some De_waiting" "\<not> pending c"
    "cl_heartbeatRequest c = None" "cl_usageRequests c = []"
  shows "between_steps (deactivation_proceeds c)"
proof -
  have st: "cl_state c = Cs_deactivating"
    using soundD(2,3)[OF betweenD(1)[OF assms(1)]] assms(2) by auto
  have "between_steps (c\<lparr>cl_deactivation := Some De_sent\<rparr>)"
    using assms st by (simp add: between_steps_def sound_def timers_ok_def pending_def)
  then show ?thesis
    using assms between_finishes[of c] between_reacts[OF reacts_quiet(1)]
    by (auto simp: deactivation_proceeds_def split: option.splits)
qed

lemma between_ends:
  assumes "between_steps c" "cl_deactivation c = Some De_sent"
  shows "between_steps (deactivation_ends h out c)"
proof -
  have "between_steps (deactivation_finishes e c)" for e
    using soundD(8)[OF betweenD(1)[OF assms(1)]] assms by (intro between_finishes) auto
  then show ?thesis
    by (auto simp: deactivation_ends_def split: http_outcome.splits sum.splits)
qed

lemma sdk_step_between: "sdk_step h c c' \<Longrightarrow> between_steps c \<Longrightarrow> between_steps c'"
proof (induction rule: sdk_step.induct)
  case (deactivation_settled c)
  then show ?case by (intro between_proceeds) (auto simp: pending_def)
qed (auto simp: add_listener_def removeListener_def between_listeners between_activate
    between_activation between_consume between_usage between_timer between_heartbeat
    between_deactivate between_cleanup between_ends
    intro: between_reacts[OF reacts_quiet(4)])

section \<open>Every client, at every moment\<close>

lemma check_timers_number:
  "check_timers kvs names = Inr u \<Longrightarrow> name \<in> set names \<Longrightarrow> 1 \<le> d \<Longrightarrow> d \<le> MAX_TIMER_MS \<Longrightarrow>
    1 \<le> config_number kvs name d \<and> config_number kvs name d \<le> MAX_TIMER_MS"
  by (induction names) (auto simp: config_number_def split: option.splits json.splits jsnum.splits if_splits)

lemma fresh_between:
  assumes "LicenseClient parseUrl sha256 os config = Inr c"
  shows "between_steps c" "cl_state c = Cs_idle" "cl_failureStrikes c = 0" "cl_throttleRetries c = 0"
proof -
  obtain kvs u where "config = Some kvs"
    and t: "check_timers kvs [''heartbeatIntervalMs'', ''maxRetries'', ''requestTimeoutMs''] = Inr u"
    using assms by (auto simp: LicenseClient_def assertConfig_def split: option.splits)
  note b = check_timers_number[OF t, of "''heartbeatIntervalMs''" 30000]
    check_timers_number[OF t, of "''maxRetries''" 2]
    check_timers_number[OF t, of "''requestTimeoutMs''" 10000]
  show "between_steps c" using assms b \<open>config = Some kvs\<close>
    by (auto simp: LicenseClient_def Let_def between_steps_def sound_def timers_ok_def pending_def
        MAX_TIMER_MS_def)
qed (use assms in \<open>auto simp: LicenseClient_def Let_def\<close>)

definition constructed :: "client \<Rightarrow> bool" where
  "constructed c \<longleftrightarrow> (\<exists>parseUrl sha256 os config. LicenseClient parseUrl sha256 os config = Inr c)"

interpretation sdk_life: transition_system constructed "sdk_step h" between_steps for h
  by unfold_locales (auto simp: constructed_def intro: fresh_between sdk_step_between)

text \<open>
  C31: an active client never falls silent. Whatever the application, its listeners and the server
  do, in any order: a client in the active state holds a session token, and its next heartbeat is
  on a timer, in flight, or replaced by the clean-up that is about to release it. A timer only
  runs while the client is active and no heartbeat is in flight, and its delay is one that
  \<open>setTimeout\<close> honours. A released client keeps no token, timer or request.
\<close>

theorem active_client_keeps_beating:
  assumes "LicenseClient parseUrl sha256 os config = Inr c0" and "(sdk_step h)\<^sup>*\<^sup>* c0 c"
  shows "(cl_state c = Cs_active \<longrightarrow> cl_sessionToken c \<noteq> None \<and>
      (cl_heartbeatTimer c \<noteq> None \<or> cl_heartbeatRequest c \<noteq> None \<or> cl_cleanupQueued c)) \<and>
    (\<forall>d. cl_heartbeatTimer c = Some d \<longrightarrow> 1 \<le> d \<and> d \<le> MAX_TIMER_MS \<and>
      cl_state c = Cs_active \<and> cl_heartbeatRequest c = None) \<and>
    (cl_state c = Cs_deactivated \<longrightarrow> cl_sessionToken c = None \<and> cl_heartbeatTimer c = None \<and>
      cl_heartbeatRequest c = None \<and> cl_usageRequests c = [])"
proof -
  have b: "between_steps c"
    using sdk_life.invar_reachable[OF _ assms(2)] assms(1) by (auto simp: constructed_def)
  note s = betweenD(1)[OF b]
  have clean: "cl_cleanupQueued c" if "cl_fatalCleanupScheduled c" "cl_state c = Cs_active"
    using s that by (auto simp: sound_def)
  have delay: "1 \<le> d \<and> d \<le> MAX_TIMER_MS" if "cl_heartbeatTimer c = Some d" for d
    using soundD(9)[OF s] that by (simp add: timers_ok_def)
  have active: "cl_state c = Cs_active \<longrightarrow> cl_sessionToken c \<noteq> None \<and>
      (cl_heartbeatTimer c \<noteq> None \<or> cl_heartbeatRequest c \<noteq> None \<or> cl_cleanupQueued c)"
    using soundD(5)[OF s] betweenD(4)[OF b] clean by blast
  have timer: "\<forall>d. cl_heartbeatTimer c = Some d \<longrightarrow> 1 \<le> d \<and> d \<le> MAX_TIMER_MS \<and>
      cl_state c = Cs_active \<and> cl_heartbeatRequest c = None"
    using delay soundD(4)[OF s] by blast
  have "cl_state c = Cs_deactivated \<longrightarrow> cl_sessionToken c = None \<and> cl_heartbeatTimer c = None \<and>
      cl_heartbeatRequest c = None \<and> cl_usageRequests c = []"
    using released_idle[OF s] soundD(7)[OF s] by blast
  with active timer show ?thesis by blast
qed

section \<open>A released client is silent\<close>

fun is_request :: "deed \<Rightarrow> bool" where
  "is_request (Sent _) = True"
| "is_request _ = False"

definition requests :: "client \<Rightarrow> deed list" where
  "requests c = filter is_request (cl_trace c)"

lemma requests_log [simp]: "requests (client_log lv m c) = requests c"
  by (auto simp: requests_def client_log_def did_def split: option.splits)

lemma requests_listeners [simp]:
  "requests (c\<lparr>cl_listeners := ls\<rparr>) = requests c" "requests (c\<lparr>cl_serial := n\<rparr>) = requests c"
  by (simp_all add: requests_def)

lemma state_log [simp]: "cl_state (client_log lv m c) = cl_state c"
  by (auto simp: client_log_def did_def split: option.splits)

lemma cleanup_deactivated:
  "cl_deactivation c \<noteq> None \<Longrightarrow>
    cl_state (cleanup_runs c) = cl_state c \<and> requests (cleanup_runs c) = requests c"
  by (cases "cl_deactivation c"; cases "the (cl_deactivation c)")
    (simp_all add: cleanup_runs_def Let_def client_deactivate_Some, simp_all add: requests_def)

lemma silent_step:
  assumes "sdk_step h c c'" "between_steps c" "cl_state c = Cs_deactivated"
  shows "cl_state c' = Cs_deactivated \<and> requests c' = requests c"
proof -
  note s = betweenD(1)[OF assms(2)]
  note idle = released_idle[OF s assms(3)]
  from assms(1) show ?thesis
    by cases (use idle assms(3) in \<open>auto simp: sdk_activate_def sdk_consume_def pending_def
        client_deactivate_Some cleanup_deactivated add_listener_def removeListener_def
        split: option.splits deactivation_promise.splits\<close>)
qed

text \<open>
  C32: the release is final. Once a client is deactivated, no call of the application, timer,
  answer or clean-up ever makes it send a request again: it stays deactivated, \<open>activate\<close> and
  \<open>consume\<close> are refused.
\<close>

theorem released_client_is_silent:
  assumes "LicenseClient parseUrl sha256 os config = Inr c0" and "(sdk_step h)\<^sup>*\<^sup>* c0 c"
    and "cl_state c = Cs_deactivated" and "(sdk_step h)\<^sup>*\<^sup>* c c'"
  shows "cl_state c' = Cs_deactivated \<and> requests c' = requests c \<and>
    fst (sdk_activate now c') = Refused ''LicenseClient has been deactivated'' \<and>
    fst (sdk_consume input c') = Inl ''LicenseClient is not active; call activate() first''"
proof -
  have b: "between_steps c"
    using sdk_life.invar_reachable[OF _ assms(2)] assms(1) by (auto simp: constructed_def)
  have "cl_state c' = Cs_deactivated \<and> requests c' = requests c \<and> between_steps c'"
    using assms(4)
  proof (induction rule: rtranclp_induct)
    case base
    then show ?case using b assms(3) by simp
  next
    case (step y z)
    then show ?case using silent_step sdk_step_between by metis
  qed
  then show ?thesis by (simp add: sdk_activate_def sdk_consume_def)
qed

section \<open>A concrete client\<close>

text \<open>The client of the witnesses: default settings, a server that answers with one session.\<close>

definition plain_url :: "string \<Rightarrow> url option" where
  "plain_url s = Some \<lparr>url_protocol = ''https:'', url_hostname = ''keys'', url_username = [],
    url_password = [], url_search = [], url_hash = [], url_href = s\<rparr>"

definition plain_os :: os_facts where
  "plain_os = \<lparr>os_platform = ''linux'', os_arch = ''x64'', os_cpus = 1, os_hostname = ''h'',
    os_networkInterfaces = []\<rparr>"

definition plain_settings :: json_object where
  "plain_settings = [(''licenseKey'', JStr ''key''), (''serverUrl'', JStr ''https://keys''),
    (''deviceId'', JStr ''device'')]"

definition plain_client :: client where
  "plain_client =
    \<lparr>cl_network = \<lparr>nc_serverUrl = ''https://keys'', nc_licenseKey = ''key'', nc_requestTimeoutMs = 10000\<rparr>,
     cl_deviceId = ''device'', cl_requestedHeartbeatIntervalMs = 30000, cl_requestTimeoutMs = 10000,
     cl_maxRetries = 2, cl_logLevel = ''none'', cl_usageRequests = [], cl_heartbeatIntervalMs = 30000,
     cl_heartbeatTimer = None, cl_heartbeatRequest = None, cl_activation = None,
     cl_deactivation = None, cl_activationResult = None, cl_sessionToken = None,
     cl_sessionExpiresAtMs = None, cl_state = Cs_idle, cl_failureStrikes = 0, cl_throttleRetries = 0,
     cl_expiryProtectedThrottleRetryUsed = False, cl_fatalCleanupScheduled = False,
     cl_cleanupQueued = False, cl_listeners = [], cl_serial = 0, cl_trace = []\<rparr>"

lemma plain_fresh: "LicenseClient plain_url id plain_os (Some plain_settings) = Inr plain_client"
  by code_simp

definition plain_sdk :: sdk_host where
  "plain_sdk = \<lparr>
    sh_parseJson = (\<lambda>_. Some (JObj [(''success'', JBool True), (''licenseType'', JStr ''lifetime''),
      (''metadata'', JObj []), (''sessionToken'', JStr ''0123456789abcdef0123456789abcdef''),
      (''sessionTtlSeconds'', JNum (Integral 60))])),
    sh_parseDate = (\<lambda>_. None), sh_reaction = (\<lambda>_. \<lparr>re_throws = False, re_deactivates = False\<rparr>)\<rparr>"

definition plain_response :: http_response where
  "plain_response = \<lparr>hr_status = 200, hr_contentLength = None, hr_retryAfter = None,
    hr_body = Some [Bytes ''{}'']\<rparr>"

definition plain_payload :: session_payload where
  "plain_payload = \<lparr>sp_licenseType = Lifetime, sp_metadata = [],
    sp_sessionToken = ''0123456789abcdef0123456789abcdef'', sp_sessionTtlSeconds = 60\<rparr>"

lemma plain_read:
  "readSessionResponse (sh_parseJson plain_sdk) plain_response n = Inr plain_payload"
  by (simp add: readSessionResponse_def readJson_def plain_response_def plain_sdk_def plain_payload_def
      MAX_RESPONSE_BODY_BYTES_def MAX_SESSION_TTL_SECONDS_def MAX_SAFE_INTEGER_def sdk_license_type_of_def)

definition plain_active :: client where
  "plain_active =
    activation_ends plain_sdk 0 (Answered plain_response) (snd (sdk_activate 0 plain_client))"

lemma plain_active_eq:
  "plain_active = activation_succeeds plain_sdk 0 plain_payload (snd (sdk_activate 0 plain_client))"
  by (simp add: plain_active_def activation_ends_def plain_read)
    (simp add: plain_response_def response_ok_def)

lemma plain_active_facts:
  "cl_state plain_active = Cs_active" "cl_heartbeatTimer plain_active = Some 30000"
  "cl_maxRetries plain_active = 2" "cl_deactivation plain_active = None"
  "cl_cleanupQueued plain_active = False"
  "cl_requestedHeartbeatIntervalMs plain_active = 30000"
  "cl_requestTimeoutMs plain_active = 10000" "cl_sessionExpiresAtMs plain_active = Some 60000"
  unfolding plain_active_eq by code_simp+

lemma plain_active_reached: "(sdk_step plain_sdk)\<^sup>*\<^sup>* plain_client plain_active"
proof -
  have "cl_activation (snd (sdk_activate 0 plain_client)) = Some (Act_pending 0)" by code_simp
  then have "sdk_step plain_sdk (snd (sdk_activate 0 plain_client)) plain_active"
    unfolding plain_active_def by (rule activation_done)
  then show ?thesis using activate_called by (meson converse_rtranclp_into_rtranclp rtranclp.rtrancl_refl)
qed

theorem active_client_keeps_beating_witness:
  "cl_state plain_active = Cs_active \<and> cl_sessionToken plain_active \<noteq> None \<and>
    cl_heartbeatTimer plain_active = Some 30000 \<and> 30000 \<le> MAX_TIMER_MS"
  using active_client_keeps_beating[OF plain_fresh plain_active_reached] plain_active_facts by simp

definition plain_released :: client where
  "plain_released = deactivation_proceeds (client_deactivate plain_client)"

lemma plain_released_reached: "(sdk_step plain_sdk)\<^sup>*\<^sup>* plain_client plain_released"
proof -
  let ?c = "client_deactivate plain_client"
  have f: "cl_deactivation ?c = Some De_waiting" "cl_activation ?c = None"
    "cl_heartbeatRequest ?c = None" "cl_usageRequests ?c = []" by code_simp+
  then have "sdk_step plain_sdk ?c plain_released"
    unfolding plain_released_def by (intro deactivation_settled) simp_all
  then show ?thesis
    using deactivate_called by (meson converse_rtranclp_into_rtranclp rtranclp.rtrancl_refl)
qed

theorem released_client_is_silent_witness:
  "requests (add_listener False ''ready'' 7 plain_released) = [] \<and>
    fst (sdk_activate 5 (add_listener False ''ready'' 7 plain_released)) =
      Refused ''LicenseClient has been deactivated''"
proof -
  have d: "cl_state plain_released = Cs_deactivated" "requests plain_released = []" by code_simp+
  have "(sdk_step plain_sdk)\<^sup>*\<^sup>* plain_released (add_listener False ''ready'' 7 plain_released)"
    using listener_added by (rule r_into_rtranclp)
  from released_client_is_silent[OF plain_fresh plain_released_reached d(1) this] d(2)
  show ?thesis by simp
qed

end
