(* ===== verification/SdkHeartbeat.thy ===== *)
theory SdkHeartbeat
  imports SdkLifecycle
begin

text \<open>
  The timing of the SDK's heartbeats: how early the next one is sent, and how many failures in a
  row a client survives. \<open>beats\<close> runs a client through a list of heartbeats, each with the time
  its timer fires, the time its answer is in, and the outcome.
\<close>

section \<open>Early enough\<close>

text \<open>
  C36: heartbeats are sent early enough to keep the session. After an answer with a lifetime of
  \<open>ttl\<close> seconds, the next heartbeat is due after at least a millisecond, at most the requested
  interval and at most two thirds of the lifetime; if two full request timeouts and the safety
  margin fit into the lifetime at all, they still fit after the heartbeat is due. A retry is
  never later than asked for, and leaves a request timeout and a second before the session
  expires, or is immediate.
\<close>

theorem heartbeat_keeps_session:
  assumes "1 \<le> ttl" "1 \<le> cl_requestedHeartbeatIntervalMs c" "1 \<le> cl_requestTimeoutMs c"
    and "cl_sessionExpiresAtMs c = Some expires" "1 \<le> desired"
  shows "let d = clampHeartbeatInterval c ttl; r = clampRetryBeforeSessionExpiry now c desired;
      margin = cl_requestTimeoutMs c * 2 + min 1000 (ttl * 100) in
    1 \<le> d \<and> d \<le> cl_requestedHeartbeatIntervalMs c \<and> 3 * d \<le> 2 * (ttl * 1000) \<and>
    (margin < ttl * 1000 \<longrightarrow> d + margin \<le> ttl * 1000) \<and>
    1 \<le> r \<and> r \<le> desired \<and> now + r \<le> max (now + 1) (expires - cl_requestTimeoutMs c - 1000)"
proof -
  have safety: "min 1000 (max 1 (ttl * 1000 div 10)) = min 1000 (ttl * 100)"
    using assms(1) by simp
  define margin where "margin = cl_requestTimeoutMs c * 2 + min 1000 (ttl * 100)"
  define aware where "aware = max 1 (if margin < ttl * 1000 then ttl * 1000 - margin else ttl * 1000 div 3)"
  define thirds where "thirds = max 1 (ttl * 1000 * 2 div 3)"
  have d: "clampHeartbeatInterval c ttl = min (cl_requestedHeartbeatIntervalMs c) (min thirds aware)"
    by (simp only: clampHeartbeatInterval_def Let_def safety margin_def aware_def thirds_def)
  have pos: "1 \<le> thirds" "1 \<le> aware" by (simp_all add: thirds_def aware_def)
  have third: "3 * thirds \<le> 2 * (ttl * 1000)" using assms(1) unfolding thirds_def by (cases "ttl = 1") auto
  have fits: "aware + margin \<le> ttl * 1000" if "margin < ttl * 1000"
    using that by (simp add: aware_def)
  have r: "1 \<le> clampRetryBeforeSessionExpiry now c desired"
    "clampRetryBeforeSessionExpiry now c desired \<le> desired"
    using assms(5) by (auto intro: clampRetry_bounds)
  have "now + clampRetryBeforeSessionExpiry now c desired \<le>
      max (now + 1) (expires - cl_requestTimeoutMs c - 1000)"
    using assms(4) by (auto simp: clampRetryBeforeSessionExpiry_def Let_def min_def max_def)
  with pos third fits r assms(2) show ?thesis
    unfolding Let_def d margin_def[symmetric] by linarith
qed

theorem heartbeat_keeps_session_witness:
  "3 * clampHeartbeatInterval plain_active 60 \<le> 120000 \<and>
    clampRetryBeforeSessionExpiry 45000 plain_active 30000 \<le> 4000"
  using heartbeat_keeps_session[of 60 plain_active 60000 30000 45000]
  by (simp add: plain_active_facts Let_def)

section \<open>Failures in a row\<close>

fun beats :: "sdk_host \<Rightarrow> client \<Rightarrow> (int \<times> int \<times> http_outcome) list \<Rightarrow> client" where
  "beats h c [] = c"
| "beats h c ((fires, answered, out) # bs) =
    beats h
      (if cl_heartbeatTimer c = None then c
       else heartbeat_ends h answered fires out (timer_fires fires c)) bs"

definition fails :: "sdk_host \<Rightarrow> http_outcome \<Rightarrow> bool" where
  "fails h out \<longleftrightarrow>
    (case out of
      Rejected_fetch _ \<Rightarrow> True
    | Answered r \<Rightarrow> \<not> response_ok r \<or>
        (case readSessionResponse (sh_parseJson h) r ''heartbeat'' of Inl _ \<Rightarrow> True | Inr _ \<Rightarrow> False))"

definition stopped :: "client \<Rightarrow> bool" where
  "stopped c \<longleftrightarrow> cl_fatalCleanupScheduled c \<or> cl_state c \<noteq> Cs_active"

text \<open>
  \<open>tolerant\<close>: a client that is neither released nor about to be has counted fewer failures than
  it tolerates. \<open>credit\<close> is what both counters leave, plus two.
\<close>

definition gone :: "client \<Rightarrow> bool" where
  "gone c \<longleftrightarrow> cl_fatalCleanupScheduled c \<or> cl_state c = Cs_deactivating \<or> cl_state c = Cs_deactivated"

definition counters :: "client \<Rightarrow> int \<times> int \<times> int" where
  "counters c = (cl_maxRetries c, cl_failureStrikes c, cl_throttleRetries c)"

definition tolerant :: "client \<Rightarrow> bool" where
  "tolerant c \<longleftrightarrow> 0 \<le> cl_failureStrikes c \<and> 0 \<le> cl_throttleRetries c \<and>
    (gone c \<or> cl_failureStrikes c < cl_maxRetries c \<and> cl_throttleRetries c \<le> cl_maxRetries c)"

definition credit :: "client \<Rightarrow> nat" where
  "credit c = nat (cl_maxRetries c - cl_failureStrikes c) + nat (cl_maxRetries c + 1 - cl_throttleRetries c)"

text \<open>Most code leaves the counters alone and never brings a client back: \<open>counts_as\<close>.\<close>

definition counts_as :: "client \<Rightarrow> client \<Rightarrow> bool" where
  "counts_as c c' \<longleftrightarrow> counters c' = counters c \<and> (gone c \<longrightarrow> gone c')"

lemma counts_as_refl [simp]: "counts_as c c"
  by (simp add: counts_as_def)

lemma counts_as_trans: "counts_as a b \<Longrightarrow> counts_as b c \<Longrightarrow> counts_as a c"
  by (auto simp: counts_as_def)

lemma counts_as_reacts: "reacts c c' \<Longrightarrow> counts_as c c'"
  using reacts_state[of c c'] by (auto simp: counts_as_def counters_def gone_def reacts_fields)

lemma counts_as_fatal: "counts_as c (handleFatalError m c)"
  by (auto simp: counts_as_def counters_def gone_def handleFatalError_def client_log_def did_def
      split: option.splits)

lemma tolerant_counts_as: "counts_as c c' \<Longrightarrow> tolerant c \<Longrightarrow> tolerant c'"
  by (auto simp: counts_as_def counters_def tolerant_def)

lemma gone_fatal [simp]: "gone (handleFatalError m c)"
  by (simp add: gone_def)

lemma counters_finally [simp]:
  "counters (heartbeat_finally now rb d c) = counters c"
  "gone (heartbeat_finally now rb d c) = gone c"
  by (auto simp: heartbeat_finally_def scheduleHeartbeat_def counters_def gone_def)

text \<open>
  What one failed heartbeat does: the client is gone, or one of the counters went up and is
  still within what the client tolerates.
\<close>

definition spends :: "client \<Rightarrow> client \<Rightarrow> bool" where
  "spends c c' \<longleftrightarrow> cl_maxRetries c' = cl_maxRetries c \<and> (gone c \<longrightarrow> gone c') \<and>
    (gone c' \<and> cl_failureStrikes c \<le> cl_failureStrikes c' \<and> cl_throttleRetries c \<le> cl_throttleRetries c' \<or>
     cl_failureStrikes c' = cl_failureStrikes c + 1 \<and> cl_failureStrikes c' < cl_maxRetries c' \<and>
       cl_throttleRetries c' = cl_throttleRetries c \<or>
     cl_throttleRetries c' = cl_throttleRetries c + 1 \<and> cl_throttleRetries c' \<le> cl_maxRetries c' \<and>
       cl_failureStrikes c' = cl_failureStrikes c)"

lemma spends_finally [simp]: "spends c (heartbeat_finally now rb d c') = spends c c'"
  using counters_finally[of now rb d c'] by (simp add: spends_def counters_def)

lemma spends_counts_as: "counts_as b c' \<Longrightarrow> spends c b \<Longrightarrow> spends c c'"
  by (auto simp: counts_as_def counters_def spends_def)

lemma spends_gone: "gone c' \<Longrightarrow> counts_as c c' \<Longrightarrow> spends c c'"
  by (auto simp: counts_as_def counters_def spends_def)

lemma spends_strike:
  assumes "counts_as (c\<lparr>cl_failureStrikes := cl_failureStrikes c + 1\<rparr>) c'"
    and "gone c' \<or> cl_failureStrikes c + 1 < cl_maxRetries c"
  shows "spends c c'"
  using assms by (auto simp: counts_as_def counters_def spends_def gone_def)

lemma spends_throttle:
  assumes "counts_as (c\<lparr>cl_throttleRetries := cl_throttleRetries c + 1,
      cl_expiryProtectedThrottleRetryUsed := b\<rparr>) c'"
    and "gone c' \<or> cl_throttleRetries c + 1 \<le> cl_maxRetries c"
  shows "spends c c'"
  using assms by (auto simp: counts_as_def counters_def spends_def gone_def)

lemma counts_as_message: "counts_as c (handleFatalError m (emit h ev c))"
  by (rule counts_as_trans[OF counts_as_reacts[OF reacts_emit] counts_as_fatal])

lemma counts_as_warning: "counts_as c (client_log L_warn m (emit h ev c))"
  by (rule counts_as_reacts) (blast intro: reacts_trans reacts_emit reacts_quiet)

lemma failure_spends:
  assumes "beating c"
  shows "spends c (heartbeat_failure h now m c)"
proof (cases "cl_state c = Cs_active")
  case True
  define c0 where "c0 = c\<lparr>cl_failureStrikes := cl_failureStrikes c + 1\<rparr>"
  define c2 where "c2 = client_log L_warn (''Heartbeat failed: '' @ m)
    (emit h (Ev_heartbeat_failed m (cl_failureStrikes c + 1)) c0)"
  have c2: "counts_as c0 c2" unfolding c2_def by (rule counts_as_warning)
  then have eq: "cl_maxRetries c2 = cl_maxRetries c" "cl_failureStrikes c2 = cl_failureStrikes c + 1"
    by (auto simp: counts_as_def counters_def c0_def)
  have rec: "recordHeartbeatFailure h m c =
      (if cl_maxRetries c2 \<le> cl_failureStrikes c2
       then handleFatalError m (emit h (Ev_network_offline m) c2) else c2)"
    using True by (simp add: recordHeartbeatFailure_def Let_def c2_def c0_def)
  have "spends c (recordHeartbeatFailure h m c)"
  proof (cases "cl_maxRetries c2 \<le> cl_failureStrikes c2")
    case True
    have "spends c (handleFatalError m (emit h (Ev_network_offline m) c2))"
      by (rule spends_strike)
        (auto simp flip: c0_def intro: counts_as_trans[OF c2 counts_as_message])
    then show ?thesis using True rec by simp
  next
    case False
    have "spends c c2" by (rule spends_strike) (use c2 False eq in \<open>auto simp: c0_def\<close>)
    then show ?thesis using False rec by simp
  qed
  then show ?thesis by (simp add: heartbeat_failure_def)
next
  case False
  then have "gone c" using beating_state[OF assms] by (simp add: gone_def)
  then show ?thesis using False
    by (simp add: heartbeat_failure_def recordHeartbeatFailure_def spends_gone)
qed

lemma throttled_spends: "spends c (heartbeat_throttled h now r c)"
proof -
  define d where "d = clampRetryBeforeSessionExpiry now c (retryAfterMs h now c r)"
  define used where "used = (d < retryAfterMs h now c r)"
  define m where "m = ''Heartbeat remained rate limited beyond the current session lifetime''"
  define c1 where "c1 = c\<lparr>cl_throttleRetries := cl_throttleRetries c + 1\<rparr>"
  define c2 where "c2 = c1\<lparr>cl_expiryProtectedThrottleRetryUsed :=
    cl_expiryProtectedThrottleRetryUsed c1 \<or> used\<rparr>"
  have eq: "heartbeat_throttled h now r c =
    (if cl_maxRetries c1 < cl_throttleRetries c1 \<or> used \<and> cl_expiryProtectedThrottleRetryUsed c1
     then heartbeat_finally now False d (handleFatalError m (emit h (Ev_network_offline m) c1))
     else heartbeat_finally now False d
       (client_log L_warn (''Heartbeat throttled; retrying in '' @ show_int d @ ''ms'')
         (emit h (Ev_heartbeat_throttled d) c2)))"
    unfolding heartbeat_throttled_def Let_def c1_def[symmetric] d_def[symmetric] used_def[symmetric]
      m_def[symmetric] c2_def[symmetric] by (rule refl)
  have c1': "c1 = c\<lparr>cl_throttleRetries := cl_throttleRetries c + 1,
      cl_expiryProtectedThrottleRetryUsed := cl_expiryProtectedThrottleRetryUsed c\<rparr>"
    by (simp add: c1_def)
  have fatal: "spends c (handleFatalError m (emit h (Ev_network_offline m) c1))"
    by (rule spends_throttle[where b = "cl_expiryProtectedThrottleRetryUsed c"], fold c1')
      (simp_all add: counts_as_message)
  have c2': "c2 = c\<lparr>cl_throttleRetries := cl_throttleRetries c + 1,
      cl_expiryProtectedThrottleRetryUsed := cl_expiryProtectedThrottleRetryUsed c \<or> used\<rparr>"
    by (simp add: c2_def c1_def)
  have wait: "spends c (client_log L_warn x (emit h (Ev_heartbeat_throttled d) c2))"
    if "\<not> cl_maxRetries c1 < cl_throttleRetries c1" for x
    by (rule spends_throttle[where b = "cl_expiryProtectedThrottleRetryUsed c \<or> used"], fold c2')
      (use that in \<open>simp_all add: counts_as_warning c1_def\<close>)
  show ?thesis unfolding eq using fatal wait by auto
qed

lemma failed_beat_spends:
  assumes "beating c" "fails h out"
  shows "spends c (heartbeat_ends h now t out c)"
proof -
  have "spends c (handleFatalError m (emitLicenseRejection h r c))" for m r
    by (rule spends_gone)
      (auto intro: counts_as_trans[OF counts_as_reacts[OF reacts_rejection] counts_as_fatal])
  then show ?thesis using assms(2) failure_spends[OF assms(1)] throttled_spends
    by (auto simp: heartbeat_ends_def fails_def split: http_outcome.splits sum.splits)
qed

section \<open>Counters of reachable clients\<close>

lemma tolerant_spends: "spends c c' \<Longrightarrow> tolerant c \<Longrightarrow> tolerant c'"
  by (auto simp: spends_def tolerant_def)

lemma tolerant_finally [simp]: "tolerant (heartbeat_finally now rb d c) = tolerant c"
  using counters_finally[of now rb d c] by (simp add: tolerant_def counters_def)

lemma success_tolerant:
  assumes "tolerant c" "1 \<le> cl_maxRetries c"
  shows "tolerant (heartbeat_success h now t p c)"
proof -
  define c1 where "c1 = (store_session t p c)\<lparr>cl_failureStrikes := 0, cl_throttleRetries := 0,
    cl_expiryProtectedThrottleRetryUsed := False\<rparr>"
  have "tolerant c1" using assms by (auto simp: c1_def tolerant_def gone_def store_session_def)
  moreover have "counts_as c1 (client_log L_debug m (emit h ev c1))" for m ev
    by (rule counts_as_reacts) (blast intro: reacts_trans reacts_emit reacts_quiet)
  ultimately have "tolerant (if cl_state c1 = Cs_active
      then client_log L_debug ''Heartbeat succeeded'' (emit h (Ev_heartbeat_success (toActivationResult p)) c1)
      else c1)" by (auto intro: tolerant_counts_as)
  then show ?thesis
    by (simp add: heartbeat_success_def Let_def c1_def[symmetric])
qed

lemma tolerant_heartbeat:
  assumes "between_steps c" "cl_heartbeatRequest c = Some t" "tolerant c"
  shows "tolerant (heartbeat_ends h now t out c)"
proof (cases "fails h out")
  case True
  then show ?thesis using assms beatingI tolerant_spends[OF failed_beat_spends] by fastforce
next
  case False
  then obtain r p where "out = Answered r" "response_ok r"
    "readSessionResponse (sh_parseJson h) r ''heartbeat'' = Inr p"
    by (auto simp: fails_def split: http_outcome.splits sum.splits)
  moreover have "1 \<le> cl_maxRetries c"
    using betweenD(1)[OF assms(1)] by (simp add: sound_def timers_ok_def)
  ultimately show ?thesis using success_tolerant[OF assms(3)] by (simp add: heartbeat_ends_def)
qed

lemma counts_as_simple:
  "counts_as c (did d c)" "counts_as c (client_log lv m c)" "counts_as c (client_deactivate c)"
  by (simp_all add: counts_as_reacts)

lemma counts_as_sdk_activate: "counts_as c (snd (sdk_activate now c))"
proof -
  have "snd (sdk_activate now c) = c \<or> \<not> gone c \<or> cl_fatalCleanupScheduled c"
    by (auto simp: sdk_activate_def gone_def)
  moreover have "counters (snd (sdk_activate now c)) = counters c"
    "cl_fatalCleanupScheduled (snd (sdk_activate now c)) = cl_fatalCleanupScheduled c"
    by (cases "cl_state c"; cases "cl_activationResult c"; cases "cl_activation c";
        simp add: sdk_activate_def counters_def did_def)+
  ultimately show ?thesis by (auto simp: counts_as_def gone_def)
qed

lemma counts_as_failed: "counts_as c (activation_failed e c)"
  by (auto simp: activation_failed_def counts_as_def counters_def gone_def)

lemma counts_as_ends: "counts_as c (activation_ends h t out c)"
proof -
  have store: "counts_as c (store_session t p c)" for p
    by (simp add: counts_as_def counters_def gone_def store_session_def)
  have active: "counts_as c ((store_session t p c)\<lparr>cl_state := Cs_active\<rparr>)"
    if "cl_state c = Cs_activating" for p
    using that by (auto simp: counts_as_def counters_def gone_def store_session_def)
  have sched: "counts_as d ((scheduleHeartbeat n d)\<lparr>cl_activation := a\<rparr>)" for d n a
    by (simp add: counts_as_def counters_def gone_def scheduleHeartbeat_def)
  have ready: "counts_as d ((scheduleHeartbeat n (client_log lv m (emit h ev d)))\<lparr>cl_activation := a\<rparr>)"
    for d n a lv m ev
    by (blast intro: counts_as_trans sched counts_as_reacts reacts_emit reacts_quiet)
  have rejected: "counts_as c (activation_failed e (emitLicenseRejection h r c))" for e r
    by (rule counts_as_trans[OF counts_as_reacts[OF reacts_rejection] counts_as_failed])
  have "counts_as c (activation_succeeds h t p c)" for p
  proof (cases "cl_state c = Cs_activating")
    case True
    then show ?thesis using counts_as_trans[OF active ready]
      by (simp add: activation_succeeds_def Let_def store_session_def)
  next
    case False
    then show ?thesis using counts_as_trans[OF store counts_as_failed]
      by (simp add: activation_succeeds_def Let_def store_session_def)
  qed
  then show ?thesis
    by (auto simp: activation_ends_def counts_as_failed rejected split: http_outcome.splits sum.splits)
qed

lemma counts_as_usage: "counts_as c (snd (usage_ends h i out c))"
proof -
  let ?c = "c\<lparr>cl_usageRequests := take i (cl_usageRequests c) @ drop (Suc i) (cl_usageRequests c)\<rparr>"
  have c: "counts_as c ?c" by (simp add: counts_as_def counters_def gone_def)
  have r: "counts_as c (emitLicenseRejection h r ?c)" for r
    by (rule counts_as_trans[OF c counts_as_reacts[OF reacts_rejection]])
  then have "counts_as c (handleFatalError m (emitLicenseRejection h r ?c))" for r m
    by (rule counts_as_trans[OF _ counts_as_fatal])
  then show ?thesis using c r
    by (auto simp: usage_ends_def Let_def split: http_outcome.splits sum.splits)
qed

lemma counts_as_consume: "counts_as c (snd (sdk_consume input c))"
  by (auto simp: sdk_consume_def counts_as_def counters_def gone_def did_def
      split: client_state.splits option.splits sum.splits)

lemma counts_as_timer: "counts_as c (timer_fires now c)"
  by (auto simp: timer_fires_def Let_def counts_as_def counters_def gone_def did_def
      split: client_state.splits option.splits)

lemma counts_as_log: "counts_as c d \<Longrightarrow> counts_as c (client_log lv m d)"
  by (rule counts_as_trans[OF _ counts_as_reacts[OF reacts_quiet(2)]])

lemma counts_as_finishes: "counts_as c (deactivation_finishes failed c)"
proof -
  have off: "counts_as c (removeAllListeners (d\<lparr>cl_sessionToken := None, cl_sessionExpiresAtMs := None,
      cl_state := Cs_deactivated\<rparr>))" if "counts_as c d" for d
    using that by (simp add: counts_as_def counters_def gone_def removeAllListeners_def)
  have settle: "counts_as c (d\<lparr>cl_deactivation := p\<rparr>)" if "counts_as c d" for d p
    using that by (simp add: counts_as_def counters_def gone_def)
  show ?thesis
    by (cases failed)
      (auto simp: deactivation_finishes_def Let_def intro!: settle off counts_as_log)
qed

lemma counts_as_cleanup: "counts_as c (cleanup_runs c)"
proof -
  have "counts_as c (c\<lparr>cl_cleanupQueued := False\<rparr>)"
    by (simp add: counts_as_def counters_def gone_def)
  then have "counts_as c (client_deactivate (c\<lparr>cl_cleanupQueued := False\<rparr>))"
    by (rule counts_as_trans) (simp add: counts_as_reacts)
  then show ?thesis
    by (auto simp: cleanup_runs_def Let_def split: option.splits deactivation_promise.splits
        intro: counts_as_log)
qed

lemma tolerant_step:
  assumes "sdk_step h c c'" "between_steps c" "tolerant c"
  shows "tolerant c'"
proof -
  have "counts_as c c' \<or> (\<exists>now t out. cl_heartbeatRequest c = Some t \<and> c' = heartbeat_ends h now t out c)"
    using assms(1)
  proof cases
    case deactivation_settled
    have "counts_as c (did d (c\<lparr>cl_deactivation := Some De_sent\<rparr>))" for d
      by (simp add: counts_as_def counters_def gone_def did_def)
    then show ?thesis using deactivation_settled counts_as_finishes
      by (auto simp: deactivation_proceeds_def split: option.splits)
  next
    case (deactivation_done out)
    then show ?thesis using counts_as_finishes
      by (auto simp: deactivation_ends_def split: http_outcome.splits sum.splits)
  next
    case (listener_added once event f)
    then show ?thesis by (simp add: add_listener_def counts_as_def counters_def gone_def)
  qed (auto simp: counts_as_sdk_activate counts_as_ends counts_as_consume counts_as_usage
      counts_as_timer counts_as_cleanup counts_as_reacts removeListener_def)
  then show ?thesis
    using tolerant_counts_as[OF _ assms(3)] tolerant_heartbeat[OF assms(2) _ assms(3)] by blast
qed

interpretation sdk_counts: transition_system constructed "sdk_step h"
  "\<lambda>c. between_steps c \<and> tolerant c" for h
proof
  fix c assume "constructed c"
  then obtain parseUrl sha256 os config where *: "LicenseClient parseUrl sha256 os config = Inr c"
    by (auto simp: constructed_def)
  have "1 \<le> cl_maxRetries c"
    using betweenD(1)[OF fresh_between(1)[OF *]] by (simp add: sound_def timers_ok_def)
  then show "between_steps c \<and> tolerant c"
    using fresh_between[OF *] by (simp add: tolerant_def)
next
  fix c c' assume "between_steps c \<and> tolerant c" "sdk_step h c c'"
  then show "between_steps c' \<and> tolerant c'" using sdk_step_between tolerant_step by blast
qed

section \<open>Heartbeats cannot fail for ever\<close>

lemma timer_fires_beating:
  assumes "between_steps c" "cl_heartbeatTimer c = Some d"
  shows "cl_heartbeatRequest (timer_fires now c) = Some now"
proof -
  note s = betweenD(1)[OF assms(1)]
  show ?thesis using soundD(4)[OF s] soundD(5)[OF s] assms(2)
    by (auto simp: timer_fires_def did_def)
qed

text \<open>One beat of the run, for a client that has a heartbeat ahead.\<close>

lemma beat_step:
  fixes fires answered :: int
  assumes "between_steps c" "tolerant c" "fails h out" "cl_heartbeatTimer c = Some d"
  defines "c' \<equiv> heartbeat_ends h answered fires out (timer_fires fires c)"
  shows "between_steps c'" "tolerant c'" "gone c \<longrightarrow> gone c'"
    "gone c' \<or> credit c' < credit c" "gone c' \<or> cl_heartbeatTimer c' \<noteq> None"
proof -
  let ?t = "timer_fires fires c"
  have b: "between_steps ?t" using assms(1,4) by (rule between_timer)
  have r: "cl_heartbeatRequest ?t = Some fires" using assms(1,4) by (rule timer_fires_beating)
  have t: "tolerant ?t" by (rule tolerant_counts_as[OF counts_as_timer assms(2)])
  have sp: "spends ?t c'" unfolding c'_def
    using b r assms(3) by (intro failed_beat_spends beatingI) auto
  have same: "counters ?t = counters c" "gone c \<longrightarrow> gone ?t"
    using counts_as_timer[of c fires] by (auto simp: counts_as_def)
  show btw: "between_steps c'" unfolding c'_def by (rule between_heartbeat[OF b r])
  show "tolerant c'" unfolding c'_def by (rule tolerant_heartbeat[OF b r t])
  show "gone c \<longrightarrow> gone c'" using sp same(2) by (auto simp: spends_def)
  show "gone c' \<or> credit c' < credit c"
    using sp same(1) by (auto simp: spends_def counters_def credit_def)
  have "ended answered c'" unfolding c'_def by (rule heartbeat_ended[OF b r])
  from ended_state[OF this] show "gone c' \<or> cl_heartbeatTimer c' \<noteq> None"
    using betweenD(4)[OF btw] by (auto simp: gone_def)
qed

lemma beats_gone:
  assumes "between_steps c" "tolerant c" "gone c \<or> cl_heartbeatTimer c \<noteq> None"
    and "\<forall>b \<in> set bs. fails h (snd (snd b))" and "credit c \<le> length bs + 1"
  shows "between_steps (beats h c bs) \<and> gone (beats h c bs)"
  using assms
proof (induction bs arbitrary: c)
  case Nil
  have "gone c"
  proof (rule ccontr)
    assume "\<not> gone c"
    then have "2 \<le> credit c" using Nil.prems(2) by (auto simp: tolerant_def credit_def)
    with Nil.prems(5) show False by simp
  qed
  with Nil.prems(1) show ?case by simp
next
  case (Cons b bs)
  obtain fires answered out where b: "b = (fires, answered, out)" by (cases b)
  show ?case
  proof (cases "cl_heartbeatTimer c")
    case None
    then have "gone c" using Cons.prems(3) by simp
    have "beats h c xs = c" for xs
      using None by (induction xs) auto
    then show ?thesis using Cons.prems(1) \<open>gone c\<close> by simp
  next
    case (Some d)
    have f: "fails h out" using Cons.prems(4) b by simp
    note st = beat_step[OF Cons.prems(1,2) f Some, of answered fires]
    let ?c' = "heartbeat_ends h answered fires out (timer_fires fires c)"
    show ?thesis
    proof (cases "gone ?c'")
      case False
      with st(4) Cons.prems(5) have "credit ?c' \<le> length bs + 1" by simp
      with Cons.IH[OF st(1,2,5)] Cons.prems(4) show ?thesis by (simp add: b Some)
    next
      case True
      have "between_steps (beats h e xs) \<and> gone (beats h e xs)"
        if "between_steps e" "tolerant e" "gone e" "\<forall>b \<in> set xs. fails h (snd (snd b))" for e xs
        using that
      proof (induction xs arbitrary: e)
        case (Cons x xs)
        then show ?case using beat_step(1-3)[of e h "snd (snd x)" _ "fst (snd x)" "fst x"]
          by (cases x; cases "cl_heartbeatTimer e") auto
      qed simp
      from this[OF st(1,2) True] Cons.prems(4) show ?thesis by (simp add: b Some)
    qed
  qed
qed

text \<open>
  C37: heartbeats that keep failing end in a release. Take any client the application could have,
  with its next heartbeat on the timer. If the following heartbeats all fail, whether by the
  network, by a rejection, by rate limiting or by an answer that is not a session, then after at
  most twice \<open>maxRetries\<close> of them the client is being deactivated or its clean-up is queued: it
  does not retry for ever.
\<close>

theorem failing_heartbeats_release:
  assumes "LicenseClient parseUrl sha256 os config = Inr c0" and "(sdk_step h)\<^sup>*\<^sup>* c0 c"
    and "cl_heartbeatTimer c \<noteq> None"
    and "\<forall>b \<in> set bs. fails h (snd (snd b))" and "2 * cl_maxRetries c \<le> int (length bs)"
  shows "cl_cleanupQueued (beats h c bs) \<or> cl_deactivation (beats h c bs) \<noteq> None"
proof -
  have inv: "between_steps c" "tolerant c"
    using sdk_counts.invar_reachable[OF _ assms(2)] assms(1) by (auto simp: constructed_def)
  have "credit c \<le> length bs + 1"
    using inv(2) assms(5) by (auto simp: credit_def tolerant_def)
  then have "between_steps (beats h c bs) \<and> gone (beats h c bs)"
    using inv assms(3,4) by (intro beats_gone) auto
  then show ?thesis by (auto simp: gone_def between_steps_def sound_def)
qed

theorem failing_heartbeats_release_witness:
  "cl_cleanupQueued (beats plain_sdk plain_active (replicate 4 (0, 1, Rejected_fetch Not_an_error))) \<or>
    (\<exists>d. cl_deactivation (beats plain_sdk plain_active (replicate 4 (0, 1, Rejected_fetch Not_an_error))) = Some d)"
  using failing_heartbeats_release[OF plain_fresh plain_active_reached,
      of "replicate 4 (0, 1, Rejected_fetch Not_an_error)"]
  by (simp add: plain_active_facts fails_def not_None_eq)

end
