(* ===== verification/SdkProtocol.thy ===== *)
theory SdkProtocol
  imports LicenseRoutes SdkHeartbeat
begin

text \<open>
  The SDK and the server talk the same protocol: what a client sends passes the schemas of the
  server's routes, and the client reads an answer exactly when the server's schema of that answer
  allows it.
\<close>

section \<open>Reading answers\<close>

lemma sdk_license_type_name: "sdk_license_type_of (Some (JStr (license_type_name ty))) = Some ty"
  by (cases ty) (simp_all add: sdk_license_type_of_def)

lemma sdk_license_type_iff:
  "sdk_license_type_of v \<noteq> None \<longleftrightarrow> (\<exists>j. v = Some j \<and> valid fm LicenseTypeSchema j)"
  by (auto simp: sdk_license_type_of_def LicenseTypeSchema_def)

lemma text_between_iff:
  "text_between lo hi v \<noteq> None \<longleftrightarrow> (\<exists>j. v = Some j \<and> valid fm (chars lo hi) j)"
  by (induction lo hi v rule: text_between.induct) (auto simp: chars_def)

lemma integer_between_iff:
  assumes "- MAX_SAFE_INTEGER \<le> lo" "hi \<le> MAX_SAFE_INTEGER"
  shows "integer_between lo hi v \<noteq> None \<longleftrightarrow>
    (\<exists>j. v = Some j \<and> valid fm (Sc_integer (Some lo) (Some hi)) j)"
  using assms by (induction lo hi v rule: integer_between.induct) auto

lemma record_fields_iff:
  "record_fields v \<noteq> None \<longleftrightarrow> (\<exists>j. v = Some j \<and> valid fm JsonObjectSchema j)"
  by (induction v rule: record_fields.induct) (auto simp: JsonObjectSchema_def)

lemma success_iff:
  "v = Some (JBool True) \<longleftrightarrow> (\<exists>j. v = Some j \<and> valid fm (Sc_literal (JBool True)) j)"
  by auto

lemma members_nil [simp]: "valid_members fm [] kvs" by simp

lemma session_fields_iff:
  "valid fm LicenseSessionResponseSchema (JObj kvs) \<longleftrightarrow>
    map_of kvs ''success'' = Some (JBool True) \<and> sdk_license_type_of (map_of kvs ''licenseType'') \<noteq> None \<and>
    record_fields (map_of kvs ''metadata'') \<noteq> None \<and>
    text_between 32 512 (map_of kvs ''sessionToken'') \<noteq> None \<and>
    integer_between 1 MAX_SESSION_TTL_SECONDS (map_of kvs ''sessionTtlSeconds'') \<noteq> None"
proof -
  have bounds: "- MAX_SAFE_INTEGER \<le> 1" "86400 \<le> MAX_SAFE_INTEGER" by (simp_all add: MAX_SAFE_INTEGER_def)
  show ?thesis
    unfolding sdk_license_type_iff[where fm = fm] record_fields_iff[where fm = fm]
      text_between_iff[where fm = fm] MAX_SESSION_TTL_SECONDS_def
      integer_between_iff[where fm = fm, OF bounds] success_iff[where fm = fm]
      LicenseSessionResponseSchema_def SessionTokenSchema_def valid_object_iff members_need
    by auto
qed

lemma usage_fields_iff:
  "valid fm UsageResponseSchema (JObj kvs) \<longleftrightarrow>
    map_of kvs ''success'' = Some (JBool True) \<and> text_between 1 128 (map_of kvs ''meter'') \<noteq> None \<and>
    integer_between 1 MAX_LICENSE_LIMIT_SDK (map_of kvs ''units'') \<noteq> None \<and>
    text_between 1 128 (map_of kvs ''eventId'') \<noteq> None \<and>
    integer_between 0 MAX_LICENSE_LIMIT_SDK (map_of kvs ''remaining'') \<noteq> None"
proof -
  have bounds: "- MAX_SAFE_INTEGER \<le> 1" "- MAX_SAFE_INTEGER \<le> 0" "MAX_LICENSE_LIMIT \<le> MAX_SAFE_INTEGER"
    and same: "MAX_LICENSE_LIMIT_SDK = MAX_LICENSE_LIMIT"
    by (simp_all add: MAX_SAFE_INTEGER_def MAX_LICENSE_LIMIT_def MAX_LICENSE_LIMIT_SDK_def)
  show ?thesis
    unfolding same text_between_iff[where fm = fm] success_iff[where fm = fm]
      integer_between_iff[where fm = fm, OF bounds(1,3)] integer_between_iff[where fm = fm, OF bounds(2,3)]
      UsageResponseSchema_def MeterNameSchema_def EventIdSchema_def LimitSchema_def
      valid_object_iff members_need
    by auto
qed

lemma object_or_not: "record_fields (Some v) = (case v of JObj kvs \<Rightarrow> Some kvs | _ \<Rightarrow> None)"
  by (cases v) simp_all

lemma session_reader_iff:
  assumes "readJson parse r = Inr (Some v)"
  shows "(\<exists>p. readSessionResponse parse r name = Inr p) \<longleftrightarrow> valid fm LicenseSessionResponseSchema v"
proof (cases "record_fields (Some v)")
  case None
  then show ?thesis
    using assms by (cases v) (simp_all add: readSessionResponse_def LicenseSessionResponseSchema_def)
next
  case (Some kvs)
  then have v: "v = JObj kvs" by (cases v) simp_all
  show ?thesis
    unfolding v session_fields_iff using assms
    by (auto simp: v readSessionResponse_def split: option.splits bool.splits)
qed

lemma usage_reader_iff:
  assumes "readJson parse r = Inr (Some v)"
  shows "(\<exists>p. readUsageResponse parse r = Inr p) \<longleftrightarrow> valid fm UsageResponseSchema v"
proof (cases "record_fields (Some v)")
  case None
  then show ?thesis
    using assms by (cases v) (simp_all add: readUsageResponse_def UsageResponseSchema_def)
next
  case (Some kvs)
  then have v: "v = JObj kvs" by (cases v) simp_all
  show ?thesis
    unfolding v usage_fields_iff using assms
    by (auto simp: v readUsageResponse_def split: option.splits bool.splits)
qed

lemma deactivation_reader_iff:
  assumes "readJson parse r = Inr (Some v)"
  shows "readDeactivateResponse parse r = Inr () \<longleftrightarrow> valid fm SuccessResponseSchema v"
  using assms
  by (cases v) (auto simp: readDeactivateResponse_def SuccessResponseSchema_def need_def checkR_def
      split: option.splits)

text \<open>
  C35: the SDK reads what the server answers, and nothing else. For a body that is a JSON value, the
  reader of activations and heartbeats, the reader of usage answers and the reader of releases
  succeed exactly when the value satisfies the schema the server checks that answer against; and
  from the server's own answer a reader takes exactly the values the service returned.
\<close>

theorem sdk_reads_server_answers:
  assumes "readJson parse r = Inr (Some v)"
  shows "((\<exists>p. readSessionResponse parse r name = Inr p) \<longleftrightarrow> valid fm LicenseSessionResponseSchema v) \<and>
    ((\<exists>p. readUsageResponse parse r = Inr p) \<longleftrightarrow> valid fm UsageResponseSchema v) \<and>
    (readDeactivateResponse parse r = Inr () \<longleftrightarrow> valid fm SuccessResponseSchema v) \<and>
    (\<forall>res. v = session_json res \<and> valid fm LicenseSessionResponseSchema v \<longrightarrow>
      readSessionResponse parse r name = Inr \<lparr>sp_licenseType = sr_licenseType res,
        sp_metadata = sr_metadata res, sp_sessionToken = sr_sessionToken res,
        sp_sessionTtlSeconds = sr_sessionTtlSeconds res\<rparr>) \<and>
    (\<forall>res. v = usage_json res \<and> valid fm UsageResponseSchema v \<longrightarrow>
      readUsageResponse parse r = Inr \<lparr>up_meter = cr_meter res, up_units = cr_units res,
        up_eventId = cr_eventId res, up_remaining = cr_remaining res\<rparr>)"
proof -
  have "readSessionResponse parse r name = Inr \<lparr>sp_licenseType = sr_licenseType res,
        sp_metadata = sr_metadata res, sp_sessionToken = sr_sessionToken res,
        sp_sessionTtlSeconds = sr_sessionTtlSeconds res\<rparr>"
    if "v = session_json res" "valid fm LicenseSessionResponseSchema v" for res
    using that assms session_reader_iff[OF assms, of name fm]
    by (auto simp: readSessionResponse_def session_json_def sdk_license_type_name split: if_splits)
  moreover have "readUsageResponse parse r = Inr \<lparr>up_meter = cr_meter res, up_units = cr_units res,
        up_eventId = cr_eventId res, up_remaining = cr_remaining res\<rparr>"
    if "v = usage_json res" "valid fm UsageResponseSchema v" for res
    using that assms usage_reader_iff[OF assms, of fm]
    by (auto simp: readUsageResponse_def usage_json_def split: if_splits)
  ultimately show ?thesis
    using session_reader_iff[OF assms] usage_reader_iff[OF assms] deactivation_reader_iff[OF assms]
    by blast
qed

text \<open>The server's answer to an activation, as the client of the witness receives it.\<close>

definition plain_session :: license_session_result where
  "plain_session = \<lparr>sr_licenseType = Trial, sr_metadata = [(''seats'', JNum (Integral 3))],
    sr_sessionToken = replicate 36 (CHR ''t''), sr_sessionTtlSeconds = 60\<rparr>"

theorem sdk_reads_server_answers_witness:
  "readSessionResponse (\<lambda>_. Some (session_json plain_session)) plain_response ''activation'' =
    Inr \<lparr>sp_licenseType = Trial, sp_metadata = [(''seats'', JNum (Integral 3))],
      sp_sessionToken = replicate 36 (CHR ''t''), sp_sessionTtlSeconds = 60\<rparr>"
proof -
  have read: "readJson (\<lambda>_. Some (session_json plain_session)) plain_response =
      Inr (Some (session_json plain_session))"
    by (simp add: readJson_def plain_response_def MAX_RESPONSE_BODY_BYTES_def)
  have "valid plain_formats LicenseSessionResponseSchema (session_json plain_session)"
    by (rule session_json_valid) (simp_all add: plain_session_def)
  then show ?thesis
    using sdk_reads_server_answers[OF read, of "''activation''" plain_formats]
    by (simp add: plain_session_def)
qed

section \<open>What a client sends\<close>

text \<open>
  \<open>speaks\<close>: what the client would send and what it has sent passes the server's schemas. It
  depends on the server's address, the two identifiers, the token and the requests alone, so most
  code leaves it as it is.
\<close>

definition fits :: "formats \<Rightarrow> client \<Rightarrow> http_request \<Rightarrow> bool" where
  "fits fm c q \<longleftrightarrow> (\<exists>ep. hq_url q = nc_serverUrl (cl_network c) @ endpoint_path ep \<and>
    valid fm (endpoint_body ep) (JObj (hq_body q)))"

definition speaks :: "formats \<Rightarrow> client \<Rightarrow> bool" where
  "speaks fm c \<longleftrightarrow>
    1 \<le> length (nc_licenseKey (cl_network c)) \<and> length (nc_licenseKey (cl_network c)) \<le> 128 \<and>
    1 \<le> length (cl_deviceId c) \<and> length (cl_deviceId c) \<le> 128 \<and>
    (\<forall>t. cl_sessionToken c = Some t \<longrightarrow> 32 \<le> length t \<and> length t \<le> 512) \<and>
    (\<forall>q. Sent q \<in> set (cl_trace c) \<longrightarrow> fits fm c q)"

lemma speaks_fields [simp]:
  "speaks fm (c\<lparr>cl_state := x1\<rparr>) = speaks fm c"
  "speaks fm (c\<lparr>cl_activation := x2\<rparr>) = speaks fm c"
  "speaks fm (c\<lparr>cl_deactivation := x3\<rparr>) = speaks fm c"
  "speaks fm (c\<lparr>cl_activationResult := x4\<rparr>) = speaks fm c"
  "speaks fm (c\<lparr>cl_sessionExpiresAtMs := x5\<rparr>) = speaks fm c"
  "speaks fm (c\<lparr>cl_heartbeatTimer := x6\<rparr>) = speaks fm c"
  "speaks fm (c\<lparr>cl_heartbeatRequest := x7\<rparr>) = speaks fm c"
  "speaks fm (c\<lparr>cl_heartbeatIntervalMs := x8\<rparr>) = speaks fm c"
  "speaks fm (c\<lparr>cl_usageRequests := x9\<rparr>) = speaks fm c"
  "speaks fm (c\<lparr>cl_failureStrikes := y1\<rparr>) = speaks fm c"
  "speaks fm (c\<lparr>cl_throttleRetries := y2\<rparr>) = speaks fm c"
  "speaks fm (c\<lparr>cl_expiryProtectedThrottleRetryUsed := y3\<rparr>) = speaks fm c"
  "speaks fm (c\<lparr>cl_fatalCleanupScheduled := y4\<rparr>) = speaks fm c"
  "speaks fm (c\<lparr>cl_cleanupQueued := y5\<rparr>) = speaks fm c"
  "speaks fm (c\<lparr>cl_listeners := y6\<rparr>) = speaks fm c"
  "speaks fm (c\<lparr>cl_serial := y7\<rparr>) = speaks fm c"
  by (simp_all add: speaks_def fits_def)

lemma speaks_no_token: "speaks fm c \<Longrightarrow> speaks fm (c\<lparr>cl_sessionToken := None\<rparr>)"
  by (simp add: speaks_def fits_def)

lemma speaks_token:
  "speaks fm c \<Longrightarrow> 32 \<le> length t \<Longrightarrow> length t \<le> 512 \<Longrightarrow> speaks fm (c\<lparr>cl_sessionToken := Some t\<rparr>)"
  by (simp add: speaks_def fits_def)

lemma speaks_sent: "speaks fm (did (Sent q) c) \<longleftrightarrow> speaks fm c \<and> fits fm c q"
  by (auto simp: speaks_def fits_def did_def)

lemma speaks_quiet [simp]:
  "speaks fm (did (Emitted ev) c) = speaks fm c" "speaks fm (did (Listener_failed n) c) = speaks fm c"
  "speaks fm (did (Logged lv m) c) = speaks fm c"
  by (auto simp: speaks_def fits_def did_def)

lemma speaks_log [simp]: "speaks fm (client_log lv m c) = speaks fm c"
  by (simp add: client_log_def split: option.splits)

lemma speaks_deactivate [simp]: "speaks fm (client_deactivate c) = speaks fm c"
  by (simp add: client_deactivate_def clearHeartbeatTimer_def split: option.splits)

lemma speaks_emit [simp]: "speaks fm (emit h ev c) = speaks fm c"
proof -
  have "speaks fm (fold (call_listener h) ls c) = speaks fm c" for ls c
    by (induction ls arbitrary: c) (simp_all add: call_listener_def Let_def)
  then show ?thesis by (simp add: emit_def)
qed

lemma speaks_pieces [simp]:
  "speaks fm (handleFatalError m c) = speaks fm c"
  "speaks fm (emitLicenseRejection h r c) = speaks fm c"
  "speaks fm (scheduleHeartbeat d c) = speaks fm c"
  "speaks fm (heartbeat_finally now rb d c) = speaks fm c"
  "speaks fm (activation_failed e c) = speaks fm c"
  "speaks fm (cleanup_runs c) = speaks fm c"
  by (simp_all add: handleFatalError_def emitLicenseRejection_def scheduleHeartbeat_def
      heartbeat_finally_def activation_failed_def cleanup_runs_def Let_def
      split: option.splits deactivation_promise.splits)

lemma speaks_failure [simp]: "speaks fm (heartbeat_failure h now m c) = speaks fm c"
  by (simp add: heartbeat_failure_def recordHeartbeatFailure_def Let_def)

lemma speaks_throttled [simp]: "speaks fm (heartbeat_throttled h now r c) = speaks fm c"
  by (simp add: heartbeat_throttled_def Let_def)

lemma speaks_store:
  assumes "readSessionResponse parse r n = Inr p" "speaks fm c"
  shows "speaks fm (store_session t p c)"
  using readSessionResponse_Inr[OF assms(1)] assms(2)
  by (simp add: store_session_def speaks_token)

lemma speaks_activation:
  assumes "speaks fm c"
  shows "speaks fm (activation_ends h t out c)"
  using assms speaks_store[OF _ assms]
  by (auto simp: activation_ends_def activation_succeeds_def Let_def
      split: http_outcome.splits sum.splits)

lemma speaks_heartbeat:
  assumes "speaks fm c"
  shows "speaks fm (heartbeat_ends h now t out c)"
  using assms speaks_store[OF _ assms]
  by (auto simp: heartbeat_ends_def heartbeat_success_def Let_def
      split: http_outcome.splits sum.splits)

lemma speaks_finishes:
  assumes "speaks fm c"
  shows "speaks fm (deactivation_finishes failed c)"
  using assms by (auto simp: deactivation_finishes_def removeAllListeners_def Let_def speaks_no_token
      split: option.splits)

lemma fits_session:
  assumes "speaks fm c" "cl_sessionToken c = Some t"
  shows "fits fm c (sendHeartbeat (cl_network c) t (cl_deviceId c))"
    and "fits fm c (sendDeactivate (cl_network c) t (cl_deviceId c))"
  using assms
  by (auto simp: speaks_def fits_def sendHeartbeat_def sendDeactivate_def post_def session_body_def
      SessionInputSchema_def schema_notation text_schemas intro: exI[of _ Ep_heartbeat] exI[of _ Ep_deactivate])

lemma fits_activate:
  assumes "speaks fm c"
  shows "fits fm c (sendActivate (cl_network c) (cl_deviceId c))"
  using assms
  by (auto simp: speaks_def fits_def sendActivate_def post_def ActivateInputSchema_def schema_notation
      text_schemas intro!: exI[of _ Ep_activate])

lemma normalized_usage:
  assumes "normalizeConsumeInput input = Inr u"
  shows "1 \<le> length (su_meter u) \<and> length (su_meter u) \<le> 128 \<and> 1 \<le> su_units u \<and>
    su_units u \<le> MAX_LICENSE_LIMIT \<and> 1 \<le> length (su_eventId u) \<and> length (su_eventId u) \<le> 128"
proof -
  have same: "MAX_LICENSE_LIMIT_SDK = MAX_LICENSE_LIMIT"
    by (simp add: MAX_LICENSE_LIMIT_def MAX_LICENSE_LIMIT_SDK_def)
  show ?thesis using assms
    by (auto simp: normalizeConsumeInput_def Let_def same not_less Suc_le_eq split: option.splits json.splits if_splits)
qed

lemma fits_usage:
  assumes "speaks fm c" "cl_sessionToken c = Some t" "normalizeConsumeInput input = Inr u"
  shows "fits fm c (sendUsage (cl_network c) t (cl_deviceId c) u)"
  using assms(1,2) normalized_usage[OF assms(3)]
  by (auto simp: speaks_def fits_def sendUsage_def post_def session_body_def UsageInputSchema_def
      schema_notation text_schemas intro!: exI[of _ Ep_usage])

lemma speaks_step:
  assumes "sdk_step h c c'" "speaks fm c"
  shows "speaks fm c'"
  using assms(1)
proof cases
  case (activate_called now)
  have "fits fm (c\<lparr>cl_state := Cs_activating, cl_activation := p\<rparr>)
      (sendActivate (cl_network c) (cl_deviceId c))" for p
    using fits_activate[OF assms(2)] by (simp add: fits_def)
  then show ?thesis using activate_called assms(2)
    by (auto simp: sdk_activate_def speaks_sent split: bool.splits option.splits)
next
  case (consume_called input)
  have "fits fm (c\<lparr>cl_usageRequests := us\<rparr>) (sendUsage (cl_network c) t (cl_deviceId c) u)"
    if "cl_sessionToken c = Some t" "normalizeConsumeInput input = Inr u" for t u us
    using fits_usage[OF assms(2) that] by (simp add: fits_def)
  then show ?thesis using consume_called assms(2)
    by (auto simp: sdk_consume_def speaks_sent split: client_state.splits option.splits sum.splits)
next
  case (timer_done d now)
  have "fits fm (c\<lparr>cl_heartbeatTimer := None, cl_heartbeatRequest := r\<rparr>)
      (sendHeartbeat (cl_network c) t (cl_deviceId c))" if "cl_sessionToken c = Some t" for t r
    using fits_session(1)[OF assms(2) that] by (simp add: fits_def)
  then show ?thesis using timer_done assms(2)
    by (auto simp: timer_fires_def Let_def speaks_sent split: client_state.splits option.splits)
next
  case deactivation_settled
  have "fits fm (c\<lparr>cl_deactivation := p\<rparr>)
      (sendDeactivate (cl_network c) t (cl_deviceId c))" if "cl_sessionToken c = Some t" for t p
    using fits_session(2)[OF assms(2) that] by (simp add: fits_def)
  then show ?thesis using deactivation_settled assms(2)
    by (auto simp: deactivation_proceeds_def speaks_sent speaks_finishes split: option.splits)
next
  case (usage_done i out)
  then show ?thesis using assms(2)
    by (auto simp: usage_ends_def Let_def split: http_outcome.splits sum.splits)
next
  case (deactivation_done out)
  then show ?thesis using assms(2)
    by (auto simp: deactivation_ends_def speaks_finishes split: http_outcome.splits sum.splits)
qed (use assms(2) in \<open>auto simp: speaks_activation speaks_heartbeat add_listener_def removeListener_def\<close>)

definition configured :: "client \<Rightarrow> bool" where
  "configured c \<longleftrightarrow> (\<exists>parseUrl sha256 os config. (\<forall>s. length (sha256 s) = 64) \<and>
    LicenseClient parseUrl sha256 os config = Inr c)"

lemma accepted_key:
  assumes "assertConfig (Some kvs) = Inr u"
  obtains k where "config_text kvs ''licenseKey'' = Some k" "1 \<le> length (trim k)" "length (trim k) \<le> 128"
  using assms by (auto simp: assertConfig_def split: option.splits)

lemma fresh_client:
  assumes "LicenseClient parseUrl sha256 os (Some kvs) = Inr c"
  shows "nc_licenseKey (cl_network c) = (case config_text kvs ''licenseKey'' of None \<Rightarrow> [] | Some k \<Rightarrow> trim k)"
    and "cl_deviceId c = getDeviceId sha256 os (config_text kvs ''deviceId'')"
    and "cl_sessionToken c = None" and "cl_trace c = []"
  using assms by (auto simp: LicenseClient_def NetworkClient_def Let_def)

lemma configured_speaks:
  assumes "configured c"
  shows "speaks fm c"
proof -
  obtain parseUrl sha256 os config where sha: "\<And>s. length (sha256 s) = (64 :: nat)"
    and c: "LicenseClient parseUrl sha256 os config = Inr c"
    using assms by (auto simp: configured_def)
  obtain kvs where config: "config = Some kvs"
    using c by (cases config) (simp_all add: LicenseClient_def assertConfig_def)
  obtain u where "assertConfig (Some kvs) = Inr u"
    using c unfolding config LicenseClient_def by auto
  then obtain k where "config_text kvs ''licenseKey'' = Some k" "1 \<le> length (trim k)"
      "length (trim k) \<le> 128"
    by (rule accepted_key)
  moreover have "length (getDeviceId sha256 os d) = 64" for d
    by (simp add: getDeviceId_def sha split: option.split)
  ultimately show ?thesis
    using fresh_client[OF c[unfolded config]] by (simp add: speaks_def)
qed

interpretation sdk_speech: transition_system configured "sdk_step h" "speaks fm" for h fm
  by unfold_locales (auto intro: configured_speaks speaks_step)

text \<open>
  C34: a client never sends a request the server calls invalid. Whatever the settings it was
  accepted with, whatever the application passes to \<open>consume\<close>, the server answers and the
  listeners do, in any order: each request in the client's history goes to one of the four routes
  and its body satisfies the schema of that route. A device identifier is a SHA-256 digest in
  hexadecimal, 64 characters.
\<close>

theorem sdk_requests_fit_server:
  assumes "\<forall>s. length (sha256 s) = 64"
    and "LicenseClient parseUrl sha256 os config = Inr c0" and "(sdk_step h)\<^sup>*\<^sup>* c0 c"
    and "Sent q \<in> set (cl_trace c)"
  shows "\<exists>ep. hq_url q = nc_serverUrl (cl_network c) @ endpoint_path ep \<and>
    valid fm (endpoint_body ep) (JObj (hq_body q))"
proof -
  have "configured c0" using assms(1,2) unfolding configured_def by blast
  from sdk_speech.invar_reachable[OF this assms(3)] have "speaks fm c" .
  with assms(4) show ?thesis by (auto simp: speaks_def fits_def)
qed

definition hex_sha :: "string \<Rightarrow> string" where
  "hex_sha s = replicate 64 (CHR ''a'')"

definition hex_client :: client where
  "hex_client = plain_client\<lparr>cl_deviceId := replicate 64 (CHR ''a'')\<rparr>"

theorem sdk_requests_fit_server_witness:
  "\<exists>ep. ''https://keys/v1/activate'' = ''https://keys'' @ endpoint_path ep \<and>
    valid plain_formats (endpoint_body ep)
      (JObj [(''licenseKey'', JStr ''key''), (''deviceId'', JStr (replicate 64 (CHR ''a'')))])"
proof -
  define c where "c = snd (sdk_activate 0 hex_client)"
  define q where "q = sendActivate (cl_network hex_client) (cl_deviceId hex_client)"
  have fresh: "LicenseClient plain_url hex_sha plain_os (Some plain_settings) = Inr hex_client"
    by code_simp
  have sha: "\<forall>s. length (hex_sha s) = 64" by (simp add: hex_sha_def)
  have reached: "(sdk_step plain_sdk)\<^sup>*\<^sup>* hex_client c"
    unfolding c_def using activate_called by (rule r_into_rtranclp)
  have sent: "Sent q \<in> set (cl_trace c)" and server: "nc_serverUrl (cl_network c) = ''https://keys''"
    by (simp_all add: c_def q_def sdk_activate_def hex_client_def plain_client_def did_def)
  have body: "hq_url q = ''https://keys/v1/activate''"
    "hq_body q = [(''licenseKey'', JStr ''key''), (''deviceId'', JStr (replicate 64 (CHR ''a'')))]"
    by (simp_all add: q_def hex_client_def plain_client_def sendActivate_def post_def)
  from sdk_requests_fit_server[OF sha fresh reached sent, of plain_formats]
  show ?thesis unfolding server body .
qed

end
