(* ===== verification/AdminViews.thy ===== *)
theory AdminViews
  imports Schemas AdminCalls JsNumber
begin

text \<open>
  What operators are shown. The results of the administrative services as JSON (what
  \<open>JSON.stringify\<close> makes of them; \<open>toISO\<close> is \<open>Date.prototype.toISOString\<close>), the views the HTTP
  interface puts over them (\<open>presentLicense\<close>, \<open>presentStripeResult\<close>, \<open>publicActivity\<close> of
  \<open>controllers/admin.ts\<close>) and the one of the command line (\<open>omitLicenseSecrets\<close> of
  \<open>cli/output.ts\<close>). Both views that drop members go through values of any depth.
\<close>

section \<open>Results as JSON\<close>

definition text_or_null :: "string option \<Rightarrow> json" where
  "text_or_null v = (case v of None \<Rightarrow> JNull | Some s \<Rightarrow> JStr s)"

definition number_json :: "int \<Rightarrow> json" where
  "number_json i = JNum (Integral i)"

definition date_or_null :: "(int \<Rightarrow> string) \<Rightarrow> int option \<Rightarrow> json" where
  "date_or_null toISO t = text_or_null (map_option toISO t)"

definition member_if :: "string \<Rightarrow> json option \<Rightarrow> json_object" where
  "member_if name v = (case v of None \<Rightarrow> [] | Some j \<Rightarrow> [(name, j)])"

fun status_name :: "license_status \<Rightarrow> string" where
  "status_name Active = ''active''"
| "status_name Expired = ''expired''"
| "status_name Revoked = ''revoked''"

fun status_reason_name :: "license_status_reason \<Rightarrow> string" where
  "status_reason_name Manual_revocation = ''manual_revocation''"
| "status_reason_name Billing_revocation = ''billing_revocation''"
| "status_reason_name Subscription_expired = ''subscription_expired''"
| "status_reason_name Trial_expired = ''trial_expired''"

definition customer_json :: "(int \<Rightarrow> string) \<Rightarrow> customer \<Rightarrow> json" where
  "customer_json toISO c = JObj [(''id'', JStr (c_id c)), (''email'', JStr (c_email c)),
    (''name'', JStr (c_name c)), (''metadata'', JObj (c_metadata c)),
    (''createdAt'', JStr (toISO (c_createdAt c))), (''updatedAt'', JStr (toISO (c_updatedAt c)))]"

definition drafts_json :: "type_drafts \<Rightarrow> json" where
  "drafts_json d = JObj (
    member_if ''lifetime'' (map_option JObj (d_lifetime d)) @
    member_if ''subscription'' (map_option (\<lambda>e. JObj [(''expiresAt'', text_or_null e)]) (d_subscription d)) @
    member_if ''metered'' (map_option (\<lambda>ns. JObj [(''meterNames'', JArr (map JStr ns))]) (d_metered d)) @
    member_if ''trial'' (map_option (\<lambda>n. JObj [(''durationMinutes'', number_json n)]) (d_trial d)))"

definition managed_fields :: "(int \<Rightarrow> string) \<Rightarrow> 'a managed_license_scheme \<Rightarrow> json_object" where
  "managed_fields toISO l = [(''id'', JStr (ml_id l)), (''keyPrefix'', JStr (ml_keyPrefix l)),
    (''customerId'', JStr (ml_customerId l)), (''type'', JStr (license_type_name (ml_type l))),
    (''maxIps'', number_json (ml_maxIps l)), (''maxDevices'', number_json (ml_maxDevices l)),
    (''maxSessions'', number_json (ml_maxSessions l)),
    (''trialDurationMinutes'', number_json (ml_trialDurationMinutes l)),
    (''trialStartedAt'', date_or_null toISO (ml_trialStartedAt l)),
    (''metadata'', JObj (ml_metadata l)), (''expiresAt'', date_or_null toISO (ml_expiresAt l)),
    (''typeDrafts'', drafts_json (ml_typeDrafts l)),
    (''manualRevokedAt'', date_or_null toISO (ml_manualRevokedAt l)),
    (''manualRevocationReason'', text_or_null (ml_manualRevocationReason l)),
    (''createdAt'', JStr (toISO (ml_createdAt l))), (''updatedAt'', JStr (toISO (ml_updatedAt l))),
    (''billingRevokedAt'', date_or_null toISO (ml_billingRevokedAt l))]"

definition managed_json :: "(int \<Rightarrow> string) \<Rightarrow> 'a managed_license_scheme \<Rightarrow> json_object \<Rightarrow> json" where
  "managed_json toISO l extra = JObj (managed_fields toISO l @ extra @
    [(''status'', JStr (status_name (ml_status l))),
     (''statusReason'', text_or_null (map_option status_reason_name (ml_statusReason l)))])"

definition revealed_key :: "managed_revealed_license \<Rightarrow> json_object" where
  "revealed_key l = [(''licenseKey'', JStr (ml_licenseKey l))]"

definition meter_json :: "(int \<Rightarrow> string) \<Rightarrow> license_meter \<Rightarrow> json" where
  "meter_json toISO m = JObj [(''id'', JStr (m_id m)), (''licenseId'', JStr (m_licenseId m)),
    (''name'', JStr (m_name m)), (''balance'', number_json (m_balance m)),
    (''archivedAt'', date_or_null toISO (m_archivedAt m)),
    (''createdAt'', JStr (toISO (m_createdAt m))), (''updatedAt'', JStr (toISO (m_updatedAt m)))]"

definition ledger_json :: "(int \<Rightarrow> string) \<Rightarrow> usage_ledger_entry \<Rightarrow> json" where
  "ledger_json toISO e = JObj [(''id'', JStr (e_id e)), (''licenseId'', JStr (e_licenseId e)),
    (''meterId'', JStr (e_meterId e)), (''eventId'', JStr (e_eventId e)),
    (''kind'', JStr (ledger_kind_name (e_kind e))), (''delta'', number_json (e_delta e)),
    (''balanceBefore'', number_json (e_balanceBefore e)),
    (''balanceAfter'', number_json (e_balanceAfter e)), (''reason'', text_or_null (e_reason e)),
    (''createdAt'', JStr (toISO (e_createdAt e)))]"

definition ip_allow_json :: "(int \<Rightarrow> string) \<Rightarrow> ip_allow \<Rightarrow> json" where
  "ip_allow_json toISO a = JObj [(''id'', JStr (ia_id a)), (''licenseId'', JStr (ia_licenseId a)),
    (''ip'', JStr (ia_ip a)), (''createdAt'', JStr (toISO (ia_createdAt a)))]"

definition device_allow_json :: "(int \<Rightarrow> string) \<Rightarrow> device_allow \<Rightarrow> json" where
  "device_allow_json toISO a = JObj [(''id'', JStr (da_id a)), (''licenseId'', JStr (da_licenseId a)),
    (''deviceId'', JStr (da_deviceId a)), (''createdAt'', JStr (toISO (da_createdAt a)))]"

definition registered_json :: "(int \<Rightarrow> string) \<Rightarrow> registered_device \<Rightarrow> json" where
  "registered_json toISO r = JObj [(''id'', JStr (rd_id r)), (''licenseId'', JStr (rd_licenseId r)),
    (''ip'', JStr (rd_ip r)), (''deviceId'', JStr (rd_deviceId r)),
    (''createdAt'', JStr (toISO (rd_createdAt r))), (''lastSeenAt'', JStr (toISO (rd_lastSeenAt r)))]"

definition attempt_json :: "(int \<Rightarrow> string) \<Rightarrow> access_attempt \<Rightarrow> json" where
  "attempt_json toISO a = JObj [(''value'', JStr (aa_value a)),
    (''attemptCount'', number_json (aa_attemptCount a)),
    (''firstAttemptedAt'', JStr (toISO (aa_firstAttemptedAt a))),
    (''lastAttemptedAt'', JStr (toISO (aa_lastAttemptedAt a)))]"

definition access_json :: "(int \<Rightarrow> string) \<Rightarrow> access_records \<Rightarrow> json" where
  "access_json toISO r = JObj [
    (''allowedIps'', JArr (map (ip_allow_json toISO) (ar_allowedIps r))),
    (''allowedDevices'', JArr (map (device_allow_json toISO) (ar_allowedDevices r))),
    (''registeredDevices'', JArr (map (registered_json toISO) (ar_registeredDevices r))),
    (''attemptedIps'', JArr (map (attempt_json toISO) (ar_attemptedIps r))),
    (''attemptedDevices'', JArr (map (attempt_json toISO) (ar_attemptedDevices r)))]"

definition change_json :: "('e \<Rightarrow> json) \<Rightarrow> 'e allowlist_change \<Rightarrow> json" where
  "change_json entry c = JObj [(''entry'', entry (ac_entry c)),
    (''restrictionEnabled'', JBool (ac_restrictionEnabled c)), (''warning'', text_or_null (ac_warning c))]"

definition stripe_link_json :: "(int \<Rightarrow> string) \<Rightarrow> stripe_link \<Rightarrow> json" where
  "stripe_link_json toISO s = JObj [(''id'', JStr (s_id s)), (''licenseId'', JStr (s_licenseId s)),
    (''subscriptionId'', JStr (s_subscriptionId s)), (''stripeCustomerId'', JStr (s_stripeCustomerId s)),
    (''status'', JStr (s_status s)), (''paidThrough'', date_or_null toISO (s_paidThrough s)),
    (''cancelAtPeriodEnd'', JBool (s_cancelAtPeriodEnd s)), (''priceId'', text_or_null (s_priceId s)),
    (''billingRevokedAt'', date_or_null toISO (s_billingRevokedAt s)),
    (''lastSyncedAt'', date_or_null toISO (s_lastSyncedAt s)), (''lastError'', text_or_null (s_lastError s)),
    (''createdAt'', JStr (toISO (s_createdAt s))), (''updatedAt'', JStr (toISO (s_updatedAt s)))]"

definition license_json :: "(int \<Rightarrow> string) \<Rightarrow> 'a license_scheme \<Rightarrow> json_object" where
  "license_json toISO l = [(''id'', JStr (l_id l)), (''keyPrefix'', JStr (l_keyPrefix l)),
    (''customerId'', JStr (l_customerId l)), (''type'', JStr (license_type_name (l_type l))),
    (''maxIps'', number_json (l_maxIps l)), (''maxDevices'', number_json (l_maxDevices l)),
    (''maxSessions'', number_json (l_maxSessions l)),
    (''sessionRevision'', number_json (l_sessionRevision l)),
    (''trialDurationMinutes'', number_json (l_trialDurationMinutes l)),
    (''trialStartedAt'', date_or_null toISO (l_trialStartedAt l)), (''metadata'', JObj (l_metadata l)),
    (''expiresAt'', date_or_null toISO (l_expiresAt l)), (''typeDrafts'', drafts_json (l_typeDrafts l)),
    (''manualRevokedAt'', date_or_null toISO (l_manualRevokedAt l)),
    (''manualRevocationReason'', text_or_null (l_manualRevocationReason l)),
    (''createdAt'', JStr (toISO (l_createdAt l))), (''updatedAt'', JStr (toISO (l_updatedAt l))),
    (''billingRevokedAt'', date_or_null toISO (l_billingRevokedAt l))]"

section \<open>The views of the HTTP interface\<close>

definition presentLicense ::
    "(int \<Rightarrow> string) \<Rightarrow> 'a managed_license_scheme \<Rightarrow> json_object \<Rightarrow> json" where
  "presentLicense toISO l extra = JObj (managed_fields toISO l @ extra @
    [(''status'', JObj [(''status'', JStr (status_name (ml_status l))),
      (''reason'', text_or_null (map_option status_reason_name (ml_statusReason l)))])])"

definition presentStripeResult :: "(int \<Rightarrow> string) \<Rightarrow> (stripe_link \<times> license) option \<Rightarrow> json" where
  "presentStripeResult toISO result =
    (case result of
      None \<Rightarrow> JNull
    | Some (link, l) \<Rightarrow> JObj [(''link'', stripe_link_json toISO link),
        (''license'', JObj (filter (\<lambda>kv. fst kv \<noteq> ''sessionRevision'') (license_json toISO l)))])"

definition hidden_detail :: "string \<Rightarrow> bool" where
  "hidden_detail key \<longleftrightarrow>
    toLowerCase (filter (\<lambda>c. c \<noteq> CHR ''_'') key) \<in> {''ip'', ''deviceid'', ''hwid''}"

text \<open>Dropping members at every depth, as both \<open>publicDetailValue\<close> and \<open>omitLicenseSecrets\<close> do.\<close>

function (sequential) drop_members :: "(string \<Rightarrow> bool) \<Rightarrow> json \<Rightarrow> json" where
  "drop_members P (JArr vs) = JArr (map (drop_members P) vs)"
| "drop_members P (JObj kvs) =
    JObj (map (\<lambda>kv. (fst kv, drop_members P (snd kv))) (filter (\<lambda>kv. \<not> P (fst kv)) kvs))"
| "drop_members P v = v"
  by pat_completeness auto
termination
  by (relation "measure (\<lambda>(P, v). size v)")
    (auto simp: less_Suc_eq_le intro: size_list_estimation' order_trans[OF _ size_list_estimation'])

definition publicDetailValue :: "json \<Rightarrow> json" where
  "publicDetailValue = drop_members hidden_detail"

fun activity_source_name :: "activity_source \<Rightarrow> string" where
  "activity_source_name Operator = ''operator''"
| "activity_source_name Client = ''client''"
| "activity_source_name Stripe = ''stripe''"
| "activity_source_name System = ''system''"

fun activity_outcome_name :: "activity_outcome \<Rightarrow> string" where
  "activity_outcome_name Success = ''success''"
| "activity_outcome_name Rejected = ''rejected''"
| "activity_outcome_name Error = ''error''"

fun activity_scope_name :: "activity_scope \<Rightarrow> string" where
  "activity_scope_name Global = ''global''"
| "activity_scope_name Customer_scope = ''customer''"
| "activity_scope_name License_scope = ''license''"

definition publicActivity :: "(int \<Rightarrow> string) \<Rightarrow> activity_event \<Rightarrow> json" where
  "publicActivity toISO e = JObj [(''id'', JStr (a_id e)),
    (''type'', JStr (activity_type_name (a_type e))),
    (''source'', JStr (activity_source_name (a_source e))),
    (''outcome'', JStr (activity_outcome_name (a_outcome e))), (''reason'', text_or_null (a_reason e)),
    (''licenseId'', text_or_null (a_licenseId e)), (''customerId'', text_or_null (a_customerId e)),
    (''keyPrefix'', text_or_null (a_keyPrefix e)),
    (''details'', publicDetailValue (JObj (a_details e))),
    (''createdAt'', JStr (toISO (a_createdAt e)))]"

definition total_fields :: "'a activity_total_scheme \<Rightarrow> json_object" where
  "total_fields t = [(''scope'', JStr (activity_scope_name (at_scope t))),
    (''scopeId'', JStr (at_scopeId t)), (''type'', JStr (activity_type_name (at_type t))),
    (''count'', number_json (at_count t))]"

definition publicStatistics :: "(int \<Rightarrow> string) \<Rightarrow> activity_statistics \<Rightarrow> json" where
  "publicStatistics toISO s = JObj [(''totals'', JArr (map (\<lambda>t. JObj (total_fields t)) (as_totals s))),
    (''buckets'', JArr (map (\<lambda>b. JObj (total_fields b @ [(''minute'', JStr (toISO (at_minute b)))]))
      (as_buckets s))),
    (''recent'', JArr (map (publicActivity toISO) (as_recent s)))]"

section \<open>The view of the command line\<close>

definition omitLicenseSecrets :: "json \<Rightarrow> json" where
  "omitLicenseSecrets = drop_members (\<lambda>key. key = ''licenseKey'')"

section \<open>What is dropped is gone\<close>

function (sequential) free_of :: "(string \<Rightarrow> bool) \<Rightarrow> json \<Rightarrow> bool" where
  "free_of P (JArr vs) \<longleftrightarrow> list_all (free_of P) vs"
| "free_of P (JObj kvs) \<longleftrightarrow> list_all (\<lambda>kv. \<not> P (fst kv) \<and> free_of P (snd kv)) kvs"
| "free_of P v = True"
  by pat_completeness auto
termination
  by (relation "measure (\<lambda>(P, v). size v)")
    (auto simp: less_Suc_eq_le intro: size_list_estimation' order_trans[OF _ size_list_estimation'])

lemma drop_members_free: "free_of P (drop_members P v)"
  by (induction P v rule: drop_members.induct) (auto simp: list_all_iff)

lemma drop_members_id: "free_of P v \<Longrightarrow> drop_members P v = v"
proof (induction P v rule: drop_members.induct)
  case (1 P vs)
  then show ?case by (auto simp: list_all_iff intro: map_idI)
next
  case (2 P kvs)
  then have "filter (\<lambda>kv. \<not> P (fst kv)) kvs = kvs" by (auto simp: list_all_iff)
  with 2 show ?case by (auto simp: list_all_iff intro!: map_idI)
qed auto

lemma free_of_simps [simp]:
  "free_of P (text_or_null t)" "free_of P (number_json i)" "free_of P (date_or_null toISO d)"
  by (simp_all add: text_or_null_def number_json_def date_or_null_def split: option.split)

lemma hidden_detail_simps [simp]:
  "hidden_detail ''ip''" "hidden_detail ''deviceId''" "hidden_detail ''device_id''"
  "hidden_detail ''hwid''"
  by code_simp+

lemma shown_fields [simp]:
  "\<not> hidden_detail ''id''" "\<not> hidden_detail ''type''" "\<not> hidden_detail ''source''"
  "\<not> hidden_detail ''outcome''" "\<not> hidden_detail ''reason''" "\<not> hidden_detail ''licenseId''"
  "\<not> hidden_detail ''customerId''" "\<not> hidden_detail ''keyPrefix''" "\<not> hidden_detail ''details''"
  "\<not> hidden_detail ''createdAt''" "\<not> hidden_detail ''scope''" "\<not> hidden_detail ''scopeId''"
  "\<not> hidden_detail ''count''" "\<not> hidden_detail ''minute''" "\<not> hidden_detail ''totals''"
  "\<not> hidden_detail ''buckets''" "\<not> hidden_detail ''recent''"
  by code_simp+

lemma publicActivity_free: "free_of hidden_detail (publicActivity toISO e)"
  by (simp add: publicActivity_def publicDetailValue_def drop_members_free del: drop_members.simps)

lemma publicStatistics_free: "free_of hidden_detail (publicStatistics toISO s)"
  by (simp add: publicStatistics_def total_fields_def list_all_iff publicActivity_free)

end
