(* ===== verification/AdminRoutes.thy ===== *)
theory AdminRoutes
  imports AdminViews LicenseRoutes
begin

text \<open>
  \<open>controllers/admin.ts\<close>: the operators' routes. \<open>admin_routes\<close> is the table of the source, in its
  order: method, path, schema of the body, what the handler does with the path's parameters, the
  query and the body, the status of success and the schema of the answer. A request passes the
  check of its body, the ceiling of its address, the ceiling of the administrator and the key
  before its handler runs (\<open>admin_serve\<close>).

  Parameters and query values are taken as the framework decodes them: a query value is a text,
  or a list of two texts or more when the name is repeated. A path that matches no route, and a
  body that is no JSON, never reach this code.
\<close>

section \<open>Authentication\<close>

definition configuredAdminKeys :: "(string \<Rightarrow> string option) \<Rightarrow> string list" where
  "configuredAdminKeys environment =
    filter (\<lambda>key. key \<noteq> [])
      (map trim
        ((case environment ''KEYZORI_ADMIN_API_KEY'' of None \<Rightarrow> [] | Some key \<Rightarrow> [key]) @
         split_on (CHR '','')
           (case environment ''KEYZORI_ADMIN_API_KEYS'' of None \<Rightarrow> [] | Some keys \<Rightarrow> keys)))"

definition authenticated :: "(string \<Rightarrow> string) \<Rightarrow> string list \<Rightarrow> string option \<Rightarrow> bool" where
  "authenticated sha256 expectedKeys supplied =
    (case supplied of
      None \<Rightarrow> False
    | Some key \<Rightarrow> key \<noteq> [] \<and>
        fold (\<lambda>expected auth. sha256 expected = sha256 key \<or> auth) expectedKeys False)"

definition unauthorized :: http_reply where
  "unauthorized = reply 401 (error_body ''Unauthorized'' ''UNAUTHORIZED'')"

section \<open>Reading requests\<close>

definition members :: "json \<Rightarrow> json_object" where
  "members v = (case v of JObj kvs \<Rightarrow> kvs | _ \<Rightarrow> [])"

definition optional_text :: "json \<Rightarrow> string \<Rightarrow> string option" where
  "optional_text body name = (case map_of (members body) name of Some (JStr s) \<Rightarrow> Some s | _ \<Rightarrow> None)"

definition optional_number :: "json \<Rightarrow> string \<Rightarrow> jsnum option" where
  "optional_number body name = (case map_of (members body) name of Some (JNum n) \<Rightarrow> Some n | _ \<Rightarrow> None)"

definition optional_object :: "json \<Rightarrow> string \<Rightarrow> json_object option" where
  "optional_object body name = (case map_of (members body) name of Some (JObj kvs) \<Rightarrow> Some kvs | _ \<Rightarrow> None)"

definition meter_input :: "json \<Rightarrow> create_meter_input" where
  "meter_input v = \<lparr>cm_name = text_member v ''name'', cm_balance = number_member v ''balance'',
    cm_reason = text_member v ''reason''\<rparr>"

definition optional_meters :: "json \<Rightarrow> create_meter_input list option" where
  "optional_meters body =
    (case map_of (members body) ''meters'' of Some (JArr vs) \<Rightarrow> Some (map meter_input vs) | _ \<Rightarrow> None)"

definition license_type_named :: "string \<Rightarrow> license_type option" where
  "license_type_named s = List.find (\<lambda>ty. license_type_name ty = s) [Lifetime, Subscription, Metered, Trial]"

definition optional_type :: "json \<Rightarrow> license_type option" where
  "optional_type body = Option.bind (optional_text body ''type'') license_type_named"

definition optional_expiry :: "json \<Rightarrow> string option option" where
  "optional_expiry body =
    (case map_of (members body) ''expiresAt'' of
      Some (JStr s) \<Rightarrow> Some (Some s) | Some JNull \<Rightarrow> Some None | _ \<Rightarrow> None)"

definition customer_patch_of :: "json \<Rightarrow> update_customer_input" where
  "customer_patch_of body = \<lparr>uc_email = optional_text body ''email'', uc_name = optional_text body ''name'',
    uc_metadata = optional_object body ''metadata''\<rparr>"

definition license_input_of :: "json \<Rightarrow> create_license_input" where
  "license_input_of body = \<lparr>cl_customerId = text_member body ''customerId'',
    cl_type = (case optional_type body of None \<Rightarrow> Lifetime | Some ty \<Rightarrow> ty),
    cl_maxIps = optional_number body ''maxIps'', cl_maxDevices = optional_number body ''maxDevices'',
    cl_maxSessions = optional_number body ''maxSessions'',
    cl_trialDurationMinutes = optional_number body ''trialDurationMinutes'',
    cl_metadata = optional_object body ''metadata'', cl_expiresAt = optional_text body ''expiresAt'',
    cl_meters = optional_meters body\<rparr>"

definition license_patch_of :: "json \<Rightarrow> update_license_input" where
  "license_patch_of body = \<lparr>ul_customerId = optional_text body ''customerId'', ul_type = optional_type body,
    ul_maxIps = optional_number body ''maxIps'', ul_maxDevices = optional_number body ''maxDevices'',
    ul_maxSessions = optional_number body ''maxSessions'',
    ul_trialDurationMinutes = optional_number body ''trialDurationMinutes'',
    ul_metadata = optional_object body ''metadata'', ul_expiresAt = optional_expiry body,
    ul_meters = optional_meters body,
    ul_unlinkStripe = (if map_of (members body) ''confirmStripeUnlink'' = Some (JBool True)
      then Some True else None)\<rparr>"

definition ACTIVITY_EVENT_TYPES :: "activity_event_type list" where
  "ACTIVITY_EVENT_TYPES = [Customer_created, Customer_updated, Customer_deleted, License_created,
    License_updated, License_type_changed, License_deleted, License_revoked, License_restored,
    License_key_rotated, License_activation_attempted, License_activation_succeeded,
    License_activation_rejected, License_heartbeat, License_deactivated, Meter_created,
    Meter_archived, Meter_adjusted, Usage_consumed, Usage_rejected, Stripe_linked, Stripe_unlinked,
    Stripe_synchronized, Stripe_webhook_failed]"

definition query_type :: "json_object \<Rightarrow> activity_event_type option result" where
  "query_type query =
    (let e = Inl (InvalidRequest ''type is not a supported activity event type'') in
     case map_of query ''type'' of
       None \<Rightarrow> Inr None
     | Some (JStr s) \<Rightarrow>
         (case List.find (\<lambda>ty. activity_type_name ty = s) ACTIVITY_EVENT_TYPES of
           None \<Rightarrow> e | Some ty \<Rightarrow> Inr (Some ty))
     | Some _ \<Rightarrow> e)"

definition query_date :: "(string \<Rightarrow> int option) \<Rightarrow> json_object \<Rightarrow> string \<Rightarrow> int option result" where
  "query_date parseDate query name =
    (let e = Inl (InvalidRequest (name @ '' must be a valid ISO date'')) in
     case map_of query name of
       None \<Rightarrow> Inr None
     | Some (JStr s) \<Rightarrow> (case parseDate s of None \<Rightarrow> e | Some t \<Rightarrow> Inr (Some t))
     | Some _ \<Rightarrow> e)"

definition query_number :: "json \<Rightarrow> jsnum" where
  "query_number v = (case v of JStr s \<Rightarrow> Number s | _ \<Rightarrow> NonFinite)"

definition query_limit :: "json_object \<Rightarrow> int option result" where
  "query_limit query =
    (let e = Inl (InvalidRequest ''limit must be an integer from 1 to 1000'') in
     case map_of query ''limit'' of
       None \<Rightarrow> Inr None
     | Some v \<Rightarrow>
         (case query_number v of
           Integral n \<Rightarrow> if n < 1 \<or> 1000 < n then e else Inr (Some n) | _ \<Rightarrow> e))"

definition parseActivityQuery :: "(string \<Rightarrow> int option) \<Rightarrow> json_object \<Rightarrow> activity_query result" where
  "parseActivityQuery parseDate query =
    bindR (query_type query) (\<lambda>ty.
    bindR (query_date parseDate query ''from'') (\<lambda>since.
    bindR (query_date parseDate query ''to'') (\<lambda>until.
    bindR (query_limit query) (\<lambda>n.
    Inr \<lparr>q_licenseId = optional_text (JObj query) ''licenseId'',
      q_customerId = optional_text (JObj query) ''customerId'', q_type = ty, q_from = since, q_to = until,
      q_limit = n\<rparr>))))"

section \<open>The routes\<close>

datatype http_method = GET | POST | PATCH | DELETE

datatype segment = Fixed string | Param

datatype admin_work =
    Work_call admin_call
  | Work_activity json_object
  | Work_statistics json_object
  | Work_getLink string
  | Work_link string string
  | Work_unlink string
  | Work_sync string

record admin_endpoint =
  ae_method :: http_method
  ae_path :: "segment list"
  ae_body :: "schema option"
  ae_work :: "string list \<Rightarrow> json_object \<Rightarrow> json \<Rightarrow> admin_work"
  ae_status :: int
  ae_answer :: "schema option"

definition route ::
    "http_method \<Rightarrow> segment list \<Rightarrow> schema option \<Rightarrow> int \<Rightarrow> schema option \<Rightarrow>
      (string list \<Rightarrow> json_object \<Rightarrow> json \<Rightarrow> admin_work) \<Rightarrow> admin_endpoint" where
  "route verb path body status ans work = \<lparr>ae_method = verb, ae_path = path, ae_body = body,
    ae_work = work, ae_status = status, ae_answer = ans\<rparr>"

fun match_path :: "segment list \<Rightarrow> string list \<Rightarrow> string list option" where
  "match_path [] [] = Some []"
| "match_path (Fixed s # ss) (p # ps) = (if s = p then match_path ss ps else None)"
| "match_path (Param # ss) (p # ps) = map_option ((#) p) (match_path ss ps)"
| "match_path _ _ = None"

definition of_license :: "segment list \<Rightarrow> segment list" where
  "of_license path = Fixed ''licenses'' # Param # path"

definition action_on :: "string \<Rightarrow> segment list" where
  "action_on name = of_license [Fixed ''actions'', Fixed name]"

definition meter_action :: "string \<Rightarrow> segment list" where
  "meter_action name = of_license [Fixed ''meters'', Param, Fixed ''actions'', Fixed name]"

definition renew_body :: schema where
  "renew_body = strict [need ''expiresAt'' (Sc_string Date_time 0 None)]"

definition customer_routes :: "admin_endpoint list" where
  "customer_routes = [
    route POST [Fixed ''customers''] (Some CustomerInputSchema) 201 (Some CustomerResponseSchema)
      (\<lambda>ps q b. Work_call (Call_createCustomer (text_member b ''email'') (text_member b ''name'')
        (case optional_object b ''metadata'' of None \<Rightarrow> [] | Some m \<Rightarrow> m))),
    route GET [Fixed ''customers''] None 200 (Some (Sc_array CustomerResponseSchema None))
      (\<lambda>ps q b. Work_call Call_listCustomers),
    route GET [Fixed ''customers'', Param] None 200 (Some CustomerResponseSchema)
      (\<lambda>ps q b. Work_call (Call_getCustomer (ps ! 0))),
    route PATCH [Fixed ''customers'', Param] (Some CustomerPatchSchema) 200 (Some CustomerResponseSchema)
      (\<lambda>ps q b. Work_call (Call_updateCustomer (ps ! 0) (customer_patch_of b))),
    route DELETE [Fixed ''customers'', Param] None 204 None
      (\<lambda>ps q b. Work_call (Call_deleteCustomer (ps ! 0)))]"

definition license_routes :: "admin_endpoint list" where
  "license_routes = [
    route POST [Fixed ''licenses''] (Some LicenseInputSchema) 201 (Some CreatedLicenseResponseSchema)
      (\<lambda>ps q b. Work_call (Call_createLicense (license_input_of b))),
    route GET [Fixed ''licenses''] None 200 (Some (Sc_array LicenseResponseSchema None))
      (\<lambda>ps q b. Work_call Call_listLicenses),
    route GET (of_license []) None 200 (Some LicenseResponseSchema)
      (\<lambda>ps q b. Work_call (Call_getLicense (ps ! 0))),
    route PATCH (of_license []) (Some LicensePatchSchema) 200 (Some LicenseResponseSchema)
      (\<lambda>ps q b. Work_call (Call_updateLicense (ps ! 0) (license_patch_of b))),
    route DELETE (of_license []) None 204 None (\<lambda>ps q b. Work_call (Call_deleteLicense (ps ! 0))),
    route POST (action_on ''renew'') (Some renew_body) 200 (Some LicenseResponseSchema)
      (\<lambda>ps q b. Work_call (Call_renewSubscription (ps ! 0) (text_member b ''expiresAt''))),
    route POST (action_on ''revoke'') (Some RevokeInputSchema) 200 (Some LicenseResponseSchema)
      (\<lambda>ps q b. Work_call (Call_revokeLicense (ps ! 0) (text_member b ''reason''))),
    route POST (action_on ''restore'') None 200 (Some LicenseResponseSchema)
      (\<lambda>ps q b. Work_call (Call_restoreLicense (ps ! 0))),
    route POST (action_on ''rotate-key'') None 200 (Some CreatedLicenseResponseSchema)
      (\<lambda>ps q b. Work_call (Call_rotateLicenseKey (ps ! 0))),
    route POST (action_on ''terminate-sessions'') None 200 None
      (\<lambda>ps q b. Work_call (Call_terminateLicenseSessions (ps ! 0))),
    route POST (action_on ''reset-devices'') None 200 None
      (\<lambda>ps q b. Work_call (Call_resetRegisteredDevices (ps ! 0)))]"

definition access_routes :: "admin_endpoint list" where
  "access_routes = [
    route GET (of_license [Fixed ''access'']) None 200 (Some AccessResponseSchema)
      (\<lambda>ps q b. Work_call (Call_getLicenseAccess (ps ! 0))),
    route POST (of_license [Fixed ''allowlists'', Fixed ''ips'']) (Some IpAllowlistInputSchema) 200 None
      (\<lambda>ps q b. Work_call (Call_allowLicenseIp (ps ! 0) (text_member b ''ip''))),
    route DELETE (of_license [Fixed ''allowlists'', Fixed ''ips'', Param]) None 200 None
      (\<lambda>ps q b. Work_call (Call_removeLicenseAllowedIp (ps ! 0) (ps ! 1))),
    route POST (of_license [Fixed ''allowlists'', Fixed ''devices'']) (Some DeviceAllowlistInputSchema)
      200 None (\<lambda>ps q b. Work_call (Call_allowLicenseDevice (ps ! 0) (text_member b ''deviceId''))),
    route DELETE (of_license [Fixed ''allowlists'', Fixed ''devices'', Param]) None 200 None
      (\<lambda>ps q b. Work_call (Call_removeLicenseAllowedDevice (ps ! 0) (ps ! 1))),
    route DELETE (of_license [Fixed ''registrations'', Fixed ''ips'', Param]) None 200 None
      (\<lambda>ps q b. Work_call (Call_removeRegisteredIp (ps ! 0) (ps ! 1))),
    route DELETE (of_license [Fixed ''registrations'', Fixed ''devices'', Param]) None 200 None
      (\<lambda>ps q b. Work_call (Call_removeRegisteredDevice (ps ! 0) (ps ! 1)))]"

definition meter_routes :: "admin_endpoint list" where
  "meter_routes = [
    route GET (of_license [Fixed ''meters'']) None 200 (Some (Sc_array LicenseMeterResponseSchema None))
      (\<lambda>ps q b. Work_call (Call_listLicenseMeters (ps ! 0)
        (map_of q ''includeArchived'' = Some (JStr ''true'')))),
    route POST (of_license [Fixed ''meters'']) (Some NewMeterInputSchema) 200
      (Some LicenseMeterResponseSchema)
      (\<lambda>ps q b. Work_call (Call_createLicenseMeter (ps ! 0) (meter_input b))),
    route POST (meter_action ''archive'') (Some RevokeInputSchema) 200 (Some LicenseMeterResponseSchema)
      (\<lambda>ps q b. Work_call (Call_archiveLicenseMeter (ps ! 0) (ps ! 1) (text_member b ''reason''))),
    route POST (meter_action ''top-up'') (Some MeterTopUpInputSchema) 200 (Some LicenseMeterResponseSchema)
      (\<lambda>ps q b. Work_call (Call_topUpLicenseMeter (ps ! 0) (ps ! 1) (number_member b ''units'')
        (text_member b ''reason''))),
    route POST (meter_action ''adjust'') (Some MeterAdjustmentInputSchema) 200
      (Some LicenseMeterResponseSchema)
      (\<lambda>ps q b. Work_call (Call_adjustLicenseMeter (ps ! 0) (ps ! 1) (number_member b ''delta'')
        (text_member b ''reason''))),
    route GET (of_license [Fixed ''usage-ledger'']) None 200
      (Some (Sc_array UsageLedgerResponseSchema None))
      (\<lambda>ps q b. Work_call (Call_listLicenseUsageLedger (ps ! 0) (optional_text (JObj q) ''meter'')))]"

definition activity_routes :: "admin_endpoint list" where
  "activity_routes = [
    route GET [Fixed ''activity''] None 200 None (\<lambda>ps q b. Work_activity q),
    route GET [Fixed ''statistics''] None 200 None (\<lambda>ps q b. Work_statistics q)]"

definition stripe_routes :: "admin_endpoint list" where
  "stripe_routes = [
    route GET (of_license [Fixed ''stripe'']) None 200 None (\<lambda>ps q b. Work_getLink (ps ! 0)),
    route POST (action_on ''link-stripe'') (Some StripeLinkInputSchema) 200 None
      (\<lambda>ps q b. Work_link (ps ! 0) (text_member b ''subscriptionId'')),
    route POST (action_on ''unlink-stripe'') (Some ConfirmInputSchema) 200 None
      (\<lambda>ps q b. Work_unlink (ps ! 0)),
    route POST (action_on ''sync-stripe'') None 200 None (\<lambda>ps q b. Work_sync (ps ! 0))]"

record admin_options =
  ao_admin :: admin
  ao_keys :: "string list"
  ao_requestsPerIp :: int
  ao_requestsPerMinute :: "int option"
  ao_stripe :: "gateway option"

definition admin_routes :: "admin_options \<Rightarrow> admin_endpoint list" where
  "admin_routes options = customer_routes @ license_routes @ access_routes @ meter_routes @
    activity_routes @ (case ao_stripe options of None \<Rightarrow> [] | Some _ \<Rightarrow> stripe_routes)"

section \<open>Handlers\<close>

definition count_label :: "admin_call \<Rightarrow> string" where
  "count_label call = (case call of Call_terminateLicenseSessions _ \<Rightarrow> ''terminated'' | _ \<Rightarrow> ''removed'')"

fun http_answer :: "(int \<Rightarrow> string) \<Rightarrow> admin_call \<Rightarrow> admin_answer \<Rightarrow> json" where
  "http_answer toISO call (Ans_customer c) = customer_json toISO c"
| "http_answer toISO call (Ans_customers cs) = JArr (map (customer_json toISO) cs)"
| "http_answer toISO call (Ans_license l) = presentLicense toISO l []"
| "http_answer toISO call (Ans_licenses ls) = JArr (map (\<lambda>l. presentLicense toISO l []) ls)"
| "http_answer toISO call (Ans_revealed l) = presentLicense toISO l (revealed_key l)"
| "http_answer toISO call Ans_done = JNull"
| "http_answer toISO call (Ans_count n) = JObj [(count_label call, number_json n)]"
| "http_answer toISO call (Ans_access r) = access_json toISO r"
| "http_answer toISO call (Ans_ip c) = change_json (ip_allow_json toISO) c"
| "http_answer toISO call (Ans_device c) = change_json (device_allow_json toISO) c"
| "http_answer toISO call (Ans_flag b) = JBool b"
| "http_answer toISO call (Ans_meter m) = meter_json toISO m"
| "http_answer toISO call (Ans_meters ms) = JArr (map (meter_json toISO) ms)"
| "http_answer toISO call (Ans_ledger es) = JArr (map (ledger_json toISO) es)"

definition with_query :: "json_object \<Rightarrow> (activity_query \<Rightarrow> 'a io) \<Rightarrow> 'a io" where
  "with_query query f =
    bindIO (askIO e_parseDate) (\<lambda>parseDate. bindIO (liftIO (parseActivityQuery parseDate query)) f)"

definition with_stripe :: "admin_options \<Rightarrow> (gateway \<Rightarrow> int \<Rightarrow> 'a io) \<Rightarrow> 'a io" where
  "with_stripe options f =
    (case ao_stripe options of
      None \<Rightarrow> throwIO (Plain_error ''Stripe is not configured'')
    | Some gw \<Rightarrow> bindIO nowIO (f gw))"

fun run_work :: "admin_options \<Rightarrow> admin_work \<Rightarrow> json io" where
  "run_work options (Work_call call) =
    bindIO (run_admin (ao_admin options) call) (\<lambda>a. bindIO (askIO e_toISO) (\<lambda>toISO.
    returnIO (http_answer toISO call a)))"
| "run_work options (Work_activity query) =
    bindIO (with_query query activity_listDetailed) (\<lambda>es. bindIO (askIO e_toISO) (\<lambda>toISO.
    returnIO (JArr (map (publicActivity toISO) es))))"
| "run_work options (Work_statistics query) =
    bindIO (with_query query activity_getStatistics) (\<lambda>s. bindIO (askIO e_toISO) (\<lambda>toISO.
    returnIO (publicStatistics toISO s)))"
| "run_work options (Work_getLink i) =
    bindIO (getLink i) (\<lambda>link. bindIO (askIO e_toISO) (\<lambda>toISO.
    returnIO (case link of None \<Rightarrow> JNull | Some s \<Rightarrow> stripe_link_json toISO s)))"
| "run_work options (Work_link i sub) =
    bindIO (with_stripe options (\<lambda>gw. linkLicense gw i sub)) (\<lambda>r. bindIO (askIO e_toISO) (\<lambda>toISO.
    returnIO (presentStripeResult toISO (Some r))))"
| "run_work options (Work_unlink i) = bindIO (unlinkLicense i) (\<lambda>b. returnIO (JBool b))"
| "run_work options (Work_sync i) =
    bindIO (with_stripe options (\<lambda>gw. syncLicense gw i)) (\<lambda>r. bindIO (askIO e_toISO) (\<lambda>toISO.
    returnIO (presentStripeResult toISO r)))"

fun stripe_code_name :: "stripe_error_code \<Rightarrow> string" where
  "stripe_code_name LICENSE_NOT_FOUND = ''LICENSE_NOT_FOUND''"
| "stripe_code_name LICENSE_TYPE_INVALID = ''LICENSE_TYPE_INVALID''"
| "stripe_code_name LICENSE_ALREADY_LINKED = ''LICENSE_ALREADY_LINKED''"
| "stripe_code_name SUBSCRIPTION_ALREADY_LINKED = ''SUBSCRIPTION_ALREADY_LINKED''"
| "stripe_code_name SUBSCRIPTION_PERIOD_MISSING = ''SUBSCRIPTION_PERIOD_MISSING''"

definition client_failure :: "int \<Rightarrow> string \<Rightarrow> string \<Rightarrow> http_reply" where
  "client_failure status message code =
    (if 400 \<le> status \<and> status < 500 then reply status (error_body message code) else internal_error)"

definition admin_failure_reply :: "failure \<Rightarrow> http_reply" where
  "admin_failure_reply e =
    (case e of
      Stripe_error se \<Rightarrow>
        client_failure (se_statusCode se) (se_message se) (stripe_code_name (se_code se))
    | Stripe_api_error message status code \<Rightarrow>
        client_failure status message (case code of None \<Rightarrow> ''INVALID_REQUEST'' | Some c \<Rightarrow> c)
    | _ \<Rightarrow> failure_reply e)"

section \<open>Serving a request\<close>

record admin_request =
  rq_method :: http_method
  rq_path :: "string list"
  rq_query :: json_object
  rq_body :: "json option"
  rq_key :: "string option"
  rq_ip :: string

definition find_route ::
    "admin_options \<Rightarrow> admin_request \<Rightarrow> (admin_endpoint \<times> string list) option" where
  "find_route options rq =
    (case filter (\<lambda>ep. ae_method ep = rq_method rq \<and> match_path (ae_path ep) (rq_path rq) \<noteq> None)
        (admin_routes options) of
      [] \<Rightarrow> None
    | ep # _ \<Rightarrow> map_option (Pair ep) (match_path (ae_path ep) (rq_path rq)))"

definition body_accepted :: "formats \<Rightarrow> admin_endpoint \<Rightarrow> admin_request \<Rightarrow> bool" where
  "body_accepted fm ep rq =
    (case ae_body ep of
      None \<Rightarrow> True
    | Some s \<Rightarrow> (case rq_body rq of None \<Rightarrow> False | Some v \<Rightarrow> valid fm s v))"

definition body_of :: "admin_request \<Rightarrow> json" where
  "body_of rq = (case rq_body rq of None \<Rightarrow> JNull | Some v \<Rightarrow> v)"

definition authorized :: "admin_options \<Rightarrow> admin_request \<Rightarrow> http_reply io \<Rightarrow> http_reply io" where
  "authorized options rq handler =
    bindIO (askIO e_sha256) (\<lambda>sha256.
    if authenticated sha256 (ao_keys options) (rq_key rq) then handler else returnIO unauthorized)"

definition admin_limit :: "admin_options \<Rightarrow> string \<Rightarrow> limited_response option io" where
  "admin_limit options ip =
    (case ao_requestsPerMinute options of
      None \<Rightarrow> returnIO None
    | Some n \<Rightarrow> limit_key (''ratelimit:admin:'' @ ip) n)"

definition succeeded :: "formats \<Rightarrow> admin_endpoint \<Rightarrow> json \<Rightarrow> http_reply" where
  "succeeded fm ep v =
    (case ae_answer ep of
      None \<Rightarrow> reply (ae_status ep) v
    | Some s \<Rightarrow> if valid fm s v then reply (ae_status ep) v else invalid_request)"

definition admin_handle ::
    "formats \<Rightarrow> admin_options \<Rightarrow> admin_endpoint \<Rightarrow> string list \<Rightarrow> admin_request \<Rightarrow> http_reply io" where
  "admin_handle fm options ep ps rq =
    bindIO (run_work options (ae_work ep ps (rq_query rq) (body_of rq))) (\<lambda>v.
    returnIO (succeeded fm ep v))"

definition admin_serve ::
    "formats \<Rightarrow> admin_options \<Rightarrow> admin_endpoint \<Rightarrow> string list \<Rightarrow> admin_request \<Rightarrow> http_reply io" where
  "admin_serve fm options ep ps rq =
    (if \<not> body_accepted fm ep rq then returnIO invalid_request
     else catchIO
       (unless_limited (limit_key (''ratelimit:ip:'' @ rq_ip rq) (ao_requestsPerIp options))
         (unless_limited (admin_limit options (rq_ip rq))
           (authorized options rq (admin_handle fm options ep ps rq))))
       (\<lambda>e. returnIO (admin_failure_reply e)))"

section \<open>One route for a request\<close>

fun overlap :: "segment list \<Rightarrow> segment list \<Rightarrow> bool" where
  "overlap [] [] = True"
| "overlap (Fixed s # ss) (Fixed t # ts) = (s = t \<and> overlap ss ts)"
| "overlap (Fixed s # ss) (Param # ts) = overlap ss ts"
| "overlap (Param # ss) (Fixed t # ts) = overlap ss ts"
| "overlap (Param # ss) (Param # ts) = overlap ss ts"
| "overlap _ _ = False"

lemma match_both_overlap:
  "match_path ss p \<noteq> None \<Longrightarrow> match_path ts p \<noteq> None \<Longrightarrow> overlap ss ts"
proof (induction ss p arbitrary: ts rule: match_path.induct)
  case (2 s ss x ps)
  then show ?case by (cases ts; cases "hd ts") (auto split: if_splits)
next
  case (3 ss x ps)
  then show ?case by (cases ts; cases "hd ts") (auto split: if_splits)
next
  case 1
  then show ?case by (cases ts; cases "hd ts") auto
qed auto

definition signature_of :: "admin_endpoint \<Rightarrow> http_method \<times> segment list" where
  "signature_of ep = (ae_method ep, ae_path ep)"

fun distinct_routes :: "(http_method \<times> segment list) list \<Rightarrow> bool" where
  "distinct_routes [] = True"
| "distinct_routes (r # rs) =
    (list_all (\<lambda>q. fst q \<noteq> fst r \<or> \<not> overlap (snd r) (snd q)) rs \<and> distinct_routes rs)"

lemma table_distinct: "distinct_routes (map signature_of (admin_routes options))"
proof (cases "ao_stripe options")
  case None
  have "distinct_routes (map signature_of (customer_routes @ license_routes @ access_routes @
      meter_routes @ activity_routes @ []))"
    by code_simp
  then show ?thesis by (simp only: admin_routes_def None option.case)
next
  case (Some gw)
  have "distinct_routes (map signature_of (customer_routes @ license_routes @ access_routes @
      meter_routes @ activity_routes @ stripe_routes))"
    by code_simp
  then show ?thesis by (simp only: admin_routes_def Some option.case)
qed

lemma one_match:
  assumes "distinct_routes (map signature_of eps)" "ep \<in> set eps"
    and "ae_method ep = m" "match_path (ae_path ep) p \<noteq> None"
  shows "filter (\<lambda>ep. ae_method ep = m \<and> match_path (ae_path ep) p \<noteq> None) eps = [ep]"
  using assms
proof (induction eps)
  case (Cons e eps)
  have "filter (\<lambda>ep. ae_method ep = m \<and> match_path (ae_path ep) p \<noteq> None) eps = []"
    if "ae_method e = m" "match_path (ae_path e) p \<noteq> None"
    using Cons.prems(1) that match_both_overlap[OF that(2)]
    by (fastforce simp: filter_empty_conv list_all_iff signature_of_def)
  with Cons show ?case by (auto simp: signature_of_def)
qed simp

section \<open>Without a key\<close>

lemma unless_limited_eq:
  "unless_limited limit handler env w =
    (case limit env w of
      (Inl e, w1) \<Rightarrow> (Inl e, w1)
    | (Inr (Some l), w1) \<Rightarrow> (Inr (limited_reply l), w1)
    | (Inr None, w1) \<Rightarrow> handler env w1)"
  by (simp add: unless_limited_def bindIO_def returnIO_def split: prod.split sum.split option.split)

definition same_sessions :: "world \<Rightarrow> world \<Rightarrow> bool" where
  "same_sessions w w' \<longleftrightarrow> w_db w' = w_db w \<and> r_strings (w_redis w') = r_strings (w_redis w) \<and>
    r_sets (w_redis w') = r_sets (w_redis w)"

interpretation sessions_kept: step_preorder quiet same_sessions
  by unfold_locales (auto simp: same_sessions_def)

lemma limiter_keeps_sessions:
  "limiter_consume key n uuid now t r = (res, r') \<Longrightarrow> r_strings r' = r_strings r \<and> r_sets r' = r_sets r"
  by (auto simp: limiter_consume_def rate_limit_script_def Let_def zremrangebyscore_def zadd_def
      zexpire_def zstore_def split: if_splits prod.splits)

lemma limit_key_keeps: "steps quiet same_sessions (limit_key key n)"
  unfolding limit_key_def
  by (rule sessions_kept.steps_redis_call)
    (auto simp: same_sessions_def dest!: limiter_keeps_sessions split: prod.splits)

lemma admin_limit_keeps: "steps quiet same_sessions (admin_limit options ip)"
  unfolding admin_limit_def by (intro sessions_kept.steps_rules limit_key_keeps)

lemma limited_status: "limit_key key n env w = (Inr (Some l), w') \<Longrightarrow> lr_status l = 429"
  by (auto simp: limit_key_def redis_call_def Let_def enforceRateLimit_def
      split: outcome.splits prod.splits if_splits)

lemma limit_fails: "limit_key key n env w = (Inl e, w') \<Longrightarrow> e = Unavailable"
  by (auto simp: limit_key_def redis_call_def Let_def split: outcome.splits prod.splits if_splits)

text \<open>What a request without a valid key meets behind the check of its body.\<close>

definition turned_away :: "failure + http_reply \<Rightarrow> bool" where
  "turned_away res \<longleftrightarrow>
    res = Inl Unavailable \<or> (\<exists>l. lr_status l = 429 \<and> res = Inr (limited_reply l)) \<or> res = Inr unauthorized"

lemma authenticated_iff:
  "authenticated sha256 keys supplied \<longleftrightarrow>
    (\<exists>key. supplied = Some key \<and> key \<noteq> [] \<and> sha256 key \<in> sha256 ` set keys)"
proof -
  have "fold (\<lambda>expected auth. sha256 expected = sha256 key \<or> auth) keys b \<longleftrightarrow>
      b \<or> sha256 key \<in> sha256 ` set keys" for key b
    by (induction keys arbitrary: b) auto
  then show ?thesis by (auto simp: authenticated_def split: option.split)
qed

lemma not_authorized:
  "\<not> authenticated (e_sha256 env) (ao_keys options) (rq_key rq) \<Longrightarrow>
    authorized options rq handler env w = (Inr unauthorized, w)"
  by (simp add: authorized_def bindIO_def askIO_def returnIO_def)

lemma stage_turns_away:
  assumes "\<And>e w'. limit env w = (Inl e, w') \<Longrightarrow> e = Unavailable"
    and "\<And>l w'. limit env w = (Inr (Some l), w') \<Longrightarrow> lr_status l = 429"
    and "\<And>w'. limit env w = (Inr None, w') \<Longrightarrow> turned_away (fst (handler env w'))"
  shows "turned_away (fst (unless_limited limit handler env w))"
  using assms unfolding unless_limited_eq
  by (auto simp: turned_away_def split: prod.splits sum.splits option.splits)

lemma stage_keeps:
  assumes "steps quiet same_sessions limit" "quiet env"
    and "\<And>w'. same_sessions w' (snd (handler env w'))"
  shows "same_sessions w (snd (unless_limited limit handler env w))"
proof -
  obtain r w1 where run: "limit env w = (r, w1)" by fastforce
  have "same_sessions w w1" using stepsD[OF assms(1,2) run] .
  then have "same_sessions w (snd (handler env w1))" using assms(3) by (rule sessions_kept.trans)
  with \<open>same_sessions w w1\<close> show ?thesis
    by (simp add: unless_limited_eq run split: sum.split option.split)
qed

lemma admin_limit_outcomes:
  "admin_limit options ip env w = (Inl e, w') \<Longrightarrow> e = Unavailable"
  "admin_limit options ip env w = (Inr (Some l), w') \<Longrightarrow> lr_status l = 429"
  by (auto simp: admin_limit_def returnIO_def limited_status limit_fails split: option.splits)

lemma admin_serve_answers: "\<exists>r w'. admin_serve fm options ep ps rq env w = (Inr r, w')"
  by (auto simp: admin_serve_def returnIO_def catchIO_def split: prod.split sum.split)

section \<open>Requests without a key\<close>

text \<open>
  Without a key the administration is closed. A request for any of the operators' routes whose
  key is missing, or whose digest is that of no configured key, is answered with status 400, 401,
  429 or 500 and an error body; the whole database and every session stay as they were, whatever
  the route, the body and the parameters. (The windows of the rate limits move.)
\<close>

lemma admin_serve_without_key:
  assumes "quiet env"
    and "\<forall>key. rq_key rq = Some key \<longrightarrow> key = [] \<or> e_sha256 env key \<notin> e_sha256 env ` set (ao_keys options)"
    and "admin_serve fm options ep ps rq env w = (res, w')"
  shows "(\<exists>r message code. res = Inr r \<and> hp_status r \<in> {400, 401, 429, 500} \<and>
      hp_body r = error_body message code) \<and>
    w_db w' = w_db w \<and> r_strings (w_redis w') = r_strings (w_redis w) \<and>
    r_sets (w_redis w') = r_sets (w_redis w)"
proof (cases "body_accepted fm ep rq")
  case False
  then show ?thesis using assms(3)
    by (auto simp: admin_serve_def returnIO_def invalid_request_def reply_def) blast
next
  case True
  define inner where "inner = unless_limited (admin_limit options (rq_ip rq))
    (authorized options rq (admin_handle fm options ep ps rq))"
  define m where "m = unless_limited (limit_key (''ratelimit:ip:'' @ rq_ip rq) (ao_requestsPerIp options)) inner"
  have "\<not> authenticated (e_sha256 env) (ao_keys options) (rq_key rq)"
    using assms(2) by (auto simp: authenticated_iff)
  note refused = not_authorized[OF this]
  have serve: "admin_serve fm options ep ps rq env w =
      catchIO m (\<lambda>e. returnIO (admin_failure_reply e)) env w"
    using True by (simp add: admin_serve_def m_def inner_def)
  have "turned_away (fst (inner env w1))" for w1
    unfolding inner_def
    by (rule stage_turns_away) (auto simp: refused turned_away_def dest: admin_limit_outcomes)
  then have away: "turned_away (fst (m env w))"
    unfolding m_def by (intro stage_turns_away) (auto dest: limit_fails limited_status)
  have "same_sessions w1 (snd (inner env w1))" for w1
    unfolding inner_def
    by (rule stage_keeps[OF admin_limit_keeps assms(1)]) (simp add: refused sessions_kept.same)
  then have kept: "same_sessions w (snd (m env w))"
    unfolding m_def by (intro stage_keeps[OF limit_key_keeps assms(1)])
  obtain r0 w0 where run: "m env w = (r0, w0)" by fastforce
  have res: "res = (case r0 of Inl e \<Rightarrow> Inr (admin_failure_reply e) | Inr r \<Rightarrow> Inr r)" "w' = w0"
    using assms(3) unfolding serve by (auto simp: catchIO_def returnIO_def run split: sum.splits)
  have "turned_away r0" "same_sessions w w'" using away kept res(2) by (simp_all add: run)
  then show ?thesis
    by (auto simp: res turned_away_def same_sessions_def admin_failure_reply_def failure_reply_def
        internal_error_def limited_reply_def unauthorized_def reply_def) blast+
qed

lemma limits_keep_db [keeps_db_rules]:
  "keeps_db I (limit_key key n)" "keeps_db I (admin_limit options ip)"
  unfolding limit_key_def admin_limit_def by (intro keeps_db_rules)+

lemma keeps_db_work: "keeps_db consistent (run_work options work)"
proof -
  have stripe: "keeps_db consistent (with_stripe options f)"
    if "\<And>gw now. keeps_db consistent (f gw now)" for f :: "gateway \<Rightarrow> int \<Rightarrow> 'a io"
    unfolding with_stripe_def using that by (intro keeps_db_rules)
  show ?thesis
    by (cases work) (auto simp: with_query_def activity_listDetailed_def activity_getStatistics_def
        getLink_def intro!: keeps_db_rules keeps_db_run_admin keeps_db_links stripe)
qed

text \<open>The operators' routes keep the database consistent, whoever calls them.\<close>

lemma admin_serve_consistent: "keeps_db consistent (admin_serve fm options ep ps rq)"
  unfolding admin_serve_def unless_limited_def authorized_def admin_handle_def
  by (intro keeps_db_rules keeps_db_work)

lemma error_body_free: "free_of hidden_detail (error_body m c)"
  unfolding error_body_def by simp code_simp

lemma failures_free:
  "free_of hidden_detail (hp_body (admin_failure_reply e))"
  "free_of hidden_detail (hp_body invalid_request)" "free_of hidden_detail (hp_body unauthorized)"
  "free_of hidden_detail (hp_body (limited_reply l))"
  by (simp_all add: admin_failure_reply_def failure_reply_def client_failure_def internal_error_def
      invalid_request_def unauthorized_def limited_reply_def reply_def error_body_free split: failure.split)

lemma stage_free:
  assumes "\<And>w'. handler env w' = (Inr r, w2) \<Longrightarrow> free_of hidden_detail (hp_body r)"
    and "unless_limited limit handler env w = (Inr r, w2)"
  shows "free_of hidden_detail (hp_body r)"
  using assms unfolding unless_limited_eq
  by (auto simp: failures_free split: prod.splits sum.splits option.splits)

lemma handled_free:
  assumes "authorized options rq (admin_handle fm options ep ps rq) env w = (Inr r, w')"
    and shown: "\<And>w1 v w2. run_work options (ae_work ep ps (rq_query rq) (body_of rq)) env w1 = (Inr v, w2) \<Longrightarrow>
      free_of hidden_detail v"
  shows "free_of hidden_detail (hp_body r)"
proof (cases "authenticated (e_sha256 env) (ao_keys options) (rq_key rq)")
  case True
  then have "admin_handle fm options ep ps rq env w = (Inr r, w')"
    using assms(1) by (simp add: authorized_def bindIO_def askIO_def)
  then obtain v w3 where "run_work options (ae_work ep ps (rq_query rq) (body_of rq)) env w = (Inr v, w3)"
    and "r = succeeded fm ep v"
    by (auto simp: admin_handle_def bindIO_Inr_iff)
  with shown failures_free(2) show ?thesis
    by (auto simp: succeeded_def reply_def split: option.split)
next
  case False
  then show ?thesis using assms(1) not_authorized failures_free(3) by fastforce
qed

text \<open>
  C38: the activity feed hides where the clients are. Whatever the routes of the activity feed and
  of its statistics answer has, at any depth, no member named \<open>ip\<close>, \<open>deviceId\<close> or \<open>hwid\<close>, in any
  spelling with capitals or underscores.
\<close>

theorem activity_hides_addresses:
  assumes "ep \<in> set activity_routes" and "admin_serve fm options ep ps rq env w = (Inr r, w')"
  shows "free_of hidden_detail (hp_body r)"
proof -
  have shown: "free_of hidden_detail v"
    if "run_work options (ae_work ep ps q b) env w1 = (Inr v, w2)" for q b w1 v w2
    using assms(1) that
    by (auto simp: activity_routes_def route_def bindIO_Inr_iff list_all_iff publicActivity_free
        publicStatistics_free)
  note handled = handled_free[OF _ shown]
  show ?thesis
  proof (cases "body_accepted fm ep rq")
    case False
    then show ?thesis using assms(2) failures_free(2) by (auto simp: admin_serve_def returnIO_def)
  next
    case True
    let ?stages = "unless_limited (limit_key (''ratelimit:ip:'' @ rq_ip rq) (ao_requestsPerIp options))
      (unless_limited (admin_limit options (rq_ip rq))
        (authorized options rq (admin_handle fm options ep ps rq)))"
    consider (served) "?stages env w = (Inr r, w')" | (failed) e where "r = admin_failure_reply e"
      using assms(2) True by (auto simp: admin_serve_def catchIO_Inr_iff returnIO_def)
    then show ?thesis
    proof cases
      case served
      show ?thesis by (rule stage_free[OF _ served]) (rule stage_free, rule handled)
    next
      case failed
      then show ?thesis using failures_free(1) by simp
    qed
  qed
qed

definition open_options :: admin_options where
  "open_options = \<lparr>ao_admin = \<lparr>ad_host = sample_host, ad_retentionDays = 30, ad_stripe = False\<rparr>,
    ao_keys = [''first-key'', ''second-key''], ao_requestsPerIp = 6000, ao_requestsPerMinute = Some 60,
    ao_stripe = None\<rparr>"

definition delete_request :: "string option \<Rightarrow> admin_request" where
  "delete_request key = \<lparr>rq_method = DELETE, rq_path = [''customers'', ''C''], rq_query = [],
    rq_body = None, rq_key = key, rq_ip = ''1.2.3.4''\<rparr>"

definition delete_endpoint :: admin_endpoint where
  "delete_endpoint = customer_routes ! 4"

definition watched_world :: world where
  "watched_world = sample_world Lifetime
    \<lparr>w_db := (sample_db Lifetime)\<lparr>activityEvents := [\<lparr>a_id = ''A'', a_type = License_heartbeat, a_source = Client,
      a_outcome = Success, a_reason = None, a_licenseId = Some ''L'', a_customerId = Some ''C'',
      a_keyPrefix = None, a_ip = Some ''1.2.3.4'', a_deviceId = Some ''dev'',
      a_details = [(''Device_ID'', JStr ''dev''), (''via'', JObj [(''ip'', JStr ''1.2.3.4'')])],
      a_createdAt = 900\<rparr>]\<rparr>\<rparr>"

definition feed_request :: admin_request where
  "feed_request = (delete_request (Some ''second-key''))\<lparr>rq_method := GET, rq_path := [''activity'']\<rparr>"

theorem activity_hides_addresses_witness:
  "\<exists>r w'. admin_serve plain_formats open_options (activity_routes ! 0) [] feed_request sample_env watched_world =
      (Inr r, w') \<and> free_of hidden_detail (hp_body r)"
proof -
  have "activity_routes ! 0 \<in> set activity_routes" by (simp add: activity_routes_def)
  moreover obtain r w' where "admin_serve plain_formats open_options (activity_routes ! 0) [] feed_request
      sample_env watched_world = (Inr r, w')"
    using admin_serve_answers by blast
  ultimately show ?thesis using activity_hides_addresses by blast
qed

end
