(* ===== verification/Config.thy ===== *)
theory Config
  imports ClientIp JsNumber
begin

text \<open>
  \<open>config.ts\<close>: the server's settings, read from the environment when it starts. The environment
  is a map from names to texts, an error is the message that \<open>loadServerConfig\<close> throws, and the
  checks run in the order of the source. \<open>isIP\<close> is the one of \<open>ClientIp\<close>'s \<open>host\<close>; \<open>protocol\<close>
  is what the WHATWG URL parser gives (\<open>None\<close> when it throws).

  The theory shows what an accepted configuration guarantees: every number in its range, keys
  that are long enough and not placeholders, both Stripe secrets or none, and proxy networks
  that the resolver of \<open>ClientIp\<close> can use.
\<close>

type_synonym environment = "string \<Rightarrow> string option"

record stripe_config =
  sc_secretKey :: string
  sc_webhookSecret :: string

record server_config =
  sv_databaseUrl :: string
  sv_redisUrl :: string
  sv_adminApiKey :: string
  sv_additionalAdminApiKeys :: "string list"
  sv_host :: string
  sv_port :: int
  sv_trustProxyHeaders :: bool
  sv_trustedProxyCidrs :: "string list"
  sv_trustedProxyHeader :: proxy_header
  sv_openapiEnabled :: bool
  sv_rateLimitPerMinute :: int
  sv_licenseRateLimitPerMinute :: int
  sv_rateLimitPerIpPerMinute :: int
  sv_maxRequestBodyBytes :: int
  sv_stripe :: "stripe_config option"
  sv_eventRetentionDays :: int

section \<open>Reading one variable\<close>

definition trimmed_or :: "environment \<Rightarrow> string \<Rightarrow> string \<Rightarrow> string" where
  "trimmed_or environment name d =
    (case environment name of None \<Rightarrow> d | Some v \<Rightarrow> if trim v = [] then d else trim v)"

definition list_value :: "string \<Rightarrow> string list" where
  "list_value s = filter (\<lambda>v. v \<noteq> []) (map trim (split_on (CHR '','') s))"

definition required :: "environment \<Rightarrow> string \<Rightarrow> string + string" where
  "required environment name =
    (let value = trimmed_or environment name [] in
     if value = [] then Inl (name @ '' must be configured.'') else Inr value)"

definition serviceUrl ::
    "(string \<Rightarrow> string option) \<Rightarrow> environment \<Rightarrow> string \<Rightarrow> string list \<Rightarrow> string + string" where
  "serviceUrl protocol environment name protocols =
    bindR (required environment name) (\<lambda>value.
      case protocol value of
        None \<Rightarrow> Inl (name @ '' must be a valid URL.'')
      | Some p \<Rightarrow>
          if p \<in> set protocols then Inr value
          else Inl (name @ '' must use '' @
            (case map (filter (\<lambda>c. c \<noteq> CHR '':'')) protocols of [] \<Rightarrow> []
             | q # qs \<Rightarrow> q @ concat (map (\<lambda>r. '' or '' @ r) qs)) @ ''.''))"

definition booleanValue :: "environment \<Rightarrow> string \<Rightarrow> bool \<Rightarrow> string + bool" where
  "booleanValue environment name fallback =
    (case environment name of
      None \<Rightarrow> Inr fallback
    | Some value \<Rightarrow>
        if value = [] then Inr fallback
        else if value = ''true'' then Inr True
        else if value = ''false'' then Inr False
        else Inl (name @ '' must be either true or false.''))"

definition integerValue :: "environment \<Rightarrow> string \<Rightarrow> int \<Rightarrow> int \<Rightarrow> int \<Rightarrow> string + int" where
  "integerValue environment name fallback minimum maximum =
    (case environment name of
      None \<Rightarrow> Inr fallback
    | Some raw \<Rightarrow>
        if raw = [] then Inr fallback
        else
          (case Number raw of
            Integral value \<Rightarrow>
              if value < minimum \<or> maximum < value
              then Inl (name @ '' must be an integer between '' @ show_int minimum @ '' and '' @
                show_int maximum @ ''.'')
              else Inr value
          | _ \<Rightarrow> Inl (name @ '' must be an integer between '' @ show_int minimum @ '' and '' @
              show_int maximum @ ''.'')))"

definition parseTrustedProxyHeaderMode :: "environment \<Rightarrow> string + proxy_header" where
  "parseTrustedProxyHeaderMode environment =
    (let value = trimmed_or environment ''KEYZORI_TRUSTED_PROXY_HEADER'' ''x-forwarded-for'' in
     if value = ''x-forwarded-for'' then Inr X_forwarded_for
     else if value = ''cf-connecting-ip'' then Inr Cf_connecting_ip
     else if value = ''x-real-ip'' then Inr X_real_ip
     else if value = ''*'' then Inr Any_header
     else Inl ''KEYZORI_TRUSTED_PROXY_HEADER must be x-forwarded-for, cf-connecting-ip, x-real-ip, or *.'')"

section \<open>Proxy networks\<close>

definition prefix_number :: "string list \<Rightarrow> jsnum" where
  "prefix_number parts = (case parts of _ # prefixText # _ \<Rightarrow> Number prefixText | _ \<Rightarrow> NonFinite)"

definition valid_cidr :: "host \<Rightarrow> string \<Rightarrow> bool" where
  "valid_cidr h value =
    (let parts = split_on (CHR ''/'') value; address = hd parts;
         family = (if address = [] then 0 else h_isIP h address);
         maximum = (if family = 4 then 32 else 128) in
     length parts \<le> 2 \<and> family \<noteq> 0 \<and>
     (case prefix_number parts of
       Integral prefix \<Rightarrow> 0 \<le> prefix \<and> prefix \<le> maximum
     | _ \<Rightarrow> False))"

fun check_cidrs :: "host \<Rightarrow> string list \<Rightarrow> string + unit" where
  "check_cidrs h [] = Inr ()"
| "check_cidrs h (value # values) =
    (if value = ''*'' then
       Inl ''KEYZORI_TRUSTED_PROXY_CIDRS must be either * or comma-separated IPv4 or IPv6 CIDR ranges.''
     else if \<not> valid_cidr h value then
       Inl ''KEYZORI_TRUSTED_PROXY_CIDRS must contain comma-separated IPv4 or IPv6 CIDR ranges.''
     else check_cidrs h values)"

definition trustedProxyCidrs :: "host \<Rightarrow> environment \<Rightarrow> bool \<Rightarrow> string + string list" where
  "trustedProxyCidrs h environment enabled =
    (let configured = trimmed_or environment ''KEYZORI_TRUSTED_PROXY_CIDRS'' [] in
     if configured = ''*'' then Inr [''*'']
     else
       (let values = list_value configured in
        if enabled \<and> values = [] then
          Inl ''KEYZORI_TRUSTED_PROXY_CIDRS must list the immediate proxy networks when KEYZORI_TRUST_PROXY_HEADERS is true.''
        else bindR (check_cidrs h values) (\<lambda>_. Inr values)))"

section \<open>Secrets\<close>

definition starts_with :: "string \<Rightarrow> string \<Rightarrow> bool" where
  "starts_with prefix s \<longleftrightarrow> take (length prefix) s = prefix"

definition lower_ascii :: "string \<Rightarrow> string" where
  "lower_ascii s = map ascii_lower s"

definition placeholder_key :: "string \<Rightarrow> bool" where
  "placeholder_key key \<longleftrightarrow>
    list_ex (\<lambda>p. starts_with p (lower_ascii key))
      [''replace'', ''change'', ''yoursecure'', ''your_secure'', ''your-secure'', ''example'',
       ''development'']"

definition placeholder_stripe_key :: "string \<Rightarrow> bool" where
  "placeholder_stripe_key key \<longleftrightarrow>
    list_ex (\<lambda>p. starts_with p (lower_ascii key))
      [''replace'', ''change'', ''example'', ''development'']"

definition check_admin_keys :: "string list \<Rightarrow> string + unit" where
  "check_admin_keys keys =
    checkR (\<not> list_ex (\<lambda>key. length key < 32 \<or> placeholder_key key) keys)
      ''Admin API keys must be non-placeholder secrets of at least 32 characters.''"

definition stripe_settings :: "environment \<Rightarrow> string + stripe_config option" where
  "stripe_settings environment =
    (let secret = trimmed_or environment ''KEYZORI_STRIPE_SECRET_KEY'' [];
         webhook = trimmed_or environment ''KEYZORI_STRIPE_WEBHOOK_SECRET'' [] in
     if (secret \<noteq> []) \<noteq> (webhook \<noteq> []) then
       Inl ''KEYZORI_STRIPE_SECRET_KEY and KEYZORI_STRIPE_WEBHOOK_SECRET must either both be configured or both be omitted.''
     else if secret \<noteq> [] \<and> webhook \<noteq> [] then
       (if length secret < 16 \<or> placeholder_stripe_key secret then
          Inl ''KEYZORI_STRIPE_SECRET_KEY is not a valid secret.''
        else if \<not> starts_with ''whsec_'' webhook \<or> length webhook < 16 then
          Inl ''KEYZORI_STRIPE_WEBHOOK_SECRET must be a valid whsec_ secret.''
        else Inr (Some \<lparr>sc_secretKey = secret, sc_webhookSecret = webhook\<rparr>))
     else Inr None)"

section \<open>The whole configuration\<close>

definition loadServerConfig ::
    "host \<Rightarrow> (string \<Rightarrow> string option) \<Rightarrow> environment \<Rightarrow> string + server_config" where
  "loadServerConfig h protocol environment =
    (let host = trimmed_or environment ''KEYZORI_SERVER_HOST'' ''0.0.0.0'' in
     bindR (required environment ''KEYZORI_ADMIN_API_KEY'') (\<lambda>adminApiKey.
     let additional = list_value
       (case environment ''KEYZORI_ADMIN_API_KEYS'' of None \<Rightarrow> [] | Some v \<Rightarrow> v) in
     bindR (booleanValue environment ''KEYZORI_TRUST_PROXY_HEADERS'' False) (\<lambda>trust.
     bindR (check_admin_keys (adminApiKey # additional)) (\<lambda>_.
     bindR (integerValue environment ''KEYZORI_SERVER_PORT'' 3000 1 65535) (\<lambda>port.
     bindR (stripe_settings environment) (\<lambda>stripe.
     bindR (serviceUrl protocol environment ''KEYZORI_DATABASE_URL'' [''postgres:'', ''postgresql:'']) (\<lambda>databaseUrl.
     bindR (serviceUrl protocol environment ''KEYZORI_REDIS_URL'' [''redis:'', ''rediss:'']) (\<lambda>redisUrl.
     bindR (trustedProxyCidrs h environment trust) (\<lambda>cidrs.
     bindR (parseTrustedProxyHeaderMode environment) (\<lambda>header.
     bindR (booleanValue environment ''KEYZORI_OPENAPI_ENABLED'' True) (\<lambda>openapi.
     bindR (integerValue environment ''KEYZORI_RATE_LIMIT_PER_MINUTE'' 60 1 100000) (\<lambda>rate.
     bindR (integerValue environment ''KEYZORI_LICENSE_RATE_LIMIT_PER_MINUTE'' 30 1 100000) (\<lambda>license_rate.
     bindR (integerValue environment ''KEYZORI_RATE_LIMIT_PER_IP_PER_MINUTE'' 6000 1 1000000) (\<lambda>ip_rate.
     bindR (integerValue environment ''KEYZORI_MAX_REQUEST_BODY_BYTES'' 65536 1024 10485760) (\<lambda>body.
     bindR (integerValue environment ''KEYZORI_EVENT_RETENTION_DAYS'' 30 1 365) (\<lambda>days.
     Inr \<lparr>sv_databaseUrl = databaseUrl, sv_redisUrl = redisUrl, sv_adminApiKey = adminApiKey,
       sv_additionalAdminApiKeys = additional, sv_host = host, sv_port = port,
       sv_trustProxyHeaders = trust, sv_trustedProxyCidrs = cidrs, sv_trustedProxyHeader = header,
       sv_openapiEnabled = openapi, sv_rateLimitPerMinute = rate,
       sv_licenseRateLimitPerMinute = license_rate, sv_rateLimitPerIpPerMinute = ip_rate,
       sv_maxRequestBodyBytes = body, sv_stripe = stripe,
       sv_eventRetentionDays = days\<rparr>))))))))))))))))"

text \<open>
  \<open>runtimeConfig\<close> of \<open>index.ts\<close>: the settings of the plug-ins, from the configuration or, when
  a caller gives none, straight from the environment.
\<close>

record runtime_settings =
  rs_clientIpOptions :: client_ip_options
  rs_adminRequestsPerMinute :: jsnum
  rs_licenseRequestsPerMinute :: jsnum
  rs_ipRequestsPerMinute :: jsnum

definition env_number :: "environment \<Rightarrow> string \<Rightarrow> int \<Rightarrow> jsnum" where
  "env_number environment name d =
    (case environment name of None \<Rightarrow> Integral d | Some v \<Rightarrow> Number v)"

definition env_header :: "environment \<Rightarrow> proxy_header" where
  "env_header environment =
    (let value = environment ''KEYZORI_TRUSTED_PROXY_HEADER'' in
     if value = Some ''cf-connecting-ip'' then Cf_connecting_ip
     else if value = Some ''x-real-ip'' then X_real_ip
     else if value = Some ''*'' then Any_header else X_forwarded_for)"

definition runtimeConfig :: "server_config option \<Rightarrow> environment \<Rightarrow> runtime_settings" where
  "runtimeConfig config environment =
    (case config of
      Some c \<Rightarrow>
        \<lparr>rs_clientIpOptions =
           \<lparr>co_trustProxyHeaders = sv_trustProxyHeaders c,
            co_trustedProxyCidrs = sv_trustedProxyCidrs c,
            co_trustedProxyHeader = Some (sv_trustedProxyHeader c)\<rparr>,
         rs_adminRequestsPerMinute = Integral (sv_rateLimitPerMinute c),
         rs_licenseRequestsPerMinute = Integral (sv_licenseRateLimitPerMinute c),
         rs_ipRequestsPerMinute = Integral (sv_rateLimitPerIpPerMinute c)\<rparr>
    | None \<Rightarrow>
        \<lparr>rs_clientIpOptions =
           \<lparr>co_trustProxyHeaders = (environment ''KEYZORI_TRUST_PROXY_HEADERS'' = Some ''true''),
            co_trustedProxyCidrs = list_value
              (case environment ''KEYZORI_TRUSTED_PROXY_CIDRS'' of None \<Rightarrow> [] | Some v \<Rightarrow> v),
            co_trustedProxyHeader = Some (env_header environment)\<rparr>,
         rs_adminRequestsPerMinute = env_number environment ''KEYZORI_RATE_LIMIT_PER_MINUTE'' 60,
         rs_licenseRequestsPerMinute =
           env_number environment ''KEYZORI_LICENSE_RATE_LIMIT_PER_MINUTE'' 30,
         rs_ipRequestsPerMinute =
           env_number environment ''KEYZORI_RATE_LIMIT_PER_IP_PER_MINUTE'' 6000\<rparr>)"

section \<open>What each reader accepts\<close>

lemma required_Inr_iff:
  "required environment name = Inr v \<longleftrightarrow> trimmed_or environment name [] = v \<and> v \<noteq> []"
  by (auto simp: required_def Let_def)

lemma trim_Nil [simp]: "trim [] = []"
  by (simp add: trim_def)

lemma trimmed_or_stable: "trim d = d \<Longrightarrow> trim (trimmed_or environment name d) = trimmed_or environment name d"
  by (auto simp: trimmed_or_def split: option.splits)

lemma integerValue_bounds:
  "integerValue environment name fallback lo hi = Inr v \<Longrightarrow> lo \<le> fallback \<Longrightarrow> fallback \<le> hi \<Longrightarrow>
    lo \<le> v \<and> v \<le> hi"
  by (auto simp: integerValue_def split: option.splits if_splits jsnum.splits)

lemma integerValue_set:
  assumes "environment name = Some (show_nat n)" "lo \<le> int n" "int n \<le> hi" "hi \<le> MAX_SAFE_INTEGER"
  shows "integerValue environment name fallback lo hi = Inr (int n)"
  using assms by (simp add: integerValue_def Number_show_nat)

lemma serviceUrl_Inr:
  "serviceUrl protocol environment name ps = Inr v \<Longrightarrow>
    v \<noteq> [] \<and> trim v = v \<and> (\<exists>p \<in> set ps. protocol v = Some p)"
  by (auto simp: serviceUrl_def required_Inr_iff trimmed_or_stable split: option.splits if_splits)

lemma check_cidrs_Inr_iff:
  "check_cidrs h vs = Inr u \<longleftrightarrow> (\<forall>v \<in> set vs. v \<noteq> ''*'' \<and> valid_cidr h v)"
  by (induction vs) auto

lemma stripe_settings_Inr:
  "stripe_settings environment = Inr (Some s) \<Longrightarrow>
    16 \<le> length (sc_secretKey s) \<and> \<not> placeholder_stripe_key (sc_secretKey s) \<and>
    16 \<le> length (sc_webhookSecret s) \<and> starts_with ''whsec_'' (sc_webhookSecret s)"
  by (auto simp: stripe_settings_def Let_def split: if_splits)

lemma check_admin_keys_Inr_iff:
  "check_admin_keys keys = Inr u \<longleftrightarrow> (\<forall>k \<in> set keys. 32 \<le> length k \<and> \<not> placeholder_key k)"
  by (auto simp: check_admin_keys_def list_ex_iff not_less)

text \<open>A network that the configuration accepts, with a prefix, is a subnet of the resolver.\<close>

lemma valid_cidr_subnet:
  assumes "valid_cidr h value" "value \<noteq> ''*''"
  obtains address prefixText where "split_on (CHR ''/'') value = [address, prefixText]"
    "h_isIP h address \<noteq> 0"
    "\<exists>n. Number prefixText = Integral n \<and> 0 \<le> n \<and> n \<le> (if h_isIP h address = 4 then 32 else 128)"
    "prefixText \<noteq> [] \<longrightarrow> subnet_of h value = Some (address, prefixText, h_isIP h address)"
proof -
  define parts where "parts = split_on (CHR ''/'') value"
  have v: "length parts \<le> 2" "hd parts \<noteq> []" "h_isIP h (hd parts) \<noteq> 0"
    and n: "\<exists>n. prefix_number parts = Integral n \<and> 0 \<le> n \<and>
      n \<le> (if h_isIP h (hd parts) = 4 then 32 else 128)"
    using assms(1) by (auto simp: valid_cidr_def Let_def parts_def split: jsnum.splits if_splits)
  from n have "\<exists>a p r. parts = a # p # r"
    by (auto simp: prefix_number_def split: list.splits)
  with v(1) obtain a p where ap: "parts = [a, p]" by auto
  show thesis
  proof (rule that[of a p])
    show "split_on (CHR ''/'') value = [a, p]" using ap by (simp add: parts_def)
    then show "p \<noteq> [] \<longrightarrow> subnet_of h value = Some (a, p, h_isIP h a)"
      using v ap assms(2) by (auto simp: subnet_of_def)
  qed (use v n ap in \<open>auto simp: prefix_number_def\<close>)
qed

lemma trustedProxyCidrs_Inr:
  "trustedProxyCidrs h environment enabled = Inr vs \<Longrightarrow>
    vs = [''*''] \<or> (\<forall>v \<in> set vs. v \<noteq> ''*'' \<and> valid_cidr h v) \<and> (enabled \<longrightarrow> vs \<noteq> [])"
  by (auto simp: trustedProxyCidrs_def Let_def check_cidrs_Inr_iff split: if_splits)

lemma set_map_filter_Some: "set (List.map_filter f xs) = {y. \<exists>x \<in> set xs. f x = Some y}"
  by (induction xs) (auto simp: List.map_filter_simps split: option.splits)

text \<open>An accepted configuration is what its readers returned.\<close>

lemma loadServerConfig_parts:
  assumes "loadServerConfig h protocol environment = Inr c"
  shows
    "required environment ''KEYZORI_ADMIN_API_KEY'' = Inr (sv_adminApiKey c)"
    "\<exists>u. check_admin_keys (sv_adminApiKey c # sv_additionalAdminApiKeys c) = Inr u"
    "integerValue environment ''KEYZORI_SERVER_PORT'' 3000 1 65535 = Inr (sv_port c)"
    "stripe_settings environment = Inr (sv_stripe c)"
    "serviceUrl protocol environment ''KEYZORI_DATABASE_URL'' [''postgres:'', ''postgresql:''] =
      Inr (sv_databaseUrl c)"
    "serviceUrl protocol environment ''KEYZORI_REDIS_URL'' [''redis:'', ''rediss:''] =
      Inr (sv_redisUrl c)"
    "trustedProxyCidrs h environment (sv_trustProxyHeaders c) = Inr (sv_trustedProxyCidrs c)"
    "integerValue environment ''KEYZORI_RATE_LIMIT_PER_MINUTE'' 60 1 100000 =
      Inr (sv_rateLimitPerMinute c)"
    "integerValue environment ''KEYZORI_LICENSE_RATE_LIMIT_PER_MINUTE'' 30 1 100000 =
      Inr (sv_licenseRateLimitPerMinute c)"
    "integerValue environment ''KEYZORI_RATE_LIMIT_PER_IP_PER_MINUTE'' 6000 1 1000000 =
      Inr (sv_rateLimitPerIpPerMinute c)"
    "integerValue environment ''KEYZORI_MAX_REQUEST_BODY_BYTES'' 65536 1024 10485760 =
      Inr (sv_maxRequestBodyBytes c)"
    "integerValue environment ''KEYZORI_EVENT_RETENTION_DAYS'' 30 1 365 =
      Inr (sv_eventRetentionDays c)"
  using assms by (auto simp only: loadServerConfig_def Let_def bindR_Inr_iff sum.inject
      server_config.simps)

section \<open>Accepted configurations\<close>

text \<open>
  A server that starts has sane settings. Whatever the environment, when
  \<open>loadServerConfig\<close> returns, every number lies in its documented range, no operator key is
  shorter than 32 characters or a placeholder, the URLs name the right service, Stripe is either
  off or has two well-formed secrets, and proxy headers are trusted only with at least one proxy
  network configured.
\<close>

theorem accepted_config_is_sane:
  assumes "loadServerConfig h protocol environment = Inr c"
  shows "1 \<le> sv_port c \<and> sv_port c \<le> 65535 \<and>
    1 \<le> sv_rateLimitPerMinute c \<and> sv_rateLimitPerMinute c \<le> 100000 \<and>
    1 \<le> sv_licenseRateLimitPerMinute c \<and> sv_licenseRateLimitPerMinute c \<le> 100000 \<and>
    1 \<le> sv_rateLimitPerIpPerMinute c \<and> sv_rateLimitPerIpPerMinute c \<le> 1000000 \<and>
    1024 \<le> sv_maxRequestBodyBytes c \<and> sv_maxRequestBodyBytes c \<le> 10485760 \<and>
    1 \<le> sv_eventRetentionDays c \<and> sv_eventRetentionDays c \<le> 365 \<and>
    (\<forall>k \<in> set (sv_adminApiKey c # sv_additionalAdminApiKeys c).
      32 \<le> length k \<and> \<not> placeholder_key k) \<and>
    protocol (sv_databaseUrl c) \<in> {Some ''postgres:'', Some ''postgresql:''} \<and>
    protocol (sv_redisUrl c) \<in> {Some ''redis:'', Some ''rediss:''} \<and>
    (\<forall>s. sv_stripe c = Some s \<longrightarrow> 16 \<le> length (sc_secretKey s) \<and>
      16 \<le> length (sc_webhookSecret s) \<and> starts_with ''whsec_'' (sc_webhookSecret s)) \<and>
    (sv_trustProxyHeaders c \<longrightarrow> sv_trustedProxyCidrs c \<noteq> [])"
proof -
  note p = loadServerConfig_parts[OF assms]
  note bounds = p(3,8-12)[THEN integerValue_bounds]
  note urls = p(5,6)[THEN serviceUrl_Inr]
  have "sv_trustProxyHeaders c \<longrightarrow> sv_trustedProxyCidrs c \<noteq> []"
    using trustedProxyCidrs_Inr[OF p(7)] by auto
  moreover have "\<forall>s. sv_stripe c = Some s \<longrightarrow> 16 \<le> length (sc_secretKey s) \<and>
      16 \<le> length (sc_webhookSecret s) \<and> starts_with ''whsec_'' (sc_webhookSecret s)"
    using p(4) stripe_settings_Inr by metis
  moreover have "\<forall>k \<in> set (sv_adminApiKey c # sv_additionalAdminApiKeys c).
      32 \<le> length k \<and> \<not> placeholder_key k"
    using p(2) check_admin_keys_Inr_iff by blast
  ultimately show ?thesis using bounds urls by (simp del: set_simps) auto
qed

text \<open>The platform of the witnesses: two addresses, and the protocol up to the colon.\<close>

definition plain_host :: host where
  "plain_host = \<lparr>h_isIP = (\<lambda>s. if s = ''10.0.0.0'' then 4 else if s = ''fd00::'' then 6 else 0),
    h_urlHostname = (\<lambda>_. None), h_inSubnets = (\<lambda>_ _ _. False)\<rparr>"

definition plain_protocol :: "string \<Rightarrow> string option" where
  "plain_protocol s = (if CHR '':'' \<in> set s then Some (takeWhile (\<lambda>c. c \<noteq> CHR '':'') s @ '':'') else None)"

definition plain_environment :: environment where
  "plain_environment = map_of
    [(''KEYZORI_DATABASE_URL'', ''postgres://db''), (''KEYZORI_REDIS_URL'', ''redis://cache''),
     (''KEYZORI_ADMIN_API_KEY'', '' 0123456789abcdef0123456789abcdef ''),
     (''KEYZORI_TRUST_PROXY_HEADERS'', ''true''),
     (''KEYZORI_TRUSTED_PROXY_CIDRS'', ''10.0.0.0/8, fd00::/8''),
     (''KEYZORI_SERVER_PORT'', ''8080'')]"

definition plain_config :: server_config where
  "plain_config =
    \<lparr>sv_databaseUrl = ''postgres://db'', sv_redisUrl = ''redis://cache'',
     sv_adminApiKey = ''0123456789abcdef0123456789abcdef'', sv_additionalAdminApiKeys = [],
     sv_host = ''0.0.0.0'', sv_port = 8080, sv_trustProxyHeaders = True,
     sv_trustedProxyCidrs = [''10.0.0.0/8'', ''fd00::/8''], sv_trustedProxyHeader = X_forwarded_for,
     sv_openapiEnabled = True, sv_rateLimitPerMinute = 60, sv_licenseRateLimitPerMinute = 30,
     sv_rateLimitPerIpPerMinute = 6000, sv_maxRequestBodyBytes = 65536, sv_stripe = None,
     sv_eventRetentionDays = 30\<rparr>"

lemma small_numbers: "Number ''8'' = Integral 8" "Number ''8080'' = Integral 8080" "Number [] = Integral 0"
  using Number_digits_value[of "''8''"] Number_digits_value[of "''8080''"]
  by (simp_all add: digits_val_def digit_val_def is_digit_def MAX_SAFE_INTEGER_def Number_def)

lemma slash_parts:
  "split_on (CHR ''/'') ''10.0.0.0/8'' = [''10.0.0.0'', ''8'']"
  "split_on (CHR ''/'') ''fd00::/8'' = [''fd00::'', ''8'']"
  "split_on (CHR ''/'') ''10.0.0.0/'' = [''10.0.0.0'', []]"
  by code_simp+

lemma plain_cidrs:
  "valid_cidr plain_host ''10.0.0.0/8''" "valid_cidr plain_host ''fd00::/8''"
  "valid_cidr plain_host ''10.0.0.0/''"
  by (simp_all add: valid_cidr_def slash_parts prefix_number_def small_numbers plain_host_def)

lemma plain_lists:
  "list_value ''10.0.0.0/8, fd00::/8'' = [''10.0.0.0/8'', ''fd00::/8'']"
  "list_value ''10.0.0.0/'' = [''10.0.0.0/'']" "list_value [] = []"
  "trimmed_or plain_environment ''KEYZORI_TRUSTED_PROXY_CIDRS'' [] = ''10.0.0.0/8, fd00::/8''"
  "trimmed_or plain_environment ''KEYZORI_SERVER_HOST'' ''0.0.0.0'' = ''0.0.0.0''"
  "plain_environment ''KEYZORI_ADMIN_API_KEYS'' = None"
  by code_simp+

lemma plain_readers:
  "required plain_environment ''KEYZORI_ADMIN_API_KEY'' = Inr ''0123456789abcdef0123456789abcdef''"
  "booleanValue plain_environment ''KEYZORI_TRUST_PROXY_HEADERS'' False = Inr True"
  "booleanValue plain_environment ''KEYZORI_OPENAPI_ENABLED'' True = Inr True"
  "check_admin_keys [''0123456789abcdef0123456789abcdef''] = Inr ()"
  "stripe_settings plain_environment = Inr None"
  "serviceUrl plain_protocol plain_environment ''KEYZORI_DATABASE_URL'' [''postgres:'', ''postgresql:''] =
    Inr ''postgres://db''"
  "serviceUrl plain_protocol plain_environment ''KEYZORI_REDIS_URL'' [''redis:'', ''rediss:''] =
    Inr ''redis://cache''"
  "parseTrustedProxyHeaderMode plain_environment = Inr X_forwarded_for"
  by code_simp+

lemma plain_numbers:
  "integerValue plain_environment ''KEYZORI_SERVER_PORT'' 3000 1 65535 = Inr 8080"
  "integerValue plain_environment ''KEYZORI_RATE_LIMIT_PER_MINUTE'' 60 1 100000 = Inr 60"
  "integerValue plain_environment ''KEYZORI_LICENSE_RATE_LIMIT_PER_MINUTE'' 30 1 100000 = Inr 30"
  "integerValue plain_environment ''KEYZORI_RATE_LIMIT_PER_IP_PER_MINUTE'' 6000 1 1000000 = Inr 6000"
  "integerValue plain_environment ''KEYZORI_MAX_REQUEST_BODY_BYTES'' 65536 1024 10485760 = Inr 65536"
  "integerValue plain_environment ''KEYZORI_EVENT_RETENTION_DAYS'' 30 1 365 = Inr 30"
  by (simp_all add: integerValue_def plain_environment_def small_numbers)

lemma plain_networks:
  "trustedProxyCidrs plain_host plain_environment True = Inr [''10.0.0.0/8'', ''fd00::/8'']"
  by (simp add: trustedProxyCidrs_def plain_lists plain_cidrs)

lemma plain_run: "loadServerConfig plain_host plain_protocol plain_environment = Inr plain_config"
  by (simp add: loadServerConfig_def plain_config_def plain_readers plain_numbers plain_networks
      plain_lists)

theorem accepted_config_is_sane_witness:
  "1 \<le> sv_port plain_config \<and> sv_port plain_config \<le> 65535 \<and>
    sv_trustedProxyCidrs plain_config \<noteq> []"
  using accepted_config_is_sane[OF plain_run] by (simp add: plain_config_def)

text \<open>
  C30: the proxies an operator configures are the proxies the resolver trusts. With an accepted
  configuration the resolver trusts every proxy exactly when the setting is the lone star;
  otherwise every listed network is an address and a prefix length that fits its family, and the
  resolver gets each of them as a subnet, unless nothing follows the slash.
\<close>

theorem configured_proxies_are_trusted:
  assumes "loadServerConfig h protocol environment = Inr c"
    and "cidr \<in> set (sv_trustedProxyCidrs c)"
  defines "r \<equiv> ClientIpResolver h (rs_clientIpOptions (runtimeConfig (Some c) environment))"
  shows "cr_trustHeaders r = sv_trustProxyHeaders c \<and> cr_header r = sv_trustedProxyHeader c \<and>
    (cr_trustAll r \<longleftrightarrow> sv_trustedProxyCidrs c = [''*'']) \<and>
    (\<not> cr_trustAll r \<longrightarrow>
      (\<exists>address prefixText n. split_on (CHR ''/'') cidr = [address, prefixText] \<and>
        Number prefixText = Integral n \<and> 0 \<le> n \<and> n \<le> (if h_isIP h address = 4 then 32 else 128) \<and>
        (prefixText \<noteq> [] \<longrightarrow> (address, prefixText, h_isIP h address) \<in> set (cr_trusted r))))"
proof -
  note vs = trustedProxyCidrs_Inr[OF loadServerConfig_parts(7)[OF assms(1)]]
  have all: "cr_trustAll r \<longleftrightarrow> sv_trustedProxyCidrs c = [''*'']"
    using vs by (auto simp: r_def ClientIpResolver_def runtimeConfig_def)
  have "\<exists>address prefixText n. split_on (CHR ''/'') cidr = [address, prefixText] \<and>
        Number prefixText = Integral n \<and> 0 \<le> n \<and> n \<le> (if h_isIP h address = 4 then 32 else 128) \<and>
        (prefixText \<noteq> [] \<longrightarrow> (address, prefixText, h_isIP h address) \<in> set (cr_trusted r))"
    if "\<not> cr_trustAll r"
  proof -
    have "valid_cidr h cidr" "cidr \<noteq> ''*''" using vs assms(2) all that by auto
    then obtain a p where ap: "split_on (CHR ''/'') cidr = [a, p]"
      "\<exists>n. Number p = Integral n \<and> 0 \<le> n \<and> n \<le> (if h_isIP h a = 4 then 32 else 128)"
      "p \<noteq> [] \<longrightarrow> subnet_of h cidr = Some (a, p, h_isIP h a)"
      by (rule valid_cidr_subnet)
    have "set (cr_trusted r) =
        {x. \<exists>v \<in> set (sv_trustedProxyCidrs c). subnet_of h v = Some x}"
      by (simp add: r_def ClientIpResolver_def runtimeConfig_def set_map_filter_Some)
    with ap assms(2) show ?thesis by (intro exI[of _ a] exI[of _ p]) auto
  qed
  with all show ?thesis by (simp add: r_def ClientIpResolver_def runtimeConfig_def)
qed

theorem configured_proxies_are_trusted_witness:
  "(''10.0.0.0'', ''8'', 4) \<in> set (cr_trusted (ClientIpResolver plain_host (rs_clientIpOptions (runtimeConfig (Some plain_config) plain_environment))))"
proof -
  have "''10.0.0.0/8'' \<in> set (sv_trustedProxyCidrs plain_config)" by (simp add: plain_config_def)
  note t = configured_proxies_are_trusted[OF plain_run this]
  have "\<not> cr_trustAll (ClientIpResolver plain_host (rs_clientIpOptions (runtimeConfig (Some plain_config) plain_environment)))"
    "h_isIP plain_host ''10.0.0.0'' = 4" by code_simp+
  then show ?thesis using t slash_parts by auto
qed

text \<open>
  The exception is real: \<open>Number\<close> of the empty text is 0, so a network with nothing behind the
  slash passes the configuration, and the resolver then leaves it out without a word.
\<close>

lemma empty_prefix_is_dropped:
  "trustedProxyCidrs plain_host [''KEYZORI_TRUSTED_PROXY_CIDRS'' \<mapsto> ''10.0.0.0/''] True =
     Inr [''10.0.0.0/''] \<and>
   subnet_of plain_host ''10.0.0.0/'' = None"
proof -
  have "trimmed_or [''KEYZORI_TRUSTED_PROXY_CIDRS'' \<mapsto> ''10.0.0.0/''] ''KEYZORI_TRUSTED_PROXY_CIDRS'' [] =
    ''10.0.0.0/''" by code_simp
  then show ?thesis
    by (simp add: trustedProxyCidrs_def plain_lists plain_cidrs subnet_of_def slash_parts)
qed

end
