(* ===== verification/Composition.thy ===== *)
theory Composition
  imports Config ServerInvariant
begin

text \<open>
  \<open>composition/services.ts\<close>: the services over their repositories. Of the repositories only the
  access repository has a setting, the retention of the activity its summaries look at, which its
  constructor checks. The server composes the services from its configuration; the command line
  reads the variable of the environment itself. The theory shows where the two readings differ.
\<close>

definition orThrow :: "string + 'a \<Rightarrow> 'a io" where
  "orThrow v = (case v of Inl message \<Rightarrow> throwIO (Plain_error message) | Inr x \<Rightarrow> returnIO x)"

lemma orThrow_Inr_iff: "orThrow v env w = (Inr x, w') \<longleftrightarrow> v = Inr x \<and> w' = w"
  by (auto simp: orThrow_def split: sum.split)

lemma keeps_db_orThrow [keeps_db_rules]: "keeps_db I (orThrow v)"
  unfolding orThrow_def by (cases v) (auto intro: keeps_db_rules)

definition access_retention :: "jsnum \<Rightarrow> string + int" where
  "access_retention retentionDays =
    (let e = Inl ''Access activity retention days must be positive.'' in
     case retentionDays of
       Integral n \<Rightarrow> if n < 1 then e else Inr n
     | _ \<Rightarrow> e)"

definition createServiceGraph :: "host \<Rightarrow> jsnum \<Rightarrow> string + admin" where
  "createServiceGraph h activityRetentionDays =
    bindR (access_retention activityRetentionDays) (\<lambda>days.
    Inr \<lparr>ad_host = h, ad_retentionDays = days, ad_stripe = True\<rparr>)"

definition connectRedis :: "unit io" where
  "connectRedis = redis_call (\<lambda>env k r. (Inr (), r))"

definition createConnectedAdminService :: "host \<Rightarrow> environment \<Rightarrow> admin io" where
  "createConnectedAdminService h environment =
    bindIO connectRedis (\<lambda>_.
    orThrow (createServiceGraph h (env_number environment ''KEYZORI_EVENT_RETENTION_DAYS'' 30)))"

lemma keeps_db_connected [keeps_db_rules]: "keeps_db I (createConnectedAdminService h environment)"
  unfolding createConnectedAdminService_def connectRedis_def by (intro keeps_db_rules)

text \<open>An accepted configuration always composes.\<close>

lemma createServiceGraph_Inr_iff:
  "createServiceGraph h (Integral n) = Inr ad \<longleftrightarrow>
    1 \<le> n \<and> ad = \<lparr>ad_host = h, ad_retentionDays = n, ad_stripe = True\<rparr>"
  by (auto simp: createServiceGraph_def access_retention_def Let_def)

lemma accepted_config_composes:
  assumes "loadServerConfig h protocol environment = Inr config"
  shows "createServiceGraph h (Integral (sv_eventRetentionDays config)) =
    Inr \<lparr>ad_host = h, ad_retentionDays = sv_eventRetentionDays config, ad_stripe = True\<rparr>"
  using loadServerConfig_parts(12)[OF assms, THEN integerValue_bounds]
  by (simp add: createServiceGraph_Inr_iff)

text \<open>
  A variable that is set to the empty text counts as unset for the server, and makes every command
  of the command line fail.
\<close>

lemma empty_retention_differs:
  assumes "environment ''KEYZORI_EVENT_RETENTION_DAYS'' = Some []"
  shows "integerValue environment ''KEYZORI_EVENT_RETENTION_DAYS'' 30 1 365 = Inr 30"
    "createServiceGraph h (env_number environment ''KEYZORI_EVENT_RETENTION_DAYS'' 30) =
      Inl ''Access activity retention days must be positive.''"
proof -
  have "Number [] = Integral 0" by code_simp
  with assms show "createServiceGraph h (env_number environment ''KEYZORI_EVENT_RETENTION_DAYS'' 30) =
      Inl ''Access activity retention days must be positive.''"
    by (simp add: createServiceGraph_def access_retention_def env_number_def)
  show "integerValue environment ''KEYZORI_EVENT_RETENTION_DAYS'' 30 1 365 = Inr 30"
    using assms by (simp add: integerValue_def)
qed

end
