(* ===== verification/ServerRuntime.thy ===== *)
theory ServerRuntime
  imports AdminRoutes Composition
begin

text \<open>
  \<open>index.ts\<close>: the server as it is put together and as it runs. \<open>createServerRuntime\<close> makes the
  settings of all plug-ins out of one configuration; \<open>server_serve\<close> is the whole server on one
  request: the resolver finds the client's address, and the path selects liveness, readiness, the
  client's protocol, the Stripe webhook or the administration. \<open>startServer\<close> and \<open>process_step\<close> are
  the life of the process from its start to the end of a shutdown.

  \<open>new StripeGateway\<close> is the parameter \<open>connect\<close>. A path without a route is left to the framework
  (\<open>None\<close>), and so are the API documentation and the headers that \<open>onAfterHandle\<close> adds.
\<close>

section \<open>Putting the server together\<close>

record runtime =
  rt_resolver :: resolver
  rt_license :: license_options
  rt_admin :: admin_options
  rt_gateway :: "gateway option"

definition ceiling_of :: "jsnum \<Rightarrow> int" where
  "ceiling_of v = (case v of Integral n \<Rightarrow> n | _ \<Rightarrow> 0)"

definition createServerRuntime ::
    "host \<Rightarrow> (stripe_config \<Rightarrow> gateway) \<Rightarrow> environment \<Rightarrow> server_config \<Rightarrow> string + runtime" where
  "createServerRuntime h connect environment config =
    (let settings = runtimeConfig (Some config) environment;
         gw = map_option connect (sv_stripe config) in
     bindR (createServiceGraph h (Integral (sv_eventRetentionDays config))) (\<lambda>ad.
     Inr \<lparr>rt_resolver = ClientIpResolver h (rs_clientIpOptions settings),
       rt_license = \<lparr>lo_requestsPerIp = ceiling_of (rs_ipRequestsPerMinute settings),
         lo_requestsPerMinute = Some (ceiling_of (rs_licenseRequestsPerMinute settings))\<rparr>,
       rt_admin = \<lparr>ao_admin = ad, ao_keys = sv_adminApiKey config # sv_additionalAdminApiKeys config,
         ao_requestsPerIp = ceiling_of (rs_ipRequestsPerMinute settings),
         ao_requestsPerMinute = Some (ceiling_of (rs_adminRequestsPerMinute settings)),
         ao_stripe = gw\<rparr>,
       rt_gateway = gw\<rparr>))"

section \<open>Serving\<close>

record http_request =
  hq_method :: http_method
  hq_path :: "string list"
  hq_query :: json_object
  hq_body :: "json option"
  hq_payload :: string
  hq_key :: "string option"
  hq_signature :: "string option"
  hq_peer :: "string option"
  hq_headers :: request_headers

definition status_body :: "string \<Rightarrow> json" where
  "status_body s = JObj [(''status'', JStr s)]"

definition health :: "http_reply io" where
  "health = returnIO (reply 200 (status_body ''ok''))"

definition ping_both :: "unit io" where
  "ping_both = bindIO (db_read (\<lambda>_ _. ())) (\<lambda>_. redis_call (\<lambda>env k r. (Inr (), r)))"

definition ready :: "http_reply io" where
  "ready = catchIO (bindIO ping_both (\<lambda>_. returnIO (reply 200 (status_body ''ready''))))
    (\<lambda>_. returnIO (reply 503 (status_body ''unavailable'')))"

definition webhook_reply :: "webhook_response \<Rightarrow> http_reply" where
  "webhook_reply r = reply (hr_status r) (JObj (hr_body r))"

definition webhook_route :: "runtime \<Rightarrow> gateway \<Rightarrow> string option \<Rightarrow> string \<Rightarrow> string \<Rightarrow> http_reply io" where
  "webhook_route rt gw signature payload ip =
    catchIO
      (unless_limited (limit_key (''ratelimit:ip:'' @ ip) (lo_requestsPerIp (rt_license rt)))
        (bindIO (stripe_webhook gw signature payload) (\<lambda>r. returnIO (webhook_reply r))))
      (\<lambda>e. returnIO (failure_reply e))"

definition license_endpoint_at :: "string \<Rightarrow> license_endpoint option" where
  "license_endpoint_at path =
    List.find (\<lambda>ep. endpoint_path ep = path) [Ep_activate, Ep_heartbeat, Ep_usage, Ep_deactivate]"

definition license_reply :: "formats \<Rightarrow> runtime \<Rightarrow> license_endpoint \<Rightarrow> json option \<Rightarrow> string \<Rightarrow> http_reply io" where
  "license_reply fm rt ep body ip =
    (case body of None \<Rightarrow> returnIO invalid_request | Some v \<Rightarrow> license_route fm (rt_license rt) ep v ip)"

definition admin_request_of :: "http_request \<Rightarrow> string list \<Rightarrow> string \<Rightarrow> admin_request" where
  "admin_request_of rq path ip = \<lparr>rq_method = hq_method rq, rq_path = path, rq_query = hq_query rq,
    rq_body = hq_body rq, rq_key = hq_key rq, rq_ip = ip\<rparr>"

definition admin_reply :: "formats \<Rightarrow> runtime \<Rightarrow> admin_request \<Rightarrow> http_reply io option" where
  "admin_reply fm rt rq =
    map_option (\<lambda>(ep, ps). admin_serve fm (rt_admin rt) ep ps rq) (find_route (rt_admin rt) rq)"

definition server_serve :: "host \<Rightarrow> formats \<Rightarrow> runtime \<Rightarrow> http_request \<Rightarrow> http_reply io option" where
  "server_serve h fm rt rq =
    (let ip = resolve h (rt_resolver rt) (hq_peer rq) (hq_headers rq); verb = hq_method rq in
     case hq_path rq of
       [] \<Rightarrow> None
     | first # path \<Rightarrow>
         if first = ''admin'' then admin_reply fm rt (admin_request_of rq path ip)
         else if verb = GET \<and> hq_path rq = [''health''] then Some health
         else if verb = GET \<and> hq_path rq = [''ready''] then Some ready
         else if verb = POST \<and> hq_path rq = [''webhooks'', ''stripe''] then
           map_option (\<lambda>gw. webhook_route rt gw (hq_signature rq) (hq_payload rq) ip) (rt_gateway rt)
         else if verb = POST \<and> first = ''v1'' then
           map_option (\<lambda>ep. license_reply fm rt ep (hq_body rq) ip)
             (license_endpoint_at (''/v1/'' @ join (CHR ''/'') path))
         else None)"

section \<open>The health check\<close>

definition healthcheck_url :: "environment \<Rightarrow> string" where
  "healthcheck_url environment = ''http://127.0.0.1:'' @
    (case environment ''KEYZORI_SERVER_PORT'' of None \<Rightarrow> ''3000'' | Some port \<Rightarrow> port) @ ''/ready''"

text \<open>The exit code, from what \<open>fetch\<close> gives (\<open>None\<close> when it throws or the time is up).\<close>

definition runHealthcheck :: "http_reply option \<Rightarrow> int" where
  "runHealthcheck response =
    (case response of
      None \<Rightarrow> 1
    | Some r \<Rightarrow> if 200 \<le> hp_status r \<and> hp_status r \<le> 299 then 0 else 1)"

section \<open>The commands of the binary\<close>

datatype main_action = Serve | Administer "string list" | Check_health

fun main_command :: "(string \<Rightarrow> string) \<Rightarrow> string list \<Rightarrow> string + main_action" where
  "main_command quote [] = Inr Serve"
| "main_command quote (command # args) =
    (if command = ''serve'' then Inr Serve
     else if command = ''admin'' then Inr (Administer args)
     else if command = ''healthcheck'' then Inr Check_health
     else Inl (''Unknown command '' @ quote command @ ''. Use serve, admin, or healthcheck.''))"

section \<open>The life of the process\<close>

text \<open>
  A process that has started holds its connections, a timer for the retention and a worker, listens,
  and has a listener for each of two signals. \<open>process.once\<close> takes a listener away when it fires; a
  signal without a listener has its default action, which ends the process. A listener calls
  \<open>shutdown\<close>: the part before its first \<open>await\<close> runs at once (\<open>shutdown_begin\<close>), and what is left is one
  more task of the process, in \<open>pr_shutdowns\<close> the promise it waits for. \<open>pr_redisCloses\<close> and
  \<open>pr_databaseCloses\<close> count the calls of \<open>close\<close>. That \<open>app.stop()\<close> or \<open>close\<close> is rejected is not modelled.
\<close>

datatype signal = SIGINT | SIGTERM

datatype shutdown_stage = Stopping_app | Closing_database

record process =
  pr_alive :: bool
  pr_listeners :: "signal set"
  pr_listening :: bool
  pr_pruneTimer :: bool
  pr_worker :: "worker option"
  pr_redis :: bool
  pr_database :: bool
  pr_redisCloses :: nat
  pr_databaseCloses :: nat
  pr_shuttingDown :: bool
  pr_shutdowns :: "shutdown_stage list"

text \<open>
  \<open>places\<close> are the three directories \<open>node:path\<close> resolves, \<open>existing\<close> is \<open>existsSync\<close> and \<open>migrate\<close> runs the
  migrations of a directory.
\<close>

definition findMigrationsFolder ::
    "(string \<Rightarrow> bool) \<Rightarrow> string list \<Rightarrow> environment \<Rightarrow> string + string" where
  "findMigrationsFolder existing places environment =
    (let candidates = filter (\<lambda>c. c \<noteq> [])
       ((case environment ''KEYZORI_DRIZZLE_MIGRATIONS_PATH'' of None \<Rightarrow> [] | Some c \<Rightarrow> [c]) @ places) in
     case List.find existing candidates of
       None \<Rightarrow> Inl (''Drizzle migrations folder was not found. '' @
         ''Set KEYZORI_DRIZZLE_MIGRATIONS_PATH.'')
     | Some folder \<Rightarrow> Inr folder)"

definition migrateDatabase ::
    "(string \<Rightarrow> unit io) \<Rightarrow> (string \<Rightarrow> bool) \<Rightarrow> string list \<Rightarrow> environment \<Rightarrow> unit io" where
  "migrateDatabase migrate existing places environment =
    bindIO (orThrow (findMigrationsFolder existing places environment)) migrate"

definition startServer ::
    "host \<Rightarrow> (string \<Rightarrow> string option) \<Rightarrow> (stripe_config \<Rightarrow> gateway) \<Rightarrow> environment \<Rightarrow>
      unit io \<Rightarrow> (runtime \<times> process) io" where
  "startServer h protocol connect environment migration =
    bindIO (orThrow (loadServerConfig h protocol environment)) (\<lambda>config.
    bindIO migration (\<lambda>_.
    bindIO connectRedis (\<lambda>_.
    bindIO (orThrow (createServerRuntime h connect environment config)) (\<lambda>rt.
    bindIO nowIO (\<lambda>now.
    bindIO (best_effort (pruneExpiredActivity (Integral (sv_eventRetentionDays config)) now)) (\<lambda>_.
    returnIO (rt, \<lparr>pr_alive = True, pr_listeners = {SIGINT, SIGTERM}, pr_listening = True,
      pr_pruneTimer = True, pr_worker = map_option (\<lambda>_. worker_start idle_worker) (rt_gateway rt),
      pr_redis = True, pr_database = True, pr_redisCloses = 0, pr_databaseCloses = 0,
      pr_shuttingDown = False, pr_shutdowns = []\<rparr>)))))))"

definition shutdown_begin :: "process \<Rightarrow> process" where
  "shutdown_begin p =
    (if pr_shuttingDown p then p
     else p\<lparr>pr_shuttingDown := True, pr_pruneTimer := False,
       pr_worker := map_option worker_stop (pr_worker p),
       pr_shutdowns := pr_shutdowns p @ [Stopping_app]\<rparr>)"

text \<open>The promise the \<open>i\<close>-th running shutdown waits for is fulfilled, and the shutdown runs on.\<close>

definition shutdown_next :: "nat \<Rightarrow> process \<Rightarrow> process" where
  "shutdown_next i p =
    (case pr_shutdowns p ! i of
      Stopping_app \<Rightarrow> p\<lparr>pr_listening := False, pr_redis := False,
        pr_redisCloses := pr_redisCloses p + 1, pr_databaseCloses := pr_databaseCloses p + 1,
        pr_shutdowns := (pr_shutdowns p)[i := Closing_database]\<rparr>
    | Closing_database \<Rightarrow> p\<lparr>pr_database := False,
        pr_shutdowns := take i (pr_shutdowns p) @ drop (Suc i) (pr_shutdowns p)\<rparr>)"

definition on_signal :: "signal \<Rightarrow> process \<Rightarrow> process" where
  "on_signal s p =
    (if s \<in> pr_listeners p then shutdown_begin (p\<lparr>pr_listeners := pr_listeners p - {s}\<rparr>)
     else p\<lparr>pr_alive := False\<rparr>)"

inductive process_step :: "process \<Rightarrow> process \<Rightarrow> bool" where
  pr_signal: "pr_alive p \<Longrightarrow> process_step p (on_signal s p)"
| pr_closed: "pr_alive p \<Longrightarrow> i < length (pr_shutdowns p) \<Longrightarrow> process_step p (shutdown_next i p)"
| pr_interval: "pr_alive p \<Longrightarrow> pr_worker p = Some k \<Longrightarrow> wk_timer k \<Longrightarrow>
    process_step p (p\<lparr>pr_worker := Some (runOnce k)\<rparr>)"
| pr_notified: "pr_alive p \<Longrightarrow> pr_worker p = Some k \<Longrightarrow> pr_listening p \<Longrightarrow>
    process_step p (p\<lparr>pr_worker := Some (runOnce k)\<rparr>)"
| pr_finished: "pr_alive p \<Longrightarrow> pr_worker p = Some k \<Longrightarrow> 0 < wk_batches k \<Longrightarrow>
    process_step p (p\<lparr>pr_worker := Some (batch_ended k)\<rparr>)"

section \<open>The runtime of an accepted configuration\<close>

lemma createServerRuntime_parts:
  assumes "loadServerConfig h protocol environment = Inr config"
  obtains rt where "createServerRuntime h connect environment config = Inr rt"
    "ao_keys (rt_admin rt) = sv_adminApiKey config # sv_additionalAdminApiKeys config"
    "lo_requestsPerIp (rt_license rt) = sv_rateLimitPerIpPerMinute config"
    "lo_requestsPerMinute (rt_license rt) = Some (sv_licenseRateLimitPerMinute config)"
    "ao_requestsPerIp (rt_admin rt) = sv_rateLimitPerIpPerMinute config"
    "ao_requestsPerMinute (rt_admin rt) = Some (sv_rateLimitPerMinute config)"
    "rt_gateway rt = map_option connect (sv_stripe config)"
  using accepted_config_composes[OF assms]
  by (simp add: createServerRuntime_def runtimeConfig_def Let_def ceiling_of_def)

text \<open>Every route keeps the database consistent.\<close>

lemma license_route_consistent [keeps_db_rules]: "keeps_db consistent (license_route fm options ep body ip)"
  unfolding license_route_def unless_limited_def limitPrincipal_def
  by (cases ep) (auto intro!: keeps_db_rules keeps_db_protocol)

lemma server_serve_consistent:
  assumes "server_serve h fm rt rq = Some m"
  shows "keeps_db consistent m"
  using assms
  by (auto simp: server_serve_def health_def ready_def ping_both_def webhook_route_def unless_limited_def
      license_reply_def admin_reply_def Let_def split: list.splits if_splits option.splits
      intro!: keeps_db_rules keeps_db_webhooks admin_serve_consistent)

section \<open>Readiness\<close>

text \<open>
  Readiness tells the truth and has no effect of its own: it is reported exactly when both stores
  answered, and the exit code of the health check says the same.
\<close>

lemma ready_tells_the_truth:
  assumes "quiet env" "ready env w = (res, w')"
  shows "res = Inr (if e_dbOutcome env (w_tick w) = Done \<and> e_redisOutcome env (Suc (w_tick w)) = Done
      then reply 200 (status_body ''ready'') else reply 503 (status_body ''unavailable''))"
    "w_db w' = w_db w" "w_redis w' = w_redis w"
  using assms
  by (auto simp: ready_def ping_both_def catchIO_def bindIO_def db_read_def db_call_def redis_call_def
      interfere_def quiet_def Let_def selectT_def split: outcome.splits)

lemma healthcheck_of_ready:
  assumes "quiet env" "ready env w = (Inr r, w')"
  shows "runHealthcheck (Some r) = 0 \<longleftrightarrow>
    e_dbOutcome env (w_tick w) = Done \<and> e_redisOutcome env (Suc (w_tick w)) = Done"
  using ready_tells_the_truth(1)[OF assms] by (simp add: reply_def runHealthcheck_def)

section \<open>The process\<close>

definition started :: "process \<Rightarrow> bool" where
  "started p \<longleftrightarrow> pr_alive p \<and> pr_listeners p = {SIGINT, SIGTERM} \<and> pr_listening p \<and>
    pr_pruneTimer p \<and> pr_redis p \<and> pr_database p \<and> pr_redisCloses p = 0 \<and> pr_databaseCloses p = 0 \<and>
    \<not> pr_shuttingDown p \<and> pr_shutdowns p = [] \<and>
    (\<forall>k. pr_worker p = Some k \<longrightarrow> k = worker_start idle_worker)"

lemma startServer_started:
  assumes "startServer h protocol connect environment migration env w = (Inr (rt, p), w')"
  shows "started p"
  using assms by (auto simp: startServer_def bindIO_Inr_iff started_def)

text \<open>
  \<open>phase p serving open_db stages\<close>: what is open, how often \<open>close\<close> was called, and which shutdowns run.
\<close>

definition phase :: "process \<Rightarrow> bool \<Rightarrow> bool \<Rightarrow> shutdown_stage list \<Rightarrow> bool" where
  "phase p serving open_db stages \<longleftrightarrow>
    pr_shutdowns p = stages \<and> pr_listening p = serving \<and> pr_redis p = serving \<and>
    pr_database p = open_db \<and> pr_redisCloses p = (if serving then 0 else 1) \<and>
    pr_databaseCloses p = (if serving then 0 else 1)"

definition process_ok :: "process \<Rightarrow> bool" where
  "process_ok p \<longleftrightarrow>
    (if pr_shuttingDown p
     then phase p True True [Stopping_app] \<or> phase p False True [Closing_database] \<or> phase p False False []
     else phase p True True []) \<and>
    (pr_shuttingDown p \<longleftrightarrow> pr_listeners p \<noteq> {SIGINT, SIGTERM}) \<and>
    (pr_pruneTimer p \<longleftrightarrow> \<not> pr_shuttingDown p) \<and>
    (\<forall>k. pr_worker p = Some k \<longrightarrow> worker_ok k \<and> (wk_timer k \<longleftrightarrow> \<not> pr_shuttingDown p))"

lemma phase_frame [simp]:
  "phase (p\<lparr>pr_alive := a\<rparr>) = phase p" "phase (p\<lparr>pr_worker := k\<rparr>) = phase p"
  "phase (p\<lparr>pr_listeners := s\<rparr>) = phase p"
  by (simp_all add: phase_def fun_eq_iff)

lemma signals: "UNIV = {SIGINT, SIGTERM}"
  using signal.exhaust by blast

lemma worker_ok_steps:
  "worker_ok k \<Longrightarrow> worker_ok (runOnce k)" "worker_ok k \<Longrightarrow> worker_ok (worker_stop k)"
  "worker_ok k \<Longrightarrow> 0 < wk_batches k \<Longrightarrow> worker_ok (batch_ended k)"
  "worker_ok (worker_start idle_worker)"
  by (auto simp: worker_ok_def runOnce_def worker_stop_def batch_ended_def worker_start_def idle_worker_def)

lemma worker_timers [simp]:
  "wk_timer (runOnce k) = wk_timer k" "\<not> wk_timer (worker_stop k)"
  "wk_timer (batch_ended k) = wk_timer k" "wk_timer (worker_start k)"
  by (simp_all add: runOnce_def worker_stop_def batch_ended_def worker_start_def)

lemma shutdown_begin_ok:
  assumes "process_ok p"
  shows "process_ok (shutdown_begin (p\<lparr>pr_listeners := pr_listeners p - {s}\<rparr>))"
proof (cases "pr_shuttingDown p")
  case True
  then have "pr_listeners p - {s} \<noteq> {SIGINT, SIGTERM}"
    using assms signals by (auto simp: process_ok_def)
  then show ?thesis using assms True by (simp add: process_ok_def shutdown_begin_def)
next
  case False
  then have "pr_listeners p - {s} \<noteq> {SIGINT, SIGTERM}" by (cases s) auto
  then show ?thesis
    using assms False
    by (cases "pr_worker p") (simp_all add: process_ok_def shutdown_begin_def phase_def worker_ok_steps)
qed

lemma on_signal_ok:
  assumes "process_ok p"
  shows "process_ok (on_signal s p)"
proof (cases "s \<in> pr_listeners p")
  case True
  then show ?thesis using shutdown_begin_ok[OF assms] by (simp add: on_signal_def)
next
  case False
  then show ?thesis using assms by (simp add: on_signal_def process_ok_def)
qed

lemma shutdown_next_ok:
  assumes "process_ok p" "i < length (pr_shutdowns p)"
  shows "process_ok (shutdown_next i p)"
proof -
  have "pr_shuttingDown p" using assms by (auto simp: process_ok_def phase_def split: if_splits)
  then consider "phase p True True [Stopping_app]" | "phase p False True [Closing_database]"
    using assms by (auto simp: process_ok_def phase_def)
  then show ?thesis
    using assms by cases (auto simp: process_ok_def phase_def shutdown_next_def)
qed

interpretation process_machine: transition_system started process_step process_ok
proof
  show "started p \<Longrightarrow> process_ok p" for p
    by (auto simp: started_def process_ok_def phase_def worker_ok_steps)
  show "process_ok p'" if "process_ok p" "process_step p p'" for p p'
    using that(2)
  proof cases
    case (pr_signal s)
    then show ?thesis using on_signal_ok[OF that(1)] by simp
  next
    case (pr_closed i)
    then show ?thesis using shutdown_next_ok[OF that(1)] by simp
  qed (use that(1) in \<open>auto simp: process_ok_def worker_ok_steps\<close>)
qed

section \<open>Properties\<close>

text \<open>
  C5: strangers change nothing. In a server put together from any configuration that is accepted,
  a request to any path of the administration whose key is missing, or whose digest is that of
  none of the configured keys, finds no route or is answered with status 400, 401, 429 or 500 and
  an error body; the whole database and every session stay as they were, whatever the method, the
  path, the query and the body. (Only the windows of the rate limits move.)
\<close>

theorem strangers_change_nothing:
  assumes "loadServerConfig h protocol environment = Inr config"
    and "createServerRuntime h connect environment config = Inr rt"
    and "hq_path rq = ''admin'' # path"
    and "\<forall>key. hq_key rq = Some key \<longrightarrow> key = [] \<or> e_sha256 env key \<notin>
      e_sha256 env ` set (sv_adminApiKey config # sv_additionalAdminApiKeys config)"
    and "quiet env"
    and "server_serve h fm rt rq = Some m" and "m env w = (res, w')"
  shows "(\<exists>r message code. res = Inr r \<and> hp_status r \<in> {400, 401, 429, 500} \<and>
      hp_body r = error_body message code) \<and>
    w_db w' = w_db w \<and> r_strings (w_redis w') = r_strings (w_redis w) \<and>
    r_sets (w_redis w') = r_sets (w_redis w)"
proof -
  let ?rq = "admin_request_of rq path (resolve h (rt_resolver rt) (hq_peer rq) (hq_headers rq))"
  obtain ep ps where m: "m = admin_serve fm (rt_admin rt) ep ps ?rq"
    using assms(3,6) by (auto simp: server_serve_def admin_reply_def Let_def)
  have "ao_keys (rt_admin rt) = sv_adminApiKey config # sv_additionalAdminApiKeys config"
    using assms(2) createServerRuntime_parts[OF assms(1), of connect] by auto
  then have "\<forall>key. rq_key ?rq = Some key \<longrightarrow>
      key = [] \<or> e_sha256 env key \<notin> e_sha256 env ` set (ao_keys (rt_admin rt))"
    using assms(4) by (simp add: admin_request_of_def)
  from admin_serve_without_key[OF assms(5) this assms(7)[unfolded m]] show ?thesis .
qed

text \<open>
  C40: a shutdown is orderly. Whatever signals, intervals, webhooks and ends of batches a started
  server goes through: it listens only while Redis and the database are connected, and the
  database is closed after Redis; the retention timer and the interval of the worker run exactly
  until the first signal. At most one shutdown runs, Redis and the database are told to close at
  most once, and when no shutdown is left everything is closed; every running shutdown is one
  that two fulfilled promises end. The other signal, while its listener is there, changes nothing
  once the shutdown began; a signal whose listener has fired ends the process. At most one batch
  of webhooks is being processed at any time.
\<close>

theorem shutdown_is_orderly:
  assumes "startServer h protocol connect environment migration env w = (Inr (rt, p0), w')"
    and "process_step\<^sup>*\<^sup>* p0 p"
  shows "(pr_listening p \<longrightarrow> pr_redis p \<and> pr_database p) \<and> (pr_redis p \<longrightarrow> pr_database p) \<and>
    (pr_pruneTimer p \<longleftrightarrow> \<not> pr_shuttingDown p) \<and> (\<not> pr_shuttingDown p \<longrightarrow> pr_listening p) \<and>
    (pr_shuttingDown p \<longleftrightarrow> (\<exists>s. s \<notin> pr_listeners p)) \<and>
    length (pr_shutdowns p) \<le> 1 \<and> pr_redisCloses p \<le> 1 \<and> pr_databaseCloses p \<le> 1 \<and>
    (pr_shuttingDown p \<and> pr_shutdowns p = [] \<longrightarrow> \<not> pr_listening p \<and> \<not> pr_redis p \<and> \<not> pr_database p) \<and>
    (pr_shutdowns p \<noteq> [] \<longrightarrow> pr_shutdowns (shutdown_next 0 p) = [] \<or>
      pr_shutdowns (shutdown_next 0 (shutdown_next 0 p)) = []) \<and>
    (\<forall>s. on_signal s p =
      (if s \<notin> pr_listeners p then p\<lparr>pr_alive := False\<rparr>
       else if pr_shuttingDown p then p\<lparr>pr_listeners := pr_listeners p - {s}\<rparr>
       else shutdown_begin (p\<lparr>pr_listeners := pr_listeners p - {s}\<rparr>))) \<and>
    (\<forall>k. pr_worker p = Some k \<longrightarrow> wk_batches k \<le> 1 \<and> (wk_timer k \<longleftrightarrow> \<not> pr_shuttingDown p))"
proof -
  have ok: "process_ok p"
    using process_machine.invar_reachable[OF startServer_started[OF assms(1)] assms(2)] .
  have "(\<exists>s. s \<notin> pr_listeners p) \<longleftrightarrow> pr_listeners p \<noteq> {SIGINT, SIGTERM}" using signals by blast
  then have "pr_shuttingDown p \<longleftrightarrow> (\<exists>s. s \<notin> pr_listeners p)" "pr_pruneTimer p \<longleftrightarrow> \<not> pr_shuttingDown p"
    and "\<forall>k. pr_worker p = Some k \<longrightarrow> wk_batches k \<le> 1 \<and> (wk_timer k \<longleftrightarrow> \<not> pr_shuttingDown p)"
    using ok by (auto simp: process_ok_def worker_ok_def)
  moreover have "on_signal s p = (if s \<notin> pr_listeners p then p\<lparr>pr_alive := False\<rparr>
       else if pr_shuttingDown p then p\<lparr>pr_listeners := pr_listeners p - {s}\<rparr>
       else shutdown_begin (p\<lparr>pr_listeners := pr_listeners p - {s}\<rparr>))" for s
    by (simp add: on_signal_def shutdown_begin_def)
  moreover consider "\<not> pr_shuttingDown p" "phase p True True []"
    | "pr_shuttingDown p" "phase p True True [Stopping_app]"
    | "pr_shuttingDown p" "phase p False True [Closing_database]"
    | "pr_shuttingDown p" "phase p False False []"
    using ok by (auto simp: process_ok_def split: if_splits)
  then have "(pr_listening p \<longrightarrow> pr_redis p \<and> pr_database p) \<and> (pr_redis p \<longrightarrow> pr_database p) \<and>
    (\<not> pr_shuttingDown p \<longrightarrow> pr_listening p) \<and>
    length (pr_shutdowns p) \<le> 1 \<and> pr_redisCloses p \<le> 1 \<and> pr_databaseCloses p \<le> 1 \<and>
    (pr_shuttingDown p \<and> pr_shutdowns p = [] \<longrightarrow> \<not> pr_listening p \<and> \<not> pr_redis p \<and> \<not> pr_database p) \<and>
    (pr_shutdowns p \<noteq> [] \<longrightarrow> pr_shutdowns (shutdown_next 0 p) = [] \<or>
      pr_shutdowns (shutdown_next 0 (shutdown_next 0 p)) = [])"
    by cases (simp_all add: phase_def shutdown_next_def)
  ultimately show ?thesis by blast
qed

section \<open>Instances\<close>

definition plain_runtime :: runtime where
  "plain_runtime = (case createServerRuntime plain_host (\<lambda>_. sample_gateway) plain_environment plain_config of
    Inr rt \<Rightarrow> rt)"

definition stranger :: http_request where
  "stranger = \<lparr>hq_method = DELETE, hq_path = [''admin'', ''customers'', ''C''], hq_query = [],
    hq_body = None, hq_payload = [], hq_key = Some ''other'', hq_signature = None, hq_peer = None,
    hq_headers = \<lparr>rh_cloudflare = None, rh_forwarded = None, rh_realIp = None\<rparr>\<rparr>"

lemma plain_runtime: "createServerRuntime plain_host (\<lambda>_. sample_gateway) plain_environment plain_config =
    Inr plain_runtime"
proof -
  obtain rt where "createServerRuntime plain_host (\<lambda>_. sample_gateway) plain_environment plain_config = Inr rt"
    by (rule createServerRuntime_parts[OF plain_run])
  then show ?thesis by (simp add: plain_runtime_def)
qed

lemma route_found:
  assumes "ep \<in> set (admin_routes options)" "ae_method ep = rq_method rq"
    "match_path (ae_path ep) (rq_path rq) \<noteq> None"
  shows "find_route options rq \<noteq> None"
proof -
  let ?fits = "\<lambda>ep. ae_method ep = rq_method rq \<and> match_path (ae_path ep) (rq_path rq) \<noteq> None"
  define eps where "eps = filter ?fits (admin_routes options)"
  have "ep \<in> set eps" using assms by (simp add: eps_def)
  moreover have "\<forall>e \<in> set eps. match_path (ae_path e) (rq_path rq) \<noteq> None" by (simp add: eps_def)
  ultimately show ?thesis unfolding find_route_def eps_def[symmetric] by (cases eps) auto
qed

lemma stranger_route: "\<exists>m. server_serve plain_host plain_formats plain_runtime stranger = Some m"
proof -
  let ?rq = "admin_request_of stranger [''customers'', ''C'']
    (resolve plain_host (rt_resolver plain_runtime) (hq_peer stranger) (hq_headers stranger))"
  have "find_route (rt_admin plain_runtime) ?rq \<noteq> None"
  proof (rule route_found)
    show "delete_endpoint \<in> set (admin_routes (rt_admin plain_runtime))"
      unfolding admin_routes_def delete_endpoint_def by (simp add: customer_routes_def)
  qed (simp_all add: delete_endpoint_def customer_routes_def route_def admin_request_of_def stranger_def)
  then show ?thesis by (auto simp: server_serve_def stranger_def admin_reply_def Let_def)
qed

theorem strangers_change_nothing_witness:
  "\<exists>m. server_serve plain_host plain_formats plain_runtime stranger = Some m \<and>
    w_db (snd (m sample_env (sample_world Lifetime))) = sample_db Lifetime"
proof -
  obtain m where m: "server_serve plain_host plain_formats plain_runtime stranger = Some m"
    using stranger_route by blast
  have "\<forall>key. hq_key stranger = Some key \<longrightarrow> key = [] \<or> e_sha256 sample_env key \<notin>
      e_sha256 sample_env ` set (sv_adminApiKey plain_config # sv_additionalAdminApiKeys plain_config)"
    by (simp add: stranger_def sample_env_def plain_config_def)
  moreover have "quiet sample_env" by (simp add: quiet_def sample_env_def)
  moreover have "hq_path stranger = ''admin'' # [''customers'', ''C'']" by (simp add: stranger_def)
  ultimately have "w_db (snd (m sample_env (sample_world Lifetime))) = w_db (sample_world Lifetime)"
    using strangers_change_nothing[OF plain_run plain_runtime _ _ _ m prod.collapse[symmetric]] by blast
  then show ?thesis using m by (simp add: sample_world_def)
qed

lemma plain_start:
  "\<exists>rt p w'. startServer plain_host plain_protocol (\<lambda>_. sample_gateway) plain_environment (returnIO ())
      sample_env (sample_world Lifetime) = (Inr (rt, p), w')"
proof -
  have redis: "\<exists>w'. connectRedis sample_env w = (Inr (), w')" for w
    by (simp add: connectRedis_def redis_call_def interfere_def sample_env_def)
  obtain w1 where w1: "connectRedis sample_env (sample_world Lifetime) = (Inr (), w1)" using redis by blast
  show ?thesis
    by (simp add: startServer_def orThrow_def plain_run plain_runtime w1 nowIO_def bindIO_def
        best_effort_def catchIO_def returnIO_def split: prod.split sum.split)
qed

theorem shutdown_is_orderly_witness:
  "\<exists>rt p w'. startServer plain_host plain_protocol (\<lambda>_. sample_gateway) plain_environment (returnIO ())
      sample_env (sample_world Lifetime) = (Inr (rt, p), w') \<and>
    (let p' = shutdown_next 0 (on_signal SIGTERM (on_signal SIGINT p)) in
     \<not> pr_pruneTimer p' \<and> pr_redisCloses p' = 1 \<and> pr_alive p' \<and> \<not> pr_alive (on_signal SIGINT p'))"
proof -
  obtain rt p w' where run: "startServer plain_host plain_protocol (\<lambda>_. sample_gateway) plain_environment
      (returnIO ()) sample_env (sample_world Lifetime) = (Inr (rt, p), w')"
    using plain_start by blast
  let ?p = "on_signal SIGTERM (on_signal SIGINT p)"
  have p: "started p" using startServer_started[OF run] .
  then have alive: "pr_alive (on_signal SIGINT p)" "pr_alive ?p" "0 < length (pr_shutdowns ?p)"
    and shut: "pr_shuttingDown (shutdown_next 0 ?p)" "pr_redisCloses (shutdown_next 0 ?p) = 1"
      "pr_alive (shutdown_next 0 ?p)" "pr_listeners (shutdown_next 0 ?p) = {}"
    by (auto simp: started_def on_signal_def shutdown_begin_def shutdown_next_def)
  have "process_step p (on_signal SIGINT p)" using p by (intro pr_signal) (simp add: started_def)
  moreover have "process_step (on_signal SIGINT p) ?p" using alive(1) by (rule pr_signal)
  moreover have "process_step ?p (shutdown_next 0 ?p)" using alive(2,3) by (rule pr_closed)
  ultimately have "process_step\<^sup>*\<^sup>* p (shutdown_next 0 ?p)"
    by (meson rtranclp.rtrancl_into_rtrancl rtranclp.rtrancl_refl)
  from shutdown_is_orderly[OF run this] shut run show ?thesis by (auto simp: Let_def)
qed

end
