(* ===== verification/CliParsers.thy ===== *)
theory CliParsers
  imports AdminViews
begin

text \<open>
  The text side of the command line: \<open>cli/parsers.ts\<close> reads the options, \<open>cli/output.ts\<close> prints
  results and \<open>cli/commandError.ts\<close> prints failures. A parser that refuses its text throws an
  \<open>InvalidArgumentError\<close>, which the option library reports before any command runs; here that is
  the left side of a sum. \<open>JSON.parse\<close>, \<open>Date.parse\<close>, \<open>toISOString\<close> and \<open>JSON.stringify\<close> of a text
  are the arguments of \<open>cli_host\<close>.
\<close>

section \<open>Integers\<close>

record cli_host =
  ch_parseJson :: "string \<Rightarrow> json option"
  ch_parseDate :: "string \<Rightarrow> int option"
  ch_toISO :: "int \<Rightarrow> string"
  ch_quote :: "string \<Rightarrow> string"
  ch_errorText :: "failure \<Rightarrow> string"

type_synonym 'a parsed = "string + 'a"

definition digits_text :: "string \<Rightarrow> bool" where
  "digits_text s \<longleftrightarrow> s \<noteq> [] \<and> list_all is_digit s"

text \<open>The patterns \<open>^\d+$\<close> and \<open>^-?\d+$\<close>.\<close>

definition integer_text :: "bool \<Rightarrow> string \<Rightarrow> bool" where
  "integer_text allowNegative s \<longleftrightarrow> digits_text s \<or>
    allowNegative \<and> (case s of [] \<Rightarrow> False | c # ds \<Rightarrow> c = CHR ''-'' \<and> digits_text ds)"

definition parseInteger :: "string \<Rightarrow> int option \<Rightarrow> bool \<Rightarrow> string \<Rightarrow> int parsed" where
  "parseInteger label given allowNegative value =
    (if \<not> integer_text allowNegative value then Inl (label @ '' must be an integer.'')
     else
       (let parsed = Number value;
            minimum = (case given of Some m \<Rightarrow> m | None \<Rightarrow> if allowNegative then - MAX_LICENSE_LIMIT else 0);
            e = Inl (label @ '' must be between '' @ show_int minimum @ '' and '' @
              show_int MAX_LICENSE_LIMIT @ CHR ''.'' # []) in
        if \<not> isSafeInteger parsed then e
        else
          (case parsed of
            Integral n \<Rightarrow> if n < minimum \<or> MAX_LICENSE_LIMIT < n then e else Inr n
          | _ \<Rightarrow> e)))"

definition parseNonNegativeInteger :: "string \<Rightarrow> int parsed" where
  "parseNonNegativeInteger = parseInteger ''value'' None False"

definition parsePositiveInteger :: "string \<Rightarrow> int parsed" where
  "parsePositiveInteger = parseInteger ''value'' (Some 1) False"

definition parseNonZeroInteger :: "string \<Rightarrow> int parsed" where
  "parseNonZeroInteger value =
    bindR (parseInteger ''value'' None True value) (\<lambda>n.
    bindR (checkR (n \<noteq> 0) ''value must not be zero.'') (\<lambda>_. Inr n))"

section \<open>Other options\<close>

definition parseLicenseType :: "string \<Rightarrow> license_type parsed" where
  "parseLicenseType value =
    (case List.find (\<lambda>ty. license_type_name ty = value) [Lifetime, Subscription, Metered, Trial] of
      Some ty \<Rightarrow> Inr ty
    | None \<Rightarrow> Inl (''type must be one of: lifetime, subscription, metered, trial.''))"

function (sequential) isJsonValue :: "json \<Rightarrow> bool" where
  "isJsonValue (JNum n) = isFiniteNumber n"
| "isJsonValue (JArr vs) = list_all isJsonValue vs"
| "isJsonValue (JObj kvs) = list_all (\<lambda>kv. isJsonValue (snd kv)) kvs"
| "isJsonValue v = True"
  by pat_completeness auto
termination
  by (relation "measure size")
    (auto simp: less_Suc_eq_le intro: size_list_estimation' order_trans[OF _ size_list_estimation'])

definition parseMetadata :: "cli_host \<Rightarrow> string \<Rightarrow> json_object parsed" where
  "parseMetadata host value =
    (case ch_parseJson host value of
      None \<Rightarrow> Inl ''metadata must be valid JSON.''
    | Some (JObj kvs) \<Rightarrow>
        if isJsonValue (JObj kvs) then Inr kvs else Inl ''metadata must be a JSON object.''
    | Some _ \<Rightarrow> Inl ''metadata must be a JSON object.'')"

definition parseIsoDate :: "cli_host \<Rightarrow> string \<Rightarrow> string parsed" where
  "parseIsoDate host value =
    (case ch_parseDate host value of
      None \<Rightarrow> Inl ''date must be a valid ISO 8601 date.''
    | Some t \<Rightarrow> Inr (ch_toISO host t))"

definition parseReason :: "string \<Rightarrow> string parsed" where
  "parseReason value =
    (let given = trim value in
     if given = [] \<or> 500 < length given then Inl ''reason must contain between 1 and 500 characters.''
     else Inr given)"

type_synonym collected_meter = "string \<times> int"

definition collectMeter ::
    "cli_host \<Rightarrow> string \<Rightarrow> collected_meter list \<Rightarrow> collected_meter list parsed" where
  "collectMeter host value previous =
    (case split_last (CHR ''='') value of
      None \<Rightarrow> Inl ''meter must use the format \"name=balance\".''
    | Some (before, after) \<Rightarrow>
        if before = [] \<or> after = [] then Inl ''meter must use the format \"name=balance\".''
        else
          (let name = trim before in
           if name = [] \<or> 128 < length name
           then Inl ''meter name must contain between 1 and 128 characters.''
           else if name \<in> set (map fst previous)
           then Inl (''meter '' @ ch_quote host name @ '' was provided more than once.'')
           else bindR (parseInteger ''meter balance'' None False after) (\<lambda>balance.
             Inr (previous @ [(name, balance)]))))"

definition requireValue :: "string \<Rightarrow> string \<Rightarrow> string parsed" where
  "requireValue value label =
    (let normalized = trim value in
     if normalized = [] then Inl (label @ '' is required.'') else Inr normalized)"

section \<open>Printing\<close>

definition printJson :: "json \<Rightarrow> bool \<Rightarrow> json" where
  "printJson value revealLicenseKey = (if revealLicenseKey then value else omitLicenseSecrets value)"

definition word_char_at :: "char option \<Rightarrow> bool" where
  "word_char_at c = (case c of None \<Rightarrow> False | Some x \<Rightarrow> word_char x)"

definition key_char :: "char \<Rightarrow> bool" where
  "key_char c \<longleftrightarrow> word_char c \<or> c = CHR ''-''"

text \<open>
  \<open>secret_body s\<close> is what \<open>[A-Za-z0-9_-]+\b\<close> matches at the start of \<open>s\<close>. The greedy run is followed
  by a character outside the class, so the boundary holds right after its last word character:
  the match is the run without its trailing hyphens.
\<close>

definition secret_body :: "string \<Rightarrow> string" where
  "secret_body s = rev (dropWhile (\<lambda>c. c = CHR ''-'') (rev (takeWhile key_char s)))"

definition prefixed :: "string \<Rightarrow> string \<Rightarrow> string option" where
  "prefixed p s = (if take (length p) s = p then Some (drop (length p) s) else None)"

text \<open>The length of a match of each pattern at the start of a text, after the character \<open>prev\<close>.\<close>

definition secret_length :: "char option \<Rightarrow> string \<Rightarrow> nat option" where
  "secret_length prev s =
    (if word_char_at prev then None
     else
       (case prefixed ''lic_'' s of
         Some body \<Rightarrow> if secret_body body = [] then None else Some (4 + length (secret_body body))
       | None \<Rightarrow>
           (case prefixed ''sk_'' s of
             Some body \<Rightarrow> if secret_body body = [] then None else Some (3 + length (secret_body body))
           | None \<Rightarrow> None)))"

definition url_body :: "string \<Rightarrow> string" where
  "url_body = takeWhile (\<lambda>c. \<not> js_space c)"

definition url_prefixes :: "string list" where
  "url_prefixes = [''postgresql://'', ''postgres://'']"

definition starts_lower :: "string \<Rightarrow> string \<Rightarrow> bool" where
  "starts_lower s k \<longleftrightarrow> toLowerCase (take (length k) s) = k"

definition database_url_length :: "char option \<Rightarrow> string \<Rightarrow> nat option" where
  "database_url_length prev s =
    (if word_char_at prev then None
     else
       (case filter (starts_lower s) url_prefixes of
         [] \<Rightarrow> None
       | k # _ \<Rightarrow>
           (let body = url_body (drop (length k) s) in
            if body = [] then None else Some (length k + length body))))"

text \<open>\<open>replace\<close> with a global pattern: matches are taken from the left and do not overlap.\<close>

function (sequential) replace_all ::
    "(char option \<Rightarrow> string \<Rightarrow> nat option) \<Rightarrow> string \<Rightarrow> char option \<Rightarrow> string \<Rightarrow> string" where
  "replace_all m r prev [] = []"
| "replace_all m r prev (c # cs) =
    (case m prev (c # cs) of
      Some (Suc n) \<Rightarrow> r @ replace_all m r (Some (last (c # take n cs))) (drop n cs)
    | _ \<Rightarrow> c # replace_all m r (Some c) cs)"
  by pat_completeness auto
termination by (relation "measure (\<lambda>(m, b, p, s). length s)") auto

definition error_text :: "cli_host \<Rightarrow> failure \<Rightarrow> string" where
  "error_text host e =
    (case e of
      Domain_error de \<Rightarrow> de_message de
    | Stripe_error se \<Rightarrow> se_message se
    | Stripe_api_error message _ _ \<Rightarrow> message
    | Plain_error message \<Rightarrow> message
    | _ \<Rightarrow> ch_errorText host e)"

definition safeMessage :: "string \<Rightarrow> string" where
  "safeMessage message =
    replace_all database_url_length ''[REDACTED_DATABASE_URL]'' None
      (replace_all secret_length ''[REDACTED_LICENSE_KEY]'' None message)"

definition reportCommandError :: "string \<Rightarrow> string \<Rightarrow> string" where
  "reportCommandError action message = action @ '': '' @ safeMessage message"

section \<open>Redacted texts\<close>

fun occurs :: "(char option \<Rightarrow> string \<Rightarrow> nat option) \<Rightarrow> char option \<Rightarrow> string \<Rightarrow> bool" where
  "occurs m prev [] = False"
| "occurs m prev (c # cs) = (m prev (c # cs) \<noteq> None \<or> occurs m (Some c) cs)"

text \<open>
  What the two patterns have in common: a match starts with a word character, and cutting a text
  off before a word character and going on with a bracket makes no match before the cut.
\<close>

locale pattern =
  fixes m :: "char option \<Rightarrow> string \<Rightarrow> nat option"
  assumes first_word: "m p (c # cs) \<noteq> None \<Longrightarrow> word_char c"
    and cut: "m p (u @ v) = None \<Longrightarrow> u \<noteq> [] \<Longrightarrow> v \<noteq> [] \<Longrightarrow> word_char (hd v) \<Longrightarrow>
      m p (u @ CHR ''['' # w) = None"
    and positive: "m p s \<noteq> Some 0"
    and maximal: "m p s = Some n \<Longrightarrow> drop n s \<noteq> [] \<Longrightarrow> \<not> word_char (hd (drop n s))"
begin

lemma replaced_shape:
  "replace_all m (CHR ''['' # r) p s = s \<or>
    (\<exists>u v w. s = u @ v \<and> v \<noteq> [] \<and> word_char (hd v) \<and>
      replace_all m (CHR ''['' # r) p s = u @ CHR ''['' # w)"
proof (induction s arbitrary: p)
  case (Cons c cs)
  show ?case
  proof (cases "m p (c # cs)")
    case None
    then have keep: "replace_all m (CHR ''['' # r) p (c # cs) = c # replace_all m (CHR ''['' # r) (Some c) cs"
      by simp
    show ?thesis using Cons.IH[of "Some c"] unfolding keep by (metis append_Cons)
  next
    case (Some n)
    then obtain k where "n = Suc k" using positive by (cases n) auto
    then have "\<exists>w. replace_all m (CHR ''['' # r) p (c # cs) = CHR ''['' # w" using Some by simp
    moreover have "word_char c" using first_word Some by blast
    ultimately show ?thesis by (metis append_Nil list.distinct(1) list.sel(1))
  qed
qed simp

end

lemma occurs_prev:
  assumes "\<not> occurs m p s" "s \<noteq> [] \<Longrightarrow> m q s = None"
  shows "\<not> occurs m q s"
  using assms by (cases s) auto

lemma occurs_drop:
  "\<not> occurs m p (c # cs) \<Longrightarrow> \<not> occurs m (Some (last (c # take n cs))) (drop n cs)"
proof (induction n arbitrary: p c cs)
  case (Suc n)
  show ?case
  proof (cases cs)
    case (Cons d ds)
    have "\<not> occurs m (Some c) (d # ds)" using Suc.prems Cons by simp
    from Suc.IH[OF this] show ?thesis unfolding Cons by simp
  qed simp
qed simp

lemma occurs_append:
  "(\<And>p c cs. c \<in> set r \<Longrightarrow> m p (c # cs) = None) \<Longrightarrow> r \<noteq> [] \<Longrightarrow>
    \<not> occurs m (Some (last r)) s \<Longrightarrow> \<not> occurs m p (r @ s)"
proof (induction r arbitrary: p)
  case (Cons c r)
  then show ?case by (cases r) auto
qed simp

context pattern begin

lemma no_match_here: "s \<noteq> [] \<Longrightarrow> \<not> word_char (hd s) \<Longrightarrow> m p s = None"
  using first_word by (metis list.collapse)

text \<open>
  Replacing the matches of one pattern by a bracketed text leaves no match of this one, if there
  was none before or it is the pattern replaced.
\<close>

lemma replaced_clean:
  assumes other: "pattern other"
    and bracket: "\<And>p c cs. c \<in> set (CHR ''['' # r) \<Longrightarrow> m p (c # cs) = None"
    and "other = m \<or> \<not> occurs m p s"
  shows "\<not> occurs m p (replace_all other (CHR ''['' # r) p s)"
  using assms(3)
proof (induction s arbitrary: p rule: length_induct)
  case (1 s)
  show ?case
  proof (cases s)
    case (Cons c cs)
    note shape = pattern.replaced_shape[OF other, of r]
    show ?thesis
    proof (cases "other p s")
      case None
      let ?R = "replace_all other (CHR ''['' # r) (Some c) cs"
      have here: "m p ((c # cs)) = None" using "1.prems" None Cons by auto
      have "m p (c # ?R) = None"
        using shape[of "Some c" cs]
      proof (elim disjE exE conjE)
        assume "?R = cs"
        with here show ?thesis by simp
      next
        fix u v w
        assume "cs = u @ v" "v \<noteq> []" "word_char (hd v)" "?R = u @ CHR ''['' # w"
        then show ?thesis using cut[of p "c # u" v w] here by simp
      qed
      moreover have "\<not> occurs m (Some c) ?R" using "1.IH" "1.prems" Cons by auto
      ultimately show ?thesis using None Cons by simp
    next
      case (Some n)
      then obtain k where n: "n = Suc k" using pattern.positive[OF other] by (cases n) auto
      let ?p = "Some (last (c # take k cs))"
      let ?R = "replace_all other (CHR ''['' # r) ?p (drop k cs)"
      have out: "replace_all other (CHR ''['' # r) p s = (CHR ''['' # r) @ ?R"
        using Some n Cons by simp
      have "other = m \<or> \<not> occurs m ?p (drop k cs)"
        using "1.prems" occurs_drop[of m p c cs k] Cons by auto
      then have rest: "\<not> occurs m ?p ?R" 
        using "1.IH"[rule_format, of "drop k cs" ?p] Cons by (simp only: length_drop) simp
      have next_: "\<not> word_char (hd (drop k cs))" if "drop k cs \<noteq> []"
        using pattern.maximal[OF other, of p s n] Some n Cons that by simp
      have "m q ?R = None" if "?R \<noteq> []" for q
        using shape[of ?p "drop k cs"]
      proof (elim disjE exE conjE)
        assume "?R = drop k cs"
        then show ?thesis using next_ that no_match_here by metis
      next
        fix u v w
        assume uvw: "drop k cs = u @ v" "v \<noteq> []" "word_char (hd v)" "?R = u @ CHR ''['' # w"
        then have "u \<noteq> []" using next_ by auto
        then have "\<not> word_char (hd ?R)" using uvw next_ by auto
        then show ?thesis using that no_match_here by blast
      qed
      then have "\<not> occurs m q ?R" for q using occurs_prev[OF rest] by blast
      then show ?thesis unfolding out by (intro occurs_append bracket) auto
    qed
  qed simp
qed

end

section \<open>The two patterns\<close>

lemma word_letters [simp]:
  "word_char (CHR ''l'')" "word_char (CHR ''s'')" "word_char (CHR ''p'')" "word_char (CHR ''P'')"
  "\<not> word_char (CHR ''['')" "\<not> word_char (CHR '']'')" "\<not> word_char (CHR ''-'')"
  "\<not> key_char (CHR ''['')" "key_char (CHR ''-'')"
  by code_simp+

lemma word_key: "word_char c \<Longrightarrow> key_char c"
  by (simp add: key_char_def)

lemma prefixed_Some_iff: "prefixed p s = Some b \<longleftrightarrow> s = p @ b"
  by (auto simp: prefixed_def) (metis append_take_drop_id)

lemma prefixed_None_iff: "prefixed p s = None \<longleftrightarrow> (\<nexists>b. s = p @ b)"
  by (metis not_None_eq prefixed_Some_iff)

lemma secret_body_run: "\<exists>ds. takeWhile key_char s = secret_body s @ ds \<and> set ds \<subseteq> {CHR ''-''}"
proof -
  let ?run = "takeWhile key_char s"
  have "?run = rev (dropWhile (\<lambda>c. c = CHR ''-'') (rev ?run)) @ rev (takeWhile (\<lambda>c. c = CHR ''-'') (rev ?run))"
    by (metis rev_append rev_rev_ident takeWhile_dropWhile_id)
  moreover have "set (rev (takeWhile (\<lambda>c. c = CHR ''-'') (rev ?run))) \<subseteq> {CHR ''-''}"
    by (auto dest: set_takeWhileD)
  ultimately show ?thesis unfolding secret_body_def by blast
qed

lemma secret_body_empty_iff: "secret_body s = [] \<longleftrightarrow> (\<forall>c \<in> set (takeWhile key_char s). c = CHR ''-'')"
  by (auto simp: secret_body_def)

text \<open>What follows a match is no word character.\<close>

lemma after_secret_body:
  assumes "drop (length (secret_body s)) s \<noteq> []"
  shows "\<not> word_char (hd (drop (length (secret_body s)) s))"
proof -
  obtain ds where ds: "takeWhile key_char s = secret_body s @ ds" "set ds \<subseteq> {CHR ''-''}"
    using secret_body_run by blast
  have s: "s = secret_body s @ ds @ dropWhile key_char s"
    using ds(1) by (metis append_assoc takeWhile_dropWhile_id)
  have "drop (length (secret_body s)) s = ds @ dropWhile key_char s"
    by (metis append_eq_conv_conj s)
  then show ?thesis using assms ds(2) hd_dropWhile[of key_char s] word_key by (cases ds) auto
qed

lemma secret_body_cut:
  assumes "secret_body (u @ v) = []" "v \<noteq> []" "word_char (hd v)"
  shows "secret_body (u @ CHR ''['' # w) = []"
proof -
  have no_run: "\<not> (\<forall>c \<in> set u. key_char c)"
  proof
    assume "\<forall>c \<in> set u. key_char c"
    then have "hd v \<in> set (takeWhile key_char (u @ v))"
      using assms(2,3) word_key by (cases v) auto
    with assms(1) have "hd v = CHR ''-''" by (simp add: secret_body_empty_iff)
    with assms(3) show False by simp
  qed
  then have "takeWhile key_char (u @ x) = takeWhile key_char u" for x
    by (meson takeWhile_append1)
  then show ?thesis using assms(1) by (simp add: secret_body_empty_iff)
qed

lemma secret_length_None_iff:
  "secret_length p s = None \<longleftrightarrow>
    word_char_at p \<or> (\<forall>b. (s = ''lic_'' @ b \<or> s = ''sk_'' @ b) \<longrightarrow> secret_body b = [])"
  by (auto simp: secret_length_def prefixed_None_iff prefixed_Some_iff split: option.split)

lemma secret_length_Some:
  assumes "secret_length p s = Some n"
  obtains k b where "s = k @ b" "k = ''lic_'' \<or> k = ''sk_''" "secret_body b \<noteq> []" "n = length k + length (secret_body b)"
proof (cases "prefixed ''lic_'' s")
  case (Some b)
  then have "secret_body b \<noteq> []" "n = 4 + length (secret_body b)"
    using assms by (simp_all add: secret_length_def split: if_splits)
  then show ?thesis using Some that[of "''lic_''" b] by (simp only: prefixed_Some_iff) simp
next
  case None
  then obtain b where b: "prefixed ''sk_'' s = Some b"
    using assms by (auto simp: secret_length_def split: if_splits option.splits)
  then have "secret_body b \<noteq> []" "n = 3 + length (secret_body b)"
    using assms None by (simp_all add: secret_length_def split: if_splits)
  then show ?thesis using b that[of "''sk_''" b] by (simp only: prefixed_Some_iff) simp
qed

lemma bracket_prefix:
  "u @ CHR ''['' # w = k @ b \<Longrightarrow> CHR ''['' \<notin> set k \<Longrightarrow> \<exists>u'. u = k @ u' \<and> b = u' @ CHR ''['' # w"
  by (induction k arbitrary: u) (auto simp: Cons_eq_append_conv append_eq_Cons_conv)

interpretation secret: pattern secret_length
proof
  show "secret_length p (c # cs) \<noteq> None \<Longrightarrow> word_char c" for p c cs
    by (auto elim!: secret_length_Some)
  show "secret_length p s \<noteq> Some 0" for p s
    by (auto elim!: secret_length_Some)
  show "\<not> word_char (hd (drop n s))" if "secret_length p s = Some n" "drop n s \<noteq> []" for p s n
    using that(1)
  proof (rule secret_length_Some)
    fix k b assume "s = k @ b" "n = length k + length (secret_body b)"
    then show ?thesis using that(2) after_secret_body[of b] by simp
  qed
  show "secret_length p (u @ CHR ''['' # w) = None"
    if none: "secret_length p (u @ v) = None" and v: "v \<noteq> []" "word_char (hd v)" for p u v w
  proof -
    have "secret_body b = []"
      if p: "\<not> word_char_at p" and b: "u @ CHR ''['' # w = k @ b" and k: "k = ''lic_'' \<or> k = ''sk_''" for k b
    proof -
      obtain u' where u': "u = k @ u'" "b = u' @ CHR ''['' # w"
        using bracket_prefix[OF b] k by auto
      then have "secret_body (u' @ v) = []"
        using none p k by (auto simp: secret_length_None_iff)
      then show ?thesis unfolding u'(2) using v by (rule secret_body_cut)
    qed
    then show ?thesis by (auto simp: secret_length_None_iff)
  qed
qed

lemma length_lower [simp]: "length (toLowerCase s) = length s"
  by (simp add: toLowerCase_def)

lemma one_prefix: "starts_lower s k \<Longrightarrow> k \<in> set url_prefixes \<Longrightarrow> filter (starts_lower s) url_prefixes = [k]"
proof -
  have excl: "\<not> (starts_lower s ''postgresql://'' \<and> starts_lower s ''postgres://'')"
  proof
    assume *: "starts_lower s ''postgresql://'' \<and> starts_lower s ''postgres://''"
    have n: "length ''postgresql://'' = 13" "length ''postgres://'' = 11" by simp_all
    have "take 11 (toLowerCase (take 13 s)) = toLowerCase (take 11 s)"
      by (simp add: toLowerCase_def take_map)
    with * have "take 11 ''postgresql://'' = ''postgres://''" unfolding starts_lower_def n by metis
    then show False by simp
  qed
  show "starts_lower s k \<Longrightarrow> k \<in> set url_prefixes \<Longrightarrow> ?thesis"
    using excl by (auto simp: url_prefixes_def)
qed

lemma database_url_None_iff:
  "database_url_length p s = None \<longleftrightarrow>
    word_char_at p \<or> (\<forall>k \<in> set url_prefixes. starts_lower s k \<longrightarrow> url_body (drop (length k) s) = [])"
proof (cases "\<exists>k \<in> set url_prefixes. starts_lower s k")
  case True
  then obtain k where k: "k \<in> set url_prefixes" "starts_lower s k" by blast
  then have only: "filter (starts_lower s) url_prefixes = [k]" by (intro one_prefix)
  then have "j = k" if "j \<in> set url_prefixes" "starts_lower s j" for j
    using one_prefix[OF that(2,1)] by simp
  then have "(\<forall>j \<in> set url_prefixes. starts_lower s j \<longrightarrow> url_body (drop (length j) s) = []) \<longleftrightarrow>
      url_body (drop (length k) s) = []"
    using k by metis
  then show ?thesis unfolding database_url_length_def only Let_def by simp
next
  case False
  then have "filter (starts_lower s) url_prefixes = []" by (simp add: filter_empty_conv)
  with False show ?thesis by (auto simp: database_url_length_def)
qed

lemma database_url_Some:
  assumes "database_url_length p s = Some n"
  obtains k where "k \<in> set url_prefixes" "starts_lower s k"
    "n = length k + length (url_body (drop (length k) s))"
proof (cases "filter (starts_lower s) url_prefixes")
  case (Cons k ks)
  then have "k \<in> set (filter (starts_lower s) url_prefixes)" by simp
  then have "k \<in> set url_prefixes" "starts_lower s k" by simp_all
  moreover have "n = length k + length (url_body (drop (length k) s))"
    using assms Cons by (simp add: database_url_length_def Let_def split: if_splits)
  ultimately show ?thesis by (rule that)
qed (use assms in \<open>simp add: database_url_length_def split: if_splits\<close>)

lemma lower_p_word: "latin_lower c = CHR ''p'' \<Longrightarrow> word_char c"
proof -
  assume *: "latin_lower c = CHR ''p''"
  have "(of_char (latin_lower c) :: nat) = 112" by (simp add: *)
  then have "(of_char c :: nat) = 112 \<or> (of_char c :: nat) = 80"
    by (auto simp: of_char_latin_lower Let_def split: if_splits)
  then show ?thesis by (auto simp: word_char_def)
qed

lemma space_no_word: "js_space c \<Longrightarrow> \<not> word_char c"
  by (auto simp: js_space_def word_char_def is_digit_def)

lemma url_body_empty_iff: "url_body s = [] \<longleftrightarrow> s = [] \<or> js_space (hd s)"
  by (cases s) (simp_all add: url_body_def)

lemma lower_bracket: "latin_lower (CHR ''['') = CHR ''[''"
  by code_simp

lemma prefix_first: "k \<in> set url_prefixes \<Longrightarrow> starts_lower (c # cs) k \<Longrightarrow> latin_lower c = CHR ''p''"
  by (auto simp: url_prefixes_def starts_lower_def toLowerCase_def)

lemma database_url_first: "database_url_length p (c # cs) \<noteq> None \<Longrightarrow> latin_lower c = CHR ''p''"
  using prefix_first unfolding database_url_None_iff by blast

lemma prefix_no_bracket: "k \<in> set url_prefixes \<Longrightarrow> CHR ''['' \<notin> set k"
  by (auto simp: url_prefixes_def)

lemma prefix_nonempty: "k \<in> set url_prefixes \<Longrightarrow> 0 < length k"
  by (auto simp: url_prefixes_def)

text \<open>A prefix found in a text that is cut off before a bracket lies before the cut.\<close>

lemma prefix_before_cut:
  assumes "k \<in> set url_prefixes" "starts_lower (u @ CHR ''['' # w) k"
  shows "length k \<le> length u \<and> starts_lower (u @ v) k"
proof -
  have "length k \<le> length u"
  proof (rule ccontr)
    assume "\<not> length k \<le> length u"
    then have "CHR ''['' \<in> set (toLowerCase (take (length k) (u @ CHR ''['' # w)))"
      by (cases "length k - length u") (auto simp: toLowerCase_def lower_bracket)
    with assms prefix_no_bracket show False by (auto simp: starts_lower_def)
  qed
  with assms(2) show ?thesis by (simp add: starts_lower_def)
qed

interpretation database_url: pattern database_url_length
proof
  show "word_char c" if "database_url_length p (c # cs) \<noteq> None" for p c cs
    using database_url_first[OF that] by (rule lower_p_word)
  show "database_url_length p s \<noteq> Some 0" for p s
    by (auto elim!: database_url_Some dest: prefix_nonempty)
  show "\<not> word_char (hd (drop n s))" if match: "database_url_length p s = Some n" "drop n s \<noteq> []" for p s n
    using match(1)
  proof (rule database_url_Some)
    fix k assume n: "n = length k + length (url_body (drop (length k) s))"
    have "drop n s = drop (length (url_body (drop (length k) s))) (drop (length k) s)"
      by (simp add: n add.commute)
    then have "drop n s = dropWhile (\<lambda>c. \<not> js_space c) (drop (length k) s)"
      by (simp add: url_body_def dropWhile_eq_drop)
    then have "js_space (hd (drop n s))" using hd_dropWhile match(2) by metis
    then show ?thesis by (rule space_no_word)
  qed
  show "database_url_length p (u @ CHR ''['' # w) = None"
    if none: "database_url_length p (u @ v) = None" and v: "v \<noteq> []" "word_char (hd v)" for p u v w
  proof -
    have "url_body (drop (length k) (u @ CHR ''['' # w)) = []"
      if p: "\<not> word_char_at p" and k: "k \<in> set url_prefixes" and pre: "starts_lower (u @ CHR ''['' # w) k" for k
    proof -
      note inside = prefix_before_cut[OF k pre, of v]
      then have "url_body (drop (length k) u @ v) = []"
        using none p k unfolding database_url_None_iff by auto
      then have "drop (length k) u \<noteq> [] \<and> js_space (hd (drop (length k) u))"
        using v space_no_word by (cases "drop (length k) u") (auto simp: url_body_empty_iff)
      then show ?thesis using inside by (simp add: url_body_empty_iff)
    qed
    then show ?thesis unfolding database_url_None_iff by blast
  qed
qed

text \<open>
  The second replacement does not bring a key back, and neither makes a new match at its seams.
\<close>

lemma safeMessage_redacted:
  "\<not> occurs secret_length None (safeMessage message)"
  "\<not> occurs database_url_length None (safeMessage message)"
proof -
  let ?key = "''[REDACTED_LICENSE_KEY]''" and ?url = "''[REDACTED_DATABASE_URL]''"
  have no_secret: "secret_length p (c # cs) = None" if "c \<in> set ?key \<union> set ?url" for p c cs
  proof -
    have "c \<noteq> CHR ''l'' \<and> c \<noteq> CHR ''s''" using that by auto
    then show ?thesis by (auto simp: secret_length_None_iff)
  qed
  have "list_all (\<lambda>c. latin_lower c \<noteq> CHR ''p'') ?url" by code_simp
  then have no_url: "database_url_length p (c # cs) = None" if "c \<in> set ?url" for p c cs
    using that database_url_first unfolding list_all_iff by blast
  let ?m = "replace_all secret_length ?key None message"
  have "\<not> occurs secret_length None ?m"
    by (rule secret.replaced_clean[OF secret.pattern_axioms]) (auto intro: no_secret)
  then show "\<not> occurs secret_length None (safeMessage message)"
    unfolding safeMessage_def
    by (intro secret.replaced_clean[OF database_url.pattern_axioms]) (auto intro: no_secret)
  show "\<not> occurs database_url_length None (safeMessage message)"
    unfolding safeMessage_def
    by (rule database_url.replaced_clean[OF database_url.pattern_axioms]) (auto intro: no_url)
qed

section \<open>Integers are read exactly\<close>

definition integer_value :: "string \<Rightarrow> int" where
  "integer_value s =
    (case s of [] \<Rightarrow> 0 | c # ds \<Rightarrow> if c = CHR ''-'' then - int (digits_val ds) else int (digits_val s))"

lemma minus_no_digit: "is_digit c \<Longrightarrow> c \<noteq> CHR ''-''"
  by (auto simp: is_digit_def)

lemma Number_minus:
  assumes "digits_text ds"
  shows "Number (CHR ''-'' # ds) = to_double True (digits_val ds) 1"
proof -
  let ?s = "CHR ''-'' # ds"
  have d: "ds \<noteq> []" "list_all is_digit ds" using assms by (simp_all add: digits_text_def)
  have "list_all (\<lambda>c. \<not> js_space c) ?s"
    using d(2) by (auto simp: list_all_iff digit_no_space) (simp add: js_space_def)
  then have trimmed: "trim ?s = ?s" by (rule trim_no_space)
  have prefix: "based_prefix ?s = None" by (simp add: based_prefix_def split: list.split)
  have sign: "sign_split ?s = (True, ds)" by (simp add: sign_split_def)
  have "ds \<noteq> ''Infinity''" using d(2) by (auto simp: is_digit_def)
  then have "Number ?s = decimal_literal True ds"
    unfolding Number_def trimmed Let_def prefix sign by simp
  then show ?thesis using decimal_literal_digits[OF d] by simp
qed

lemma Number_integer_text:
  assumes "integer_text neg s"
  obtains b n where "Number s = to_double b n 1" "integer_value s = signed b (int n)"
proof (cases "digits_text s")
  case True
  then have d: "s \<noteq> []" "list_all is_digit s" by (simp_all add: digits_text_def)
  then have "integer_value s = signed False (int (digits_val s))"
    by (cases s) (auto simp: integer_value_def signed_def minus_no_digit)
  then show ?thesis using Number_digits[OF d] that by blast
next
  case False
  then obtain ds where "s = CHR ''-'' # ds" "digits_text ds"
    using assms by (cases s) (auto simp: integer_text_def)
  then show ?thesis using Number_minus[of ds] that[of True "digits_val ds"]
    by (simp add: integer_value_def signed_def)
qed

lemma parseInteger_Inr_iff:
  assumes "minimum = (case given of Some m \<Rightarrow> m | None \<Rightarrow> if neg then - MAX_LICENSE_LIMIT else 0)"
    and "- MAX_LICENSE_LIMIT \<le> minimum"
  shows "parseInteger label given neg s = Inr n \<longleftrightarrow>
    integer_text neg s \<and> n = integer_value s \<and> minimum \<le> n \<and> n \<le> MAX_LICENSE_LIMIT"
proof (cases "integer_text neg s")
  case True
  then obtain b k where num: "Number s = to_double b k 1" and v: "integer_value s = signed b (int k)"
    by (rule Number_integer_text)
  have limit: "MAX_LICENSE_LIMIT < MAX_SAFE_INTEGER"
    by (simp add: MAX_LICENSE_LIMIT_def MAX_SAFE_INTEGER_def)
  show ?thesis
  proof (cases "int k \<le> MAX_SAFE_INTEGER")
    case True
    then have "Number s = Integral (signed b (int k))"
      unfolding num by (intro to_double_integer) (simp add: MAX_SAFE_INTEGER_def)
    moreover have "isSafeInteger (Number s)" using True by (simp add: num safe_to_double del: One_nat_def)
    ultimately show ?thesis using \<open>integer_text neg s\<close>
      by (auto simp: parseInteger_def Let_def assms(1)[symmetric] v)
  next
    case False
    then have "\<not> isSafeInteger (Number s)" by (simp add: num safe_to_double del: One_nat_def)
    moreover have "\<not> (minimum \<le> integer_value s \<and> integer_value s \<le> MAX_LICENSE_LIMIT)"
      using False limit assms(2) by (auto simp: v signed_def)
    ultimately show ?thesis by (auto simp: parseInteger_def Let_def)
  qed
qed (simp add: parseInteger_def)

section \<open>Properties\<close>

text \<open>
  C39: the command line reads an integer as it is written. An option that takes an integer accepts
  exactly the texts of digits (with a sign where a negative value makes sense) whose value is in
  the option's range, and passes on that value: the detour through a double never changes it, not
  even for texts far beyond \<open>2 ^ 53\<close>.
\<close>

theorem integers_are_read_exactly:
  "(parseNonNegativeInteger s = Inr n \<longleftrightarrow>
      integer_text False s \<and> n = integer_value s \<and> 0 \<le> n \<and> n \<le> MAX_LICENSE_LIMIT) \<and>
    (parsePositiveInteger s = Inr n \<longleftrightarrow>
      integer_text False s \<and> n = integer_value s \<and> 1 \<le> n \<and> n \<le> MAX_LICENSE_LIMIT) \<and>
    (parseNonZeroInteger s = Inr n \<longleftrightarrow>
      integer_text True s \<and> n = integer_value s \<and> n \<noteq> 0 \<and>
      - MAX_LICENSE_LIMIT \<le> n \<and> n \<le> MAX_LICENSE_LIMIT)"
proof -
  have "0 \<le> MAX_LICENSE_LIMIT" by (simp add: MAX_LICENSE_LIMIT_def)
  then have "parseNonNegativeInteger s = Inr n \<longleftrightarrow>
      integer_text False s \<and> n = integer_value s \<and> 0 \<le> n \<and> n \<le> MAX_LICENSE_LIMIT"
    "parsePositiveInteger s = Inr n \<longleftrightarrow>
      integer_text False s \<and> n = integer_value s \<and> 1 \<le> n \<and> n \<le> MAX_LICENSE_LIMIT"
    unfolding parseNonNegativeInteger_def parsePositiveInteger_def
    by (subst parseInteger_Inr_iff[OF refl]; simp)+
  moreover have "parseInteger ''value'' None True s = Inr k \<longleftrightarrow>
      integer_text True s \<and> k = integer_value s \<and> - MAX_LICENSE_LIMIT \<le> k \<and> k \<le> MAX_LICENSE_LIMIT" for k
    by (subst parseInteger_Inr_iff[OF refl]; simp)
  then have "parseNonZeroInteger s = Inr n \<longleftrightarrow> integer_text True s \<and> n = integer_value s \<and> n \<noteq> 0 \<and>
      - MAX_LICENSE_LIMIT \<le> n \<and> n \<le> MAX_LICENSE_LIMIT"
    by (auto simp: parseNonZeroInteger_def)
  ultimately show ?thesis by blast
qed

end
