(* ===== verification/CliCommands.thy ===== *)
theory CliCommands
  imports CliParsers Composition
begin

text \<open>
  \<open>cli/commands/\<close> and \<open>cli/index.ts\<close>: the commands of \<open>keyzori admin\<close>. A command holds the texts of
  its arguments and options as they were typed; the option library has split the command line,
  and has refused a command without its required options. \<open>command_plan\<close> parses the options (an
  error there is the library's to report), and gives the words a failure is reported with and the
  rest of the handler: an error, or the service call, what of its answer is printed, and whether
  a licence key may be shown. \<open>run_cli\<close> runs it.
\<close>

section \<open>Options\<close>

definition option_parsed :: "('a \<Rightarrow> 'b parsed) \<Rightarrow> 'a option \<Rightarrow> 'b option parsed" where
  "option_parsed f v = (case v of None \<Rightarrow> Inr None | Some s \<Rightarrow> bindR (f s) (\<lambda>x. Inr (Some x)))"

record license_flags =
  lf_type :: "string option"
  lf_maxIps :: "string option"
  lf_maxDevices :: "string option"
  lf_maxSessions :: "string option"
  lf_trialDurationMinutes :: "string option"
  lf_metadata :: "string option"
  lf_expiresAt :: "string option"
  lf_meter :: "string list"
  lf_meterReason :: "string option"

record common_options =
  co_type :: "license_type option"
  co_maxIps :: "int option"
  co_maxDevices :: "int option"
  co_maxSessions :: "int option"
  co_trialDurationMinutes :: "int option"
  co_metadata :: "json_object option"
  co_expiresAt :: "string option"
  co_meter :: "collected_meter list"
  co_meterReason :: "string option"

fun collect_meters :: "cli_host \<Rightarrow> string list \<Rightarrow> collected_meter list \<Rightarrow> collected_meter list parsed" where
  "collect_meters host [] previous = Inr previous"
| "collect_meters host (v # vs) previous =
    bindR (collectMeter host v previous) (\<lambda>collected. collect_meters host vs collected)"

definition addLicenseOptions :: "cli_host \<Rightarrow> bool \<Rightarrow> license_flags \<Rightarrow> common_options parsed" where
  "addLicenseOptions host create flags =
    bindR (option_parsed parseLicenseType (lf_type flags)) (\<lambda>ty.
    bindR (option_parsed parseNonNegativeInteger (lf_maxIps flags)) (\<lambda>maxIps.
    bindR (option_parsed parseNonNegativeInteger (lf_maxDevices flags)) (\<lambda>maxDevices.
    bindR (option_parsed parseNonNegativeInteger (lf_maxSessions flags)) (\<lambda>maxSessions.
    bindR (option_parsed parsePositiveInteger (lf_trialDurationMinutes flags)) (\<lambda>trial.
    bindR (option_parsed (parseMetadata host) (lf_metadata flags)) (\<lambda>metadata.
    bindR (option_parsed (parseIsoDate host) (lf_expiresAt flags)) (\<lambda>expiresAt.
    bindR (collect_meters host (lf_meter flags) []) (\<lambda>meter.
    bindR (option_parsed parseReason (lf_meterReason flags)) (\<lambda>meterReason.
    Inr \<lparr>co_type = (if ty = None \<and> create then Some Lifetime else ty), co_maxIps = maxIps,
      co_maxDevices = maxDevices, co_maxSessions = maxSessions, co_trialDurationMinutes = trial,
      co_metadata = metadata, co_expiresAt = expiresAt, co_meter = meter,
      co_meterReason = meterReason\<rparr>)))))))))"

definition cli_meters :: "common_options \<Rightarrow> create_meter_input list parsed" where
  "cli_meters options =
    (if co_meter options = [] then Inr []
     else
       (case co_meterReason options of
         None \<Rightarrow> Inl ''--meter-reason is required when --meter is provided.''
       | Some r \<Rightarrow>
           if r = [] then Inl ''--meter-reason is required when --meter is provided.''
           else Inr (map (\<lambda>(name, balance). \<lparr>cm_name = name, cm_balance = Integral balance,
             cm_reason = r\<rparr>) (co_meter options))))"

definition given_meters :: "common_options \<Rightarrow> create_meter_input list option parsed" where
  "given_meters options =
    (if co_meter options = [] then Inr None else bindR (cli_meters options) (\<lambda>ms. Inr (Some ms)))"

definition createInput :: "string \<Rightarrow> common_options \<Rightarrow> create_license_input parsed" where
  "createInput customerId options =
    bindR (requireValue customerId ''customerId'') (\<lambda>customer.
    bindR (given_meters options) (\<lambda>ms.
    Inr \<lparr>cl_customerId = customer,
      cl_type = (case co_type options of None \<Rightarrow> Lifetime | Some ty \<Rightarrow> ty),
      cl_maxIps = map_option Integral (co_maxIps options),
      cl_maxDevices = map_option Integral (co_maxDevices options),
      cl_maxSessions = map_option Integral (co_maxSessions options),
      cl_trialDurationMinutes = map_option Integral (co_trialDurationMinutes options),
      cl_metadata = co_metadata options, cl_expiresAt = co_expiresAt options, cl_meters = ms\<rparr>))"

definition updateInput ::
    "string option \<Rightarrow> common_options \<Rightarrow> bool \<Rightarrow> bool \<Rightarrow> update_license_input parsed" where
  "updateInput customerId options clearExpiresAt unlinkStripe =
    (if clearExpiresAt \<and> co_expiresAt options \<noteq> None
     then Inl ''--expires-at and --clear-expires-at cannot be used together.''
     else
       bindR (option_parsed (\<lambda>s. requireValue s ''customerId'') customerId) (\<lambda>customer.
       bindR (given_meters options) (\<lambda>ms.
       Inr \<lparr>ul_customerId = customer, ul_type = co_type options,
         ul_maxIps = map_option Integral (co_maxIps options),
         ul_maxDevices = map_option Integral (co_maxDevices options),
         ul_maxSessions = map_option Integral (co_maxSessions options),
         ul_trialDurationMinutes = map_option Integral (co_trialDurationMinutes options),
         ul_metadata = co_metadata options,
         ul_expiresAt = (if clearExpiresAt then Some None else map_option Some (co_expiresAt options)),
         ul_meters = ms, ul_unlinkStripe = (if unlinkStripe then Some True else None)\<rparr>)))"

section \<open>Plans\<close>

record planned =
  pl_call :: admin_call
  pl_reveal :: bool
  pl_print :: "json \<Rightarrow> json"

type_synonym plan = "(string \<times> planned parsed) parsed"

definition shown :: "admin_call \<Rightarrow> planned parsed" where
  "shown call = Inr \<lparr>pl_call = call, pl_reveal = False, pl_print = (\<lambda>v. v)\<rparr>"

definition revealed :: "admin_call \<Rightarrow> planned parsed" where
  "revealed call = Inr \<lparr>pl_call = call, pl_reveal = True, pl_print = (\<lambda>v. v)\<rparr>"

definition reported :: "admin_call \<Rightarrow> (json \<Rightarrow> json_object) \<Rightarrow> planned parsed" where
  "reported call f = Inr \<lparr>pl_call = call, pl_reveal = False, pl_print = (\<lambda>v. JObj (f v))\<rparr>"

definition on_license :: "string \<Rightarrow> (string \<Rightarrow> planned parsed) \<Rightarrow> planned parsed" where
  "on_license licenseId f = bindR (requireValue licenseId ''licenseId'') f"

datatype customer_command =
    Customers_create string string "string option"
  | Customers_list
  | Customers_get string
  | Customers_update string "string option" "string option" "string option"
  | Customers_delete string

fun customer_plan :: "cli_host \<Rightarrow> customer_command \<Rightarrow> plan" where
  "customer_plan host (Customers_create email name metadata) =
    bindR (option_parsed (parseMetadata host) metadata) (\<lambda>m.
    Inr (''Failed to create customer'',
      bindR (requireValue email ''email'') (\<lambda>e.
      bindR (requireValue name ''name'') (\<lambda>n.
      shown (Call_createCustomer e n (case m of None \<Rightarrow> [] | Some kvs \<Rightarrow> kvs))))))"
| "customer_plan host Customers_list = Inr (''Failed to list customers'', shown Call_listCustomers)"
| "customer_plan host (Customers_get i) =
    Inr (''Failed to get customer'',
      bindR (requireValue i ''customerId'') (\<lambda>customer. shown (Call_getCustomer customer)))"
| "customer_plan host (Customers_update i email name metadata) =
    bindR (option_parsed (parseMetadata host) metadata) (\<lambda>m.
    Inr (''Failed to update customer'',
      bindR (option_parsed (\<lambda>s. requireValue s ''email'') email) (\<lambda>e.
      bindR (option_parsed (\<lambda>s. requireValue s ''name'') name) (\<lambda>n.
      bindR (requireValue i ''customerId'') (\<lambda>customer.
      shown (Call_updateCustomer customer \<lparr>uc_email = e, uc_name = n, uc_metadata = m\<rparr>))))))"
| "customer_plan host (Customers_delete i) =
    Inr (''Failed to delete customer'',
      bindR (requireValue i ''customerId'') (\<lambda>customer.
      reported (Call_deleteCustomer customer)
        (\<lambda>_. [(''deleted'', JBool True), (''customerId'', JStr customer)])))"

datatype license_command =
    Licenses_create string license_flags
  | Licenses_list
  | Licenses_get string
  | Licenses_update string "string option" license_flags bool bool
  | Licenses_delete string
  | Licenses_renew string string
  | Licenses_revoke string "string option"
  | Licenses_restore string
  | Licenses_rotate string

fun license_plan :: "cli_host \<Rightarrow> license_command \<Rightarrow> plan" where
  "license_plan host (Licenses_create customerId flags) =
    bindR (addLicenseOptions host True flags) (\<lambda>options.
    Inr (''Failed to create license'',
      bindR (createInput customerId options) (\<lambda>data. revealed (Call_createLicense data))))"
| "license_plan host Licenses_list = Inr (''Failed to list licenses'', shown Call_listLicenses)"
| "license_plan host (Licenses_get i) =
    Inr (''Failed to get license'', on_license i (\<lambda>l. shown (Call_getLicense l)))"
| "license_plan host (Licenses_update i customerId flags clearExpiresAt unlinkStripe) =
    bindR (addLicenseOptions host False flags) (\<lambda>options.
    Inr (''Failed to update license'', on_license i (\<lambda>l.
      bindR (updateInput customerId options clearExpiresAt unlinkStripe) (\<lambda>data.
      shown (Call_updateLicense l data)))))"
| "license_plan host (Licenses_delete i) =
    Inr (''Failed to delete license'', on_license i (\<lambda>l.
      reported (Call_deleteLicense l) (\<lambda>_. [(''deleted'', JBool True), (''licenseId'', JStr l)])))"
| "license_plan host (Licenses_renew i expiresAt) =
    bindR (parseIsoDate host expiresAt) (\<lambda>t.
    Inr (''Failed to renew license'', on_license i (\<lambda>l. shown (Call_renewSubscription l t))))"
| "license_plan host (Licenses_revoke i given) =
    bindR (option_parsed parseReason given) (\<lambda>r.
    Inr (''Failed to revoke license'', on_license i (\<lambda>l.
      shown (Call_revokeLicense l (case r of None \<Rightarrow> ''Revoked by operator'' | Some t \<Rightarrow> t)))))"
| "license_plan host (Licenses_restore i) =
    Inr (''Failed to restore license'', on_license i (\<lambda>l. shown (Call_restoreLicense l)))"
| "license_plan host (Licenses_rotate i) =
    Inr (''Failed to rotate license key'', on_license i (\<lambda>l. revealed (Call_rotateLicenseKey l)))"

datatype access_command =
    Access_show string
  | Access_allow_ip string string
  | Access_remove_allowed_ip string string
  | Access_allow_device string string
  | Access_remove_allowed_device string string
  | Access_remove_registered_ip string string
  | Access_remove_registered_device string string
  | Access_reset_registered_devices string
  | Access_terminate_sessions string

definition with_value :: "string \<Rightarrow> string \<Rightarrow> string \<Rightarrow> (string \<Rightarrow> string \<Rightarrow> planned parsed) \<Rightarrow> planned parsed" where
  "with_value i v label f = on_license i (\<lambda>l. bindR (requireValue v label) (f l))"

definition removed_from :: "string \<Rightarrow> string \<Rightarrow> string \<Rightarrow> json \<Rightarrow> json_object" where
  "removed_from l label v = (\<lambda>removed. [(''licenseId'', JStr l), (label, JStr v), (''removed'', removed)])"

fun access_plan :: "access_command \<Rightarrow> plan" where
  "access_plan (Access_show i) =
    Inr (''Failed to get license access'', on_license i (\<lambda>l. shown (Call_getLicenseAccess l)))"
| "access_plan (Access_allow_ip i ip) =
    Inr (''Failed to allow IP'', with_value i ip ''ip'' (\<lambda>l v. shown (Call_allowLicenseIp l v)))"
| "access_plan (Access_remove_allowed_ip i ip) =
    Inr (''Failed to remove allowed IP'', with_value i ip ''ip'' (\<lambda>l v.
      reported (Call_removeLicenseAllowedIp l v) (removed_from l ''ip'' v)))"
| "access_plan (Access_allow_device i d) =
    Inr (''Failed to allow device'', with_value i d ''deviceId'' (\<lambda>l v.
      shown (Call_allowLicenseDevice l v)))"
| "access_plan (Access_remove_allowed_device i d) =
    Inr (''Failed to remove allowed device'', with_value i d ''deviceId'' (\<lambda>l v.
      reported (Call_removeLicenseAllowedDevice l v) (removed_from l ''deviceId'' v)))"
| "access_plan (Access_remove_registered_ip i ip) =
    Inr (''Failed to remove registered IP'', with_value i ip ''ip'' (\<lambda>l v.
      reported (Call_removeRegisteredIp l v) (removed_from l ''ip'' v)))"
| "access_plan (Access_remove_registered_device i d) =
    Inr (''Failed to remove registered device'', with_value i d ''deviceId'' (\<lambda>l v.
      reported (Call_removeRegisteredDevice l v) (removed_from l ''deviceId'' v)))"
| "access_plan (Access_reset_registered_devices i) =
    Inr (''Failed to reset registered devices'', on_license i (\<lambda>l.
      reported (Call_resetRegisteredDevices l)
        (\<lambda>removed. [(''licenseId'', JStr l), (''removed'', removed)])))"
| "access_plan (Access_terminate_sessions i) =
    Inr (''Failed to terminate sessions'', on_license i (\<lambda>l.
      reported (Call_terminateLicenseSessions l)
        (\<lambda>removed. [(''licenseId'', JStr l), (''removed'', removed)])))"

datatype meter_command =
    Meters_list string bool
  | Meters_create string string string string
  | Meters_archive string string string
  | Meters_top_up string string string string
  | Meters_adjust string string string string
  | Meters_ledger string "string option"

definition on_meter :: "string \<Rightarrow> string \<Rightarrow> (string \<Rightarrow> string \<Rightarrow> planned parsed) \<Rightarrow> planned parsed" where
  "on_meter i name f = with_value i name ''meter name'' f"

fun meter_plan :: "meter_command \<Rightarrow> plan" where
  "meter_plan (Meters_list i includeArchived) =
    Inr (''Failed to list meters'', on_license i (\<lambda>l. shown (Call_listLicenseMeters l includeArchived)))"
| "meter_plan (Meters_create i name balance given) =
    bindR (parseNonNegativeInteger balance) (\<lambda>n. bindR (parseReason given) (\<lambda>r.
    Inr (''Failed to create meter'', on_meter i name (\<lambda>l m.
      shown (Call_createLicenseMeter l \<lparr>cm_name = m, cm_balance = Integral n, cm_reason = r\<rparr>)))))"
| "meter_plan (Meters_archive i name given) =
    bindR (parseReason given) (\<lambda>r.
    Inr (''Failed to archive meter'', on_meter i name (\<lambda>l m. shown (Call_archiveLicenseMeter l m r))))"
| "meter_plan (Meters_top_up i name units given) =
    bindR (parsePositiveInteger units) (\<lambda>n. bindR (parseReason given) (\<lambda>r.
    Inr (''Failed to top up meter'', on_meter i name (\<lambda>l m.
      shown (Call_topUpLicenseMeter l m (Integral n) r)))))"
| "meter_plan (Meters_adjust i name delta given) =
    bindR (parseNonZeroInteger delta) (\<lambda>n. bindR (parseReason given) (\<lambda>r.
    Inr (''Failed to adjust meter'', on_meter i name (\<lambda>l m.
      shown (Call_adjustLicenseMeter l m (Integral n) r)))))"
| "meter_plan (Meters_ledger i meter) =
    Inr (''Failed to list meter ledger'', on_license i (\<lambda>l.
      bindR (option_parsed (\<lambda>s. requireValue s ''meter name'') meter) (\<lambda>m.
      shown (Call_listLicenseUsageLedger l m))))"

datatype cli_command =
    Customers customer_command
  | Licenses license_command
  | Access access_command
  | Meters meter_command

fun command_plan :: "cli_host \<Rightarrow> cli_command \<Rightarrow> plan" where
  "command_plan host (Customers c) = customer_plan host c"
| "command_plan host (Licenses c) = license_plan host c"
| "command_plan host (Access c) = access_plan c"
| "command_plan host (Meters c) = meter_plan c"

section \<open>Running a command\<close>

fun cli_answer :: "(int \<Rightarrow> string) \<Rightarrow> admin_answer \<Rightarrow> json" where
  "cli_answer toISO (Ans_customer c) = customer_json toISO c"
| "cli_answer toISO (Ans_customers cs) = JArr (map (customer_json toISO) cs)"
| "cli_answer toISO (Ans_license l) = managed_json toISO l []"
| "cli_answer toISO (Ans_licenses ls) = JArr (map (\<lambda>l. managed_json toISO l []) ls)"
| "cli_answer toISO (Ans_revealed l) = managed_json toISO l (revealed_key l)"
| "cli_answer toISO Ans_done = JNull"
| "cli_answer toISO (Ans_count n) = number_json n"
| "cli_answer toISO (Ans_access r) = access_json toISO r"
| "cli_answer toISO (Ans_ip c) = change_json (ip_allow_json toISO) c"
| "cli_answer toISO (Ans_device c) = change_json (device_allow_json toISO) c"
| "cli_answer toISO (Ans_flag b) = JBool b"
| "cli_answer toISO (Ans_meter m) = meter_json toISO m"
| "cli_answer toISO (Ans_meters ms) = JArr (map (meter_json toISO) ms)"
| "cli_answer toISO (Ans_ledger es) = JArr (map (ledger_json toISO) es)"

record cli_result =
  ox_stdout :: "json option"
  ox_stderr :: "string option"
  ox_exitCode :: int

definition createRuntimeAdminService :: "host \<Rightarrow> environment \<Rightarrow> admin io" where
  "createRuntimeAdminService h environment =
    (let configured = (\<lambda>name. case environment name of None \<Rightarrow> False | Some v \<Rightarrow> trim v \<noteq> []) in
     bindIO (orThrow (checkR (configured ''KEYZORI_DATABASE_URL'') ''KEYZORI_DATABASE_URL must be configured.''))
       (\<lambda>_.
     bindIO (orThrow (checkR (configured ''KEYZORI_REDIS_URL'') ''KEYZORI_REDIS_URL must be configured.''))
       (\<lambda>_. createConnectedAdminService h environment)))"

definition runCommand :: "cli_host \<Rightarrow> string \<Rightarrow> json io \<Rightarrow> cli_result io" where
  "runCommand host action handler =
    catchIO (bindIO handler (\<lambda>v. returnIO \<lparr>ox_stdout = Some v, ox_stderr = None, ox_exitCode = 0\<rparr>))
      (\<lambda>e. returnIO \<lparr>ox_stdout = None, ox_stderr = Some (reportCommandError action (error_text host e)),
        ox_exitCode = 1\<rparr>)"

definition perform :: "host \<Rightarrow> environment \<Rightarrow> planned \<Rightarrow> json io" where
  "perform h environment p =
    bindIO (createRuntimeAdminService h environment) (\<lambda>ad.
    bindIO (run_admin ad (pl_call p)) (\<lambda>a.
    bindIO (askIO e_toISO) (\<lambda>toISO.
    returnIO (printJson (pl_print p (cli_answer toISO a)) (pl_reveal p)))))"

definition run_cli :: "host \<Rightarrow> environment \<Rightarrow> cli_host \<Rightarrow> cli_command \<Rightarrow> cli_result io" where
  "run_cli h environment host command =
    (case command_plan host command of
      Inl message \<Rightarrow> returnIO \<lparr>ox_stdout = None, ox_stderr = Some message, ox_exitCode = 1\<rparr>
    | Inr (action, plan) \<Rightarrow>
        runCommand host action (bindIO (orThrow plan) (perform h environment)))"

text \<open>The command line keeps the database consistent, like the other entry points.\<close>

lemma run_cli_consistent: "keeps_db consistent (run_cli h environment host command)"
  unfolding run_cli_def runCommand_def perform_def createRuntimeAdminService_def Let_def
  by (cases "command_plan host command") (auto intro!: keeps_db_rules keeps_db_run_admin)

section \<open>What a command prints\<close>

definition label_text :: "string \<Rightarrow> bool" where
  "label_text s \<longleftrightarrow> list_all (\<lambda>c. c \<noteq> CHR ''_'' \<and> c \<noteq> CHR '':'' \<and> c \<noteq> CHR ''/'') s"

text \<open>The two commands that hand out a licence key.\<close>

fun hands_out_key :: "cli_command \<Rightarrow> bool" where
  "hands_out_key (Licenses (Licenses_create _ _)) = True"
| "hands_out_key (Licenses (Licenses_rotate _)) = True"
| "hands_out_key _ = False"

named_theorems plan_defs \<open>the parts of a plan\<close>

declare shown_def [plan_defs] revealed_def [plan_defs] reported_def [plan_defs]
  on_license_def [plan_defs] with_value_def [plan_defs] on_meter_def [plan_defs]

lemma bindR_Inr [plan_defs]:
  "bindR m f = Inr y \<longleftrightarrow> (\<exists>x. m = Inr x \<and> f x = Inr y)"
  "Inr y = bindR m f \<longleftrightarrow> (\<exists>x. m = Inr x \<and> f x = Inr y)"
  by (cases m; auto)+

lemma plan_label: "command_plan host command = Inr (action, plan) \<Longrightarrow> label_text action"
  by (induction host command rule: command_plan.induct)
    (auto simp: label_text_def bindR_Inr elim!: customer_plan.elims license_plan.elims
      access_plan.elims meter_plan.elims)

lemma plan_reveal:
  "command_plan host command = Inr (action, Inr p) \<Longrightarrow> pl_reveal p \<Longrightarrow> hands_out_key command"
  by (induction host command rule: command_plan.induct)
    (auto simp: plan_defs elim!: customer_plan.elims license_plan.elims access_plan.elims
      meter_plan.elims)

lemma secret_after_word: "secret_length (Some (CHR '' '')) s = secret_length None s"
  and url_after_word: "database_url_length (Some (CHR '' '')) s = database_url_length None s"
  by (simp_all add: secret_length_def database_url_length_def word_char_at_def word_char_def is_digit_def)

text \<open>No match runs over the colon after a label.\<close>

lemma label_no_secret: "label_text a \<Longrightarrow> secret_length p (a @ '': '' @ t) = None"
  unfolding secret_length_None_iff label_text_def
  by (auto simp: append_eq_Cons_conv Cons_eq_append_conv)

lemma lower_slash: "latin_lower c = CHR ''/'' \<Longrightarrow> c = CHR ''/''"
proof -
  assume *: "latin_lower c = CHR ''/''"
  have "(of_char (latin_lower c) :: nat) = of_char (CHR ''/'')" by (simp add: *)
  then have "(of_char c :: nat) = of_char (CHR ''/'')"
    by (auto simp: of_char_latin_lower Let_def split: if_splits)
  then show ?thesis by (simp only: of_char_eq_iff)
qed

lemma label_no_url:
  assumes "label_text a"
  shows "database_url_length p (a @ '': '' @ t) = None"
proof -
  let ?s = "(a @ '':'') @ '' '' @ t"
  have "\<not> starts_lower ?s k" if k: "k \<in> set url_prefixes" for k
  proof
    assume "starts_lower ?s k"
    then have lower: "k = map latin_lower (take (length k) ?s)"
      by (simp add: starts_lower_def toLowerCase_def)
    show False
    proof (cases "length k \<le> length (a @ '':'')")
      case True
      have "CHR ''/'' \<in> set k" using k by (auto simp: url_prefixes_def)
      then have "CHR ''/'' \<in> set (map latin_lower (take (length k) ?s))" using lower by simp
      then obtain c where "c \<in> set (take (length k) ?s)" "latin_lower c = CHR ''/''"
        unfolding set_map by (metis imageE)
      then have "CHR ''/'' \<in> set (take (length k) ?s)" using lower_slash by blast
      then have "CHR ''/'' \<in> set (take (length k) (a @ '':''))" using True by (simp only: take_append) simp
      then have "CHR ''/'' \<in> set (a @ '':'')" by (rule in_set_takeD)
      then show False using assms by (auto simp: label_text_def list_all_iff)
    next
      case False
      then have "CHR '' '' \<in> set (take (length k - length (a @ '':'')) ('' '' @ t))"
        by (cases "length k - length (a @ '':'')") simp_all
      then have "CHR '' '' \<in> set (take (length k) ?s)"
        unfolding take_append[of "length k" "a @ '':''"] set_append by (rule UnI2)
      then have "latin_lower (CHR '' '') \<in> set (map latin_lower (take (length k) ?s))"
        by (simp only: set_map) (rule imageI)
      then have "latin_lower (CHR '' '') \<in> set k" unfolding lower[symmetric] .
      moreover have "latin_lower (CHR '' '') = CHR '' ''" by code_simp
      ultimately show False using k by (auto simp: url_prefixes_def)
    qed
  qed
  then show ?thesis unfolding database_url_None_iff by simp
qed

lemma label_occurs:
  assumes "\<And>p a. label_text a \<Longrightarrow> m p (a @ '': '' @ t) = None"
    and "\<And>p. m p (CHR '' '' # t) = None"
    and "\<And>s. m (Some (CHR '' '')) s = m None s"
    and "\<not> occurs m None t"
  shows "label_text a \<Longrightarrow> \<not> occurs m p (a @ '': '' @ t)"
proof (induction a arbitrary: p)
  case Nil
  have "\<not> occurs m (Some (CHR '' '')) t" using assms(4,3) by (cases t) auto
  moreover have "m p ('': '' @ t) = None" using assms(1)[of "[]"] by (simp add: label_text_def)
  ultimately show ?case using assms(2) by simp
next
  case (Cons c a)
  then have "m p ((c # a) @ '': '' @ t) = None" by (intro assms(1))
  then show ?case using Cons by (simp add: label_text_def)
qed

lemma report_clean:
  assumes "label_text action"
  shows "\<not> occurs secret_length None (reportCommandError action message)"
    "\<not> occurs database_url_length None (reportCommandError action message)"
  unfolding reportCommandError_def
  by (intro label_occurs assms label_no_secret label_no_url safeMessage_redacted secret_after_word
      url_after_word secret.no_match_here database_url.no_match_here;
      simp add: word_char_def is_digit_def)+

lemma perform_free:
  assumes "perform h environment p env w = (Inr v, w')" "\<not> pl_reveal p"
  shows "free_of (\<lambda>key. key = ''licenseKey'') v"
  using assms by (auto simp: perform_def bindIO_Inr_iff printJson_def omitLicenseSecrets_def drop_members_free)

text \<open>
  C22: the command line never leaks a secret. A command that parses always comes to an end with an
  exit code: it prints a result and leaves 0, or it reports one line and leaves another code.
  Whatever text the error carries, the line reported contains no licence key or API key (a word
  that starts with \<open>lic_\<close> or \<open>sk_\<close>) and no URL of the database at any position; and a result
  printed has no \<open>licenseKey\<close> member at any depth, unless the command is one of the two that hand
  out a new key.
\<close>

theorem commands_print_no_secrets:
  assumes "command_plan host command = Inr (action, plan)"
  shows "\<exists>r w'. run_cli h environment host command env w = (Inr r, w') \<and>
    (ox_exitCode r = 0) = (ox_stderr r = None) \<and>
    (\<forall>line \<in> set_option (ox_stderr r).
      \<not> occurs secret_length None line \<and> \<not> occurs database_url_length None line) \<and>
    (hands_out_key command \<or> (\<forall>v \<in> set_option (ox_stdout r). free_of (\<lambda>key. key = ''licenseKey'') v))"
proof -
  let ?m = "bindIO (orThrow plan) (perform h environment)"
  have run: "run_cli h environment host command = runCommand host action ?m"
    using assms by (simp add: run_cli_def)
  show ?thesis
  proof (cases "?m env w")
    case (Pair x w')
    show ?thesis
    proof (cases x)
      case (Inl e)
      then show ?thesis using Pair report_clean[OF plan_label[OF assms], of "error_text host e"]
        by (simp add: run runCommand_def bindIO_fail catchIO_fail bindIO_run catchIO_run)
    next
      case (Inr v)
      have "hands_out_key command \<or> free_of (\<lambda>key. key = ''licenseKey'') v"
        using Pair Inr assms plan_reveal perform_free
        by (fastforce simp: bindIO_Inr_iff orThrow_Inr_iff)
      then show ?thesis using Pair Inr
        by (simp add: run runCommand_def bindIO_fail catchIO_fail bindIO_run catchIO_run)
    qed
  qed
qed

definition sample_cli :: cli_host where
  "sample_cli = \<lparr>ch_parseJson = (\<lambda>s. None), ch_parseDate = (\<lambda>s. None), ch_toISO = (\<lambda>t. []),
    ch_quote = (\<lambda>s. s), ch_errorText = (\<lambda>e. ''Error'')\<rparr>"

theorem commands_print_no_secrets_witness:
  "\<exists>r w'. run_cli sample_host (\<lambda>name. Some name) sample_cli (Licenses Licenses_list) sample_env
      (sample_world Lifetime) = (Inr r, w') \<and> (ox_exitCode r = 0) = (ox_stderr r = None) \<and>
    (\<forall>v \<in> set_option (ox_stdout r). free_of (\<lambda>key. key = ''licenseKey'') v)"
proof -
  have "command_plan sample_cli (Licenses Licenses_list) = Inr (''Failed to list licenses'', shown Call_listLicenses)"
    by simp
  from commands_print_no_secrets[OF this] show ?thesis by fastforce
qed

end
