(* ===== verification/System.thy ===== *)
theory System
  imports ServerRuntime CliCommands
begin

text \<open>
  The whole system on one database: servers with their routes, webhook workers and retention jobs,
  and the command line, in any order and any number. A step is one request, one command or one job
  from its start to its end; what runs at the same time is part of the environment of the step.
\<close>

inductive system_step :: "db \<Rightarrow> db \<Rightarrow> bool" where
  sys_request: "rely consistent env \<Longrightarrow> server_serve h fm rt rq = Some m \<Longrightarrow> m env w = (res, w') \<Longrightarrow>
    system_step (w_db w) (w_db w')"
| sys_command: "rely consistent env \<Longrightarrow> run_cli h environment host command env w = (r, w') \<Longrightarrow>
    system_step (w_db w) (w_db w')"
| sys_job: "rely consistent env \<Longrightarrow> job \<in> {Req_batch, Req_prune} \<Longrightarrow>
    serve_request sv job env w = (u, w') \<Longrightarrow> system_step (w_db w) (w_db w')"

inductive_cases system_stepE: "system_step d d'"

interpretation system: transition_system consistent system_step consistent
proof
  show "consistent d \<Longrightarrow> consistent d" for d .
  show "consistent d \<Longrightarrow> system_step d d' \<Longrightarrow> consistent d'" for d d'
    by (erule system_stepE)
      (metis keeps_dbD server_serve_consistent run_cli_consistent keeps_db_serve)+
qed

text \<open>
  C1: whatever is requested of the system, and whatever fails on the way, the database stays
  consistent. From the empty database, or any consistent one, after any sequence of HTTP requests
  to any path with any body, of commands of the command line, of webhook batches and of retention
  jobs, each run in any environment (lost calls, any clocks and random values, other requests
  between its steps as long as they keep the database consistent): every constraint of the schema
  holds; every meter's balance is the sum of its ledger entries and lies between 0 and the
  four-byte limit; no ledger entry leaves a negative balance; every metered licence has an active
  meter; and every licence linked to a Stripe subscription is a subscription licence.
\<close>

theorem system_keeps_database_consistent:
  assumes "d = empty_db \<or> consistent d" and "system_step\<^sup>*\<^sup>* d d'"
  shows "db_wf d' \<and>
    (\<forall>m \<in> set (meters d'). m_balance m = sum_list (map e_delta (meter_entries m d')) \<and>
      0 \<le> m_balance m \<and> m_balance m \<le> MAX_LICENSE_LIMIT) \<and>
    (\<forall>e \<in> set (ledger d'). 0 \<le> e_balanceAfter e) \<and>
    (\<forall>l \<in> set (licenses d'). l_type l = Metered \<longrightarrow> active_meters (l_id l) d' \<noteq> []) \<and>
    (\<forall>s \<in> set (stripeLinks d'). \<exists>l \<in> set (licenses d'). l_id l = s_licenseId s \<and> l_type l = Subscription)"
  using system.invar_reachable[OF _ assms(2)] assms(1) empty_db_consistent
  by (intro consistent_promises) blast

definition create_command :: cli_command where
  "create_command = Meters (Meters_create ''L'' ''api'' ''5'' ''first'')"

theorem system_keeps_database_consistent_witness:
  "\<exists>r w'. run_cli sample_host plain_environment sample_cli create_command sample_env
      (sample_world Lifetime) = (r, w') \<and> db_wf (w_db w') \<and>
    (\<forall>m \<in> set (meters (w_db w')). m_balance m = sum_list (map e_delta (meter_entries m (w_db w'))))"
proof -
  obtain r w' where run: "run_cli sample_host plain_environment sample_cli create_command sample_env
      (sample_world Lifetime) = (r, w')"
    by fastforce
  have "rely consistent sample_env" by (simp add: rely_def sample_env_def)
  from sys_command[OF this run] have "system_step\<^sup>*\<^sup>* (sample_db Lifetime) (w_db w')"
    by (simp add: sample_world_def)
  from system_keeps_database_consistent[OF _ this] sample_db_consistent run show ?thesis by blast
qed

end
