(* ===== verification/Release.thy ===== *)
theory Release
  imports ClientIp Schemas
begin

text \<open>
  \<open>scripts/verifyRelease.ts\<close> and \<open>scripts/tag.ts\<close>: the checks before a release. A manifest is what
  the script uses of a \<open>package.json\<close>: its version and its licence, when they are there. The calls of
  git that follow the check of a tag are left out.
\<close>

definition number_text :: "string \<Rightarrow> bool" where
  "number_text s \<longleftrightarrow> s \<noteq> [] \<and> list_all is_digit s"

definition id_char :: "char \<Rightarrow> bool" where
  "id_char c \<longleftrightarrow> word_char c \<and> c \<noteq> CHR ''_'' \<or> c = CHR ''-''"

definition core_text :: "string \<Rightarrow> bool" where
  "core_text s \<longleftrightarrow> (let parts = split_on (CHR ''.'') s in length parts = 3 \<and> list_all number_text parts)"

definition identifiers_text :: "string \<Rightarrow> bool" where
  "identifiers_text s \<longleftrightarrow> list_all (\<lambda>p. p \<noteq> [] \<and> list_all id_char p) (split_on (CHR ''.'') s)"

definition split_first :: "char \<Rightarrow> string \<Rightarrow> string \<times> string option" where
  "split_first c s = (takeWhile (\<lambda>x. x \<noteq> c) s,
    case dropWhile (\<lambda>x. x \<noteq> c) s of [] \<Rightarrow> None | _ # r \<Rightarrow> Some r)"

text \<open>
  The pattern of a version. Neither numbers nor identifiers hold a plus sign, and numbers hold no
  hyphen, so the first plus sign starts the build part and the first hyphen before it the
  pre-release part.
\<close>

definition semver :: "string \<Rightarrow> bool" where
  "semver s \<longleftrightarrow>
    (case split_first (CHR ''+'') s of (release, build) \<Rightarrow>
     case split_first (CHR ''-'') release of (core, prerelease) \<Rightarrow>
       core_text core \<and> pred_option identifiers_text prerelease \<and> pred_option identifiers_text build)"

definition tag_text :: "string \<Rightarrow> bool" where
  "tag_text s \<longleftrightarrow>
    (case s of [] \<Rightarrow> False | c # r \<Rightarrow> c = CHR ''v'' \<and>
      (case split_first (CHR ''-'') r of (core, suffix) \<Rightarrow>
        core_text core \<and>
        pred_option (\<lambda>t. t \<noteq> [] \<and> list_all (\<lambda>x. id_char x \<or> x = CHR ''.'') t) suffix))"

record manifest =
  mf_path :: string
  mf_version :: "string option"
  mf_license :: "string option"

definition requested_tag :: "string option \<Rightarrow> (string \<Rightarrow> string option) \<Rightarrow> string option" where
  "requested_tag argument environment =
    (case argument of
      Some t \<Rightarrow> Some t
    | None \<Rightarrow> if environment ''GITHUB_REF_TYPE'' = Some ''tag'' then environment ''GITHUB_REF_NAME'' else None)"

definition versions_text :: "manifest list \<Rightarrow> string" where
  "versions_text ms = concat (map (\<lambda>(i, m). (if i = 0 then [] else '', '') @ mf_path m @ CHR ''='' #
    (case mf_version m of None \<Rightarrow> ''missing'' | Some v \<Rightarrow> v)) (enumerate 0 ms))"

definition verifyRelease ::
    "manifest list \<Rightarrow> string option \<Rightarrow> (string \<Rightarrow> string option) \<Rightarrow> string + string" where
  "verifyRelease packages argument environment =
    (case packages of
      [] \<Rightarrow> Inl ''The release version must be valid SemVer.''
    | first # _ \<Rightarrow>
       (case mf_version first of
         None \<Rightarrow> Inl ''The release version must be valid SemVer.''
       | Some version \<Rightarrow>
           if \<not> semver version then Inl ''The release version must be valid SemVer.''
           else if list_ex (\<lambda>m. mf_version m \<noteq> Some version) packages
           then Inl (''Workspace versions must match: '' @ versions_text packages)
           else if list_ex (\<lambda>m. mf_license m \<noteq> Some ''Apache-2.0'') packages
           then Inl ''Every workspace package must declare Apache-2.0.''
           else
             (case requested_tag argument environment of
               Some t \<Rightarrow>
                 if t \<noteq> [] \<and> t \<noteq> CHR ''v'' # version
                 then Inl (''Release tag '' @ t @ '' does not match v'' @ version @ CHR ''.'' # [])
                 else Inr version
             | None \<Rightarrow> Inr version)))"

section \<open>The pattern is the grammar\<close>

text \<open>A version as it is put together: three numbers, and two optional lists of identifiers.\<close>

definition opt_part :: "char \<Rightarrow> string option \<Rightarrow> string" where
  "opt_part c v = (case v of None \<Rightarrow> [] | Some s \<Rightarrow> c # s)"

lemma split_first_iff:
  "split_first c s = (a, b) \<longleftrightarrow> c \<notin> set a \<and> s = a @ opt_part c b"
proof
  assume *: "split_first c s = (a, b)"
  then have a: "a = takeWhile (\<lambda>x. x \<noteq> c) s"
    and b: "b = (case dropWhile (\<lambda>x. x \<noteq> c) s of [] \<Rightarrow> None | _ # r \<Rightarrow> Some r)"
    by (simp_all add: split_first_def)
  have "s = a @ dropWhile (\<lambda>x. x \<noteq> c) s" by (simp add: a)
  moreover have "dropWhile (\<lambda>x. x \<noteq> c) s = opt_part c b"
    using hd_dropWhile[of "\<lambda>x. x \<noteq> c" s]
    by (cases "dropWhile (\<lambda>x. x \<noteq> c) s") (auto simp: b opt_part_def simp del: dropWhile_eq_Nil_conv)
  moreover have "c \<notin> set a" by (auto simp: a dest: set_takeWhileD)
  ultimately show "c \<notin> set a \<and> s = a @ opt_part c b" by simp
next
  assume *: "c \<notin> set a \<and> s = a @ opt_part c b"
  then show "split_first c s = (a, b)"
    by (auto simp: split_first_def opt_part_def takeWhile_append dropWhile_append split: option.splits)
qed

lemma in_split_on: "x \<in> set s \<Longrightarrow> x = c \<or> (\<exists>p \<in> set (split_on c s). x \<in> set p)"
  by (induction s) (auto split: list.splits)

lemma core_no_sign:
  assumes "core_text s"
  shows "CHR ''-'' \<notin> set s" "CHR ''+'' \<notin> set s"
proof -
  have "x = CHR ''.'' \<or> is_digit x" if "x \<in> set s" for x
    using in_split_on[OF that, of "CHR ''.''"] assms
    by (auto simp: core_text_def number_text_def list_all_iff Let_def)
  then show "CHR ''-'' \<notin> set s" "CHR ''+'' \<notin> set s" by (force simp: is_digit_def)+
qed

lemma identifiers_no_plus:
  assumes "identifiers_text s"
  shows "CHR ''+'' \<notin> set s"
proof -
  have "x = CHR ''.'' \<or> id_char x" if "x \<in> set s" for x
    using in_split_on[OF that, of "CHR ''.''"] assms by (auto simp: identifiers_text_def list_all_iff)
  moreover have "\<not> id_char (CHR ''+'')" by (simp add: id_char_def word_char_def is_digit_def)
  ultimately show ?thesis by force
qed

lemma semver_iff:
  "semver s \<longleftrightarrow> (\<exists>core prerelease build. core_text core \<and> pred_option identifiers_text prerelease \<and>
    pred_option identifiers_text build \<and>
    s = core @ opt_part (CHR ''-'') prerelease @ opt_part (CHR ''+'') build)"
proof
  assume *: "semver s"
  obtain release build where a: "split_first (CHR ''+'') s = (release, build)" by fastforce
  obtain core prerelease where b: "split_first (CHR ''-'') release = (core, prerelease)" by fastforce
  have "s = core @ opt_part (CHR ''-'') prerelease @ opt_part (CHR ''+'') build"
    using a b by (simp add: split_first_iff)
  moreover have "core_text core \<and> pred_option identifiers_text prerelease \<and> pred_option identifiers_text build"
    using * by (simp add: semver_def a b)
  ultimately show "\<exists>core prerelease build. core_text core \<and> pred_option identifiers_text prerelease \<and>
    pred_option identifiers_text build \<and>
    s = core @ opt_part (CHR ''-'') prerelease @ opt_part (CHR ''+'') build" by blast
next
  assume "\<exists>core prerelease build. core_text core \<and> pred_option identifiers_text prerelease \<and>
    pred_option identifiers_text build \<and>
    s = core @ opt_part (CHR ''-'') prerelease @ opt_part (CHR ''+'') build"
  then obtain core prerelease build where s: "s = (core @ opt_part (CHR ''-'') prerelease) @ opt_part (CHR ''+'') build"
    and ok: "core_text core" "pred_option identifiers_text prerelease" "pred_option identifiers_text build"
    by auto
  have "CHR ''+'' \<notin> set (core @ opt_part (CHR ''-'') prerelease)"
    using ok core_no_sign(2) identifiers_no_plus
    by (auto simp: opt_part_def pred_option_def split: option.splits)
  then have "split_first (CHR ''+'') s = (core @ opt_part (CHR ''-'') prerelease, build)"
    by (simp add: split_first_iff s)
  moreover have "split_first (CHR ''-'') (core @ opt_part (CHR ''-'') prerelease) = (core, prerelease)"
    using core_no_sign(1)[OF ok(1)] by (simp add: split_first_iff)
  ultimately show "semver s" using ok by (simp add: semver_def)
qed

text \<open>What a verified release is.\<close>

lemma verified_release_iff:
  "verifyRelease packages argument environment = Inr version \<longleftrightarrow>
    packages \<noteq> [] \<and> semver version \<and>
    (\<forall>m \<in> set packages. mf_version m = Some version \<and> mf_license m = Some ''Apache-2.0'') \<and>
    requested_tag argument environment \<in> {None, Some [], Some (CHR ''v'' # version)}"
  by (cases packages)
    (auto simp: verifyRelease_def list_ex_iff split: option.splits if_splits)

text \<open>A tag that the other script would set can be refused here: its pattern is looser.\<close>

lemma tag_patterns_differ: "tag_text ''v1.0.0-.'' \<and> \<not> semver ''1.0.0-.''"
  by (simp add: tag_text_def semver_def split_first_def core_text_def number_text_def identifiers_text_def
      is_digit_def id_char_def)

text \<open>The pattern lets numbers start with a zero, which SemVer itself does not.\<close>

lemma leading_zeros_accepted: "semver ''01.02.03''"
  by (simp add: semver_def split_first_def core_text_def number_text_def is_digit_def)

end
