(* ===== verification/Spec2Isabelle.thy ===== *)
theory Spec2Isabelle
  imports SessionRevocation TypeChange SdkProtocol System Release
begin

text \<open>
  Keyzori is a self-hosted licensing server (\<open>apps/server\<close>: PostgreSQL, Redis, an HTTP interface, a
  command line, an optional Stripe integration) and the client library that applications link
  (\<open>apps/sdk\<close>). A client activates a licence key, keeps the session alive with heartbeats, charges
  named meters and releases its session; operators manage customers, licences, meters and access
  over HTTP or on the command line. This theory imports the whole development; each theory opens
  with what it holds.

  \<^bold>\<open>Parts, from the stores upwards.\<close>
  \<^item> \<open>Prelude\<close>: tables as lists of rows, transactions over an error sum, the rules \<open>keeps_rules\<close> by which
    invariants follow the structure of a transaction, and the locale \<open>transition_system\<close>, the contract
    of every state machine below. \<open>JsString\<close>, \<open>JsNumber\<close>: the string functions and the conversion of
    text to a double that the code uses, with rounding to 53 bits.
  \<^item> \<open>Entities\<close>, \<open>LicenseStatus\<close>: \<open>domain/entities.ts\<close>, \<open>errors.ts\<close>, \<open>licenseLimits.ts\<close>, \<open>licenseStatus.ts\<close>.
    \<open>Database\<close>: \<open>db/schema.ts\<close>, with keys, checks, foreign keys and cascades as \<open>db_wf\<close>. \<open>Redis\<close>: the
    commands the code sends, with expiry.
  \<^item> The repositories (\<open>infrastructure/repositories/*.ts\<close>), one theory each: \<open>SessionRepository\<close> (the Lua
    scripts as atomic steps), \<open>DeviceRepository\<close>, \<open>AccessRepository\<close>, \<open>CustomerRepository\<close>,
    \<open>LicenseRepository\<close>, \<open>MeterRepository\<close>, \<open>ActivityRepository\<close>, \<open>StripeRepository\<close>.
  \<^item> \<open>Io\<close>: what an \<open>async\<close> operation is here: a function of an environment (clocks, random values, lost
    calls, interference of other requests at every call) and of the world; \<open>keeps_db\<close> and the locale
    \<open>step_preorder\<close> carry invariants and frames through its structure.
  \<^item> The services (\<open>application/services\<close>): \<open>ActivityService\<close>, \<open>LicenseService\<close>, \<open>AdminRules\<close> (the rules of
    \<open>AdminService.ts\<close> that touch no store), \<open>AdminService\<close>; \<open>AdminCalls\<close> is \<open>cli/AdminOperations.ts\<close>, the
    calls both administrative surfaces make. \<open>StripeIntegration\<close>: \<open>integrations/stripe\<close>.
  \<^item> The HTTP interface: \<open>ClientIp\<close> (\<open>controllers/clientIp.ts\<close>, \<open>domain/ipAddress.ts\<close>), \<open>RateLimit\<close>
    (\<open>plugins/ratelimit.ts\<close>), \<open>Schemas\<close> (\<open>controllers/validation.ts\<close>), \<open>LicenseRoutes\<close>
    (\<open>controllers/license.ts\<close>), \<open>AdminViews\<close> and \<open>AdminRoutes\<close> (\<open>controllers/admin.ts\<close>).
  \<^item> The command line: \<open>CliParsers\<close> (\<open>cli/parsers.ts\<close>, \<open>output.ts\<close>, \<open>commandError.ts\<close>) and \<open>CliCommands\<close>
    (\<open>cli/commands/*.ts\<close>, \<open>cli/index.ts\<close>).
  \<^item> The process: \<open>Config\<close> (\<open>config.ts\<close>), \<open>Composition\<close> (\<open>composition/services.ts\<close>), \<open>ServerRuntime\<close>
    (\<open>index.ts\<close>, \<open>main.ts\<close>, \<open>db/migrate.ts\<close>), \<open>System\<close> (everything that runs on one database), \<open>Release\<close>
    (\<open>scripts/verifyRelease.ts\<close>, \<open>scripts/tag.ts\<close>).
  \<^item> The SDK: \<open>SdkTransport\<close> (\<open>NetworkClient.ts\<close>, \<open>DeviceManager.ts\<close>, the readers of \<open>LicenseClient.ts\<close>),
    \<open>SdkClient\<close> and \<open>SdkLifecycle\<close> (\<open>LicenseClient.ts\<close>, \<open>EventBroker.ts\<close> as a step relation),
    \<open>SdkHeartbeat\<close> (its timing), \<open>SdkProtocol\<close> (client and server together).

  \<^bold>\<open>What the groups of lemmas show.\<close>
  \<^item> \<open>Consistency\<close>, \<open>ServerInvariant\<close>, \<open>System\<close>: each statement, method, service operation, route and
    command keeps the database consistent, so any run of the whole system does.
  \<^item> The repositories: the functional behaviour of each method, the meters as a refinement of an
    abstract account (\<open>idempotent_charge\<close>), the sessions as a store with limits (\<open>session_store\<close>), the
    leased queue of webhooks under any calls between two claims, the optimistic guards, and the audit
    trail: exact counters, and rows that hold no secret (\<open>ActivityService\<close>).
  \<^item> \<open>LicenseService\<close>, \<open>AdminService\<close>, \<open>SessionRevocation\<close>: who is admitted, what a refusal leaves, what an
    answer of an operation guarantees, and that ending sessions works even when Redis fails. \<open>TypeChange\<close>
    follows two calls of \<open>updateLicense\<close> through the stored rows: a type left and taken up again.
  \<^item> \<open>RateLimit\<close>: the script is a sliding window (\<open>window_limiter\<close>); \<open>ClientIp\<close>: headers cannot spoof;
    \<open>LicenseRoutes\<close>, \<open>AdminRoutes\<close>, \<open>ServerRuntime\<close>: answers pass their schemas, no addresses in the
    activity feed, nothing changes without a key, one orderly shutdown whatever signals arrive; \<open>CliParsers\<close>, \<open>CliCommands\<close>: integers are exact and no
    secret is printed (\<open>pattern\<close> is the contract of a redaction pattern).
  \<^item> The SDK theories: heartbeats keep a session, failures end in a release, a released client is silent,
    and the two sides read what the other writes.

  \<^bold>\<open>Bounds and termination.\<close> No definition uses fuel: all loops of the source are recursions over lists,
  texts or JSON values, and loops over time (heartbeats, the worker, the limiter) are step relations.
  Integers are unbounded with the limits of the code and of the four-byte columns written out; numbers
  that arrive as JSON or text are \<open>jsnum\<close>, an exact integer, a fraction or none.

  \<^bold>\<open>Idealised.\<close> Characters are code units below 256. The database orders text by code units. A transaction
  is isolated from other writers, and \<open>addAllowedIp\<close>'s two statements run without another between them.
  The methods of the licence repository that load the licence again after their commit (\<open>update\<close>,
  \<open>incrementSessionRevision\<close>, \<open>updateWithSessionInvalidation\<close>, \<open>updateMeterDraft\<close>, \<open>startTrialIfUnset\<close>) do so
  within the same atomic step: a change by another request between the commit and the reload, which
  would show in the answer only, is left out. \<open>BlockList.addSubnet\<close> is not called with a prefix that
  does not fit its family, which \<open>loadServerConfig\<close> excludes. \<open>app.stop()\<close> and the database's \<open>close\<close> are
  fulfilled, not rejected.
  \<open>Promise.all\<close> makes its calls in the order of the list. Object members keep the order of declaration.
  \<open>-0\<close> is \<open>0\<close>. The dates that huge Stripe periods give are not invalid. The SDK's fetch and the reading of
  its body are one step, and a listener only throws or deactivates.

  \<^bold>\<open>Parameters.\<close> SHA-256, random values, clocks and date conversions (\<open>env\<close>); \<open>isIP\<close>, the URL parser and
  \<open>BlockList\<close> of the platform (\<open>host\<close>); the Stripe client (\<open>gateway\<close>); the string formats of the schema
  library (\<open>formats\<close>); \<open>JSON.parse\<close> and \<open>Date.parse\<close> of the command line (\<open>cli_host\<close>). The web framework's
  life cycle (schema of the body, ceilings, handler, schema of the answer, error hooks), its router and
  its decoding of queries are taken as documented, and so is the option library's splitting of a command
  line; options are parsed in the order of their declaration, and a repeated option counts once.

  \<^bold>\<open>Not modelled.\<close> The connection objects and re-exports (\<open>db/index.ts\<close>, \<open>apps/sdk/src/index.ts\<close>), the API
  documentation and its style sheet (\<open>openapi/\<close>), the headers added to answers, the console output of the
  server, the migrations, the build scripts: they hold no logic of their own or are input and output of
  the platform. The tests and the empty \<open>apps/dash\<close> are not part of the program.
\<close>

end
